(* ===== verification/Prelude.thy ===== *)
theory Prelude
  imports Complex_Main "HOL-Library.Log_Nat" "HOL-Library.Multiset"
begin

text \<open>
  What every component shares.

  \<^item> Tables. The backend keeps its state in SQLite and touches it through prepared
    statements. A table is the list of its rows in rowid order; \<open>sql_get\<close>, \<open>sql_all\<close>,
    \<open>sql_update\<close>, \<open>sql_changes\<close> and \<open>sql_sum\<close> are \<open>SELECT .. get()\<close>,
    \<open>SELECT .. all()\<close>, \<open>UPDATE .. SET .. WHERE\<close>, the \<open>changes\<close> count that
    better-sqlite3 returns, and \<open>COALESCE(SUM(..),0)\<close>.
  \<^item> Numbers. A JavaScript number that the code keeps integral (halala, tokens,
    milliseconds) is an \<open>int\<close>; sums and products of such numbers are exact below
    \<open>2^53\<close>, which no amount of the ledger reaches. Where a fraction occurs the value is
    a \<open>rat\<close> and every operation is rounded by \<open>fl\<close>, the round-to-nearest-even of IEEE
    binary64 (overflow, subnormals, infinities and NaN left out).
  \<^item> Instants. An ISO string made by \<open>toISOString\<close> is the integer number of
    milliseconds it denotes: strings of that fixed shape compare as their instants do.
\<close>

named_theorems sql "unfolding of the table operations"
named_theorems keyed "facts on tables whose rows have distinct keys"

section \<open>Tables\<close>

definition sql_get :: "('r \<Rightarrow> bool) \<Rightarrow> 'r list \<Rightarrow> 'r option" where
  "sql_get P rows = List.find P rows"

definition sql_all :: "('r \<Rightarrow> bool) \<Rightarrow> 'r list \<Rightarrow> 'r list" where
  "sql_all P rows = filter P rows"

definition sql_update :: "('r \<Rightarrow> bool) \<Rightarrow> ('r \<Rightarrow> 'r) \<Rightarrow> 'r list \<Rightarrow> 'r list" where
  "sql_update P f rows = map (\<lambda>r. if P r then f r else r) rows"

definition sql_changes :: "('r \<Rightarrow> bool) \<Rightarrow> 'r list \<Rightarrow> nat" where
  "sql_changes P rows = length (filter P rows)"

definition sql_sum :: "('r \<Rightarrow> bool) \<Rightarrow> ('r \<Rightarrow> int) \<Rightarrow> 'r list \<Rightarrow> int" where
  "sql_sum P f rows = sum_list (map f (filter P rows))"

definition sql_insert :: "'r \<Rightarrow> 'r list \<Rightarrow> 'r list" where
  "sql_insert r rows = rows @ [r]"

text \<open>\<open>INSERT OR IGNORE\<close>: the row is added unless its unique key is taken.\<close>

definition sql_insert_or_ignore :: "('r \<Rightarrow> 'k) \<Rightarrow> 'r \<Rightarrow> 'r list \<Rightarrow> 'r list" where
  "sql_insert_or_ignore key r rows =
     (if key r \<in> set (map key rows) then rows else rows @ [r])"

text \<open>The rowid an \<open>AUTOINCREMENT\<close> table gives its next row.\<close>

definition next_rowid :: "('r \<Rightarrow> int) \<Rightarrow> 'r list \<Rightarrow> int" where
  "next_rowid key rows = fold (\<lambda>r m. max (key r) m) rows 0 + 1"

lemma next_rowid_fresh: "next_rowid key rows \<notin> key ` set rows"
proof -
  have ge: "a \<le> fold (\<lambda>r m. max (key r) m) xs a" for a xs
    by (induction xs arbitrary: a) (auto intro: order_trans [OF max.cobounded2])
  have le: "r \<in> set xs \<Longrightarrow> key r \<le> fold (\<lambda>r m. max (key r) m) xs a" for r a xs
  proof (induction xs arbitrary: a)
    case (Cons x xs)
    then show ?case using ge [of "max (key r) a" xs] by (cases "r = x") auto
  qed simp
  show ?thesis
  proof
    assume "next_rowid key rows \<in> key ` set rows"
    then obtain r where "r \<in> set rows" "next_rowid key rows = key r" by auto
    with le [of r rows 0] show False by (simp add: next_rowid_def)
  qed
qed

definition lt_col :: "int option \<Rightarrow> int \<Rightarrow> bool" where
  \<comment> \<open>\<open>col < ?\<close> on a nullable column: a comparison with NULL is not true\<close>
  "lt_col c v = (case c of None \<Rightarrow> False | Some x \<Rightarrow> x < v)"

definition coalesce :: "'a option \<Rightarrow> 'a option \<Rightarrow> 'a option" where
  "coalesce a b = (case a of None \<Rightarrow> b | Some x \<Rightarrow> Some x)"

definition or0 :: "int option \<Rightarrow> int" where
  \<comment> \<open>\<open>Number(x || 0)\<close> and \<open>COALESCE(x, 0)\<close>\<close>
  "or0 x = (case x of None \<Rightarrow> 0 | Some v \<Rightarrow> v)"

definition truthy_str :: "string option \<Rightarrow> bool" where
  \<comment> \<open>a nullable string in a boolean position: null and the empty string are false\<close>
  "truthy_str s = (case s of None \<Rightarrow> False | Some t \<Rightarrow> t \<noteq> [])"

lemmas col_defs = lt_col_def coalesce_def or0_def truthy_str_def

lemma or0_simps [simp]: "or0 None = 0" "or0 (Some v) = v"
  by (simp_all add: or0_def)

lemma coalesce_simps [simp]: "coalesce None b = b" "coalesce (Some x) b = Some x"
  by (simp_all add: coalesce_def)

lemma truthy_str_simps [simp]: "truthy_str None = False" "truthy_str (Some t) = (t \<noteq> [])"
  by (simp_all add: truthy_str_def)

lemma lt_col_simps [simp]: "lt_col None v = False" "lt_col (Some x) v = (x < v)"
  by (simp_all add: lt_col_def)

lemma find_map_key:
  assumes "\<And>r. P (f r) = P r"
  shows "List.find P (map f rows) = map_option f (List.find P rows)"
  using assms by (induction rows) auto

lemma sql_get_Some: "sql_get P rows = Some r \<Longrightarrow> r \<in> set rows \<and> P r"
  by (auto simp: sql_get_def find_Some_iff)

lemma sql_get_insert:
  "sql_get P (sql_insert r rows) = (case sql_get P rows of Some x \<Rightarrow> Some x | None \<Rightarrow> if P r then Some r else None)"
  unfolding sql_get_def sql_insert_def by (induction rows) auto

lemma sql_get_None: "(sql_get P rows = None) = (\<forall>r\<in>set rows. \<not> P r)"
  by (auto simp: sql_get_def find_None_iff)

lemma sql_get_key_None: "sql_get (\<lambda>r. key r = k) rows = None \<longleftrightarrow> k \<notin> set (map key rows)"
  by (auto simp: sql_get_None)

lemma sql_changes_0: "(sql_changes P rows = 0) = (\<forall>r\<in>set rows. \<not> P r)"
  by (auto simp: sql_changes_def filter_empty_conv)

lemma sql_update_id: "\<forall>r\<in>set rows. \<not> P r \<Longrightarrow> sql_update P f rows = rows"
  unfolding sql_update_def by (induction rows) auto

lemma sql_update_no_change: "sql_changes P rows = 0 \<Longrightarrow> sql_update P f rows = rows"
  by (simp add: sql_changes_0 sql_update_id)

lemma sql_update_Nil [simp]: "sql_update P f [] = []"
  by (simp add: sql_update_def)

lemma sql_update_Cons [simp]:
  "sql_update P f (r # rows) = (if P r then f r else r) # sql_update P f rows"
  by (simp add: sql_update_def)

lemma length_sql_update [simp]: "length (sql_update P f rows) = length rows"
  by (simp add: sql_update_def)

lemma map_sql_update: "(\<And>r. P r \<Longrightarrow> g (f r) = g r) \<Longrightarrow> map g (sql_update P f rows) = map g rows"
  by (simp add: sql_update_def)

lemma set_sql_update: "set (sql_update P f rows) = (\<lambda>r. if P r then f r else r) ` set rows"
  by (simp add: sql_update_def)

lemma sql_get_update_other:
  assumes "\<And>r. P r \<Longrightarrow> Q (f r) = Q r" and "\<And>r. P r \<Longrightarrow> \<not> Q r"
  shows "sql_get Q (sql_update P f rows) = sql_get Q rows"
  using assms unfolding sql_get_def by (induction rows) auto

lemma sql_get_update:
  assumes "\<And>r. P r \<Longrightarrow> Q (f r) = Q r"
  shows "sql_get Q (sql_update P f rows) = map_option (\<lambda>r. if P r then f r else r) (sql_get Q rows)"
  using assms unfolding sql_get_def by (induction rows) auto

lemma sum_list_update:
  "sum_list (map g (sql_update P f rows)) =
     sum_list (map g rows) + sum_list (map (\<lambda>r. g (f r) - g r) (filter P rows))"
  for g :: "'r \<Rightarrow> int"
  by (induction rows) (auto simp: algebra_simps)

text \<open>A table with a primary key: an update by key touches one row.\<close>

definition has_key :: "('r \<Rightarrow> 'k) \<Rightarrow> 'r list \<Rightarrow> bool" where
  "has_key key rows = distinct (map key rows)"

lemma has_key_eq: "has_key key rows \<Longrightarrow> a \<in> set rows \<Longrightarrow> b \<in> set rows \<Longrightarrow> key a = key b \<Longrightarrow> a = b"
  unfolding has_key_def distinct_map by (blast dest: inj_onD)

lemma filter_key_eq:
  assumes "has_key key rows" and "r \<in> set rows" and "P r"
  shows "filter (\<lambda>x. key x = key r \<and> P x) rows = [r]"
  using assms unfolding has_key_def
proof (induction rows)
  case Nil
  then show ?case by simp
next
  case (Cons a rows)
  show ?case
  proof (cases "a = r")
    case True
    with Cons.prems have "\<forall>x\<in>set rows. key x \<noteq> key r" by (auto simp: image_iff)
    then have "filter (\<lambda>x. key x = key r \<and> P x) rows = []" by (auto simp: filter_empty_conv)
    with True Cons.prems show ?thesis by simp
  next
    case False
    with Cons.prems have "r \<in> set rows" "key a \<noteq> key r" by force+
    with Cons show ?thesis by simp
  qed
qed

lemma sql_get_key [keyed]:
  "has_key key rows \<Longrightarrow> r \<in> set rows \<Longrightarrow> sql_get (\<lambda>x. key x = key r) rows = Some r"
  unfolding has_key_def sql_get_def by (induction rows) (auto simp: rev_image_eqI)

lemma sql_get_keyP:
  "has_key key rows \<Longrightarrow> r \<in> set rows \<Longrightarrow> P r \<Longrightarrow> sql_get (\<lambda>x. key x = key r \<and> P x) rows = Some r"
  unfolding has_key_def sql_get_def by (induction rows) (auto simp: rev_image_eqI)

lemma sql_changes_key:
  "has_key key rows \<Longrightarrow> r \<in> set rows \<Longrightarrow> P r \<Longrightarrow>
     sql_changes (\<lambda>x. key x = key r \<and> P x) rows = 1"
  by (simp add: sql_changes_def filter_key_eq)

lemma sql_changes_key_le:
  "has_key key rows \<Longrightarrow> sql_changes (\<lambda>x. key x = k \<and> P x) rows \<le> 1"
  unfolding has_key_def sql_changes_def
proof (induction rows)
  case Nil
  then show ?case by simp
next
  case (Cons a rows)
  show ?case
  proof (cases "key a = k \<and> P a")
    case True
    with Cons.prems have "\<forall>x\<in>set rows. key x \<noteq> k" by (auto simp: image_iff)
    then have "filter (\<lambda>x. key x = k \<and> P x) rows = []" by (auto simp: filter_empty_conv)
    then show ?thesis by simp
  next
    case False
    with Cons show ?thesis by auto
  qed
qed

lemma sum_list_update_key [keyed]:
  fixes g :: "'r \<Rightarrow> int"
  assumes "has_key key rows" and "r \<in> set rows" and "P r"
  shows "sum_list (map g (sql_update (\<lambda>x. key x = key r \<and> P x) f rows)) =
         sum_list (map g rows) + (g (f r) - g r)"
  using filter_key_eq [of key rows r P, OF assms] by (simp add: sum_list_update)

lemma filter_key [keyed]:
  assumes "has_key key rows" and "r \<in> set rows"
  shows "filter (\<lambda>x. key x = key r) rows = [r]"
  using filter_key_eq [of key rows r "\<lambda>_. True", OF assms] by simp

lemma sum_list_update_key0 [keyed]:
  fixes g :: "'r \<Rightarrow> int"
  assumes "has_key key rows" and "r \<in> set rows"
  shows "sum_list (map g (sql_update (\<lambda>x. key x = key r) f rows)) =
         sum_list (map g rows) + (g (f r) - g r)"
  using filter_key [OF assms] by (simp add: sum_list_update)

lemma has_key_update [keyed]:
  "(\<And>r. key (f r) = key r) \<Longrightarrow> has_key key (sql_update P f rows) = has_key key rows"
  by (simp add: has_key_def map_sql_update)

lemma key_set_update [keyed]:
  "(\<And>r. key (f r) = key r) \<Longrightarrow> key ` set (sql_update P f rows) = key ` set rows"
  using map_sql_update [of P key f rows] by (metis list.set_map)

lemma has_key_insert: "has_key key rows \<Longrightarrow> key r \<notin> set (map key rows) \<Longrightarrow> has_key key (sql_insert r rows)"
  by (simp add: has_key_def sql_insert_def)

lemma has_key_insert_or_ignore: "has_key key rows \<Longrightarrow> has_key key (sql_insert_or_ignore key r rows)"
  by (simp add: has_key_def sql_insert_or_ignore_def)

lemma sum_list_filter_mono: "sum_list (map f (filter P rows)) = sum_list (map (\<lambda>r. if P r then f r else 0) rows)"
  for f :: "'r \<Rightarrow> int"
  by (induction rows) auto

text \<open>\<open>LIMIT ? OFFSET ?\<close>: a negative limit means no limit.\<close>

definition sql_limit :: "int \<Rightarrow> int \<Rightarrow> 'r list \<Rightarrow> 'r list" where
  "sql_limit l off rows = (let rest = drop (nat off) rows in if l < 0 then rest else take (nat l) rest)"

lemma set_sql_limit: "set (sql_limit l off rows) \<subseteq> set rows"
  by (auto simp: sql_limit_def Let_def dest!: in_set_takeD in_set_dropD)

lemma length_sql_limit: "0 \<le> l \<Longrightarrow> int (length (sql_limit l off rows)) \<le> l"
  by (simp add: sql_limit_def Let_def min_def) linarith

section \<open>Strings\<close>

definition strip :: "string \<Rightarrow> string" where
  \<comment> \<open>\<open>trim()\<close> on the ASCII white space\<close>
  "strip s = (let ws = (\<lambda>c. c \<in> {CHR '' '', CHR 0x09, CHR 0x0A, CHR 0x0B, CHR 0x0C, CHR 0x0D})
     in rev (dropWhile ws (rev (dropWhile ws s))))"

definition lower_char :: "char \<Rightarrow> char" where
  "lower_char c = (let n = (of_char c :: nat) in if 65 \<le> n \<and> n \<le> 90 then char_of (n + 32) else c)"

definition to_lower :: "string \<Rightarrow> string" where
  "to_lower s = map lower_char s"

definition upper_ascii :: "char \<Rightarrow> char" where
  "upper_ascii c = (let n = (of_char c :: nat) in if 97 \<le> n \<and> n \<le> 122 then char_of (n - 32) else c)"

definition digit :: "nat \<Rightarrow> char" where
  "digit n = char_of (48 + n)"

fun dec_nat :: "nat \<Rightarrow> string" where
  "dec_nat n = (if n < 10 then [digit n] else dec_nat (n div 10) @ [digit (n mod 10)])"

declare dec_nat.simps [simp del]

definition dec :: "int \<Rightarrow> string" where
  \<comment> \<open>an integer in a template literal\<close>
  "dec i = (if i < 0 then CHR ''-'' # dec_nat (nat (- i)) else dec_nat (nat i))"

primrec is_substring :: "string \<Rightarrow> string \<Rightarrow> bool" where
  "is_substring n [] = (n = [])"
| "is_substring n (c # cs) = (take (length n) (c # cs) = n \<or> is_substring n cs)"

definition is_digit :: "char \<Rightarrow> bool" where
  "is_digit c = (48 \<le> (of_char c :: nat) \<and> (of_char c :: nat) \<le> 57)"

definition digits_value :: "string \<Rightarrow> int" where
  "digits_value s = foldl (\<lambda>n c. 10 * n + (int (of_char c) - 48)) 0 s"

lemma of_char_digit: "n < 10 \<Longrightarrow> of_char (digit n) = 48 + n" for n :: nat
proof -
  assume "n < 10"
  then have "(48 + n) mod 256 = 48 + n" by simp
  then show ?thesis by (simp add: digit_def)
qed

lemma dec_nat_digits: "list_all is_digit (dec_nat n) \<and> dec_nat n \<noteq> [] \<and> digits_value (dec_nat n) = int n"
proof (induction n rule: dec_nat.induct)
  case (1 n)
  have app: "digits_value (s @ [c]) = 10 * digits_value s + (int (of_char c) - 48)" for s c
    by (simp add: digits_value_def)
  show ?case
  proof (cases "n < 10")
    case True
    then have "dec_nat n = [digit n]" by (simp add: dec_nat.simps)
    then show ?thesis using app [of "[]" "digit n"] of_char_digit [OF True] True
      by (simp add: is_digit_def digits_value_def)
  next
    case False
    then have e: "dec_nat n = dec_nat (n div 10) @ [digit (n mod 10)]" by (simp add: dec_nat.simps)
    have m: "n mod 10 < 10" by simp
    have "10 * int (n div 10) + int (n mod 10) = int n"
      by (metis mult_div_mod_eq of_nat_add of_nat_mult of_nat_numeral)
    then show ?thesis unfolding e using 1 [OF False] of_char_digit [OF m] m by (simp add: is_digit_def app)
  qed
qed

lemma dec_inj: "dec a = dec b \<Longrightarrow> a = b"
proof -
  have dv: "digits_value (dec_nat n) = int n" for n using dec_nat_digits [of n] by blast
  have v: "m = n" if "dec_nat m = dec_nat n" for m n
    using arg_cong [OF that, of digits_value] unfolding dv by simp
  have h: "dec_nat n \<noteq> CHR ''-'' # s" for n s
  proof
    assume e: "dec_nat n = CHR ''-'' # s"
    have "list_all is_digit (dec_nat n)" using dec_nat_digits [of n] by blast
    then show False unfolding e by (simp add: is_digit_def)
  qed
  assume e: "dec a = dec b"
  consider "a < 0" "b < 0" | "a < 0" "0 \<le> b" | "0 \<le> a" "b < 0" | "0 \<le> a" "0 \<le> b" by linarith
  then show "a = b"
  proof cases
    case 1
    with e have "dec_nat (nat (- a)) = dec_nat (nat (- b))" by (simp add: dec_def)
    then have "nat (- a) = nat (- b)" by (rule v)
    with 1 show ?thesis by simp
  next
    case 2
    with e h [of "nat b" "dec_nat (nat (- a))"] show ?thesis by (simp add: dec_def)
  next
    case 3
    with e h [of "nat a" "dec_nat (nat (- b))"] show ?thesis by (simp add: dec_def)
  next
    case 4
    with e have "dec_nat (nat a) = dec_nat (nat b)" by (simp add: dec_def)
    then have "nat a = nat b" by (rule v)
    with 4 show ?thesis by simp
  qed
qed

section \<open>Calendar\<close>

definition sql_datetime :: "int \<Rightarrow> int" where
  \<comment> \<open>SQLite's \<open>datetime(..)\<close> keeps whole seconds\<close>
  "sql_datetime t = t div 1000 * 1000"

definition day_ms :: int where "day_ms = 24 * 60 * 60 * 1000"

text \<open>
  The proleptic Gregorian calendar of \<open>Date\<close>, in UTC: the day of the month of a day
  number counted from 1970-01-01, by the usual 400-year eras starting in March.
\<close>

definition march_doy :: "int \<Rightarrow> int" where
  "march_doy day =
     (let doe = (day + 719468) mod 146097;
          yoe = (doe - doe div 1460 + doe div 36524 - doe div 146096) div 365
      in doe - (365 * yoe + yoe div 4 - yoe div 100))"

definition dom_of :: "int \<Rightarrow> int" where
  "dom_of doy = doy - (153 * ((5 * doy + 2) div 153) + 2) div 5 + 1"

definition day_of_month :: "int \<Rightarrow> int" where
  "day_of_month day = dom_of (march_doy day)"

definition month_start :: "int \<Rightarrow> int" where
  "month_start t = (let day = t div day_ms in (day - day_of_month day + 1) * day_ms)"

lemma dom_of_bounds: "1 \<le> dom_of doy \<and> dom_of doy \<le> 31"
proof -
  define m where "m = (5 * doy + 2) div 153"
  define k where "k = (153 * m + 2) div 5"
  have "153 * m \<le> 5 * doy + 2" "5 * doy + 2 < 153 * m + 153"
    using div_mult_mod_eq [of "5 * doy + 2" 153] pos_mod_bound [of 153 "5 * doy + 2"]
      pos_mod_sign [of 153 "5 * doy + 2"] unfolding m_def by linarith+
  moreover have "5 * k \<le> 153 * m + 2" "153 * m + 2 < 5 * k + 5"
    using div_mult_mod_eq [of "153 * m + 2" 5] pos_mod_bound [of 5 "153 * m + 2"]
      pos_mod_sign [of 5 "153 * m + 2"] unfolding k_def by linarith+
  ultimately show ?thesis unfolding dom_of_def m_def [symmetric] k_def [symmetric] by linarith
qed

lemma month_start_le: "month_start t \<le> t"
proof -
  define q where "q = t div day_ms"
  have "q * day_ms \<le> t"
    using div_mult_mod_eq [of t day_ms] pos_mod_sign [of day_ms t] unfolding q_def day_ms_def by linarith
  moreover have "(q - day_of_month q + 1) * day_ms \<le> q * day_ms"
    using dom_of_bounds [of "march_doy q"] unfolding day_of_month_def
    by (intro mult_right_mono) (simp_all add: day_ms_def)
  ultimately show ?thesis unfolding month_start_def Let_def q_def by linarith
qed

section \<open>Numbers\<close>

definition js_round :: "rat \<Rightarrow> int" where
  \<comment> \<open>\<open>Math.round\<close>: ties go up\<close>
  "js_round x = \<lfloor>x + 1 / 2\<rfloor>"

definition to_fixed :: "nat \<Rightarrow> rat \<Rightarrow> rat" where
  \<comment> \<open>the number \<open>x.toFixed(n)\<close> denotes, for \<open>0 \<le> x\<close>: ties go up\<close>
  "to_fixed n x = of_int \<lfloor>x * 10 ^ n + 1 / 2\<rfloor> / 10 ^ n"

definition pow2 :: "int \<Rightarrow> rat" where
  "pow2 e = (if 0 \<le> e then 2 ^ nat e else 1 / 2 ^ nat (- e))"

definition floor_log2 :: "rat \<Rightarrow> int" where
  \<comment> \<open>the binary exponent of a positive rational, from the bit lengths of its fraction\<close>
  "floor_log2 x = (case quotient_of x of (n, d) \<Rightarrow>
     let e = bitlen n - bitlen d in if pow2 e \<le> x then e else e - 1)"

definition round_half_even :: "rat \<Rightarrow> int" where
  "round_half_even y = (let k = \<lfloor>y\<rfloor>; r = y - of_int k in
     if r < 1 / 2 then k else if r > 1 / 2 then k + 1 else if even k then k else k + 1)"

definition fl :: "rat \<Rightarrow> rat" where
  \<comment> \<open>the binary64 value nearest to a rational: 53 significant bits\<close>
  "fl x = (if x = 0 then 0
     else let u = pow2 (floor_log2 \<bar>x\<bar> - 52) in of_int (round_half_even (x / u)) * u)"

definition fl_mul :: "rat \<Rightarrow> rat \<Rightarrow> rat" where "fl_mul a b = fl (a * b)"
definition fl_div :: "rat \<Rightarrow> rat \<Rightarrow> rat" where "fl_div a b = fl (a / b)"
definition fl_add :: "rat \<Rightarrow> rat \<Rightarrow> rat" where "fl_add a b = fl (a + b)"

lemmas fl_ops = fl_mul_def fl_div_def fl_add_def

lemma pow2_pos [simp]: "0 < pow2 e"
  by (simp add: pow2_def)

lemma pow2_neq0 [simp]: "pow2 e \<noteq> 0"
  using pow2_pos [of e] by (rule less_imp_neq [THEN not_sym])

lemma pow2_ge0 [simp]: "0 \<le> pow2 e"
  using pow2_pos [of e] by (rule less_imp_le)

lemma abs_pow2 [simp]: "\<bar>pow2 e\<bar> = pow2 e"
  by (rule abs_of_nonneg) simp

lemma pow2_powi: "pow2 e = 2 powi e"
  by (simp add: pow2_def power_int_def inverse_eq_divide power_divide)

lemma pow2_add: "pow2 (a + b) = pow2 a * pow2 b"
  by (simp add: pow2_powi power_int_add)

lemma pow2_less: "pow2 a < pow2 b \<Longrightarrow> a < b"
proof (rule ccontr)
  assume lt: "pow2 a < pow2 b" and "\<not> a < b"
  then have "pow2 (b + (a - b)) < pow2 b" and le: "0 \<le> a - b" by auto
  then have "pow2 b * pow2 (a - b) < pow2 b * 1" by (simp only: pow2_add mult_1_right)
  then have "pow2 (a - b) < 1" by (simp only: mult_less_cancel_left_pos [OF pow2_pos])
  moreover have "1 \<le> pow2 (a - b)" using le by (simp add: pow2_def)
  ultimately show False by simp
qed

lemma floor_log2_le:
  assumes "0 < x"
  shows "pow2 (floor_log2 x) \<le> x"
proof -
  obtain n d where q: "quotient_of x = (n, d)" by (cases "quotient_of x")
  have d: "0 < d" and x: "x = of_int n / of_int d"
    using quotient_of_denom_pos [OF q] quotient_of_div [OF q] by auto
  with assms have n: "0 < n" by (simp add: zero_less_divide_iff)
  let ?e = "bitlen n - bitlen d"
  have ln: "pow2 (bitlen n - 1) \<le> of_int n"
  proof -
    have "(2::int) ^ nat (bitlen n - 1) \<le> n" using bitlen_bounds [OF n] by simp
    then have "(of_int (2 ^ nat (bitlen n - 1)) :: rat) \<le> of_int n" by (simp only: of_int_le_iff)
    moreover have "0 \<le> bitlen n - 1"
      using n bitlen_nonneg [of n] bitlen_eq_zero_iff [of n] by simp
    ultimately show ?thesis by (simp add: pow2_def)
  qed
  have ld: "of_int d < pow2 (bitlen d)"
  proof -
    have "d < (2::int) ^ nat (bitlen d)" using bitlen_bounds [OF d] by simp
    then have "(of_int d :: rat) < of_int (2 ^ nat (bitlen d))" by (simp only: of_int_less_iff)
    then show ?thesis by (simp add: pow2_def bitlen_nonneg)
  qed
  have "pow2 (?e - 1) \<le> x"
  proof -
    have "pow2 (?e - 1) * of_int d \<le> pow2 (?e - 1) * pow2 (bitlen d)"
      using ld by (intro mult_left_mono) simp_all
    also have "\<dots> = pow2 (bitlen n - 1)" by (simp add: pow2_add [symmetric])
    also note ln
    finally show ?thesis using d by (simp add: x field_simps)
  qed
  then show ?thesis by (simp add: floor_log2_def q Let_def)
qed

lemma round_half_even_int [simp]: "round_half_even (of_int k) = k"
  by (simp add: round_half_even_def)

lemma round_half_even_near: "\<bar>of_int (round_half_even y) - y\<bar> \<le> 1 / 2"
proof -
  have "of_int \<lfloor>y\<rfloor> \<le> y" "y < of_int \<lfloor>y\<rfloor> + 1" by linarith+
  then show ?thesis unfolding round_half_even_def Let_def abs_le_iff
    by (simp add: field_simps) linarith
qed

lemma fl_0 [simp]: "fl 0 = 0"
  by (simp add: fl_def)

text \<open>Integers that fit the significand are exact, and the relative error is at most \<open>2^-53\<close>.\<close>

lemma fl_of_int:
  assumes "\<bar>n\<bar> \<le> 2 ^ 53"
  shows "fl (of_int n) = of_int n"
proof (cases "n = 0")
  case False
  let ?e = "floor_log2 \<bar>of_int n :: rat\<bar> - 52"
  have p: "0 < \<bar>of_int n :: rat\<bar>" using False by simp
  have "pow2 (?e + 52) \<le> \<bar>of_int n :: rat\<bar>" using floor_log2_le [OF p] by simp
  also have "\<dots> = of_int \<bar>n\<bar>" by simp
  also have "\<dots> \<le> of_int (2 ^ 53)" using assms by (simp only: of_int_le_iff)
  also have "\<dots> < pow2 54" by (simp add: pow2_def)
  finally have "?e + 52 < 54" by (rule pow2_less)
  then have e: "?e \<le> 1" by simp
  show ?thesis
  proof (cases "?e = 1")
    case True
    have "pow2 53 \<le> \<bar>of_int n :: rat\<bar>" using floor_log2_le [OF p] True by simp
    also have "\<dots> = of_int \<bar>n\<bar>" by simp
    finally have "(of_int (2 ^ 53) :: rat) \<le> of_int \<bar>n\<bar>" by (simp add: pow2_def)
    then have "2 ^ 53 \<le> \<bar>n\<bar>" by (simp only: of_int_le_iff)
    with assms have "\<bar>n\<bar> = 2 ^ 53" by simp
    then have "n = 2 * 2 ^ 52 \<or> n = 2 * (- (2 ^ 52))" by (auto simp: abs_if split: if_splits)
    then obtain m where m: "n = 2 * m" by blast
    have "(of_int n :: rat) / pow2 1 = of_int m" by (simp add: m pow2_def)
    then show ?thesis using False True m by (simp add: fl_def Let_def pow2_def)
  next
    case False2: False
    with e have "?e \<le> 0" by simp
    then have "(of_int n :: rat) / pow2 ?e = of_int (n * 2 ^ nat (- ?e))"
      by (simp add: pow2_def)
    then have "of_int (round_half_even (of_int n / pow2 ?e)) * pow2 ?e =
        (of_int n / pow2 ?e) * pow2 ?e"
      by (metis round_half_even_int)
    then show ?thesis using False by (simp add: fl_def Let_def)
  qed
qed simp

lemma fl_error: "\<bar>fl x - x\<bar> \<le> \<bar>x\<bar> / 2 ^ 53"
proof (cases "x = 0")
  case False
  let ?e = "floor_log2 \<bar>x\<bar> - 52"
  let ?y = "x / pow2 ?e"
  have "fl x - x = (of_int (round_half_even ?y) - ?y) * pow2 ?e"
    using False by (simp add: fl_def Let_def algebra_simps)
  then have "\<bar>fl x - x\<bar> = \<bar>of_int (round_half_even ?y) - ?y\<bar> * pow2 ?e"
    by (simp add: abs_mult)
  also have "\<dots> \<le> 1 / 2 * pow2 ?e"
    by (intro mult_right_mono round_half_even_near) (simp add: less_imp_le)
  also have "\<dots> = pow2 (?e + 52) / 2 ^ 53"
  proof -
    have "pow2 52 = 2 ^ 52" by (simp add: pow2_def)
    then show ?thesis by (simp only: pow2_add) simp
  qed
  also have "\<dots> \<le> \<bar>x\<bar> / 2 ^ 53"
    using floor_log2_le [of "\<bar>x\<bar>"] False by (intro divide_right_mono) auto
  finally show ?thesis .
qed simp

lemma fl_nonneg: "0 \<le> x \<Longrightarrow> 0 \<le> fl x"
proof -
  assume x: "0 \<le> x"
  have "\<bar>x\<bar> / 2 ^ 53 \<le> \<bar>x\<bar>" by simp
  with fl_error [of x] x show ?thesis by linarith
qed

text \<open>Rounding keeps the order, within a binade and across binades.\<close>

lemma pow2_mono: "a \<le> b \<Longrightarrow> pow2 a \<le> pow2 b"
  using pow2_less [of b a] by (meson not_le)

lemma floor_log2_gt:
  assumes "0 < x"
  shows "x < pow2 (floor_log2 x + 1)"
proof -
  obtain n d where q: "quotient_of x = (n, d)" by (cases "quotient_of x")
  have d: "0 < d" and x: "x = of_int n / of_int d"
    using quotient_of_denom_pos [OF q] quotient_of_div [OF q] by auto
  with assms have n: "0 < n" by (simp add: zero_less_divide_iff)
  let ?e = "bitlen n - bitlen d"
  have ln: "of_int n < pow2 (bitlen n)"
  proof -
    have "n < (2::int) ^ nat (bitlen n)" using bitlen_bounds [OF n] by simp
    then have "(of_int n :: rat) < of_int (2 ^ nat (bitlen n))" by (simp only: of_int_less_iff)
    then show ?thesis by (simp add: pow2_def bitlen_nonneg)
  qed
  have ld: "pow2 (bitlen d - 1) \<le> of_int d"
  proof -
    have "(2::int) ^ nat (bitlen d - 1) \<le> d" using bitlen_bounds [OF d] by simp
    then have "(of_int (2 ^ nat (bitlen d - 1)) :: rat) \<le> of_int d" by (simp only: of_int_le_iff)
    moreover have "0 \<le> bitlen d - 1"
      using d bitlen_nonneg [of d] bitlen_eq_zero_iff [of d] by simp
    ultimately show ?thesis by (simp add: pow2_def)
  qed
  have "x < pow2 (?e + 1)"
  proof -
    have "of_int n < pow2 (?e + 1) * pow2 (bitlen d - 1)" using ln by (simp add: pow2_add [symmetric])
    also have "\<dots> \<le> pow2 (?e + 1) * of_int d" using ld by (intro mult_left_mono) simp_all
    finally show ?thesis using d by (simp add: x field_simps)
  qed
  then show ?thesis by (auto simp: floor_log2_def q Let_def)
qed

lemma round_half_even_floor: "\<lfloor>y\<rfloor> \<le> round_half_even y \<and> round_half_even y \<le> \<lfloor>y\<rfloor> + 1"
  by (simp add: round_half_even_def Let_def)

lemma round_half_even_mono: "x \<le> y \<Longrightarrow> round_half_even x \<le> round_half_even y"
proof (cases "\<lfloor>x\<rfloor> = \<lfloor>y\<rfloor>")
  case True
  assume "x \<le> y"
  with True show ?thesis by (simp add: round_half_even_def Let_def)
next
  case False
  assume "x \<le> y"
  then have "\<lfloor>x\<rfloor> \<le> \<lfloor>y\<rfloor>" by (rule floor_mono)
  with False have "\<lfloor>x\<rfloor> + 1 \<le> \<lfloor>y\<rfloor>" by simp
  then show ?thesis using round_half_even_floor [of x] round_half_even_floor [of y] by linarith
qed

lemma fl_binade:
  assumes "0 < x"
  shows "pow2 (floor_log2 x) \<le> fl x" and "fl x \<le> pow2 (floor_log2 x + 1)"
proof -
  let ?u = "pow2 (floor_log2 x - 52)"
  have f: "fl x = of_int (round_half_even (x / ?u)) * ?u" using assms by (simp add: fl_def Let_def)
  have p52: "pow2 52 = of_int (2 ^ 52)" and p53: "pow2 53 = of_int (2 ^ 53)" by (simp_all add: pow2_def)
  have e: "pow2 (floor_log2 x) = pow2 52 * ?u" "pow2 (floor_log2 x + 1) = pow2 53 * ?u"
    by (simp_all only: pow2_add [symmetric]) (simp_all add: add.commute)
  have lo: "of_int (2 ^ 52) \<le> x / ?u"
    using floor_log2_le [OF assms] unfolding e p52 by (simp add: pos_le_divide_eq)
  have hi: "x / ?u \<le> of_int (2 ^ 53)"
    using floor_log2_gt [OF assms] unfolding e p53 by (simp add: pos_divide_le_eq)
  have "2 ^ 52 \<le> round_half_even (x / ?u)" using round_half_even_mono [OF lo] by (simp only: round_half_even_int)
  then have "(of_int (2 ^ 52) :: rat) \<le> of_int (round_half_even (x / ?u))" by (simp only: of_int_le_iff)
  then show "pow2 (floor_log2 x) \<le> fl x" unfolding f e p52 by (intro mult_right_mono) simp_all
  have "round_half_even (x / ?u) \<le> 2 ^ 53" using round_half_even_mono [OF hi] by (simp only: round_half_even_int)
  then have "of_int (round_half_even (x / ?u)) \<le> (of_int (2 ^ 53) :: rat)" by (simp only: of_int_le_iff)
  then show "fl x \<le> pow2 (floor_log2 x + 1)" unfolding f e p53 by (intro mult_right_mono) simp_all
qed

lemma fl_mono:
  assumes "0 \<le> x" "x \<le> y"
  shows "fl x \<le> fl y"
proof (cases "x = 0")
  case True
  then show ?thesis using assms by (simp add: fl_nonneg)
next
  case False
  with assms have x: "0 < x" and y: "0 < y" by simp_all
  have "pow2 (floor_log2 x) < pow2 (floor_log2 y + 1)"
    using floor_log2_le [OF x] floor_log2_gt [OF y] assms by linarith
  then have "floor_log2 x < floor_log2 y + 1" by (rule pow2_less)
  then consider "floor_log2 x = floor_log2 y" | "floor_log2 x + 1 \<le> floor_log2 y" by linarith
  then show ?thesis
  proof cases
    case 1
    have "x / pow2 (floor_log2 y - 52) \<le> y / pow2 (floor_log2 y - 52)"
      using assms by (intro divide_right_mono) simp_all
    then have "round_half_even (x / pow2 (floor_log2 y - 52)) \<le> round_half_even (y / pow2 (floor_log2 y - 52))"
      by (rule round_half_even_mono)
    then show ?thesis using x y 1 by (simp add: fl_def Let_def mult_right_mono)
  next
    case 2
    have "fl x \<le> pow2 (floor_log2 x + 1)" by (rule fl_binade [OF x])
    also have "\<dots> \<le> pow2 (floor_log2 y)" using 2 by (rule pow2_mono)
    also have "\<dots> \<le> fl y" by (rule fl_binade [OF y])
    finally show ?thesis .
  qed
qed

lemma js_round_of_int [simp]: "js_round (of_int k) = k"
proof -
  have "\<lfloor>(of_int k :: rat) + 1 / 2\<rfloor> = k" by (simp add: floor_eq_iff)
  then show ?thesis by (simp add: js_round_def)
qed

lemma js_round_near: "\<bar>of_int (js_round x) - x\<bar> \<le> 1 / 2"
  unfolding js_round_def by linarith

lemma js_round_nonneg: "0 \<le> x \<Longrightarrow> 0 \<le> js_round x"
  by (simp add: js_round_def)

text \<open>\<open>Math.max(0, Math.ceil(Number(x) || 0))\<close>, with \<open>None\<close> for a value that is not a number.\<close>

type_synonym js_num = "rat option"

definition ceil0 :: "js_num \<Rightarrow> int" where
  "ceil0 x = (case x of None \<Rightarrow> 0 | Some r \<Rightarrow> max 0 \<lceil>r\<rceil>)"

definition floor0 :: "js_num \<Rightarrow> int" where
  "floor0 x = (case x of None \<Rightarrow> 0 | Some r \<Rightarrow> max 0 \<lfloor>r\<rfloor>)"

lemma ceil0_nonneg [simp]: "0 \<le> ceil0 x"
  by (simp add: ceil0_def split: option.splits)

lemma floor0_nonneg [simp]: "0 \<le> floor0 x"
  by (simp add: floor0_def split: option.splits)

lemma ceil0_of_int [simp]: "ceil0 (Some (of_int n)) = max 0 n"
  by (simp add: ceil0_def)

end
