(* ===== verification/Schema.thy ===== *)
theory Schema
  imports Prelude
begin

text \<open>
  The tables of \<open>backend/src/db.js\<close> that the modelled components read or write, one
  record per row, with the columns those components touch. A nullable column is an
  \<open>option\<close>; a column with a numeric default that no modelled statement sets to NULL is a
  plain \<open>int\<close>. A column with a CHECK list is a datatype; \<open>jobs.status\<close> has none, so
  its type keeps a constructor for any other text. A foreign key is a branch of
  the operation where a caller can reach the insert with an id it has not read.
\<close>

section \<open>Accounts\<close>

record renter_row =
  rn_id :: int
  rn_status :: string
  rn_name :: string
  rn_email :: "string option"
  rn_balance :: int                \<comment> \<open>\<open>balance_halala\<close>\<close>
  rn_total_spent :: int
  rn_total_jobs :: int
  rn_spend_cap :: "int option"     \<comment> \<open>\<open>monthly_spend_cap_halala\<close>\<close>
  rn_updated_at :: "int option"
  rn_at_enabled :: bool            \<comment> \<open>\<open>auto_topup_enabled\<close>, 0 or 1\<close>
  rn_at_threshold :: int
  rn_at_amount :: int
  rn_at_cap :: int
  rn_at_used :: "int option"       \<comment> \<open>\<open>auto_topup_monthly_used_halala\<close>\<close>
  rn_at_reset_at :: "int option"
  rn_at_failures :: int
  rn_at_paused_until :: "int option"
  rn_at_last_attempt :: "int option"
  rn_card_token :: "string option"
  rn_card_brand :: "string option"
  rn_card_last4 :: "string option"
  rn_card_saved_at :: "int option"
  rn_max_pods :: "int option"      \<comment> \<open>\<open>max_active_pods\<close>\<close>
  rn_pods_exempt :: bool           \<comment> \<open>\<open>pods_payment_exempt\<close>\<close>

record provider_row =
  pv_id :: int
  pv_name :: string
  pv_status :: string
  pv_deleted_at :: "int option"
  pv_is_paused :: bool
  pv_is_burst :: bool
  pv_claimable :: int              \<comment> \<open>\<open>claimable_earnings_halala\<close>\<close>
  pv_total_earnings :: rat         \<comment> \<open>REAL, in SAR\<close>
  pv_total_halala :: "int option"  \<comment> \<open>\<open>total_earnings_halala\<close>\<close>
  pv_total_jobs :: int
  pv_current_job :: "string option"
  pv_last_heartbeat :: "int option"
  pv_updated_at :: "int option"
  pv_iban :: "string option"
  pv_holder :: "string option"
  pv_rate :: "rat option"          \<comment> \<open>\<open>cost_per_gpu_second_halala\<close>\<close>
  pv_gpu_count :: "int option"
  pv_gpu_model :: "string option"
  pv_vram_mib :: "int option"
  pv_vram_gb :: "int option"
  pv_uptime :: "rat option"
  pv_price :: "int option"         \<comment> \<open>\<open>price_per_min_halala\<close>\<close>
  pv_preload :: "string option"    \<comment> \<open>\<open>model_preload_status\<close>\<close>
  pv_stake :: "string option"      \<comment> \<open>\<open>stake_status\<close>\<close>
  pv_approval :: "string option"   \<comment> \<open>\<open>approval_status\<close>\<close>
  pv_burst_type :: "string option" \<comment> \<open>\<open>burst_gpu_type_id\<close>\<close>
  pv_stock :: "int option"         \<comment> \<open>\<open>stock_available\<close>\<close>
  pv_supply_tier :: "string option"
  pv_provider_ip :: "string option"
  pv_ip_address :: "string option"
  pv_docker :: bool                \<comment> \<open>\<open>readiness_details.docker = 1\<close>\<close>
  pv_cuda :: bool                  \<comment> \<open>\<open>readiness_details.cuda_available = 1\<close>\<close>
  pv_ready_vram :: "int option"    \<comment> \<open>\<open>readiness_details.vram_gb\<close>\<close>
  pv_healthy :: bool               \<comment> \<open>\<open>COALESCE(gpu_status.gpu_healthy, 1) = 1\<close>\<close>

section \<open>Jobs\<close>

datatype job_status =
  JPending | JQueued | JAssigned | JProvisioning | JPulling | JRunning
| JCompleted | JDone | JFailed | JPermanentlyFailed | JStopped | JCancelled
| JOther string

text \<open>
  A pod's \<open>task_spec\<close>, the JSON object the launch route serialises. Its keys are the
  fields; an absent key is \<open>None\<close>.
\<close>

datatype pod_spec =
  NotebookSpec (sp_image: string) (sp_token: string) (sp_password: string) (sp_minutes: int)
    (sp_bootstrap: bool) (sp_gpus: "string option") (sp_volume: "string option") (sp_s3: "string option")
| ServeSpec (sp_model: string) (sp_max_len: int) (sp_dtype: string) (sp_tp: int) (sp_minutes: int)
    (sp_gpus: "string option")

record job_row =
  jb_id :: int
  jb_job_id :: string
  jb_provider :: "int option"
  jb_renter :: "int option"
  jb_type :: string
  jb_model :: string
  jb_status :: job_status
  jb_submitted_at :: "int option"
  jb_started_at :: "int option"
  jb_completed_at :: "int option"
  jb_created_at :: "int option"
  jb_updated_at :: "int option"
  jb_assigned_at :: "int option"
  jb_picked_up_at :: "int option"
  jb_timeout_at :: "int option"
  jb_refunded_at :: "int option"
  jb_duration_minutes :: "int option"
  jb_duration_seconds :: "int option"
  jb_max_seconds :: "int option"   \<comment> \<open>\<open>max_duration_seconds\<close>\<close>
  jb_cost :: "int option"          \<comment> \<open>\<open>cost_halala\<close>\<close>
  jb_actual_cost :: "int option"
  jb_earned :: "int option"        \<comment> \<open>\<open>provider_earned_halala\<close>\<close>
  jb_fee :: "int option"           \<comment> \<open>\<open>dc1_fee_halala\<close>\<close>
  jb_prompt_tokens :: "int option"
  jb_completion_tokens :: "int option"
  jb_result :: "string option"
  jb_notes :: "string option"
  jb_error :: "string option"
  jb_last_error :: "string option"
  jb_priority :: int
  jb_gpu_count :: "int option"
  jb_burst_id :: "string option"   \<comment> \<open>\<open>burst_external_id\<close>\<close>
  jb_host_port :: "int option"     \<comment> \<open>\<open>jupyter_host_port\<close>\<close>
  jb_access_url :: "string option"
  jb_retry_count :: "int option"
  jb_max_retries :: "int option"
  jb_retry_reason :: "string option"
  jb_webhook_at :: "int option"
  jb_webhook_status :: "string option"
  jb_webhook_attempts :: int
  jb_vram_required :: "int option"
  jb_min_vram_gb :: "rat option"   \<comment> \<open>\<open>gpu_requirements.min_vram_gb\<close>, once parsed\<close>
  jb_gpu_indices :: "string option"
  jb_jpub :: "int option"          \<comment> \<open>\<open>pod_jpub\<close>\<close>
  jb_spub :: "int option"          \<comment> \<open>\<open>pod_spub\<close>\<close>
  jb_spec :: "pod_spec option"     \<comment> \<open>\<open>task_spec\<close> of a pod\<close>
  jb_ssh_port :: "int option"
  jb_mesh_ip :: "string option"
  jb_ssh_command :: "string option"
  jb_endpoint :: "string option"   \<comment> \<open>\<open>endpoint_url\<close>\<close>
  jb_serve_port :: "int option"
  jb_phase :: "string option"      \<comment> \<open>\<open>progress_phase\<close>\<close>
  jb_phase_at :: "int option"
  jb_class :: "string option"      \<comment> \<open>\<open>pricing_class\<close>\<close>
  jb_gpu_type :: "string option"   \<comment> \<open>\<open>gpu_requirements.gpu_type\<close>, once parsed\<close>
  jb_task :: "string option"       \<comment> \<open>\<open>task_spec\<close> of any other job\<close>
  jb_container :: "string option"  \<comment> \<open>\<open>container_spec\<close>\<close>
  jb_retried_from :: "int option"
  jb_actual_minutes :: "int option"
  jb_gpu_seconds :: rat            \<comment> \<open>\<open>gpu_seconds_used\<close>, REAL\<close>
  jb_compute :: int                \<comment> \<open>\<open>compute_halala\<close>\<close>
  jb_storage :: int                \<comment> \<open>\<open>storage_halala\<close>\<close>
  jb_bandwidth :: int              \<comment> \<open>\<open>bandwidth_halala\<close>\<close>
  jb_lifecycle :: "string option"  \<comment> \<open>\<open>lifecycle_status\<close>\<close>
  jb_attestation :: "string option" \<comment> \<open>\<open>attestation_status\<close>\<close>

text \<open>A row of \<open>jobs\<close> before the statement's own columns: the schema's defaults.\<close>

definition blank_job :: job_row where
  "blank_job =
     \<lparr>jb_id = 0, jb_job_id = [], jb_provider = None, jb_renter = None, jb_type = [], jb_model = [],
      jb_status = JPending, jb_submitted_at = None, jb_started_at = None, jb_completed_at = None,
      jb_created_at = None, jb_updated_at = None, jb_assigned_at = None, jb_picked_up_at = None,
      jb_timeout_at = None, jb_refunded_at = None, jb_duration_minutes = None,
      jb_duration_seconds = None, jb_max_seconds = Some 600, jb_cost = Some 0, jb_actual_cost = None,
      jb_earned = None, jb_fee = None, jb_prompt_tokens = None, jb_completion_tokens = None,
      jb_result = None, jb_notes = None, jb_error = None, jb_last_error = None, jb_priority = 2,
      jb_gpu_count = Some 1, jb_burst_id = None, jb_host_port = None, jb_access_url = None,
      jb_retry_count = Some 0, jb_max_retries = Some 2, jb_retry_reason = None, jb_webhook_at = None,
      jb_webhook_status = None, jb_webhook_attempts = 0, jb_vram_required = Some 0,
      jb_min_vram_gb = None, jb_gpu_indices = None, jb_jpub = None, jb_spub = None, jb_spec = None,
      jb_ssh_port = None, jb_mesh_ip = None, jb_ssh_command = None, jb_endpoint = None,
      jb_serve_port = None, jb_phase = None, jb_phase_at = None, jb_class = None,
      jb_gpu_type = None, jb_task = None, jb_container = None, jb_retried_from = None,
      jb_actual_minutes = None, jb_gpu_seconds = 0, jb_compute = 0, jb_storage = 0, jb_bandwidth = 0,
      jb_lifecycle = Some ''pending'', jb_attestation = Some ''pending''\<rparr>"

section \<open>The ledger tables\<close>

record billing_attempt =
  ba_request_id :: string
  ba_renter :: int
  ba_provider :: "int option"
  ba_cost :: int
  ba_earned :: int
  ba_status :: string
  ba_settled_at :: int

record usage_event =
  ue_renter :: int
  ue_provider :: "int option"
  ue_model :: string
  ue_prompt_tokens :: int
  ue_completion_tokens :: int
  ue_prompt_cost :: int
  ue_completion_cost :: int
  ue_cost :: int
  ue_payout :: int
  ue_take :: int
  ue_in_rate :: int
  ue_out_rate :: int
  ue_occurred_at :: int
  ue_request_id :: string
  ue_source :: string
  ue_settlement :: string

text \<open>
  \<open>openrouter_usage_ledger\<close>: the columns the spend caps read. The month of
  \<open>created_at\<close> is the value of \<open>strftime('%Y-%m', created_at)\<close>.
\<close>

record usage_ledger_row =
  ul_renter :: int
  ul_api_key_id :: "string option"
  ul_cost :: int
  ul_month :: string

record renter_api_key =
  rk_id :: string
  rk_renter :: int
  rk_cap :: int
  rk_revoked_at :: "int option"

datatype sub_status = SPending | SActive | SPastDue | SCancelled | SExpired

record subscription_row =
  rs_id :: int
  rs_renter :: int
  rs_tier :: string
  rs_monthly_sar :: int
  rs_discount_bps :: int
  rs_period_start :: int
  rs_period_end :: int
  rs_status :: sub_status
  rs_moyasar_id :: "string option"
  rs_created_at :: int
  rs_updated_at :: int

record credit_grant =
  sc_id :: int
  sc_subscription :: int
  sc_renter :: int
  sc_granted_at :: int
  sc_amount :: int
  sc_consumed :: int
  sc_expires_at :: int
  sc_source :: string
  sc_created_at :: int

datatype settle_status = SetCompleted | SetFailed | SetRefunded

record settlement_row =
  st_id :: string
  st_job_id :: string
  st_provider :: "int option"
  st_renter :: int
  st_duration :: int
  st_rate :: rat
  st_gross :: int
  st_fee :: int
  st_payout :: int
  st_status :: settle_status
  st_settled_at :: int

datatype direction = Credit | Debit

record ledger_row =
  lg_id :: string
  lg_renter :: int
  lg_amount :: int
  lg_direction :: direction
  lg_source :: string
  lg_job_id :: "string option"
  lg_payment_ref :: "string option"
  lg_note :: "string option"
  lg_created_at :: int

datatype payout_status = PPending | PProcessing | PPaid | PRejected

record payout_row =
  po_id :: string
  po_provider :: int
  po_amount_usd :: rat
  po_amount_sar :: rat
  po_amount :: int                 \<comment> \<open>\<open>amount_halala\<close>\<close>
  po_status :: payout_status
  po_requested_at :: int
  po_processed_at :: "int option"
  po_payment_ref :: "string option"
  po_moyasar_id :: "string option"
  po_moyasar_status :: "string option"
  po_failure_reason :: "string option"

datatype attempt_status = AtInitiated | AtPaid | AtFailed | At3ds | AtCapped | AtPaused

record topup_attempt =
  ta_id :: string
  ta_renter :: int
  ta_amount :: int
  ta_status :: attempt_status
  ta_moyasar_id :: "string option"
  ta_reason :: string
  ta_before :: "int option"
  ta_after :: "int option"
  ta_error_code :: "string option"
  ta_error :: "string option"
  ta_created_at :: int
  ta_completed_at :: "int option"

record payment_row =
  py_payment_id :: string
  py_moyasar_id :: "string option"
  py_renter :: int
  py_amount :: int
  py_status :: string
  py_source :: string
  py_created_at :: int
  py_confirmed_at :: "int option"
  py_refunded_at :: "int option"
  py_refund_amount :: "int option"

datatype escrow_status = EHeld | ELocked | EReleasedProvider | EReleasedRenter | EExpired

record escrow_row =
  eh_job_id :: string
  eh_amount :: int
  eh_status :: escrow_status
  eh_resolved_at :: "int option"

datatype volume_status = VActive | VReleased | VSuspended

record volume_row =
  vo_id :: int
  vo_renter :: int
  vo_size_gb :: int
  vo_bucket :: string
  vo_status :: volume_status
  vo_price :: int
  vo_rented_at :: int
  vo_period_start :: int
  vo_period_end :: int
  vo_last_billed :: "int option"
  vo_released_at :: "int option"

datatype hold_status = HHeld | HSettled | HReleased

record hold_row =                  \<comment> \<open>\<open>credit_holds\<close>\<close>
  hd_id :: string
  hd_renter :: int
  hd_job :: string
  hd_amount :: int
  hd_status :: hold_status
  hd_actual :: "int option"
  hd_created_at :: int
  hd_resolved_at :: "int option"

record quota_row =                 \<comment> \<open>\<open>renter_quota\<close>\<close>
  rq_renter :: int
  rq_daily :: int
  rq_monthly :: int

section \<open>The database\<close>

record db =
  renters :: "renter_row list"
  providers :: "provider_row list"
  jobs :: "job_row list"
  billing_attempts :: "billing_attempt list"
  usage_events :: "usage_event list"
  usage_ledger :: "usage_ledger_row list"
  renter_api_keys :: "renter_api_key list"
  subscriptions :: "subscription_row list"
  credits :: "credit_grant list"
  settlements :: "settlement_row list"
  ledger :: "ledger_row list"
  payouts :: "payout_row list"
  topups :: "topup_attempt list"
  payments :: "payment_row list"
  escrows :: "escrow_row list"
  volumes :: "volume_row list"
  holds :: "hold_row list"
  quotas :: "quota_row list"

text \<open>The primary keys SQLite enforces.\<close>

definition db_keys :: "db \<Rightarrow> bool" where
  "db_keys d = (has_key rn_id (renters d) \<and> has_key pv_id (providers d) \<and> has_key jb_id (jobs d)
     \<and> has_key jb_job_id (jobs d) \<and> has_key ba_request_id (billing_attempts d)
     \<and> has_key ue_request_id (usage_events d) \<and> has_key sc_id (credits d)
     \<and> has_key rs_id (subscriptions d) \<and> has_key st_job_id (settlements d)
     \<and> has_key po_id (payouts d) \<and> has_key ta_id (topups d) \<and> has_key eh_job_id (escrows d)
     \<and> has_key vo_id (volumes d) \<and> has_key vo_bucket (volumes d) \<and> has_key hd_job (holds d)
     \<and> has_key rq_renter (quotas d))"

definition renter_by_id :: "db \<Rightarrow> int \<Rightarrow> renter_row option" where
  "renter_by_id d i = sql_get (\<lambda>r. rn_id r = i) (renters d)"

definition provider_by_id :: "db \<Rightarrow> int \<Rightarrow> provider_row option" where
  "provider_by_id d i = sql_get (\<lambda>p. pv_id p = i) (providers d)"

text \<open>
  Two quantities the money theorems speak of: what a renter's row holds, with 0 for an
  id that has no row, and what a provider may claim.
\<close>

definition balance_of :: "db \<Rightarrow> int \<Rightarrow> int" where
  "balance_of d i = (case renter_by_id d i of None \<Rightarrow> 0 | Some r \<Rightarrow> rn_balance r)"

definition claimable_of :: "db \<Rightarrow> int \<Rightarrow> int" where
  "claimable_of d i = (case provider_by_id d i of None \<Rightarrow> 0 | Some p \<Rightarrow> pv_claimable p)"

definition total_balance :: "db \<Rightarrow> int" where
  "total_balance d = sum_list (map rn_balance (renters d))"

definition total_claimable :: "db \<Rightarrow> int" where
  "total_claimable d = sum_list (map pv_claimable (providers d))"

end
