(* ===== verification/Contracts.thy ===== *)
theory Contracts
  imports Main
begin

text \<open>
  The interfaces components rely on, as locales. A component that provides one
  interprets it on its own operations, in its own theory; what is proved here once then
  holds of that component.

  \<^item> \<open>once_only\<close>: an operation that leaves a mark for its key and does nothing when the
    mark is there (settlement by request id, refund by job row, payout by request row).
  \<^item> \<open>metered\<close>: an operation whose effect on one integer quantity is known.
  \<^item> \<open>lifecycle\<close>: rows that move between statuses of which some are final.
  \<^item> \<open>preserved\<close>: an operation that keeps an invariant.
\<close>

section \<open>Operations that happen once per key\<close>

locale once_only =
  fixes run :: "'s \<Rightarrow> 'a \<Rightarrow> 's"
    and key :: "'a \<Rightarrow> 'k"
    and marked :: "'s \<Rightarrow> 'k \<Rightarrow> bool"
  assumes skip: "marked s (key a) \<Longrightarrow> run s a = s"
    and marks: "run s a = s \<or> marked (run s a) (key a)"
    and marked_mono: "marked s k \<Longrightarrow> marked (run s a) k"
begin

lemma run_twice: "run (run s a) a = run s a"
  using skip [of "run s a" a] marks [of s a] by metis

lemma marked_run_all: "marked s k \<Longrightarrow> marked (foldl run s as) k"
  by (induction as arbitrary: s) (simp_all add: marked_mono)

lemma replay_skipped: "marked s (key a) \<Longrightarrow> run (foldl run s as) a = foldl run s as"
  by (simp add: skip marked_run_all)

lemma replay_same_key: "marked s (key a) \<Longrightarrow> key b = key a \<Longrightarrow> run s b = s"
  using skip [of s b] by simp

text \<open>However often and wherever a marked request is replayed, nothing more happens.\<close>

lemma drop_marked:
  "marked s k \<Longrightarrow> foldl run s as = foldl run s (filter (\<lambda>a. key a \<noteq> k) as)"
proof (induction as arbitrary: s)
  case Nil
  then show ?case by simp
next
  case (Cons a as)
  show ?case
  proof (cases "key a = k")
    case True
    with Cons.prems have "run s a = s" by (simp add: skip)
    with Cons True show ?thesis by simp
  next
    case False
    with Cons.IH [OF marked_mono [OF Cons.prems]] show ?thesis by simp
  qed
qed

end

section \<open>Operations whose effect on a quantity is known\<close>

locale metered =
  fixes run :: "'s \<Rightarrow> 'a \<Rightarrow> 's"
    and amount :: "'s \<Rightarrow> int"
    and good :: "'s \<Rightarrow> bool"
    and delta :: "'s \<Rightarrow> 'a \<Rightarrow> int"
  assumes amount_run: "good s \<Longrightarrow> amount (run s a) = amount s + delta s a"
    and good_run: "good s \<Longrightarrow> good (run s a)"
begin

fun deltas :: "'s \<Rightarrow> 'a list \<Rightarrow> int" where
  "deltas s [] = 0"
| "deltas s (a # as) = delta s a + deltas (run s a) as"

lemma good_run_all: "good s \<Longrightarrow> good (foldl run s as)"
  by (induction as arbitrary: s) (simp_all add: good_run)

lemma amount_run_all: "good s \<Longrightarrow> amount (foldl run s as) = amount s + deltas s as"
  by (induction as arbitrary: s) (simp_all add: amount_run good_run)

end

locale conserved = metered +
  assumes delta_zero: "delta s a = 0"
begin

lemma deltas_zero: "deltas s as = 0"
  by (induction as arbitrary: s) (simp_all add: delta_zero)

lemma amount_kept: "good s \<Longrightarrow> amount (foldl run s as) = amount s"
  by (simp add: amount_run_all deltas_zero)

end

section \<open>Rows with a final status\<close>

locale lifecycle =
  fixes run :: "'s \<Rightarrow> 'a \<Rightarrow> 's"
    and status :: "'s \<Rightarrow> 'k \<Rightarrow> 'st option"
    and final :: "'st \<Rightarrow> bool"
    and good :: "'s \<Rightarrow> bool"
  assumes final_kept: "good s \<Longrightarrow> status s k = Some st \<Longrightarrow> final st \<Longrightarrow> status (run s a) k = Some st"
    and good_step: "good s \<Longrightarrow> good (run s a)"
begin

lemma final_forever:
  "good s \<Longrightarrow> status s k = Some st \<Longrightarrow> final st \<Longrightarrow> status (foldl run s as) k = Some st"
  by (induction as arbitrary: s) (auto intro: final_kept good_step)

end

section \<open>Invariants\<close>

locale preserved =
  fixes run :: "'s \<Rightarrow> 'a \<Rightarrow> 's"
    and inv :: "'s \<Rightarrow> bool"
  assumes inv_run: "inv s \<Longrightarrow> inv (run s a)"
begin

lemma inv_run_all: "inv s \<Longrightarrow> inv (foldl run s as)"
  by (induction as arbitrary: s) (simp_all add: inv_run)

end

end
