(* ===== verification/Subscription.thy ===== *)
theory Subscription
  imports Schema Contracts
begin

text \<open>
  \<open>backend/src/services/subscriptionService.js\<close>: the monthly tiers, the life of a
  subscription row, the credit grants it produces and the drain that pays for inference
  from them, oldest expiry first. The lemmas show how much a drain takes, from whom, and
  that a grant is never consumed beyond its amount.
\<close>

section \<open>Tiers\<close>

record tier =
  ti_name :: string
  ti_monthly_sar :: int
  ti_discount_bps :: int
  ti_monthly_halala :: int

definition TIERS :: "tier list" where
  "TIERS =
    [\<lparr>ti_name = ''starter'', ti_monthly_sar = 375, ti_discount_bps = 1500, ti_monthly_halala = 37500\<rparr>,
     \<lparr>ti_name = ''growth'', ti_monthly_sar = 1500, ti_discount_bps = 2200, ti_monthly_halala = 150000\<rparr>,
     \<lparr>ti_name = ''scale'', ti_monthly_sar = 5625, ti_discount_bps = 3000, ti_monthly_halala = 562500\<rparr>]"

definition ROLLOVER_DAYS :: int where "ROLLOVER_DAYS = 30"
definition PENDING_TTL_MIN :: int where "PENDING_TTL_MIN = 60"

definition getTier :: "string \<Rightarrow> tier option" where
  "getTier k = List.find (\<lambda>t. ti_name t = to_lower k) TIERS"

definition computeDiscountedRateHalala :: "js_num \<Rightarrow> js_num \<Rightarrow> int" where
  "computeDiscountedRateHalala base_rate discount_bps =
     (let base = floor0 base_rate;
          bps = max 0 (min 10000 (floor0 discount_bps))
      in \<lceil>(of_int (base * (10000 - bps)) / 10000 :: rat)\<rceil>)"

section \<open>Subscription rows\<close>

definition addDays :: "int \<Rightarrow> int \<Rightarrow> int" where
  "addDays t days = t + days * day_ms"

definition open_status :: "sub_status \<Rightarrow> bool" where
  "open_status s = (s = SPending \<or> s = SActive \<or> s = SPastDue)"

text \<open>\<open>ORDER BY id DESC LIMIT 1\<close>: the matching row with the greatest id.\<close>

definition latest_sub :: "(subscription_row \<Rightarrow> bool) \<Rightarrow> subscription_row list \<Rightarrow> subscription_row option" where
  "latest_sub P rows = sql_get (\<lambda>_. True) (sort_key (\<lambda>r. - rs_id r) (sql_all P rows))"

definition getActiveSubscription :: "db \<Rightarrow> int \<Rightarrow> int \<Rightarrow> subscription_row option" where
  "getActiveSubscription d renter now =
     latest_sub (\<lambda>r. rs_renter r = renter \<and> (rs_status r = SActive \<or> rs_status r = SPastDue)
       \<and> rs_period_end r > now) (subscriptions d)"

definition getOpenSubscription :: "db \<Rightarrow> int \<Rightarrow> subscription_row option" where
  "getOpenSubscription d renter =
     latest_sub (\<lambda>r. rs_renter r = renter \<and> open_status (rs_status r)) (subscriptions d)"

definition cancelStalePendings :: "db \<Rightarrow> int \<Rightarrow> int \<Rightarrow> db \<times> nat" where
  "cancelStalePendings d renter now =
     (let cutoff = now - PENDING_TTL_MIN * 60000;
          P = (\<lambda>r. rs_renter r = renter \<and> rs_status r = SPending \<and> rs_created_at r < cutoff)
      in (d\<lparr>subscriptions := sql_update P (\<lambda>r. r\<lparr>rs_status := SCancelled, rs_updated_at := now\<rparr>)
                               (subscriptions d)\<rparr>,
          sql_changes P (subscriptions d)))"

datatype sub_error = UnknownTier | AlreadyOpen int | SubNotFound | SubUnknownTier

definition createPendingSubscription ::
    "db \<Rightarrow> int \<Rightarrow> string \<Rightarrow> int \<Rightarrow> sub_error + (db \<times> subscription_row)" where
  "createPendingSubscription d renter tierKey now =
     (case getTier tierKey of
        None \<Rightarrow> Inl UnknownTier
      | Some t \<Rightarrow>
        (case getOpenSubscription d renter of
           Some e \<Rightarrow> Inl (AlreadyOpen (rs_id e))
         | None \<Rightarrow>
           (let row = \<lparr>rs_id = next_rowid rs_id (subscriptions d), rs_renter = renter,
                        rs_tier = ti_name t, rs_monthly_sar = ti_monthly_sar t,
                        rs_discount_bps = ti_discount_bps t, rs_period_start = now,
                        rs_period_end = addDays now 30, rs_status = SPending,
                        rs_moyasar_id = None, rs_created_at = now, rs_updated_at = now\<rparr>
            in Inr (d\<lparr>subscriptions := sql_insert row (subscriptions d)\<rparr>, row))))"

definition grantMonthlyCredits :: "db \<Rightarrow> int \<Rightarrow> int \<Rightarrow> sub_error + (db \<times> credit_grant)" where
  "grantMonthlyCredits d sid now =
     (case sql_get (\<lambda>r. rs_id r = sid) (subscriptions d) of
        None \<Rightarrow> Inl SubNotFound
      | Some sub \<Rightarrow>
        (case getTier (rs_tier sub) of
           None \<Rightarrow> Inl SubUnknownTier
         | Some t \<Rightarrow>
           (let g = \<lparr>sc_id = next_rowid sc_id (credits d), sc_subscription = sid,
                      sc_renter = rs_renter sub, sc_granted_at = now,
                      sc_amount = ti_monthly_halala t, sc_consumed = 0,
                      sc_expires_at = addDays (rs_period_end sub) ROLLOVER_DAYS,
                      sc_source = ''monthly_grant'', sc_created_at = now\<rparr>
            in Inr (d\<lparr>credits := sql_insert g (credits d)\<rparr>, g))))"

text \<open>
  Neither operation below runs in a transaction: when the grant fails the subscription
  row has already been written, so the state is part of the error result.
\<close>

definition activateSubscription ::
    "db \<Rightarrow> int \<Rightarrow> string option \<Rightarrow> int \<Rightarrow> db \<times> (sub_error + credit_grant)" where
  "activateSubscription d sid moyasarId now =
     (case sql_get (\<lambda>r. rs_id r = sid) (subscriptions d) of
        None \<Rightarrow> (d, Inl SubNotFound)
      | Some sub \<Rightarrow>
        (let d1 = d\<lparr>subscriptions := sql_update (\<lambda>r. rs_id r = sid)
               (\<lambda>r. r\<lparr>rs_status := SActive,
                      rs_moyasar_id := (if truthy_str moyasarId then moyasarId else rs_moyasar_id sub),
                      rs_period_start := now, rs_period_end := addDays now 30,
                      rs_updated_at := now\<rparr>) (subscriptions d)\<rparr>
         in case grantMonthlyCredits d1 sid now of
              Inl e \<Rightarrow> (d1, Inl e)
            | Inr (d2, g) \<Rightarrow> (d2, Inr g)))"

definition advanceSubscriptionPeriod :: "db \<Rightarrow> int \<Rightarrow> int \<Rightarrow> db \<times> (sub_error + credit_grant)" where
  "advanceSubscriptionPeriod d sid now =
     (case sql_get (\<lambda>r. rs_id r = sid) (subscriptions d) of
        None \<Rightarrow> (d, Inl SubNotFound)
      | Some sub \<Rightarrow>
        (let d1 = d\<lparr>subscriptions := sql_update (\<lambda>r. rs_id r = sid)
               (\<lambda>r. r\<lparr>rs_period_start := rs_period_end sub,
                      rs_period_end := addDays (rs_period_end sub) 30,
                      rs_status := SActive, rs_updated_at := now\<rparr>) (subscriptions d)\<rparr>
         in case grantMonthlyCredits d1 sid now of
              Inl e \<Rightarrow> (d1, Inl e)
            | Inr (d2, g) \<Rightarrow> (d2, Inr g)))"

section \<open>Credits\<close>

definition spendable :: "int \<Rightarrow> int \<Rightarrow> credit_grant \<Rightarrow> bool" where
  "spendable renter now g = (sc_renter g = renter \<and> sc_consumed g < sc_amount g \<and> sc_expires_at g > now)"

definition getAvailableCredits :: "db \<Rightarrow> int \<Rightarrow> int \<Rightarrow> credit_grant list" where
  "getAvailableCredits d renter now =
     sort_key sc_expires_at (sort_key sc_id (sql_all (spendable renter now) (credits d)))"

definition getRemainingCreditTotal :: "db \<Rightarrow> int \<Rightarrow> int \<Rightarrow> int" where
  "getRemainingCreditTotal d renter now =
     sql_sum (spendable renter now) (\<lambda>g. sc_amount g - sc_consumed g) (credits d)"

definition sweepExpiredCredits :: "db \<Rightarrow> int \<Rightarrow> nat" where
  "sweepExpiredCredits d now =
     sql_changes (\<lambda>g. sc_expires_at g \<le> now \<and> sc_consumed g < sc_amount g) (credits d)"

definition consume :: "int \<Rightarrow> int \<Rightarrow> credit_grant list \<Rightarrow> credit_grant list" where
  \<comment> \<open>\<open>SET consumed = consumed + take WHERE id = ? AND consumed + take <= amount\<close>\<close>
  "consume gid amt rows =
     sql_update (\<lambda>g. sc_id g = gid \<and> sc_consumed g + amt \<le> sc_amount g)
       (\<lambda>g. g\<lparr>sc_consumed := sc_consumed g + amt\<rparr>) rows"

record drain =
  dr_table :: "credit_grant list"
  dr_remaining :: int
  dr_drained :: int
  dr_touched :: "(int \<times> int) list"

fun drain_loop :: "credit_grant list \<Rightarrow> drain \<Rightarrow> drain" where
  "drain_loop [] s = s"
| "drain_loop (g # gs) s =
     (if dr_remaining s \<le> 0 then s
      else let available = sc_amount g - sc_consumed g in
        if available \<le> 0 then drain_loop gs s
        else let amt = min available (dr_remaining s) in
          drain_loop gs (s\<lparr>dr_table := consume (sc_id g) amt (dr_table s),
                           dr_remaining := dr_remaining s - amt,
                           dr_drained := dr_drained s + amt,
                           dr_touched := dr_touched s @ [(sc_id g, amt)]\<rparr>))"

definition debitSubscriptionCredits :: "db \<Rightarrow> int \<Rightarrow> js_num \<Rightarrow> int \<Rightarrow> db \<times> drain" where
  "debitSubscriptionCredits d renter cost now =
     (let remaining = floor0 cost;
          s0 = \<lparr>dr_table = credits d, dr_remaining = remaining, dr_drained = 0, dr_touched = []\<rparr>
      in if remaining = 0 then (d, s0)
         else let s = drain_loop (getAvailableCredits d renter now) s0
              in (d\<lparr>credits := dr_table s\<rparr>, s))"

section \<open>What a drain does\<close>

definition grant_left :: "credit_grant \<Rightarrow> int" where
  "grant_left g = sc_amount g - sc_consumed g"

definition total_consumed :: "credit_grant list \<Rightarrow> int" where
  "total_consumed rows = sum_list (map sc_consumed rows)"

lemma drain_loop_split:
  "\<forall>g\<in>set gs. 0 < grant_left g \<Longrightarrow> 0 \<le> dr_remaining s \<Longrightarrow>
     dr_remaining (drain_loop gs s) = max 0 (dr_remaining s - sum_list (map grant_left gs))
   \<and> dr_drained (drain_loop gs s) + dr_remaining (drain_loop gs s) = dr_drained s + dr_remaining s"
proof (induction gs s rule: drain_loop.induct)
  case (1 s)
  then show ?case by simp
next
  case (2 g gs s)
  have left: "0 < grant_left g" and rest: "0 \<le> sum_list (map grant_left gs)"
    using "2.prems" by (auto intro!: sum_list_nonneg simp: less_imp_le)
  show ?case
  proof (cases "dr_remaining s \<le> 0")
    case True
    with "2.prems" left rest show ?thesis by simp
  next
    case False
    have av: "grant_left g = sc_amount g - sc_consumed g" by (simp add: grant_left_def)
    let ?t = "min (sc_amount g - sc_consumed g) (dr_remaining s)"
    let ?s = "s\<lparr>dr_table := consume (sc_id g) ?t (dr_table s), dr_remaining := dr_remaining s - ?t,
                dr_drained := dr_drained s + ?t, dr_touched := dr_touched s @ [(sc_id g, ?t)]\<rparr>"
    have eq: "drain_loop (g # gs) s = drain_loop gs ?s"
      using False left by (simp add: Let_def av)
    have "\<forall>g\<in>set gs. 0 < grant_left g" "0 \<le> dr_remaining ?s" using "2.prems" by auto
    moreover have "\<not> sc_amount g - sc_consumed g \<le> 0" using left by (simp add: av)
    ultimately have IH: "dr_remaining (drain_loop gs ?s) = max 0 (dr_remaining ?s - sum_list (map grant_left gs))
      \<and> dr_drained (drain_loop gs ?s) + dr_remaining (drain_loop gs ?s) = dr_drained ?s + dr_remaining ?s"
      by (intro "2.IH"(2) [OF False refl _ refl])
    note A = IH [THEN conjunct1] and B = IH [THEN conjunct2]
    have "dr_remaining (drain_loop gs ?s) = max 0 (dr_remaining s - sum_list (map grant_left (g # gs)))"
      unfolding A using rest by (simp add: av)
    moreover have "dr_drained (drain_loop gs ?s) + dr_remaining (drain_loop gs ?s) = dr_drained s + dr_remaining s"
      unfolding B by simp
    ultimately show ?thesis unfolding eq by blast
  qed
qed

lemma map_id_consume [simp]: "map sc_id (consume i t rows) = map sc_id rows"
  by (simp add: consume_def map_sql_update)

lemma has_key_consume [simp]: "has_key sc_id (consume i t rows) = has_key sc_id rows"
  by (simp add: has_key_def)

definition credits_ok :: "credit_grant list \<Rightarrow> bool" where
  "credits_ok rows = (\<forall>g\<in>set rows. sc_consumed g \<le> sc_amount g)"

lemma consume_ok: "credits_ok rows \<Longrightarrow> credits_ok (consume i t rows)"
  by (auto simp: credits_ok_def consume_def set_sql_update)

lemma consume_total:
  assumes "has_key sc_id rows" and "g \<in> set rows" and "t \<le> grant_left g"
  shows "total_consumed (consume (sc_id g) t rows) = total_consumed rows + t"
  unfolding total_consumed_def consume_def
  using sum_list_update_key [of sc_id rows g "\<lambda>x. sc_consumed x + t \<le> sc_amount x" sc_consumed
      "\<lambda>g. g\<lparr>sc_consumed := sc_consumed g + t\<rparr>"] assms
  by (simp add: grant_left_def)

lemma consume_other: "g \<in> set rows \<Longrightarrow> sc_id g \<noteq> i \<Longrightarrow> g \<in> set (consume i t rows)"
  by (force simp: consume_def set_sql_update)

lemma filter_consume_other:
  "i \<in> A \<Longrightarrow> filter (\<lambda>x. sc_id x \<notin> A) (consume i t rows) = filter (\<lambda>x. sc_id x \<notin> A) rows"
  unfolding consume_def by (induction rows) auto

text \<open>The loop works on grants it read before it started: none of them may change meanwhile.\<close>

definition drain_ready :: "credit_grant list \<Rightarrow> drain \<Rightarrow> bool" where
  "drain_ready gs s = (has_key sc_id (dr_table s) \<and> distinct (map sc_id gs) \<and>
     set gs \<subseteq> set (dr_table s) \<and> (\<forall>g\<in>set gs. 0 < grant_left g))"

lemma drain_ready_step:
  "drain_ready (g # gs) s \<Longrightarrow>
     drain_ready gs (s\<lparr>dr_table := consume (sc_id g) t (dr_table s), dr_remaining := a,
                       dr_drained := b, dr_touched := c\<rparr>)"
  unfolding drain_ready_def by (auto simp: image_iff intro!: consume_other)

lemma drain_loop_total:
  "drain_ready gs s \<Longrightarrow> 0 \<le> dr_remaining s \<Longrightarrow>
     total_consumed (dr_table (drain_loop gs s)) - dr_drained (drain_loop gs s) =
     total_consumed (dr_table s) - dr_drained s"
proof (induction gs s rule: drain_loop.induct)
  case (1 s)
  then show ?case by simp
next
  case (2 g gs s)
  show ?case
  proof (cases "dr_remaining s \<le> 0")
    case True
    then show ?thesis by simp
  next
    case False
    have left: "0 < sc_amount g - sc_consumed g" and key: "has_key sc_id (dr_table s)"
      and mem: "g \<in> set (dr_table s)"
      using "2.prems" by (auto simp: drain_ready_def grant_left_def)
    let ?t = "min (sc_amount g - sc_consumed g) (dr_remaining s)"
    let ?s = "s\<lparr>dr_table := consume (sc_id g) ?t (dr_table s), dr_remaining := dr_remaining s - ?t,
                dr_drained := dr_drained s + ?t, dr_touched := dr_touched s @ [(sc_id g, ?t)]\<rparr>"
    have "drain_ready gs ?s" by (rule drain_ready_step [OF "2.prems"(1)])
    moreover have "0 \<le> dr_remaining ?s" by simp
    ultimately have "total_consumed (dr_table (drain_loop gs ?s)) - dr_drained (drain_loop gs ?s) =
        total_consumed (dr_table ?s) - dr_drained ?s"
      using "2.IH"(2) False left by (simp add: Let_def)
    moreover have "total_consumed (consume (sc_id g) ?t (dr_table s)) = total_consumed (dr_table s) + ?t"
      by (rule consume_total [OF key mem]) (simp add: grant_left_def)
    ultimately show ?thesis using False left by (simp add: Let_def)
  qed
qed

lemma drain_loop_ok: "credits_ok (dr_table s) \<Longrightarrow> credits_ok (dr_table (drain_loop gs s))"
proof (induction gs s rule: drain_loop.induct)
  case (2 g gs s)
  then show ?case by (simp add: Let_def consume_ok)
qed simp

lemma drain_loop_ids: "map sc_id (dr_table (drain_loop gs s)) = map sc_id (dr_table s)"
  by (induction gs s rule: drain_loop.induct) (auto simp: Let_def)

lemma drain_loop_frame:
  "sc_id ` set gs \<subseteq> A \<Longrightarrow>
     filter (\<lambda>x. sc_id x \<notin> A) (dr_table (drain_loop gs s)) = filter (\<lambda>x. sc_id x \<notin> A) (dr_table s)"
  by (induction gs s rule: drain_loop.induct) (auto simp: Let_def filter_consume_other)

lemma set_getAvailableCredits:
  "set (getAvailableCredits d renter now) = {g \<in> set (credits d). spendable renter now g}"
  by (auto simp: getAvailableCredits_def sql_all_def)

lemma ids_getAvailableCredits:
  assumes "has_key sc_id (credits d)"
  shows "distinct (map sc_id (getAvailableCredits d renter now))"
proof -
  have "distinct (map sc_id (sql_all (spendable renter now) (credits d)))"
    using assms by (simp add: has_key_def sql_all_def distinct_map_filter)
  then show ?thesis
    unfolding getAvailableCredits_def distinct_map by simp
qed

lemma sum_getAvailableCredits:
  "sum_list (map grant_left (getAvailableCredits d renter now)) = getRemainingCreditTotal d renter now"
proof -
  have "mset (map grant_left (getAvailableCredits d renter now)) =
      mset (map grant_left (sql_all (spendable renter now) (credits d)))"
    by (simp add: getAvailableCredits_def)
  from arg_cong [OF this, of sum_mset]
  have "sum_list (map grant_left (getAvailableCredits d renter now)) =
      sum_list (map grant_left (sql_all (spendable renter now) (credits d)))"
    by (simp only: sum_mset_sum_list)
  then show ?thesis
    unfolding getRemainingCreditTotal_def sql_sum_def sql_all_def grant_left_def [abs_def] .
qed

lemma drain_start_ready:
  "has_key sc_id (credits d) \<Longrightarrow>
     drain_ready (getAvailableCredits d renter now)
       \<lparr>dr_table = credits d, dr_remaining = r, dr_drained = b, dr_touched = c\<rparr>"
  unfolding drain_ready_def
  by (auto simp: set_getAvailableCredits ids_getAvailableCredits spendable_def grant_left_def)

lemma remaining_total_nonneg: "0 \<le> getRemainingCreditTotal d renter now"
  unfolding getRemainingCreditTotal_def sql_sum_def
  by (rule sum_list_nonneg) (auto simp: spendable_def)

lemma debit_split:
  assumes "debitSubscriptionCredits d renter cost now = (d', s)"
  shows "dr_remaining s = max 0 (floor0 cost - getRemainingCreditTotal d renter now)"
    and "dr_drained s + dr_remaining s = floor0 cost"
    and "0 \<le> dr_remaining s" and "0 \<le> dr_drained s"
proof -
  let ?s0 = "\<lparr>dr_table = credits d, dr_remaining = floor0 cost, dr_drained = 0, dr_touched = []\<rparr>"
  have pos: "\<forall>g\<in>set (getAvailableCredits d renter now). 0 < grant_left g"
    by (auto simp: set_getAvailableCredits spendable_def grant_left_def)
  note split = drain_loop_split [OF pos, of ?s0, unfolded sum_getAvailableCredits]
  show rem: "dr_remaining s = max 0 (floor0 cost - getRemainingCreditTotal d renter now)"
    using assms split remaining_total_nonneg [of d renter now]
    by (auto simp: debitSubscriptionCredits_def Let_def split: if_splits)
  show sum: "dr_drained s + dr_remaining s = floor0 cost"
    using assms split by (auto simp: debitSubscriptionCredits_def Let_def split: if_splits)
  show "0 \<le> dr_remaining s" by (simp add: rem)
  show "0 \<le> dr_drained s"
    using sum rem remaining_total_nonneg [of d renter now] floor0_nonneg [of cost] by linarith
qed

lemma debit_only_credits:
  "debitSubscriptionCredits d renter cost now = (d', s) \<Longrightarrow> d' = d\<lparr>credits := dr_table s\<rparr>"
  by (auto simp: debitSubscriptionCredits_def Let_def split: if_splits)

lemma debit_total:
  assumes "has_key sc_id (credits d)" and "debitSubscriptionCredits d renter cost now = (d', s)"
  shows "total_consumed (credits d') = total_consumed (credits d) + dr_drained s"
proof -
  let ?s0 = "\<lparr>dr_table = credits d, dr_remaining = floor0 cost, dr_drained = 0, dr_touched = []\<rparr>"
  have "total_consumed (dr_table (drain_loop (getAvailableCredits d renter now) ?s0))
      - dr_drained (drain_loop (getAvailableCredits d renter now) ?s0) = total_consumed (credits d)"
    using drain_loop_total [OF drain_start_ready [OF assms(1), of renter now "floor0 cost" 0 "[]"]]
    by simp
  then show ?thesis
    using assms(2) by (auto simp: debitSubscriptionCredits_def Let_def split: if_splits)
qed

lemma debit_ids:
  "debitSubscriptionCredits d renter cost now = (d', s) \<Longrightarrow> map sc_id (credits d') = map sc_id (credits d)"
  by (auto simp: debitSubscriptionCredits_def Let_def drain_loop_ids split: if_splits)


lemma debit_ok:
  "debitSubscriptionCredits d renter cost now = (d', s) \<Longrightarrow> credits_ok (credits d) \<Longrightarrow> credits_ok (credits d')"
  by (auto simp: debitSubscriptionCredits_def Let_def drain_loop_ok split: if_splits)
end
