(* ===== verification/Reconciliation.thy ===== *)
theory Reconciliation
  imports Schema Contracts
begin

text \<open>
  \<open>backend/src/services/reconciliation-engine.js\<close>: the 75/25 split of a charge, the
  audit of one job's stored split and the run over all completed jobs. The SHA-256 proof
  hashes over heartbeat rows and the stored run reports are left out.
\<close>

definition PROVIDER_SHARE :: int where "PROVIDER_SHARE = 75"

record split =
  sp_provider :: int
  sp_dc1 :: int

definition splitCost :: "int \<Rightarrow> split" where
  "splitCost t =
     (let provider = (t * PROVIDER_SHARE) div 100
      in \<lparr>sp_provider = provider, sp_dc1 = t - provider\<rparr>)"

lemma splitCost_sum: "sp_provider (splitCost t) + sp_dc1 (splitCost t) = t"
  by (simp add: splitCost_def Let_def)

lemma splitCost_bounds: "0 \<le> t \<Longrightarrow> 0 \<le> sp_provider (splitCost t) \<and> sp_provider (splitCost t) \<le> t"
  by (simp add: splitCost_def Let_def PROVIDER_SHARE_def) presburger

lemma splitCost_share:
  "4 * sp_provider (splitCost t) \<le> 3 * t \<and> 3 * t < 4 * sp_provider (splitCost t) + 4"
  by (simp add: splitCost_def Let_def PROVIDER_SHARE_def) presburger

section \<open>Auditing a job\<close>

datatype discrepancy =
  JobNotFound
| SumMismatch int int      \<comment> \<open>expected, actual\<close>
| ProviderSplit int int
| Dc1Split int int

record audit =
  au_job :: string
  au_clean :: bool
  au_paid :: "int option"
  au_earned :: "int option"
  au_fee :: "int option"
  au_discrepancies :: "discrepancy list"

text \<open>
  \<open>job_id = ? OR id = ?\<close> compares the text argument with both columns; the caller
  passes a \<open>job_id\<close>, or the numeric id of a row without one.
\<close>

definition find_job :: "job_row list \<Rightarrow> string \<Rightarrow> job_row option" where
  "find_job rows k = sql_get (\<lambda>j. jb_job_id j = k) rows"

definition audit_job :: "job_row \<Rightarrow> audit" where
  "audit_job j =
     (let renterPaid = (case jb_actual_cost j of Some a \<Rightarrow> a | None \<Rightarrow> or0 (jb_cost j));
          ex = splitCost renterPaid;
          providerEarned = (case jb_earned j of Some e \<Rightarrow> e | None \<Rightarrow> sp_provider ex);
          dc1Fee = (case jb_fee j of Some f \<Rightarrow> f | None \<Rightarrow> sp_dc1 ex);
          d1 = (if renterPaid \<noteq> providerEarned + dc1Fee
                then [SumMismatch renterPaid (providerEarned + dc1Fee)] else []);
          d2 = (if providerEarned \<noteq> sp_provider ex
                then [ProviderSplit (sp_provider ex) providerEarned] else []);
          d3 = (if dc1Fee \<noteq> sp_dc1 ex then [Dc1Split (sp_dc1 ex) dc1Fee] else []);
          ds = d1 @ d2 @ d3
      in \<lparr>au_job = jb_job_id j, au_clean = (ds = []), au_paid = Some renterPaid,
          au_earned = Some providerEarned, au_fee = Some dc1Fee, au_discrepancies = ds\<rparr>)"

definition verifyJobBilling :: "job_row list \<Rightarrow> string \<Rightarrow> audit" where
  "verifyJobBilling rows k =
     (case find_job rows k of
        None \<Rightarrow> \<lparr>au_job = k, au_clean = False, au_paid = None, au_earned = None, au_fee = None,
                 au_discrepancies = [JobNotFound]\<rparr>
      | Some j \<Rightarrow> audit_job j)"

lemma audit_clean_iff:
  "au_clean (audit_job j) \<longleftrightarrow>
     (let paid = (case jb_actual_cost j of Some a \<Rightarrow> a | None \<Rightarrow> or0 (jb_cost j)) in
        (\<forall>e. jb_earned j = Some e \<longrightarrow> e = sp_provider (splitCost paid)) \<and>
        (\<forall>f. jb_fee j = Some f \<longrightarrow> f = sp_dc1 (splitCost paid)))"
  using splitCost_sum [of "case jb_actual_cost j of Some a \<Rightarrow> a | None \<Rightarrow> or0 (jb_cost j)"]
  by (auto simp: audit_job_def Let_def split: option.splits)

section \<open>The full run\<close>

record recon =
  rc_checked :: nat
  rc_clean :: nat
  rc_flagged :: nat
  rc_collected :: int
  rc_paid :: int
  rc_margin :: int
  rc_jobs :: "audit list"

definition recon_step :: "job_row list \<Rightarrow> recon \<Rightarrow> job_row \<Rightarrow> recon" where
  "recon_step rows r j =
     (let a = verifyJobBilling rows (jb_job_id j);
          r1 = r\<lparr>rc_checked := rc_checked r + 1, rc_collected := rc_collected r + or0 (au_paid a),
                 rc_paid := rc_paid r + or0 (au_earned a), rc_margin := rc_margin r + or0 (au_fee a)\<rparr>
      in if au_clean a then r1\<lparr>rc_clean := rc_clean r1 + 1\<rparr>
         else r1\<lparr>rc_flagged := rc_flagged r1 + 1, rc_jobs := rc_jobs r1 @ [a]\<rparr>)"

fun recon_loop :: "job_row list \<Rightarrow> job_row list \<Rightarrow> recon \<Rightarrow> recon" where
  "recon_loop rows [] r = r"
| "recon_loop rows (j # js) r = recon_loop rows js (recon_step rows r j)"

definition recon_zero :: recon where
  "recon_zero = \<lparr>rc_checked = 0, rc_clean = 0, rc_flagged = 0, rc_collected = 0, rc_paid = 0,
                 rc_margin = 0, rc_jobs = []\<rparr>"

definition runFullReconciliation :: "db \<Rightarrow> recon" where
  "runFullReconciliation d =
     recon_loop (jobs d)
       (sql_all (\<lambda>j. jb_status j = JCompleted \<and> jb_completed_at j \<noteq> None) (jobs d)) recon_zero"

definition recon_status_clean :: "recon \<Rightarrow> bool" where
  \<comment> \<open>\<open>status: 'CLEAN'\<close> of \<open>generateReport\<close>\<close>
  "recon_status_clean r = (rc_flagged r = 0)"

lemma audit_balances:
  "au_clean (verifyJobBilling rows k) \<Longrightarrow>
     or0 (au_paid (verifyJobBilling rows k)) =
     or0 (au_earned (verifyJobBilling rows k)) + or0 (au_fee (verifyJobBilling rows k))"
  by (auto simp: verifyJobBilling_def audit_job_def Let_def split: option.splits if_splits)

lemma recon_step_counts:
  "rc_checked (recon_step rows r j) = Suc (rc_checked r)"
  "rc_clean (recon_step rows r j) + rc_flagged (recon_step rows r j) = Suc (rc_clean r + rc_flagged r)"
  "rc_flagged r \<le> rc_flagged (recon_step rows r j)"
  by (simp_all add: recon_step_def Let_def)

lemma recon_step_clean:
  "rc_flagged (recon_step rows r j) = rc_flagged r \<longleftrightarrow> au_clean (verifyJobBilling rows (jb_job_id j))"
  by (simp add: recon_step_def Let_def)

lemma recon_step_balance:
  "au_clean (verifyJobBilling rows (jb_job_id j)) \<Longrightarrow>
     rc_collected (recon_step rows r j) - rc_paid (recon_step rows r j) - rc_margin (recon_step rows r j)
       = rc_collected r - rc_paid r - rc_margin r"
  by (simp add: recon_step_def Let_def audit_balances)

lemma recon_loop_counts:
  "rc_checked (recon_loop rows js r) = rc_checked r + length js"
  "rc_clean (recon_loop rows js r) + rc_flagged (recon_loop rows js r) =
     rc_clean r + rc_flagged r + length js"
  by (induction js arbitrary: r) (simp_all add: recon_step_counts)

lemma recon_flagged_mono: "rc_flagged r \<le> rc_flagged (recon_loop rows js r)"
proof (induction js arbitrary: r)
  case (Cons j js)
  show ?case using Cons [of "recon_step rows r j"] recon_step_counts(3) [of r rows j] by simp
qed simp

lemma recon_unflagged:
  "rc_flagged (recon_loop rows js r) = rc_flagged r \<Longrightarrow>
     rc_collected (recon_loop rows js r) - rc_paid (recon_loop rows js r) - rc_margin (recon_loop rows js r)
       = rc_collected r - rc_paid r - rc_margin r
     \<and> (\<forall>j\<in>set js. au_clean (verifyJobBilling rows (jb_job_id j)))"
proof (induction js arbitrary: r)
  case (Cons j js)
  let ?r = "recon_step rows r j"
  have "rc_flagged ?r = rc_flagged r" and rest: "rc_flagged (recon_loop rows js ?r) = rc_flagged ?r"
    using Cons.prems recon_flagged_mono [of ?r rows js] recon_step_counts(3) [of r rows j] by simp_all
  then have "au_clean (verifyJobBilling rows (jb_job_id j))" by (simp add: recon_step_clean)
  with Cons.IH [OF rest] recon_step_balance [of rows j r] show ?case by simp
qed simp

end
