(* ===== verification/Samples.thy ===== *)
theory Samples
  imports Schema
begin

text \<open>
  Concrete rows and one small database: one renter, one provider, nothing else. The
  witnesses evaluate the operations on it and on updates of it.
\<close>

definition demo_renter :: renter_row where
  "demo_renter =
     \<lparr>rn_id = 1, rn_status = ''active'', rn_name = ''Noor'', rn_email = None, rn_balance = 1000,
      rn_total_spent = 0, rn_total_jobs = 0, rn_spend_cap = None, rn_updated_at = None,
      rn_at_enabled = False, rn_at_threshold = 5000, rn_at_amount = 20000, rn_at_cap = 0,
      rn_at_used = None, rn_at_reset_at = None, rn_at_failures = 0, rn_at_paused_until = None,
      rn_at_last_attempt = None, rn_card_token = None, rn_card_brand = None, rn_card_last4 = None,
      rn_card_saved_at = None, rn_max_pods = None, rn_pods_exempt = False\<rparr>"

definition demo_provider :: provider_row where
  "demo_provider =
     \<lparr>pv_id = 7, pv_name = ''gpu'', pv_status = ''online'', pv_deleted_at = None, pv_is_paused = False,
      pv_is_burst = False, pv_claimable = 0, pv_total_earnings = 0, pv_total_halala = None,
      pv_total_jobs = 0, pv_current_job = None, pv_last_heartbeat = Some 0, pv_updated_at = None,
      pv_iban = None, pv_holder = None, pv_rate = None, pv_gpu_count = Some 1, pv_gpu_model = None,
      pv_vram_mib = Some 24576, pv_vram_gb = None, pv_uptime = None, pv_price = None,
      pv_preload = None, pv_stake = None, pv_approval = Some ''approved'', pv_burst_type = None,
      pv_stock = None, pv_supply_tier = None, pv_provider_ip = None, pv_ip_address = None, pv_docker = True, pv_cuda = True, pv_ready_vram = None,
      pv_healthy = True\<rparr>"

definition demo_db :: db where
  "demo_db =
     \<lparr>renters = [demo_renter], providers = [demo_provider], jobs = [], billing_attempts = [],
      usage_events = [], usage_ledger = [], renter_api_keys = [], subscriptions = [], credits = [],
      settlements = [], ledger = [], payouts = [], topups = [], payments = [], escrows = [],
      volumes = [], holds = [], quotas = []\<rparr>"

lemmas demo_defs = demo_db_def demo_renter_def demo_provider_def

lemma demo_keys [simp]: "db_keys demo_db"
  by (simp add: db_keys_def demo_defs has_key_def)

lemma demo_tables [simp]:
  "renters demo_db = [demo_renter]" "providers demo_db = [demo_provider]" "jobs demo_db = []"
  "billing_attempts demo_db = []" "usage_events demo_db = []" "usage_ledger demo_db = []"
  "renter_api_keys demo_db = []" "subscriptions demo_db = []" "credits demo_db = []"
  "settlements demo_db = []" "ledger demo_db = []" "payouts demo_db = []" "topups demo_db = []"
  "payments demo_db = []" "escrows demo_db = []" "volumes demo_db = []" "holds demo_db = []" "quotas demo_db = []"
  by (simp_all add: demo_db_def)

lemma demo_lookup [simp]:
  "renter_by_id demo_db 1 = Some demo_renter" "provider_by_id demo_db 7 = Some demo_provider"
  "balance_of demo_db 1 = 1000" "claimable_of demo_db 7 = 0"
  by (simp_all add: renter_by_id_def provider_by_id_def balance_of_def claimable_of_def sql_get_def
      demo_renter_def demo_provider_def)

definition demo_job :: job_row where
  "demo_job = blank_job\<lparr>jb_id := 1, jb_job_id := ''job-1'', jb_renter := Some 1, jb_cost := Some 90\<rparr>"

lemma demo_job_ids [simp]: "jb_id demo_job = 1" "jb_job_id demo_job = ''job-1''" "jb_renter demo_job = Some 1"
    "jb_cost demo_job = Some 90" "jb_status demo_job = JPending" "jb_provider demo_job = None" "jb_refunded_at demo_job = None"
    "jb_started_at demo_job = None" "jb_submitted_at demo_job = None" "jb_type demo_job = []"
  by (simp_all add: demo_job_def blank_job_def)

end
