(* ===== verification/Billing.thy ===== *)
theory Billing
  imports Subscription Reconciliation Samples
begin

text \<open>
  \<open>backend/src/services/billingService.js\<close>: the pre-flight gates, the cost estimate and
  the settlement of one inference request. \<open>settleInferenceOnce\<close> is a chain of the
  code's seven steps inside one transaction, so an \<open>InsufficientBalanceError\<close> leaves the
  database as it was: the model returns the error alone. The lemmas account for every
  halala of a settled request and show that a request id is charged once.
\<close>

section \<open>Balances and gates\<close>

record effective_balance =
  eb_balance :: int
  eb_sub_credits :: int
  eb_total :: int

definition getEffectiveBalance :: "db \<Rightarrow> int \<Rightarrow> int \<Rightarrow> effective_balance" where
  "getEffectiveBalance d renter now =
     (let balance = balance_of d renter;
          sub = sum_list (map (\<lambda>g. max 0 (sc_amount g - sc_consumed g)) (getAvailableCredits d renter now))
      in \<lparr>eb_balance = balance, eb_sub_credits = sub, eb_total = balance + sub\<rparr>)"

record gate =
  ga_ok :: bool
  ga_balance :: int
  ga_sub_credits :: int
  ga_available :: int
  ga_estimate :: int
  ga_deficit :: "int option"

definition checkBalanceGate :: "db \<Rightarrow> int \<Rightarrow> js_num \<Rightarrow> int \<Rightarrow> gate" where
  "checkBalanceGate d renter estimate now =
     (let est = ceil0 estimate;
          e = getEffectiveBalance d renter now;
          g = \<lparr>ga_ok = True, ga_balance = eb_balance e, ga_sub_credits = eb_sub_credits e,
               ga_available = eb_total e, ga_estimate = est, ga_deficit = None\<rparr>
      in if eb_total e \<ge> est then g
         else g\<lparr>ga_ok := False, ga_deficit := Some (est - eb_total e)\<rparr>)"

record cap_gate =
  cg_scoped :: bool
  cg_capped :: bool
  cg_ok :: bool
  cg_cap :: int
  cg_spent :: int
  cg_remaining :: "int option"
  cg_estimate :: int
  cg_fail_open :: bool

text \<open>
  Both caps read the database inside \<open>try\<close> blocks. A query that throws is the value
  \<open>None\<close> of the arguments below: \<open>capq\<close> for the read of the cap, \<open>spentq\<close> for the
  sum over the month.
\<close>

definition uncapped :: "bool \<Rightarrow> int \<Rightarrow> bool \<Rightarrow> cap_gate" where
  "uncapped scoped est failopen =
     \<lparr>cg_scoped = scoped, cg_capped = False, cg_ok = True, cg_cap = 0, cg_spent = 0,
      cg_remaining = None, cg_estimate = est, cg_fail_open = failopen\<rparr>"

definition month_spend :: "db \<Rightarrow> (usage_ledger_row \<Rightarrow> bool) \<Rightarrow> string \<Rightarrow> int" where
  "month_spend d P month = sql_sum (\<lambda>u. P u \<and> ul_month u = month) ul_cost (usage_ledger d)"

definition cap_decision :: "bool \<Rightarrow> int \<Rightarrow> int option \<Rightarrow> int \<Rightarrow> bool \<Rightarrow> cap_gate" where
  "cap_decision scoped cap spentq est failopen =
     (case spentq of
        None \<Rightarrow> \<lparr>cg_scoped = scoped, cg_capped = True, cg_ok = True, cg_cap = cap, cg_spent = 0,
                 cg_remaining = Some cap, cg_estimate = est, cg_fail_open = failopen\<rparr>
      | Some raw \<Rightarrow>
        (let spent = max 0 raw in
          \<lparr>cg_scoped = scoped, cg_capped = True, cg_ok = (spent + est \<le> cap), cg_cap = cap,
           cg_spent = spent, cg_remaining = Some (max 0 (cap - spent)), cg_estimate = est,
           cg_fail_open = False\<rparr>))"

definition checkBudgetCap :: "db \<Rightarrow> int \<Rightarrow> js_num \<Rightarrow> bool \<Rightarrow> bool \<Rightarrow> string \<Rightarrow> cap_gate" where
  "checkBudgetCap d renter estimate cap_throws sum_throws month =
     (let est = ceil0 estimate;
          cap = (if cap_throws then 0
                 else max 0 (case renter_by_id d renter of None \<Rightarrow> 0 | Some r \<Rightarrow> or0 (rn_spend_cap r)))
      in if cap \<le> 0 then uncapped False est False
         else cap_decision False cap
                (if sum_throws then None else Some (month_spend d (\<lambda>u. ul_renter u = renter) month))
                est False)"

definition checkScopedKeyBudgetCap ::
    "db \<Rightarrow> int \<Rightarrow> string option \<Rightarrow> js_num \<Rightarrow> bool \<Rightarrow> bool \<Rightarrow> string \<Rightarrow> cap_gate" where
  "checkScopedKeyBudgetCap d renter keyId estimate cap_throws sum_throws month =
     (let est = ceil0 estimate;
          clean = (case keyId of None \<Rightarrow> [] | Some k \<Rightarrow> strip k)
      in if clean = [] then uncapped False est False
         else if cap_throws then uncapped True est True
         else
           (let cap = max 0 (case sql_get (\<lambda>k. rk_id k = clean \<and> rk_renter k = renter \<and> rk_revoked_at k = None)
                                    (renter_api_keys d) of None \<Rightarrow> 0 | Some k \<Rightarrow> rk_cap k)
            in if cap \<le> 0 then uncapped True est False
               else cap_decision True cap
                      (if sum_throws then None
                       else Some (month_spend d (\<lambda>u. ul_renter u = renter \<and> ul_api_key_id u = Some clean) month))
                      est True))"

section \<open>The estimate\<close>

record estimate_args =
  es_prompt :: js_num
  es_max_completion :: js_num
  es_token_rate :: rat
  es_in_rate :: rat
  es_out_rate :: rat
  es_fallback_per_min :: rat

definition per_million :: "int \<Rightarrow> rat \<Rightarrow> int" where
  \<comment> \<open>\<open>Math.ceil((tokens * rate) / 1_000_000)\<close>\<close>
  "per_million tokens rate = \<lceil>fl_div (fl_mul (of_int tokens) rate) 1000000\<rceil>"

definition estimateInferenceCost :: "estimate_args \<Rightarrow> int" where
  "estimateInferenceCost a =
     (let p = floor0 (es_prompt a); c = floor0 (es_max_completion a)
      in if es_in_rate a > 0 \<or> es_out_rate a > 0
         then max 1 (per_million p (es_in_rate a) + per_million c (es_out_rate a))
         else if es_token_rate a > 0 then max 1 (per_million (p + c) (es_token_rate a))
         else if es_fallback_per_min a > 0 then max 1 \<lceil>es_fallback_per_min a\<rceil>
         else 1)"

section \<open>Settlement\<close>

record usage_input =
  ui_prompt_tokens :: int
  ui_completion_tokens :: int
  ui_prompt_cost :: int
  ui_completion_cost :: int
  ui_in_rate :: int
  ui_out_rate :: int
  ui_source :: "string option"

record job_input =
  ji_job_id :: string
  ji_submitted_at :: "int option"
  ji_started_at :: "int option"
  ji_completed_at :: "int option"
  ji_duration :: int
  ji_result :: "string option"
  ji_notes :: "string option"

record settle_args =
  sa_request_id :: string
  sa_renter :: int
  sa_provider :: "int option"
  sa_cost :: js_num
  sa_model :: string
  sa_usage :: "usage_input option"
  sa_job :: "job_input option"
  sa_now :: int

datatype billing_error =
  RequestIdRequired
| InsufficientBalance int int int   \<comment> \<open>renter, deficit, balance\<close>

record settled =
  se_cost :: int
  se_earned :: int
  se_shortfall :: int
  se_drained :: int
  se_balance_after :: int

datatype settle_result = AlreadySettled "billing_attempt option" | Settled settled

definition truthy_id :: "int option \<Rightarrow> int option" where
  \<comment> \<open>\<open>id || null\<close>\<close>
  "truthy_id i = (case i of Some k \<Rightarrow> if k = 0 then None else Some k | None \<Rightarrow> None)"

definition settle_cost :: "settle_args \<Rightarrow> int" where
  "settle_cost a = ceil0 (sa_cost a)"

definition settle_earned :: "settle_args \<Rightarrow> int" where
  "settle_earned a = (if truthy_id (sa_provider a) = None then 0 else sp_provider (splitCost (settle_cost a)))"

text \<open>Step 3, the guarded debit: \<open>None\<close> when no row has the balance.\<close>

definition debit_renter :: "int \<Rightarrow> int \<Rightarrow> int \<Rightarrow> db \<Rightarrow> db option" where
  "debit_renter renter amount now d =
     (let P = (\<lambda>r. rn_id r = renter \<and> rn_balance r \<ge> amount)
      in if sql_changes P (renters d) = 0 then None
         else Some (d\<lparr>renters := sql_update P
                (\<lambda>r. r\<lparr>rn_balance := rn_balance r - amount, rn_updated_at := Some now\<rparr>) (renters d)\<rparr>))"

definition credit_provider :: "int \<Rightarrow> int \<Rightarrow> db \<Rightarrow> db" where
  "credit_provider provider earned d =
     d\<lparr>providers := sql_update (\<lambda>p. pv_id p = provider)
         (\<lambda>p. p\<lparr>pv_claimable := pv_claimable p + earned,
                pv_total_earnings := fl_add (pv_total_earnings p) (fl_div (of_int earned) 100),
                pv_total_halala := Some (or0 (pv_total_halala p) + earned),
                pv_total_jobs := pv_total_jobs p + 1\<rparr>) (providers d)\<rparr>"

definition usage_row :: "settle_args \<Rightarrow> usage_input \<Rightarrow> usage_event" where
  "usage_row a u =
     \<lparr>ue_renter = sa_renter a, ue_provider = truthy_id (sa_provider a), ue_model = sa_model a,
      ue_prompt_tokens = ui_prompt_tokens u, ue_completion_tokens = ui_completion_tokens u,
      ue_prompt_cost = ui_prompt_cost u, ue_completion_cost = ui_completion_cost u,
      ue_cost = settle_cost a, ue_payout = settle_earned a,
      ue_take = settle_cost a - settle_earned a, ue_in_rate = ui_in_rate u,
      ue_out_rate = ui_out_rate u, ue_occurred_at = sa_now a, ue_request_id = sa_request_id a,
      ue_source = (if truthy_str (ui_source u) then the (ui_source u) else ''v1/chat''),
      ue_settlement = ''settled''\<rparr>"

definition settled_job :: "settle_args \<Rightarrow> job_input \<Rightarrow> int \<Rightarrow> job_row" where
  "settled_job a j i =
     (let or_now = (\<lambda>t. case t of None \<Rightarrow> Some (sa_now a) | Some v \<Rightarrow> Some v) in
      blank_job\<lparr>jb_id := i, jb_job_id := ji_job_id j, jb_provider := truthy_id (sa_provider a),
        jb_renter := Some (sa_renter a), jb_type := ''inference'', jb_model := sa_model a,
        jb_status := JCompleted, jb_submitted_at := or_now (ji_submitted_at j),
        jb_started_at := or_now (ji_started_at j), jb_completed_at := or_now (ji_completed_at j),
        jb_duration_minutes := Some 0, jb_duration_seconds := Some (ji_duration j),
        jb_cost := Some (settle_cost a), jb_actual_cost := Some (settle_cost a),
        jb_earned := Some (settle_earned a),
        jb_prompt_tokens := Some (case sa_usage a of None \<Rightarrow> 0 | Some u \<Rightarrow> ui_prompt_tokens u),
        jb_completion_tokens := Some (case sa_usage a of None \<Rightarrow> 0 | Some u \<Rightarrow> ui_completion_tokens u),
        jb_result := (if truthy_str (ji_result j) then ji_result j else None),
        jb_notes := Some (if truthy_str (ji_notes j) then the (ji_notes j)
                          else ''v1:billingService.settleInferenceOnce''),
        jb_created_at := Some (sa_now a), jb_updated_at := Some (sa_now a), jb_priority := 8\<rparr>)"

definition claim_request :: "settle_args \<Rightarrow> db \<Rightarrow> db" where
  "claim_request a d =
     d\<lparr>billing_attempts := sql_insert
         \<lparr>ba_request_id = sa_request_id a, ba_renter = sa_renter a,
          ba_provider = truthy_id (sa_provider a), ba_cost = settle_cost a,
          ba_earned = settle_earned a, ba_status = ''settled'', ba_settled_at = sa_now a\<rparr>
         (billing_attempts d)\<rparr>"

definition pay_provider :: "settle_args \<Rightarrow> db \<Rightarrow> db" where
  "pay_provider a d =
     (case truthy_id (sa_provider a) of
        Some p \<Rightarrow> if settle_earned a > 0 then credit_provider p (settle_earned a) d else d
      | None \<Rightarrow> d)"

definition write_usage :: "settle_args \<Rightarrow> db \<Rightarrow> db" where
  "write_usage a d =
     (case sa_usage a of
        None \<Rightarrow> d
      | Some u \<Rightarrow> d\<lparr>usage_events := sql_insert_or_ignore ue_request_id (usage_row a u) (usage_events d)\<rparr>)"

definition write_job :: "settle_args \<Rightarrow> db \<Rightarrow> db" where
  "write_job a d =
     (case sa_job a of
        None \<Rightarrow> d
      | Some j \<Rightarrow> if ji_job_id j = [] then d
          else d\<lparr>jobs := sql_insert_or_ignore jb_job_id
                   (settled_job a j (next_rowid jb_id (jobs d))) (jobs d)\<rparr>)"

definition bump_renter :: "settle_args \<Rightarrow> db \<Rightarrow> db" where
  "bump_renter a d =
     d\<lparr>renters := sql_update (\<lambda>r. rn_id r = sa_renter a)
         (\<lambda>r. r\<lparr>rn_total_spent := rn_total_spent r + settle_cost a,
                rn_total_jobs := rn_total_jobs r + 1\<rparr>) (renters d)\<rparr>"

definition settleInferenceOnce :: "db \<Rightarrow> settle_args \<Rightarrow> billing_error + (db \<times> settle_result)" where
  "settleInferenceOnce d a =
     (if sa_request_id a = [] then Inl RequestIdRequired
      else if sa_request_id a \<in> set (map ba_request_id (billing_attempts d))
      then Inr (d, AlreadySettled (sql_get (\<lambda>b. ba_request_id b = sa_request_id a) (billing_attempts d)))
      else
        (let d1 = claim_request a d;
             (d2, dr) = debitSubscriptionCredits d1 (sa_renter a) (Some (of_int (settle_cost a))) (sa_now a);
             short = dr_remaining dr;
             paid = (if short > 0 then debit_renter (sa_renter a) short (sa_now a) d2 else Some d2)
         in case paid of
              None \<Rightarrow> (let b = balance_of d2 (sa_renter a)
                       in Inl (InsufficientBalance (sa_renter a) (short - b) b))
            | Some d3 \<Rightarrow>
              (let d4 = bump_renter a (write_job a (write_usage a (pay_provider a d3)))
               in Inr (d4, Settled \<lparr>se_cost = settle_cost a, se_earned = settle_earned a,
                     se_shortfall = short, se_drained = dr_drained dr,
                     se_balance_after = balance_of d4 (sa_renter a)\<rparr>))))"

text \<open>The database after a call: an exception has rolled everything back.\<close>

definition settle_db :: "db \<Rightarrow> settle_args \<Rightarrow> db" where
  "settle_db d a = (case settleInferenceOnce d a of Inl _ \<Rightarrow> d | Inr (d', _) \<Rightarrow> d')"


section \<open>The steps, one by one\<close>

text \<open>What each step leaves alone; together they say which tables a settlement may touch.\<close>

lemma claim_request_frame [simp]:
  "renters (claim_request a d) = renters d" "providers (claim_request a d) = providers d"
  "credits (claim_request a d) = credits d" "usage_events (claim_request a d) = usage_events d"
  "jobs (claim_request a d) = jobs d"
  by (simp_all add: claim_request_def)

lemma claim_request_ids [simp]:
  "map ba_request_id (billing_attempts (claim_request a d)) =
     map ba_request_id (billing_attempts d) @ [sa_request_id a]"
  by (simp add: claim_request_def sql_insert_def)

lemma credit_provider_frame [simp]:
  "renters (credit_provider p e d) = renters d" "credits (credit_provider p e d) = credits d"
  "billing_attempts (credit_provider p e d) = billing_attempts d"
  "usage_events (credit_provider p e d) = usage_events d" "jobs (credit_provider p e d) = jobs d"
  by (simp_all add: credit_provider_def)

lemma pay_provider_frame [simp]:
  "renters (pay_provider a d) = renters d" "credits (pay_provider a d) = credits d"
  "billing_attempts (pay_provider a d) = billing_attempts d"
  "usage_events (pay_provider a d) = usage_events d" "jobs (pay_provider a d) = jobs d"
  by (simp_all add: pay_provider_def split: option.splits)

lemma write_usage_frame [simp]:
  "renters (write_usage a d) = renters d" "providers (write_usage a d) = providers d"
  "credits (write_usage a d) = credits d" "billing_attempts (write_usage a d) = billing_attempts d"
  "jobs (write_usage a d) = jobs d"
  by (simp_all add: write_usage_def split: option.splits)

lemma write_job_frame [simp]:
  "renters (write_job a d) = renters d" "providers (write_job a d) = providers d"
  "credits (write_job a d) = credits d" "billing_attempts (write_job a d) = billing_attempts d"
  "usage_events (write_job a d) = usage_events d"
  by (simp_all add: write_job_def split: option.splits)

lemma bump_renter_frame [simp]:
  "providers (bump_renter a d) = providers d" "credits (bump_renter a d) = credits d"
  "billing_attempts (bump_renter a d) = billing_attempts d"
  "usage_events (bump_renter a d) = usage_events d" "jobs (bump_renter a d) = jobs d"
  by (simp_all add: bump_renter_def)

lemma debit_renter_frame:
  assumes "debit_renter r k now d = Some d'"
  shows "providers d' = providers d" "credits d' = credits d"
    "billing_attempts d' = billing_attempts d" "usage_events d' = usage_events d" "jobs d' = jobs d"
  using assms by (auto simp: debit_renter_def Let_def split: if_splits)

lemma debit_credits_frame:
  assumes "debitSubscriptionCredits d r c now = (d', s)"
  shows "renters d' = renters d" "providers d' = providers d"
    "billing_attempts d' = billing_attempts d" "usage_events d' = usage_events d" "jobs d' = jobs d"
  using debit_only_credits [OF assms] by simp_all

lemma balance_of_cong: "renters d' = renters d \<Longrightarrow> balance_of d' i = balance_of d i"
  by (simp add: balance_of_def renter_by_id_def)

lemma claimable_of_cong: "providers d' = providers d \<Longrightarrow> claimable_of d' i = claimable_of d i"
  by (simp add: claimable_of_def provider_by_id_def)

lemma remaining_cong: "credits d' = credits d \<Longrightarrow> getRemainingCreditTotal d' r now = getRemainingCreditTotal d r now"
  by (simp add: getRemainingCreditTotal_def)

lemma bump_renter_balance [simp]: "balance_of (bump_renter a d) i = balance_of d i"
proof -
  have "renter_by_id (bump_renter a d) i =
      map_option (\<lambda>r. if rn_id r = sa_renter a then r\<lparr>rn_total_spent := rn_total_spent r + settle_cost a,
        rn_total_jobs := rn_total_jobs r + 1\<rparr> else r) (renter_by_id d i)"
    unfolding renter_by_id_def bump_renter_def by (simp add: sql_get_update)
  then show ?thesis by (simp add: balance_of_def split: option.splits)
qed

text \<open>The guarded debit takes exactly its amount, from one row, and never below zero.\<close>

lemma renter_by_id_in:
  "has_key rn_id (renters d) \<Longrightarrow> r \<in> set (renters d) \<Longrightarrow> renter_by_id d (rn_id r) = Some r"
  by (simp add: renter_by_id_def sql_get_key)

lemma debit_renter_None:
  assumes key: "has_key rn_id (renters d)" and "0 < k"
  shows "debit_renter i k now d = None \<longleftrightarrow> balance_of d i < k"
proof (cases "renter_by_id d i")
  case None
  then have "\<forall>r\<in>set (renters d). rn_id r \<noteq> i" by (simp add: renter_by_id_def sql_get_None)
  with None \<open>0 < k\<close> show ?thesis
    by (auto simp: debit_renter_def Let_def sql_changes_0 balance_of_def)
next
  case (Some r)
  then have r: "r \<in> set (renters d)" "rn_id r = i"
    using sql_get_Some unfolding renter_by_id_def by fastforce+
  have "x = r" if "x \<in> set (renters d)" "rn_id x = i" for x
    using renter_by_id_in [OF key that(1)] that(2) Some by simp
  with r have "(sql_changes (\<lambda>r. rn_id r = i \<and> k \<le> rn_balance r) (renters d) = 0) = (rn_balance r < k)"
    by (force simp: sql_changes_0)
  then show ?thesis using Some by (simp add: debit_renter_def Let_def balance_of_def)
qed

lemma debit_renter_balance:
  assumes key: "has_key rn_id (renters d)" and ok: "debit_renter i k now d = Some d'"
  shows "balance_of d' j = balance_of d j - (if j = i then k else 0)"
    and "k \<le> balance_of d i" and "\<exists>r. renter_by_id d i = Some r"
proof -
  let ?P = "\<lambda>r. rn_id r = i \<and> k \<le> rn_balance r"
  obtain r where r: "r \<in> set (renters d)" "?P r"
    using ok by (auto simp: debit_renter_def Let_def sql_changes_0 split: if_splits)
  then have ri: "renter_by_id d i = Some r" using renter_by_id_in [OF key] by auto
  then show "k \<le> balance_of d i" "\<exists>r. renter_by_id d i = Some r" using r by (auto simp: balance_of_def)
  have "renter_by_id d' j = map_option (\<lambda>r. if ?P r then r\<lparr>rn_balance := rn_balance r - k,
      rn_updated_at := Some now\<rparr> else r) (renter_by_id d j)"
    using ok unfolding renter_by_id_def debit_renter_def by (auto simp: Let_def sql_get_update split: if_splits)
  then show "balance_of d' j = balance_of d j - (if j = i then k else 0)"
    using ri r by (auto simp: balance_of_def renter_by_id_def dest!: sql_get_Some split: option.splits)
qed

lemma credit_provider_claimable:
  assumes "provider_by_id d p = Some row"
  shows "claimable_of (credit_provider p e d) q = claimable_of d q + (if q = p then e else 0)"
proof -
  have "provider_by_id (credit_provider p e d) q = map_option (\<lambda>v. if pv_id v = p then
      v\<lparr>pv_claimable := pv_claimable v + e,
        pv_total_earnings := fl_add (pv_total_earnings v) (fl_div (of_int e) 100),
        pv_total_halala := Some (or0 (pv_total_halala v) + e),
        pv_total_jobs := pv_total_jobs v + 1\<rparr> else v) (provider_by_id d q)"
    unfolding provider_by_id_def credit_provider_def by (simp add: sql_get_update)
  then show ?thesis
    using assms by (auto simp: claimable_of_def provider_by_id_def dest!: sql_get_Some split: option.splits)
qed

lemma pay_provider_claimable:
  assumes "\<And>p. truthy_id (sa_provider a) = Some p \<Longrightarrow> \<exists>row. provider_by_id d p = Some row"
  shows "claimable_of (pay_provider a d) q =
     claimable_of d q + (if truthy_id (sa_provider a) = Some q then settle_earned a else 0)"
proof (cases "truthy_id (sa_provider a)")
  case None
  then show ?thesis by (simp add: pay_provider_def)
next
  case (Some p)
  have "0 \<le> settle_earned a"
    using splitCost_bounds [of "settle_cost a"] by (simp add: settle_earned_def settle_cost_def)
  then show ?thesis
    using Some assms [OF Some] credit_provider_claimable by (auto simp: pay_provider_def)
qed

section \<open>One settlement\<close>

definition settle_tail :: "settle_args \<Rightarrow> db \<Rightarrow> db" where
  "settle_tail a d = bump_renter a (write_job a (write_usage a (pay_provider a d)))"

lemma settle_tail_frame [simp]:
  "credits (settle_tail a d) = credits d" "billing_attempts (settle_tail a d) = billing_attempts d"
  "balance_of (settle_tail a d) i = balance_of d i"
  "claimable_of (settle_tail a d) i = claimable_of (pay_provider a d) i"
proof -
  show "credits (settle_tail a d) = credits d" "billing_attempts (settle_tail a d) = billing_attempts d"
    by (simp_all add: settle_tail_def)
  show "balance_of (settle_tail a d) i = balance_of d i"
    by (simp add: settle_tail_def) (simp add: balance_of_def renter_by_id_def)
  show "claimable_of (settle_tail a d) i = claimable_of (pay_provider a d) i"
    by (simp add: settle_tail_def claimable_of_def provider_by_id_def)
qed

lemma settled_cases:
  assumes "settleInferenceOnce d a = Inr (d', Settled x)"
  obtains d2 dr d3 where
    "sa_request_id a \<noteq> []"
    "sa_request_id a \<notin> set (map ba_request_id (billing_attempts d))"
    "debitSubscriptionCredits (claim_request a d) (sa_renter a) (Some (of_int (settle_cost a))) (sa_now a) = (d2, dr)"
    "(if dr_remaining dr > 0 then debit_renter (sa_renter a) (dr_remaining dr) (sa_now a) d2 else Some d2) = Some d3"
    "d' = settle_tail a d3"
    "x = \<lparr>se_cost = settle_cost a, se_earned = settle_earned a, se_shortfall = dr_remaining dr,
          se_drained = dr_drained dr, se_balance_after = balance_of d' (sa_renter a)\<rparr>"
  using assms unfolding settleInferenceOnce_def settle_tail_def
  by (auto simp: Let_def split: if_splits prod.splits option.splits)

lemma settle_cost_nonneg [simp]: "0 \<le> settle_cost a"
  by (simp add: settle_cost_def)

lemma floor0_of_int [simp]: "floor0 (Some (of_int n)) = max 0 n"
  by (simp add: floor0_def)

lemma settle_earned_bounds: "0 \<le> settle_earned a \<and> settle_earned a \<le> settle_cost a"
  using splitCost_bounds [of "settle_cost a"] by (simp add: settle_earned_def)

text \<open>What the request is asked to pay, against what the renter has.\<close>

definition shortfall_of :: "db \<Rightarrow> settle_args \<Rightarrow> int" where
  "shortfall_of d a = max 0 (settle_cost a - getRemainingCreditTotal d (sa_renter a) (sa_now a))"

lemma settle_debit:
  assumes "debitSubscriptionCredits (claim_request a d) (sa_renter a) (Some (of_int (settle_cost a))) (sa_now a) = (d2, dr)"
  shows "dr_remaining dr = shortfall_of d a" "dr_drained dr + dr_remaining dr = settle_cost a"
    "0 \<le> dr_drained dr" "renters d2 = renters d" "providers d2 = providers d"
proof -
  have "getRemainingCreditTotal (claim_request a d) (sa_renter a) (sa_now a) =
      getRemainingCreditTotal d (sa_renter a) (sa_now a)"
    by (simp add: getRemainingCreditTotal_def)
  then show "dr_remaining dr = shortfall_of d a" "dr_drained dr + dr_remaining dr = settle_cost a"
    "0 \<le> dr_drained dr"
    using debit_split [OF assms] by (simp_all add: shortfall_of_def)
  show "renters d2 = renters d" "providers d2 = providers d"
    using debit_credits_frame [OF assms] by simp_all
qed

lemma sum_effective:
  "eb_total (getEffectiveBalance d r now) = balance_of d r + getRemainingCreditTotal d r now"
proof -
  have "map (\<lambda>g. max 0 (sc_amount g - sc_consumed g)) (getAvailableCredits d r now) =
      map grant_left (getAvailableCredits d r now)"
    by (rule map_cong) (auto simp: set_getAvailableCredits spendable_def grant_left_def)
  then show ?thesis
    unfolding getEffectiveBalance_def Let_def by (simp only: effective_balance.simps sum_getAvailableCredits)
qed

lemma settle_fresh_outcome:
  assumes key: "has_key rn_id (renters d)" and req: "sa_request_id a \<noteq> []"
    and fresh: "sa_request_id a \<notin> set (map ba_request_id (billing_attempts d))"
  shows "(\<exists>d' x. settleInferenceOnce d a = Inr (d', Settled x)) \<longleftrightarrow>
     shortfall_of d a = 0 \<or> shortfall_of d a \<le> balance_of d (sa_renter a)"
    and "settleInferenceOnce d a = Inl e \<Longrightarrow>
     e = InsufficientBalance (sa_renter a) (shortfall_of d a - balance_of d (sa_renter a)) (balance_of d (sa_renter a))"
    and "settleInferenceOnce d a \<noteq> Inr (d', AlreadySettled b)"
proof -
  obtain d2 dr where deb: "debitSubscriptionCredits (claim_request a d) (sa_renter a)
      (Some (of_int (settle_cost a))) (sa_now a) = (d2, dr)" by (cases "debitSubscriptionCredits
        (claim_request a d) (sa_renter a) (Some (of_int (settle_cost a))) (sa_now a)")
  note s = settle_debit [OF deb]
  have bal: "balance_of d2 (sa_renter a) = balance_of d (sa_renter a)" using s(4) by (rule balance_of_cong)
  have none: "0 < shortfall_of d a \<Longrightarrow>
      debit_renter (sa_renter a) (shortfall_of d a) (sa_now a) d2 = None \<longleftrightarrow>
      balance_of d (sa_renter a) < shortfall_of d a"
    using debit_renter_None [of d2 "shortfall_of d a"] key s(4) bal by simp
  have nn: "0 \<le> shortfall_of d a" by (simp add: shortfall_of_def)
  show "(\<exists>d' x. settleInferenceOnce d a = Inr (d', Settled x)) \<longleftrightarrow>
     shortfall_of d a = 0 \<or> shortfall_of d a \<le> balance_of d (sa_renter a)"
    using req fresh none nn by (auto simp: settleInferenceOnce_def deb s(1) Let_def not_less split: option.splits)
  show "settleInferenceOnce d a = Inl e \<Longrightarrow>
     e = InsufficientBalance (sa_renter a) (shortfall_of d a - balance_of d (sa_renter a)) (balance_of d (sa_renter a))"
    using req fresh bal by (auto simp: settleInferenceOnce_def deb s(1) Let_def split: option.splits if_splits)
  show "settleInferenceOnce d a \<noteq> Inr (d', AlreadySettled b)"
    using req fresh by (auto simp: settleInferenceOnce_def deb Let_def split: option.splits)
qed

lemma debit_renter_total:
  assumes key: "has_key rn_id (renters d)" and ok: "debit_renter i k now d = Some d'"
  shows "total_balance d' = total_balance d - k"
proof -
  obtain r where r: "r \<in> set (renters d)" "rn_id r = i" "k \<le> rn_balance r"
    using ok by (auto simp: debit_renter_def Let_def sql_changes_0 split: if_splits)
  have "renters d' = sql_update (\<lambda>x. rn_id x = rn_id r \<and> k \<le> rn_balance x)
      (\<lambda>x. x\<lparr>rn_balance := rn_balance x - k, rn_updated_at := Some now\<rparr>) (renters d)"
    using ok r by (auto simp: debit_renter_def Let_def split: if_splits)
  then show ?thesis using sum_list_update_key [OF key r(1), of "\<lambda>x. k \<le> rn_balance x" rn_balance] r(3)
    by (simp add: total_balance_def)
qed

lemma settle_tail_total [simp]: "total_balance (settle_tail a d) = total_balance d"
  by (simp add: settle_tail_def total_balance_def bump_renter_def map_sql_update)

lemma debit_renter_ids: "debit_renter i k now d = Some d' \<Longrightarrow> map rn_id (renters d') = map rn_id (renters d)"
  by (auto simp: debit_renter_def Let_def map_sql_update split: if_splits)

lemma bump_renter_ids [simp]: "map rn_id (renters (bump_renter a d)) = map rn_id (renters d)"
  by (simp add: bump_renter_def map_sql_update)

lemma settle_tail_ids [simp]: "map rn_id (renters (settle_tail a d)) = map rn_id (renters d)"
  by (simp add: settle_tail_def)

lemma settled_attempts:
  assumes ok: "settleInferenceOnce d a = Inr (d', Settled x)"
  shows "billing_attempts d' = billing_attempts (claim_request a d)"
proof -
  obtain d2 dr d3 where c: "sa_request_id a \<noteq> []"
    "debitSubscriptionCredits (claim_request a d) (sa_renter a) (Some (of_int (settle_cost a))) (sa_now a) = (d2, dr)"
    "(if dr_remaining dr > 0 then debit_renter (sa_renter a) (dr_remaining dr) (sa_now a) d2 else Some d2) = Some d3"
    "d' = settle_tail a d3"
    using settled_cases [OF ok] by metis
  then show ?thesis
    using debit_renter_frame(3) [of _ _ _ d2 d3] debit_credits_frame(3) [OF c(2)] by (auto split: if_splits)
qed

text \<open>Everything a settlement that went through did to the money.\<close>

lemma settled_effect:
  assumes key: "has_key rn_id (renters d)" "has_key sc_id (credits d)"
    and ok: "settleInferenceOnce d a = Inr (d', Settled x)"
  shows "se_cost x = settle_cost a" "se_earned x = settle_earned a" "se_shortfall x = shortfall_of d a"
    "se_drained x + se_shortfall x = settle_cost a" "0 \<le> se_drained x"
    "total_consumed (credits d') = total_consumed (credits d) + se_drained x"
    "balance_of d' i = balance_of d i - (if i = sa_renter a then se_shortfall x else 0)"
    "total_balance d' = total_balance d - se_shortfall x"
    "billing_attempts d' = billing_attempts (claim_request a d)"
    "map rn_id (renters d') = map rn_id (renters d)" "map sc_id (credits d') = map sc_id (credits d)"
    "credits_ok (credits d) \<Longrightarrow> credits_ok (credits d')"
    "se_shortfall x = 0 \<or> se_shortfall x \<le> balance_of d (sa_renter a)"
    "se_balance_after x = balance_of d' (sa_renter a)"
proof -
  obtain d2 dr d3 where c: "sa_request_id a \<noteq> []"
    "sa_request_id a \<notin> set (map ba_request_id (billing_attempts d))"
    "debitSubscriptionCredits (claim_request a d) (sa_renter a) (Some (of_int (settle_cost a))) (sa_now a) = (d2, dr)"
    "(if dr_remaining dr > 0 then debit_renter (sa_renter a) (dr_remaining dr) (sa_now a) d2 else Some d2) = Some d3"
    "d' = settle_tail a d3"
    "x = \<lparr>se_cost = settle_cost a, se_earned = settle_earned a, se_shortfall = dr_remaining dr,
          se_drained = dr_drained dr, se_balance_after = balance_of d' (sa_renter a)\<rparr>"
    by (rule settled_cases [OF ok])
  note s = settle_debit [OF c(3)] and f = debit_credits_frame [OF c(3)]
  have k2: "has_key rn_id (renters d2)" using key s(4) by simp
  have b2: "balance_of d2 j = balance_of d j" for j using s(4) by (rule balance_of_cong)
  have d3: "credits d3 = credits d2" "billing_attempts d3 = billing_attempts d2"
    "map rn_id (renters d3) = map rn_id (renters d2)"
    using c(4) debit_renter_frame [of _ _ _ d2 d3] debit_renter_ids [of _ _ _ d2 d3] by (auto split: if_splits)
  have nn: "0 \<le> dr_remaining dr" using s(1) by (simp add: shortfall_of_def)
  show "se_cost x = settle_cost a" "se_earned x = settle_earned a" "se_shortfall x = shortfall_of d a"
    "se_drained x + se_shortfall x = settle_cost a" "0 \<le> se_drained x"
    "se_balance_after x = balance_of d' (sa_renter a)"
    using s c(6) by simp_all
  show "total_consumed (credits d') = total_consumed (credits d) + se_drained x"
    using debit_total [OF _ c(3)] key(2) c(5,6) d3 by simp
  show "balance_of d' i = balance_of d i - (if i = sa_renter a then se_shortfall x else 0)"
    using debit_renter_balance(1) [OF k2, of "sa_renter a" "dr_remaining dr" "sa_now a" d3 i] c(4,5,6) b2 nn
    by (auto split: if_splits)
  have "total_balance d2 = total_balance d" using s(4) by (simp add: total_balance_def)
  then show "total_balance d' = total_balance d - se_shortfall x"
    using debit_renter_total [OF k2, of "sa_renter a" "dr_remaining dr" "sa_now a" d3] c(4,5,6) nn
    by (auto split: if_splits)
  show "se_shortfall x = 0 \<or> se_shortfall x \<le> balance_of d (sa_renter a)"
    using debit_renter_balance(2) [OF k2, of "sa_renter a" "dr_remaining dr" "sa_now a" d3] c(4,6) b2 nn
    by (auto split: if_splits)
  show "billing_attempts d' = billing_attempts (claim_request a d)" using c(5) d3 f by simp
  show "map rn_id (renters d') = map rn_id (renters d)" using c(5) d3 s(4) by simp
  show "map sc_id (credits d') = map sc_id (credits d)" using debit_ids [OF c(3)] c(5) d3 by simp
  show "credits_ok (credits d) \<Longrightarrow> credits_ok (credits d')"
    using debit_ok [OF c(3)] c(5) d3 by simp
qed

text \<open>A provider that has a row is credited its share, once, and nobody else is.\<close>

lemma settled_claimable:
  assumes ok: "settleInferenceOnce d a = Inr (d', Settled x)"
    and pv: "\<And>p. truthy_id (sa_provider a) = Some p \<Longrightarrow> \<exists>row. provider_by_id d p = Some row"
  shows "claimable_of d' q = claimable_of d q + (if truthy_id (sa_provider a) = Some q then settle_earned a else 0)"
proof -
  obtain d2 dr d3 where c:
    "debitSubscriptionCredits (claim_request a d) (sa_renter a) (Some (of_int (settle_cost a))) (sa_now a) = (d2, dr)"
    "(if dr_remaining dr > 0 then debit_renter (sa_renter a) (dr_remaining dr) (sa_now a) d2 else Some d2) = Some d3"
    "d' = settle_tail a d3"
    by (rule settled_cases [OF ok])
  have pr: "providers d3 = providers d"
    using c(2) debit_renter_frame(1) [of _ _ _ d2 d3] debit_credits_frame(2) [OF c(1)] by (auto split: if_splits)
  then have "\<And>p. truthy_id (sa_provider a) = Some p \<Longrightarrow> \<exists>row. provider_by_id d3 p = Some row"
    using pv by (simp add: provider_by_id_def)
  from pay_provider_claimable [OF this] show ?thesis
    using c(3) claimable_of_cong [OF pr] by simp
qed

section \<open>Sequences of settlements\<close>

text \<open>
  The books: what renters hold, less what was taken from their grants, plus everything
  ever charged. A settlement moves value between the three and never changes the sum.
\<close>

definition charged :: "db \<Rightarrow> int" where
  "charged d = sum_list (map ba_cost (billing_attempts d))"

definition books :: "db \<Rightarrow> int" where
  "books d = total_balance d - total_consumed (credits d) + charged d"

definition money_keys :: "db \<Rightarrow> bool" where
  "money_keys d = (has_key rn_id (renters d) \<and> has_key sc_id (credits d))"

definition solvent :: "db \<Rightarrow> bool" where
  "solvent d = (money_keys d \<and> (\<forall>i. 0 \<le> balance_of d i) \<and> credits_ok (credits d))"

definition request_ids :: "db \<Rightarrow> string set" where
  "request_ids d = set (map ba_request_id (billing_attempts d))"

lemma settle_db_cases:
  "settle_db d a = d \<or> (\<exists>d' x. settleInferenceOnce d a = Inr (d', Settled x) \<and> settle_db d a = d')"
proof (cases "settleInferenceOnce d a")
  case (Inr p)
  then show ?thesis
    by (cases p; cases "snd p")
       (auto simp: settle_db_def settleInferenceOnce_def Let_def split: if_splits prod.splits option.splits)
qed (simp add: settle_db_def)

lemma money_keys_ids:
  "map rn_id (renters d') = map rn_id (renters d) \<Longrightarrow> map sc_id (credits d') = map sc_id (credits d) \<Longrightarrow>
     money_keys d' = money_keys d"
  by (simp add: money_keys_def has_key_def)

lemma settle_db_keys: "money_keys d \<Longrightarrow> money_keys (settle_db d a)"
proof -
  assume k: "money_keys d"
  show ?thesis using settle_db_cases [of d a]
  proof (elim disjE exE conjE)
    fix d' x assume ok: "settleInferenceOnce d a = Inr (d', Settled x)" and d': "settle_db d a = d'"
    note e = settled_effect [OF k [unfolded money_keys_def, THEN conjunct1]
        k [unfolded money_keys_def, THEN conjunct2] ok]
    show ?thesis using k money_keys_ids [OF e(10,11)] d' by simp
  qed (simp add: k)
qed

interpretation settling: once_only settle_db sa_request_id "\<lambda>d k. k \<in> request_ids d"
proof
  show "sa_request_id a \<in> request_ids d \<Longrightarrow> settle_db d a = d" for d a
    by (auto simp: settle_db_def settleInferenceOnce_def request_ids_def)
  have keep: "request_ids d' = insert (sa_request_id a) (request_ids d)"
    if "settleInferenceOnce d a = Inr (d', Settled x)" for d d' a x
    using settled_attempts [OF that] by (simp add: request_ids_def flip: set_map)
  show "settle_db d a = d \<or> sa_request_id a \<in> request_ids (settle_db d a)" for d a
    using settle_db_cases [of d a] keep by auto
  show "k \<in> request_ids d \<Longrightarrow> k \<in> request_ids (settle_db d a)" for d a k
    using settle_db_cases [of d a] keep by auto
qed

interpretation settle_books: conserved settle_db books money_keys "\<lambda>_ _. 0"
proof
  show "money_keys d \<Longrightarrow> money_keys (settle_db d a)" for d a by (rule settle_db_keys)
  show "books (settle_db d a) = books d + 0" if k: "money_keys d" for d a
    using settle_db_cases [of d a]
  proof (elim disjE exE conjE)
    fix d' x assume ok: "settleInferenceOnce d a = Inr (d', Settled x)" and d': "settle_db d a = d'"
    note e = settled_effect [OF k [unfolded money_keys_def, THEN conjunct1]
        k [unfolded money_keys_def, THEN conjunct2] ok]
    show ?thesis using e(4,6,8,9) d'
      by (simp add: books_def charged_def claim_request_def sql_insert_def)
  qed simp
qed simp

interpretation settle_solvent: preserved settle_db solvent
proof
  show "solvent (settle_db d a)" if s: "solvent d" for d a
    using settle_db_cases [of d a]
  proof (elim disjE exE conjE)
    fix d' x assume ok: "settleInferenceOnce d a = Inr (d', Settled x)" and d': "settle_db d a = d'"
    from s have k: "has_key rn_id (renters d)" "has_key sc_id (credits d)"
      by (simp_all add: solvent_def money_keys_def)
    note e = settled_effect [OF k ok]
    have "0 \<le> balance_of d' i" for i
    proof -
      have "0 \<le> balance_of d i" "0 \<le> balance_of d (sa_renter a)" using s by (simp_all add: solvent_def)
      with e(7) [of i] e(13) show ?thesis by (cases "i = sa_renter a") auto
    qed
    then show ?thesis
      using s e(12) settle_db_keys [of d a] d' by (simp add: solvent_def)
  qed (simp add: s)
qed

section \<open>The estimate in floating point\<close>

lemma fl_between:
  fixes n :: int
  assumes n: "0 \<le> n" "n < 2 ^ 53" and k: "of_int k < (of_int n / 1000000 :: rat)"
  shows "of_int k < fl (of_int n / 1000000 :: rat)"
proof -
  let ?x = "of_int n / 1000000 :: rat"
  have "(of_int (k * 1000000) :: rat) < of_int n" using k by (simp add: field_simps)
  then have "k * 1000000 + 1 \<le> n" unfolding of_int_less_iff by simp
  then have "(of_int (k * 1000000 + 1) :: rat) \<le> of_int n" unfolding of_int_le_iff .
  then have gap: "of_int k + 1 / 1000000 \<le> ?x" by (simp add: field_simps)
  have "(of_int n :: rat) < of_int (2 ^ 53)" using n(2) unfolding of_int_less_iff .
  then have "\<bar>?x\<bar> / 2 ^ 53 < 1 / 1000000" using n(1) by simp
  with fl_error [of ?x] have "?x - 1 / 1000000 < fl ?x" by linarith
  with gap show ?thesis by linarith
qed

lemma fl_at_most:
  fixes n :: int
  assumes n: "0 \<le> n" "n < 2 ^ 53" and k: "(of_int n / 1000000 :: rat) \<le> of_int k" "\<bar>k\<bar> \<le> 2 ^ 53"
  shows "fl (of_int n / 1000000 :: rat) \<le> of_int k"
proof (cases "(of_int n / 1000000 :: rat) = of_int k")
  case True
  then show ?thesis using fl_of_int [OF k(2)] by simp
next
  case False
  let ?x = "of_int n / 1000000 :: rat"
  from False k have "?x < of_int k" by simp
  then have "(of_int n :: rat) < of_int (k * 1000000)" by (simp add: field_simps)
  then have "n + 1 \<le> k * 1000000" unfolding of_int_less_iff by simp
  then have "(of_int (n + 1) :: rat) \<le> of_int (k * 1000000)" unfolding of_int_le_iff .
  then have gap: "?x + 1 / 1000000 \<le> of_int k" by (simp add: field_simps)
  have "(of_int n :: rat) < of_int (2 ^ 53)" using n(2) unfolding of_int_less_iff .
  then have "\<bar>?x\<bar> / 2 ^ 53 < 1 / 1000000" using n(1) by simp
  with fl_error [of ?x] gap show ?thesis by linarith
qed

lemma ceiling_fl_million:
  assumes "0 \<le> n" "n < 2 ^ 53"
  shows "\<lceil>fl (of_int n / 1000000 :: rat)\<rceil> = \<lceil>of_int n / 1000000 :: rat\<rceil>"
proof (rule ceiling_unique)
  let ?x = "of_int n / 1000000 :: rat"
  have "of_int (\<lceil>?x\<rceil> - 1) < ?x" by linarith
  from fl_between [OF assms this] show "of_int \<lceil>?x\<rceil> - 1 < fl ?x" by simp
  have "0 \<le> \<lceil>?x\<rceil>" using assms(1) by simp
  moreover have "?x \<le> of_int n" using assms(1) by simp
  then have "\<lceil>?x\<rceil> \<le> n" by (simp add: ceiling_le_iff)
  ultimately have "\<bar>\<lceil>?x\<rceil>\<bar> \<le> 2 ^ 53" using assms(2) by simp
  from fl_at_most [OF assms le_of_int_ceiling this] show "fl ?x \<le> of_int \<lceil>?x\<rceil>" .
qed

lemma per_million_int:
  assumes "0 \<le> t * r" "t * r < 2 ^ 53"
  shows "per_million t (of_int r) = \<lceil>of_int (t * r) / 1000000 :: rat\<rceil>"
proof -
  have "fl (of_int t * of_int r) = of_int (t * r)" using fl_of_int [of "t * r"] assms by simp
  then show ?thesis using ceiling_fl_million [OF assms] by (simp add: per_million_def fl_ops)
qed

section \<open>What a settlement promises\<close>

definition demo_settle :: settle_args where
  "demo_settle =
     \<lparr>sa_request_id = ''req-1'', sa_renter = 1, sa_provider = Some 7, sa_cost = Some (of_int 301),
      sa_model = ''m'', sa_usage = None, sa_job = None, sa_now = 1000\<rparr>"

definition demo_grant :: credit_grant where
  "demo_grant =
     \<lparr>sc_id = 1, sc_subscription = 1, sc_renter = 1, sc_granted_at = 0, sc_amount = 100,
      sc_consumed = 0, sc_expires_at = 5000, sc_source = ''monthly_grant'', sc_created_at = 0\<rparr>"

definition demo_sub_db :: db where
  "demo_sub_db = demo_db\<lparr>credits := [demo_grant]\<rparr>"

lemma demo_sub [simp]:
  "renters demo_sub_db = [demo_renter]" "credits demo_sub_db = [demo_grant]"
  "billing_attempts demo_sub_db = []" "provider_by_id demo_sub_db 7 = Some demo_provider"
  "balance_of demo_sub_db 1 = 1000" "money_keys demo_sub_db"
  by (simp_all add: demo_sub_db_def provider_by_id_def balance_of_def renter_by_id_def sql_get_def
      demo_provider_def demo_renter_def money_keys_def has_key_def)

lemma demo_settle_simps [simp]:
  "sa_request_id demo_settle = ''req-1''" "sa_renter demo_settle = 1" "settle_cost demo_settle = 301"
  "settle_earned demo_settle = 225" "truthy_id (sa_provider demo_settle) = Some 7" "sa_now demo_settle = 1000"
  unfolding settle_earned_def settle_cost_def
  by (simp_all add: demo_settle_def truthy_id_def splitCost_def Let_def PROVIDER_SHARE_def ceil0_def)

lemma demo_shortfall [simp]: "shortfall_of demo_sub_db demo_settle = 201"
  by (simp add: shortfall_of_def getRemainingCreditTotal_def sql_sum_def spendable_def demo_grant_def)

lemma demo_settles: "\<exists>d' x. settleInferenceOnce demo_sub_db demo_settle = Inr (d', Settled x)"
proof -
  have "has_key rn_id (renters demo_sub_db)" by (simp add: has_key_def)
  from settle_fresh_outcome(1) [OF this, of demo_settle] show ?thesis by simp
qed

text \<open>
  C1: A settled request is paid for exactly: the part drained from subscription credits and
  the part debited from the balance add up to its cost, the grants are consumed by the first
  and the renter's balance falls by the second, no other balance moves, and the provider (when
  it has a row) can claim its three quarters, rounded down, and no other provider anything.
\<close>

theorem settle_accounts:
  assumes "money_keys d" and "settleInferenceOnce d a = Inr (d', Settled x)"
    and "\<And>p. truthy_id (sa_provider a) = Some p \<Longrightarrow> \<exists>row. provider_by_id d p = Some row"
  shows "se_drained x + se_shortfall x = settle_cost a
    \<and> se_shortfall x = max 0 (settle_cost a - getRemainingCreditTotal d (sa_renter a) (sa_now a))
    \<and> total_consumed (credits d') = total_consumed (credits d) + se_drained x
    \<and> (\<forall>i. balance_of d' i = balance_of d i - (if i = sa_renter a then se_shortfall x else 0))
    \<and> (\<forall>p. claimable_of d' p = claimable_of d p +
          (if truthy_id (sa_provider a) = Some p then (settle_cost a * 75) div 100 else 0))"
proof -
  have k: "has_key rn_id (renters d)" "has_key sc_id (credits d)"
    using assms(1) by (simp_all add: money_keys_def)
  have c: "claimable_of d' p = claimable_of d p +
      (if truthy_id (sa_provider a) = Some p then (settle_cost a * 75) div 100 else 0)" for p
    using settled_claimable [OF assms(2,3), of p]
    by (auto simp: settle_earned_def splitCost_def Let_def PROVIDER_SHARE_def)
  show ?thesis
    using settled_effect(3,4,6,7) [OF k assms(2)] c by (auto simp: shortfall_of_def)
qed

theorem settle_accounts_witness:
  "\<exists>d' x. settleInferenceOnce demo_sub_db demo_settle = Inr (d', Settled x) \<and> se_drained x = 100
     \<and> balance_of d' 1 = 799 \<and> claimable_of d' 7 = claimable_of demo_sub_db 7 + 225"
proof -
  obtain d' x where ok: "settleInferenceOnce demo_sub_db demo_settle = Inr (d', Settled x)"
    using demo_settles by blast
  have sh: "max 0 (settle_cost demo_settle - getRemainingCreditTotal demo_sub_db 1 1000) = 201"
    using demo_shortfall by (simp add: shortfall_of_def)
  have "se_drained x = 100 \<and> balance_of d' 1 = 799 \<and> claimable_of d' 7 = claimable_of demo_sub_db 7 + 225"
    using settle_accounts [OF _ ok] sh by auto
  with ok show ?thesis by blast
qed



text \<open>
  C3: A request id is charged once. After a settlement that went through, replaying the id
  anywhere in any later sequence of settlements, with whatever arguments, changes nothing:
  the sequence ends in the database it would reach without the replays.
\<close>

theorem settle_replay:
  assumes "settleInferenceOnce d a = Inr (d', Settled x)"
  shows "foldl settle_db d' as = foldl settle_db d' (filter (\<lambda>b. sa_request_id b \<noteq> sa_request_id a) as)"
proof -
  have "sa_request_id a \<in> request_ids d'"
    using settled_attempts [OF assms] by (simp add: request_ids_def flip: set_map)
  then show ?thesis by (rule settling.drop_marked)
qed

theorem settle_replay_witness:
  "\<exists>d' x. settleInferenceOnce demo_sub_db demo_settle = Inr (d', Settled x) \<and>
     settle_db d' (demo_settle\<lparr>sa_cost := Some (of_int 5)\<rparr>) = d'"
proof -
  obtain d' x where ok: "settleInferenceOnce demo_sub_db demo_settle = Inr (d', Settled x)"
    using demo_settles by blast
  have "sa_request_id (demo_settle\<lparr>sa_cost := Some (of_int 5)\<rparr>) = sa_request_id demo_settle" by simp
  with settle_replay [OF ok, of "[demo_settle\<lparr>sa_cost := Some (of_int 5)\<rparr>]"] ok show ?thesis by auto
qed

text \<open>
  C4: No sequence of settlements creates or loses a halala: what the renters hold, less what
  was consumed of their grants, plus the sum of all recorded charges stays the same, whichever
  requests succeed, fail or are repeated.
\<close>

theorem settlements_conserve:
  assumes "money_keys d"
  shows "total_balance (foldl settle_db d as) - total_consumed (credits (foldl settle_db d as))
      + sum_list (map ba_cost (billing_attempts (foldl settle_db d as)))
    = total_balance d - total_consumed (credits d) + sum_list (map ba_cost (billing_attempts d))"
  using settle_books.amount_kept [OF assms, of as] by (simp add: books_def charged_def)

theorem settlements_conserve_witness:
  "total_balance (settle_db demo_sub_db demo_settle)
     - total_consumed (credits (settle_db demo_sub_db demo_settle))
     + sum_list (map ba_cost (billing_attempts (settle_db demo_sub_db demo_settle))) = 1000"
  using settlements_conserve [of demo_sub_db "[demo_settle]"]
  by (simp add: total_balance_def total_consumed_def demo_renter_def demo_grant_def)

text \<open>
  Settling never overdraws. From a database with distinct keys, no negative balance and no
  grant consumed beyond its amount, every sequence of settlements leads to one of the same kind.
\<close>

theorem settlements_solvent:
  assumes "money_keys d" and "\<forall>i. 0 \<le> balance_of d i" and "\<forall>g\<in>set (credits d). sc_consumed g \<le> sc_amount g"
  shows "(\<forall>i. 0 \<le> balance_of (foldl settle_db d as) i)
    \<and> (\<forall>g\<in>set (credits (foldl settle_db d as)). sc_consumed g \<le> sc_amount g)"
  using settle_solvent.inv_run_all [of d as] assms by (simp add: solvent_def credits_ok_def)

lemma demo_nonneg: "0 \<le> balance_of demo_sub_db i"
  by (simp add: balance_of_def renter_by_id_def sql_get_def demo_renter_def)

theorem settlements_solvent_witness:
  "0 \<le> balance_of (foldl settle_db demo_sub_db [demo_settle, demo_settle]) 1"
  using settlements_solvent [of demo_sub_db "[demo_settle, demo_settle]"] demo_nonneg
  by (simp add: demo_grant_def)

text \<open>
  The pre-flight gate is sound: when it lets a request pass for an estimate, a settlement
  at that instant with an actual cost within the estimate goes through. When it refuses, the
  deficit it reports is the amount missing.
\<close>

theorem gate_then_settles:
  assumes "money_keys d" and "ga_ok (checkBalanceGate d (sa_renter a) est (sa_now a))"
    and "settle_cost a \<le> ceil0 est" and "sa_request_id a \<noteq> []" and "sa_request_id a \<notin> request_ids d"
  shows "\<exists>d' x. settleInferenceOnce d a = Inr (d', Settled x)"
proof -
  have k: "has_key rn_id (renters d)" using assms(1) by (simp add: money_keys_def)
  have "ceil0 est \<le> balance_of d (sa_renter a) + getRemainingCreditTotal d (sa_renter a) (sa_now a)"
    using assms(2) by (simp add: checkBalanceGate_def Let_def sum_effective split: if_splits)
  with assms(3) show ?thesis
    using settle_fresh_outcome(1) [OF k assms(4) assms(5) [unfolded request_ids_def]]
    by (auto simp: shortfall_of_def max_def)
qed

theorem gate_then_settles_witness:
  "ga_ok (checkBalanceGate demo_sub_db 1 (Some (of_int 400)) 1000)
     \<and> (\<exists>d' x. settleInferenceOnce demo_sub_db demo_settle = Inr (d', Settled x))"
proof -
  have g: "ga_ok (checkBalanceGate demo_sub_db 1 (Some (of_int 400)) 1000)"
    unfolding checkBalanceGate_def Let_def sum_effective ceil0_of_int
    by (simp add: getRemainingCreditTotal_def sql_sum_def spendable_def demo_grant_def)
  with gate_then_settles [of demo_sub_db demo_settle "Some (of_int 400)"] show ?thesis
    unfolding ceil0_of_int by (simp add: request_ids_def)
qed

text \<open>
  A scoped key with a cap never lets the month's recorded spend grow past the cap: when
  the gate passes a request and both reads succeed, what the key spent in the month plus the
  estimate stays within the cap; and what it refuses would have exceeded it. A failed read
  always lets the request pass.
\<close>

theorem scoped_cap_holds:
  fixes d :: db
  assumes "sql_get (\<lambda>k. rk_id k = kid \<and> rk_renter k = renter \<and> rk_revoked_at k = None) (renter_api_keys d) = Some row"
    and "0 < rk_cap row" and "strip kid = kid" and "kid \<noteq> []"
  shows "cg_ok (checkScopedKeyBudgetCap d renter (Some kid) est False False month) =
           (max 0 (month_spend d (\<lambda>u. ul_renter u = renter \<and> ul_api_key_id u = Some kid) month)
              + ceil0 est \<le> rk_cap row)
    \<and> cg_ok (checkScopedKeyBudgetCap d renter (Some kid) est True sum_throws month)
    \<and> cg_ok (checkScopedKeyBudgetCap d renter (Some kid) est cap_throws True month)"
  using assms by (auto simp: checkScopedKeyBudgetCap_def Let_def cap_decision_def uncapped_def)

definition demo_key_db :: db where
  "demo_key_db = demo_db\<lparr>renter_api_keys := [\<lparr>rk_id = ''k1'', rk_renter = 1, rk_cap = 500, rk_revoked_at = None\<rparr>],
     usage_ledger := [\<lparr>ul_renter = 1, ul_api_key_id = Some ''k1'', ul_cost = 450, ul_month = ''2026-05''\<rparr>]\<rparr>"

theorem scoped_cap_holds_witness:
  "\<not> cg_ok (checkScopedKeyBudgetCap demo_key_db 1 (Some ''k1'') (Some (of_int 51)) False False ''2026-05'')"
proof -
  let ?row = "\<lparr>rk_id = ''k1'', rk_renter = 1, rk_cap = 500, rk_revoked_at = None\<rparr>"
  have "sql_get (\<lambda>k. rk_id k = ''k1'' \<and> rk_renter k = 1 \<and> rk_revoked_at k = None) (renter_api_keys demo_key_db) = Some ?row"
    by (simp add: demo_key_db_def sql_get_def)
  from scoped_cap_holds [OF this, of "Some (of_int 51)" "''2026-05''"] show ?thesis
    unfolding ceil0_of_int by (simp add: strip_def month_spend_def sql_sum_def demo_key_db_def)
qed

text \<open>
  The estimate is exact although it is computed in floating point: with integral rates
  and token counts whose products stay below \<open>2^53\<close>, it is the sum of the two exact
  ceilings of tokens times rate over a million, and at least 1.
\<close>

theorem estimate_exact:
  fixes r_in r_out :: int
  assumes "0 \<le> r_in" "0 \<le> r_out" "r_in > 0 \<or> r_out > 0"
    and "es_in_rate a = of_int r_in" "es_out_rate a = of_int r_out"
    and "floor0 (es_prompt a) * r_in < 2 ^ 53" "floor0 (es_max_completion a) * r_out < 2 ^ 53"
  shows "estimateInferenceCost a = max 1
     (\<lceil>of_int (floor0 (es_prompt a) * r_in) / 1000000 :: rat\<rceil>
      + \<lceil>of_int (floor0 (es_max_completion a) * r_out) / 1000000 :: rat\<rceil>)"
  using assms by (simp add: estimateInferenceCost_def Let_def per_million_int)

theorem estimate_exact_witness:
  "estimateInferenceCost \<lparr>es_prompt = Some (of_int 1000001), es_max_completion = Some (of_int 10), es_token_rate = 0,
     es_in_rate = of_int 30, es_out_rate = of_int 90, es_fallback_per_min = 0\<rparr> = 32"
proof -
  have "\<lceil>30000030 / 1000000 :: rat\<rceil> = 31" "\<lceil>900 / 1000000 :: rat\<rceil> = 1" by (simp_all add: ceiling_eq_iff)
  then show ?thesis
    using estimate_exact [of 30 90 "\<lparr>es_prompt = Some (of_int 1000001), es_max_completion = Some (of_int 10),
      es_token_rate = 0, es_in_rate = of_int 30, es_out_rate = of_int 90, es_fallback_per_min = 0\<rparr>"]
    unfolding estimate_args.simps floor0_of_int by simp
qed
end
