(* ===== verification/BatchInput.thy ===== *)
theory BatchInput
  imports Prelude "HOL-Library.List_Lexorder" "HOL-Library.Char_ord"
begin

text \<open>
  \<open>backend/src/services/batchInferenceContract.js\<close>: the JSONL body of a batch, line by line, and the
  canonical text its checksums are taken of. The model starts after \<open>split\<close>, \<open>trim\<close> and
  \<open>JSON.parse\<close>: a line is blank, unparsable or a JSON value. The digest is a parameter.
\<close>

section \<open>JSON\<close>

text \<open>A number is the text \<open>JSON.stringify\<close> prints for it; the pairs of an object are in the order of its keys.\<close>

datatype json =
  JNull
| JBool bool
| JNum string
| JStr string
| JArr "json list"
| JObj "(string \<times> json) list"

fun join :: "string \<Rightarrow> string list \<Rightarrow> string" where
  "join sep [] = []"
| "join sep [s] = s"
| "join sep (s # t # ss) = s @ sep @ join sep (t # ss)"

definition hex_digit :: "nat \<Rightarrow> char" where
  "hex_digit n = (if n < 10 then char_of (48 + n) else char_of (87 + n))"

definition escape_char :: "char \<Rightarrow> string" where
  "escape_char c = (let n = (of_char c :: nat) in
     if c = CHR 0x22 then [CHR 0x5C, CHR 0x22]
     else if c = CHR 0x5C then [CHR 0x5C, CHR 0x5C]
     else if n = 8 then [CHR 0x5C, CHR ''b''] else if n = 9 then [CHR 0x5C, CHR ''t'']
     else if n = 10 then [CHR 0x5C, CHR ''n''] else if n = 12 then [CHR 0x5C, CHR ''f'']
     else if n = 13 then [CHR 0x5C, CHR ''r'']
     else if n < 32 then CHR 0x5C # ''u00'' @ [hex_digit (n div 16), hex_digit (n mod 16)]
     else [c])"

definition quote :: "string \<Rightarrow> string" where
  "quote s = CHR 0x22 # concat (map escape_char s) @ [CHR 0x22]"

text \<open>\<open>JSON.stringify\<close> keeps the order of the keys; \<open>stableStringify\<close> sorts them at every level.\<close>

fun stringify :: "json \<Rightarrow> string" where
  "stringify JNull = ''null''"
| "stringify (JBool b) = (if b then ''true'' else ''false'')"
| "stringify (JNum t) = t"
| "stringify (JStr s) = quote s"
| "stringify (JArr xs) = ''['' @ join '','' (map stringify xs) @ '']''"
| "stringify (JObj kvs) = CHR 0x7B # join '','' (map (\<lambda>(k, v). quote k @ '':'' @ stringify v) kvs) @ [CHR 0x7D]"

fun stableStringify :: "json \<Rightarrow> string" where
  "stableStringify (JArr xs) = ''['' @ join '','' (map stableStringify xs) @ '']''"
| "stableStringify (JObj kvs) =
     CHR 0x7B # join '','' (map snd (sort_key fst (map (\<lambda>(k, v). (k, quote k @ '':'' @ stableStringify v)) kvs))) @ [CHR 0x7D]"
| "stableStringify v = stringify v"

text \<open>\<open>String(v)\<close> and the boolean value of a JSON value.\<close>

fun js_string :: "json \<Rightarrow> string" where
  "js_string JNull = ''null''"
| "js_string (JBool b) = (if b then ''true'' else ''false'')"
| "js_string (JNum t) = t"
| "js_string (JStr s) = s"
| "js_string (JArr xs) = join '','' (map (\<lambda>x. if x = JNull then [] else js_string x) xs)"
| "js_string (JObj kvs) = ''[object Object]''"

fun js_truthy :: "json \<Rightarrow> bool" where
  "js_truthy JNull = False"
| "js_truthy (JBool b) = b"
| "js_truthy (JNum t) = (t \<noteq> ''0'')"
| "js_truthy (JStr s) = (s \<noteq> [])"
| "js_truthy _ = True"

definition text_or_empty :: "json option \<Rightarrow> string" where
  \<comment> \<open>\<open>String(v || '')\<close>, where \<open>undefined\<close> is \<open>None\<close>\<close>
  "text_or_empty v = (case v of None \<Rightarrow> [] | Some x \<Rightarrow> if js_truthy x then js_string x else [])"

definition utf8_length :: "string \<Rightarrow> int" where
  "utf8_length s = sum_list (map (\<lambda>c. if (of_char c :: nat) < 128 then 1 else 2) s)"

section \<open>One request\<close>

definition MAX_BATCH_REQUESTS :: nat where "MAX_BATCH_REQUESTS = 1000"
definition MAX_BATCH_BYTES :: int where "MAX_BATCH_BYTES = 10 * 1024 * 1024"

definition SUPPORTED_BATCH_URLS :: "string list" where
  "SUPPORTED_BATCH_URLS = [''/v1/chat/completions'', ''/v1/complete'']"

datatype input_error =
  BatchTooLarge int
| TooManyRequests nat
| InvalidJson nat
| InvalidLine nat
| MissingCustomId nat
| InvalidCustomId nat
| DuplicateCustomId nat string
| UnsupportedMethod nat string
| UnsupportedUrl nat string
| InvalidBody nat
| MissingModel nat
| MissingMessages nat
| MissingPrompt nat
| EmptyBatch

record request =
  rq_custom_id :: string
  rq_method :: string
  rq_url :: string
  rq_body :: json
  rq_model :: string

definition is_upper :: "char \<Rightarrow> bool" where
  "is_upper c = (65 \<le> (of_char c :: nat) \<and> (of_char c :: nat) \<le> 90)"

definition is_lower :: "char \<Rightarrow> bool" where
  "is_lower c = (97 \<le> (of_char c :: nat) \<and> (of_char c :: nat) \<le> 122)"

definition url_safe :: "nat \<Rightarrow> string \<Rightarrow> bool" where
  \<comment> \<open>\<open>/^[A-Za-z0-9_.:-]{1,n}$/\<close>\<close>
  "url_safe n s = (1 \<le> length s \<and> length s \<le> n
     \<and> list_all (\<lambda>c. is_upper c \<or> is_lower c \<or> is_digit c \<or> c \<in> set ''_.:-'') s)"

definition field :: "string \<Rightarrow> (string \<times> json) list \<Rightarrow> json option" where
  "field k kvs = map_of kvs k"

definition normalizeBody :: "json option \<Rightarrow> string \<Rightarrow> nat \<Rightarrow> input_error + (json \<times> string)" where
  "normalizeBody body url line =
     (case body of Some (JObj kvs) \<Rightarrow>
        let model = (case field ''model'' kvs of Some (JStr s) \<Rightarrow> strip s | _ \<Rightarrow> []) in
        if model = [] then Inl (MissingModel line)
        else if url = ''/v1/chat/completions'' \<and> (case field ''messages'' kvs of Some (JArr (_ # _)) \<Rightarrow> False | _ \<Rightarrow> True)
        then Inl (MissingMessages line)
        else if url = ''/v1/complete'' \<and> (case field ''prompt'' kvs of Some (JStr p) \<Rightarrow> strip p = [] | _ \<Rightarrow> True)
        then Inl (MissingPrompt line)
        else Inr (JObj (map (\<lambda>(k, v). if k = ''model'' then (k, JStr model) else (k, v)) kvs), model)
      | _ \<Rightarrow> Inl (InvalidBody line))"

definition normalizeBatchRequest :: "json \<Rightarrow> nat \<Rightarrow> input_error + request" where
  "normalizeBatchRequest value line =
     (case value of JObj kvs \<Rightarrow>
        (case field ''custom_id'' kvs of Some (JStr c) \<Rightarrow>
           if \<not> url_safe 128 (strip c) then Inl (InvalidCustomId line)
           else let method = map upper_ascii (strip (text_or_empty (field ''method'' kvs)));
                    url = strip (text_or_empty (field ''url'' kvs)) in
             if method \<noteq> ''POST'' then Inl (UnsupportedMethod line method)
             else if url \<notin> set SUPPORTED_BATCH_URLS then Inl (UnsupportedUrl line url)
             else (case normalizeBody (field ''body'' kvs) url line of Inl e \<Rightarrow> Inl e
               | Inr (body, model) \<Rightarrow>
                   Inr \<lparr>rq_custom_id = strip c, rq_method = method, rq_url = url, rq_body = body, rq_model = model\<rparr>)
         | _ \<Rightarrow> Inl (MissingCustomId line))
      | _ \<Rightarrow> Inl (InvalidLine line))"

section \<open>The body\<close>

datatype raw_line = Blank | Text "json option"

fun parse_lines :: "nat \<Rightarrow> nat \<Rightarrow> request list \<Rightarrow> raw_line list \<Rightarrow> input_error + request list" where
  "parse_lines m n acc [] = Inr acc"
| "parse_lines m n acc (Blank # ls) = parse_lines m (n + 1) acc ls"
| "parse_lines m n acc (Text t # ls) =
     (if length acc \<ge> m then Inl (TooManyRequests n)
      else case t of None \<Rightarrow> Inl (InvalidJson n)
      | Some v \<Rightarrow> (case normalizeBatchRequest v n of Inl e \<Rightarrow> Inl e
        | Inr r \<Rightarrow> if rq_custom_id r \<in> set (map rq_custom_id acc) then Inl (DuplicateCustomId n (rq_custom_id r))
            else parse_lines m (n + 1) (acc @ [r]) ls))"

definition request_json :: "request \<Rightarrow> json" where
  "request_json r = JObj [(''custom_id'', JStr (rq_custom_id r)), (''method'', JStr (rq_method r)),
     (''url'', JStr (rq_url r)), (''body'', rq_body r)]"

record parsed_batch =
  pb_requests :: "request list"
  pb_checksum :: string
  pb_bytes :: int

definition parseBatchJsonl :: "(string \<Rightarrow> string) \<Rightarrow> int \<Rightarrow> raw_line list \<Rightarrow> input_error + parsed_batch" where
  "parseBatchJsonl sha256 bytes ls =
     (if bytes > MAX_BATCH_BYTES then Inl (BatchTooLarge bytes)
      else case parse_lines MAX_BATCH_REQUESTS 1 [] ls of Inl e \<Rightarrow> Inl e
      | Inr rs \<Rightarrow> if rs = [] then Inl EmptyBatch
          else let text = join [CHR 0x0A] (map (stableStringify \<circ> request_json) rs) @ [CHR 0x0A]
               in Inr \<lparr>pb_requests = rs, pb_checksum = sha256 text, pb_bytes = utf8_length text\<rparr>)"

definition checksumBatchRequest :: "(string \<Rightarrow> string) \<Rightarrow> request \<Rightarrow> string" where
  "checksumBatchRequest sha256 r = sha256 (stableStringify (request_json r))"

lemma parse_lines_ok:
  "parse_lines m n acc ls = Inr rs \<Longrightarrow> distinct (map rq_custom_id acc) \<Longrightarrow> length acc \<le> m \<Longrightarrow>
     \<forall>r\<in>set acc. url_safe 128 (rq_custom_id r) \<Longrightarrow>
     distinct (map rq_custom_id rs) \<and> length rs \<le> m \<and> (\<forall>r\<in>set rs. url_safe 128 (rq_custom_id r))"
proof (induction m n acc ls rule: parse_lines.induct)
  case (3 m n acc t ls)
  then obtain v r where v: "t = Some v" "normalizeBatchRequest v n = Inr r" "rq_custom_id r \<notin> set (map rq_custom_id acc)"
    "length acc < m" "parse_lines m (n + 1) (acc @ [r]) ls = Inr rs"
    by (auto split: if_splits option.splits sum.splits)
  have "url_safe 128 (rq_custom_id r)"
    using v(2) by (auto simp: normalizeBatchRequest_def Let_def split: json.splits option.splits sum.splits if_splits)
  then have "distinct (map rq_custom_id (acc @ [r]))" "length (acc @ [r]) \<le> m" "\<forall>x\<in>set (acc @ [r]). url_safe 128 (rq_custom_id x)"
    using "3.prems" v(3,4) by auto
  moreover have "\<not> m \<le> length acc" using v(4) by simp
  ultimately show ?case using "3.IH" [OF _ v(1,2,3,5)] by blast
qed simp_all

lemma parse_ok:
  assumes "parseBatchJsonl sha bytes ls = Inr p"
  shows "distinct (map rq_custom_id (pb_requests p)) \<and> length (pb_requests p) \<le> MAX_BATCH_REQUESTS
    \<and> pb_requests p \<noteq> [] \<and> (\<forall>r\<in>set (pb_requests p). url_safe 128 (rq_custom_id r))"
  using assms parse_lines_ok [of MAX_BATCH_REQUESTS 1 "[]" ls]
  by (auto simp: parseBatchJsonl_def Let_def split: if_splits sum.splits)

section \<open>The canonical text\<close>

text \<open>Two JSON values that differ in the order of object keys only, at any depth.\<close>

inductive same_json :: "json \<Rightarrow> json \<Rightarrow> bool" where
  same_refl: "same_json v v"
| same_arr: "list_all2 same_json xs ys \<Longrightarrow> same_json (JArr xs) (JArr ys)"
| same_obj: "list_all2 (\<lambda>p q. fst p = fst q \<and> same_json (snd p) (snd q)) kvs kvs' \<Longrightarrow> mset kvs' = mset kvs'' \<Longrightarrow>
     distinct (map fst kvs) \<Longrightarrow> same_json (JObj kvs) (JObj kvs'')"

lemma sort_key_perm:
  fixes f :: "'a \<Rightarrow> 'b :: linorder"
  assumes "mset xs = mset ys" "distinct (map f xs)"
  shows "sort_key f xs = sort_key f ys"
  using assms by (intro sort_key_inj_key_eq) (simp_all add: distinct_map)

lemma list_all2_map_eq: "list_all2 (\<lambda>x y. P x y \<and> f x = g y) xs ys \<Longrightarrow> map f xs = map g ys"
  by (induction rule: list_all2_induct) auto

lemma stable_same: "same_json v w \<Longrightarrow> stableStringify v = stableStringify w"
proof (induction rule: same_json.induct)
  case (same_arr xs ys)
  then show ?case using list_all2_map_eq [of same_json stableStringify stableStringify xs ys] by simp
next
  case (same_obj kvs kvs' kvs'')
  let ?f = "\<lambda>(k, v). (k, quote k @ '':'' @ stableStringify v)"
  have l: "list_all2 (\<lambda>p q. True \<and> ?f p = ?f q) kvs kvs'" and keys: "list_all2 (\<lambda>p q. True \<and> fst p = fst q) kvs kvs'"
    by (rule list_all2_mono [OF same_obj(1)]; auto)+
  have "sort_key fst (map ?f kvs') = sort_key fst (map ?f kvs'')"
  proof (rule sort_key_perm)
    show "mset (map ?f kvs') = mset (map ?f kvs'')" using same_obj(2) by simp
    show "distinct (map fst (map ?f kvs'))"
      using same_obj(3) list_all2_map_eq [OF keys] by (simp add: comp_def case_prod_beta)
  qed
  then show ?case using list_all2_map_eq [OF l] by simp
qed simp

inductive_cases same_null: "same_json JNull w" and same_to_null: "same_json v JNull"
inductive_cases same_str: "same_json (JStr s) w"
inductive_cases same_bool: "same_json (JBool b) w"
inductive_cases same_num: "same_json (JNum t) w"
inductive_cases same_arrE: "same_json (JArr xs) w"
inductive_cases same_objE: "same_json (JObj kvs) w"

lemma same_js: "same_json v w \<Longrightarrow> js_string v = js_string w \<and> js_truthy v = js_truthy w \<and> (v = JNull) = (w = JNull)"
proof (induction rule: same_json.induct)
  case (same_arr xs ys)
  have "list_all2 (\<lambda>x y. True \<and> (if x = JNull then [] else js_string x) = (if y = JNull then [] else js_string y)) xs ys"
    by (rule list_all2_mono [OF same_arr]) auto
  from list_all2_map_eq [OF this] show ?case by simp
qed simp_all

lemma map_of_same:
  "list_all2 (\<lambda>p q. fst p = fst q \<and> same_json (snd p) (snd q)) kvs kvs' \<Longrightarrow> rel_option same_json (map_of kvs k) (map_of kvs' k)"
  by (induction rule: list_all2_induct) auto

lemma same_fields:
  assumes "same_json (JObj kvs) w"
  obtains kvs' where "w = JObj kvs'" "\<And>k. rel_option same_json (field k kvs) (field k kvs')"
proof (rule same_objE [OF assms])
  assume "w = JObj kvs"
  then show thesis using that [of kvs] by (simp add: option.rel_refl same_refl)
next
  fix kvs1 kvs2
  assume a: "w = JObj kvs2" "list_all2 (\<lambda>p q. fst p = fst q \<and> same_json (snd p) (snd q)) kvs kvs1"
    "mset kvs1 = mset kvs2" "distinct (map fst kvs)"
  have "list_all2 (\<lambda>p q. True \<and> fst p = fst q) kvs kvs1" by (rule list_all2_mono [OF a(2)]) auto
  then have "distinct (map fst kvs1)" using a(4) list_all2_map_eq [of "\<lambda>_ _. True" fst fst kvs kvs1] by simp
  moreover have "distinct (map fst kvs2)" using calculation a(3) by (metis mset_map mset_eq_imp_distinct_iff)
  ultimately have "map_of kvs1 = map_of kvs2" using a(3) by (intro map_of_eqI) (auto dest!: mset_eq_setD simp: map_of_eq_Some_iff)
  then show thesis using that [OF a(1)] map_of_same [OF a(2)] by (simp add: field_def)
qed

lemma same_text: "rel_option same_json v w \<Longrightarrow> text_or_empty v = text_or_empty w"
  by (auto simp: text_or_empty_def option.rel_sel same_js split: option.splits)

lemma same_upd:
  assumes "same_json (JObj kvs) (JObj kvs')" "u = (\<lambda>(k, v). if k = (x :: string) then (k, y) else (k, v))"
  shows "same_json (JObj (map u kvs)) (JObj (map u kvs'))"
proof (rule same_objE [OF assms(1)])
  assume "JObj kvs' = JObj kvs"
  then show ?thesis by (simp add: same_refl)
next
  fix kvs1 kvs2
  assume a: "JObj kvs' = JObj kvs2" "list_all2 (\<lambda>p q. fst p = fst q \<and> same_json (snd p) (snd q)) kvs kvs1"
    "mset kvs1 = mset kvs2" "distinct (map fst kvs)"
  have "fst (u p) = fst p" for p using assms(2) by (simp add: case_prod_beta)
  then have "distinct (map fst (map u kvs))" using a(4) by (simp add: comp_def)
  moreover have "list_all2 (\<lambda>p q. fst p = fst q \<and> same_json (snd p) (snd q)) (map u kvs) (map u kvs1)"
    unfolding list_all2_map1 list_all2_map2 by (rule list_all2_mono [OF a(2)]) (auto simp: assms(2) same_refl)
  ultimately show ?thesis using a(1,3) by (auto intro: same_obj)
qed

definition same_outcome :: "('a \<Rightarrow> 'a \<Rightarrow> bool) \<Rightarrow> input_error + 'a \<Rightarrow> input_error + 'a \<Rightarrow> bool" where
  "same_outcome R = rel_sum (=) R"

definition same_request :: "request \<Rightarrow> request \<Rightarrow> bool" where
  "same_request r q = (rq_custom_id r = rq_custom_id q \<and> rq_method r = rq_method q \<and> rq_url r = rq_url q
     \<and> same_json (rq_body r) (rq_body q) \<and> rq_model r = rq_model q)"

lemma same_cases:
  assumes "same_json v w"
  shows "(case v of JObj kvs \<Rightarrow> f kvs | _ \<Rightarrow> e) = (case w of JObj kvs \<Rightarrow> f kvs | _ \<Rightarrow> e) \<or> (\<exists>a b. v = JObj a \<and> w = JObj b)"
  using assms by (cases rule: same_json.cases) auto

lemma same_str_case: "rel_option same_json v w \<Longrightarrow>
    (case v of Some (JStr s) \<Rightarrow> f s | _ \<Rightarrow> e) = (case w of Some (JStr s) \<Rightarrow> f s | _ \<Rightarrow> e)"
  by (cases v; cases w) (auto elim: same_json.cases)

lemma same_arr_case: "rel_option same_json v w \<Longrightarrow>
    (case v of Some (JArr (_ # _)) \<Rightarrow> False | _ \<Rightarrow> True) = (case w of Some (JArr (_ # _)) \<Rightarrow> False | _ \<Rightarrow> True)"
  by (cases v; cases w) (auto elim!: same_json.cases split: list.splits)

lemma same_body:
  assumes "rel_option same_json v w"
  shows "same_outcome (rel_prod same_json (=)) (normalizeBody v url n) (normalizeBody w url n)"
proof (cases "\<exists>a. v = Some (JObj a)")
  case True
  then obtain a where v: "v = Some (JObj a)" by blast
  then obtain w' where w': "w = Some w'" "same_json (JObj a) w'" using assms by (cases w) auto
  obtain b where b: "w' = JObj b" and f: "\<And>k. rel_option same_json (field k a) (field k b)"
    using same_fields [OF w'(2)] by metis
  have eq: "(case field ''model'' a of Some (JStr s) \<Rightarrow> strip s | _ \<Rightarrow> []) = (case field ''model'' b of Some (JStr s) \<Rightarrow> strip s | _ \<Rightarrow> [])"
    "(case field ''prompt'' a of Some (JStr p) \<Rightarrow> strip p = [] | _ \<Rightarrow> True) = (case field ''prompt'' b of Some (JStr p) \<Rightarrow> strip p = [] | _ \<Rightarrow> True)"
    "(case field ''messages'' a of Some (JArr (_ # _)) \<Rightarrow> False | _ \<Rightarrow> True) = (case field ''messages'' b of Some (JArr (_ # _)) \<Rightarrow> False | _ \<Rightarrow> True)"
    by (rule same_str_case [OF f] same_arr_case [OF f])+
  show ?thesis using same_upd [OF w'(2) [unfolded b] refl]
    unfolding v w'(1) b normalizeBody_def option.case json.case eq Let_def same_outcome_def by auto
next
  case False
  then have "normalizeBody v url n = Inl (InvalidBody n)" "normalizeBody w url n = Inl (InvalidBody n)"
    using assms by (cases v; cases w; auto simp: normalizeBody_def elim: same_json.cases split: json.splits)+
  then show ?thesis by (simp add: same_outcome_def)
qed

lemma same_sum_case: "same_outcome (rel_prod R (=)) x y \<Longrightarrow> (\<And>b c m. R b c \<Longrightarrow> S (f b m) (f c m)) \<Longrightarrow>
    same_outcome S (case x of Inl e \<Rightarrow> Inl e | Inr (b, m) \<Rightarrow> Inr (f b m)) (case y of Inl e \<Rightarrow> Inl e | Inr (b, m) \<Rightarrow> Inr (f b m))"
  unfolding same_outcome_def by (cases x; cases y) auto

lemma same_normalized:
  assumes "same_json v w"
  shows "same_outcome same_request (normalizeBatchRequest v n) (normalizeBatchRequest w n)"
proof (cases "\<exists>a. v = JObj a")
  case True
  then obtain a where v: "v = JObj a" by blast
  obtain b where w: "w = JObj b" and f: "\<And>k. rel_option same_json (field k a) (field k b)"
    using same_fields [OF assms [unfolded v]] by metis
  have t: "text_or_empty (field ''method'' a) = text_or_empty (field ''method'' b)"
    "text_or_empty (field ''url'' a) = text_or_empty (field ''url'' b)" by (rule same_text [OF f])+
  have c: "(case field ''custom_id'' a of Some (JStr c) \<Rightarrow> Some c | _ \<Rightarrow> None) = (case field ''custom_id'' b of Some (JStr c) \<Rightarrow> Some c | _ \<Rightarrow> None)"
    by (rule same_str_case [OF f])
  define url where "url = strip (text_or_empty (field ''url'' b))"
  have body: "same_outcome same_request
      (case normalizeBody (field ''body'' a) url n of Inl e \<Rightarrow> Inl e
         | Inr (x, m) \<Rightarrow> Inr \<lparr>rq_custom_id = c, rq_method = me, rq_url = url, rq_body = x, rq_model = m\<rparr>)
      (case normalizeBody (field ''body'' b) url n of Inl e \<Rightarrow> Inl e
         | Inr (x, m) \<Rightarrow> Inr \<lparr>rq_custom_id = c, rq_method = me, rq_url = url, rq_body = x, rq_model = m\<rparr>)" for c me
    by (rule same_sum_case [OF same_body [OF f]]) (simp add: same_request_def)
  show ?thesis
  proof (cases "\<exists>s. field ''custom_id'' b = Some (JStr s)")
    case True
    then obtain s where s: "field ''custom_id'' b = Some (JStr s)" by blast
    then have "field ''custom_id'' a = Some (JStr s)" using c by (auto split: option.splits json.splits)
    then show ?thesis using body [of "strip s" "map upper_ascii (strip (text_or_empty (field ''method'' b)))", unfolded url_def]
      unfolding v w by (simp add: normalizeBatchRequest_def t s Let_def same_outcome_def)
  next
    case False
    then have "\<nexists>s. field ''custom_id'' a = Some (JStr s)" using c by (auto split: option.splits json.splits)
    with False have "normalizeBatchRequest v n = Inl (MissingCustomId n)" "normalizeBatchRequest w n = Inl (MissingCustomId n)"
      by (auto simp: v w normalizeBatchRequest_def split: option.splits json.splits)
    then show ?thesis by (simp add: same_outcome_def)
  qed
next
  case False
  then have "normalizeBatchRequest v n = Inl (InvalidLine n)" "normalizeBatchRequest w n = Inl (InvalidLine n)"
    using assms by (auto simp: normalizeBatchRequest_def elim: same_json.cases split: json.splits)
  then show ?thesis by (simp add: same_outcome_def)
qed

fun same_line :: "raw_line \<Rightarrow> raw_line \<Rightarrow> bool" where
  "same_line Blank Blank = True"
| "same_line (Text t) (Text u) = rel_option same_json t u"
| "same_line _ _ = False"

lemma same_ids: "list_all2 same_request xs ys \<Longrightarrow> map rq_custom_id xs = map rq_custom_id ys"
  by (induction rule: list_all2_induct) (auto simp: same_request_def)

lemma same_lines:
  "list_all2 same_line ls ls' \<Longrightarrow> list_all2 same_request acc acc' \<Longrightarrow>
     same_outcome (list_all2 same_request) (parse_lines m n acc ls) (parse_lines m n acc' ls')"
proof (induction m n acc ls arbitrary: acc' ls' rule: parse_lines.induct)
  case (1 m n acc)
  then show ?case by (simp add: same_outcome_def)
next
  case (2 m n acc ls)
  from "2.prems"(1) obtain l' r' where l: "ls' = l' # r'" "same_line Blank l'" "list_all2 same_line ls r'" by (cases ls') auto
  then have "l' = Blank" by (cases l') auto
  then show ?case using "2.IH" [OF l(3) "2.prems"(2)] l(1) by simp
next
  case (3 m n acc t ls)
  from "3.prems"(1) obtain l' r' where l: "ls' = l' # r'" "same_line (Text t) l'" "list_all2 same_line ls r'" by (cases ls') auto
  then obtain u where u: "l' = Text u" "rel_option same_json t u" by (cases l') auto
  have len: "length acc' = length acc" using "3.prems"(2) by (simp add: list_all2_lengthD)
  show ?case
  proof (cases "length acc \<ge> m \<or> t = None")
    case True
    then show ?thesis using u(2) l(1) by (cases u) (auto simp: u(1) len same_outcome_def)
  next
    case False
    then obtain v w where v: "t = Some v" "u = Some w" "same_json v w" using u(2) by (cases t; cases u) auto
    note N = same_normalized [OF v(3), of n]
    show ?thesis
    proof (cases "normalizeBatchRequest v n")
      case (Inl e)
      then have "normalizeBatchRequest w n = Inl e" using N by (cases "normalizeBatchRequest w n") (auto simp: same_outcome_def)
      then show ?thesis using False Inl l(1) by (simp add: u(1) v len same_outcome_def)
    next
      case (Inr r)
      then obtain q where q: "normalizeBatchRequest w n = Inr q" "same_request r q"
        using N by (cases "normalizeBatchRequest w n") (auto simp: same_outcome_def)
      have id: "rq_custom_id r = rq_custom_id q" using q(2) by (simp add: same_request_def)
      have seen: "(rq_custom_id r \<in> set (map rq_custom_id acc)) = (rq_custom_id q \<in> set (map rq_custom_id acc'))"
        unfolding same_ids [OF "3.prems"(2)] id ..
      have acc: "list_all2 same_request (acc @ [r]) (acc' @ [q])" using "3.prems"(2) q(2) by (simp add: list_all2_appendI)
      show ?thesis
      proof (cases "rq_custom_id r \<in> set (map rq_custom_id acc)")
        case True
        then show ?thesis using False Inr q(1) seen id l(1) by (simp add: u(1) v len same_outcome_def)
      next
        case new: False
        have "\<not> m \<le> length acc" using False by simp
        from "3.IH" [OF this v(1) Inr new l(3) acc] show ?thesis
          using False new Inr q(1) seen l(1) by (simp add: u(1) v len)
      qed
    qed
  qed
qed

section \<open>What a checksum stands for\<close>

text \<open>
  C7: The checksum of a batch is canonical. Reordering the keys of any object of any request, at any
  depth, changes neither whether the batch is accepted, nor the error, nor its checksum, its
  normalized size and the checksums of its requests; and an accepted batch has between 1 and 1000
  requests with distinct custom ids.
\<close>

theorem batch_checksum_canonical:
  assumes "list_all2 same_line ls ls'"
  shows "case parseBatchJsonl sha bytes ls of
      Inl e \<Rightarrow> parseBatchJsonl sha bytes ls' = Inl e
    | Inr p \<Rightarrow> (\<exists>p'. parseBatchJsonl sha bytes ls' = Inr p' \<and> pb_checksum p' = pb_checksum p \<and> pb_bytes p' = pb_bytes p
          \<and> map (checksumBatchRequest sha) (pb_requests p') = map (checksumBatchRequest sha) (pb_requests p))
        \<and> pb_requests p \<noteq> [] \<and> length (pb_requests p) \<le> 1000 \<and> distinct (map rq_custom_id (pb_requests p))"
proof -
  have st: "stableStringify (request_json r) = stableStringify (request_json q)" if "same_request r q" for r q
  proof (rule stable_same)
    show "same_json (request_json r) (request_json q)"
      using that unfolding request_json_def same_request_def by (auto intro!: same_obj simp: same_refl)
  qed
  have texts: "map (stableStringify \<circ> request_json) xs = map (stableStringify \<circ> request_json) ys"
    if "list_all2 same_request xs ys" for xs ys
    by (rule list_all2_map_eq [of "\<lambda>_ _. True"]) (rule list_all2_mono [OF that], simp add: st)
  have sums: "map (checksumBatchRequest sha) xs = map (checksumBatchRequest sha) ys" if "list_all2 same_request xs ys" for xs ys
    by (rule list_all2_map_eq [of "\<lambda>_ _. True"]) (rule list_all2_mono [OF that], simp add: st checksumBatchRequest_def)
  note L = same_lines [OF assms, of "[]" "[]" MAX_BATCH_REQUESTS 1, simplified]
  show ?thesis
  proof (cases "parse_lines MAX_BATCH_REQUESTS 1 [] ls")
    case (Inl e)
    then have "parse_lines MAX_BATCH_REQUESTS 1 [] ls' = Inl e"
      using L by (cases "parse_lines MAX_BATCH_REQUESTS 1 [] ls'") (auto simp: same_outcome_def)
    with Inl show ?thesis by (simp add: parseBatchJsonl_def)
  next
    case (Inr rs)
    then obtain rs' where rs': "parse_lines MAX_BATCH_REQUESTS 1 [] ls' = Inr rs'" "list_all2 same_request rs rs'"
      using L by (cases "parse_lines MAX_BATCH_REQUESTS 1 [] ls'") (auto simp: same_outcome_def)
    have e: "(rs = []) = (rs' = [])" using rs'(2) by (cases rs; cases rs') auto
    show ?thesis
    proof (cases "bytes > MAX_BATCH_BYTES \<or> rs = []")
      case True
      then show ?thesis using Inr rs'(1) e by (auto simp: parseBatchJsonl_def)
    next
      case False
      then obtain p where p: "parseBatchJsonl sha bytes ls = Inr p" "pb_requests p = rs" "rs \<noteq> []"
        using Inr by (simp add: parseBatchJsonl_def Let_def)
      moreover have "\<exists>p'. parseBatchJsonl sha bytes ls' = Inr p' \<and> pb_checksum p' = pb_checksum p \<and> pb_bytes p' = pb_bytes p \<and> pb_requests p' = rs'"
        using False p(1) Inr rs'(1) e texts [OF rs'(2)] by (auto simp: parseBatchJsonl_def Let_def)
      moreover have "length rs \<le> 1000" "distinct (map rq_custom_id rs)"
        using parse_ok [OF p(1)] p(2) by (simp_all add: MAX_BATCH_REQUESTS_def)
      ultimately show ?thesis using sums [OF rs'(2)] by (auto simp: p(1,2))
    qed
  qed
qed

definition demo_body :: json where
  "demo_body = JObj [(''model'', JStr ''m''), (''prompt'', JStr ''hi'')]"

definition demo_line :: "json \<Rightarrow> raw_line" where
  "demo_line b = Text (Some (JObj [(''custom_id'', JStr ''a''), (''method'', JStr ''POST''), (''url'', JStr ''/v1/complete''), (''body'', b)]))"

theorem batch_checksum_canonical_witness:
  "\<exists>p'. parseBatchJsonl id 80 [demo_line (JObj [(''prompt'', JStr ''hi''), (''model'', JStr ''m'')])] = Inr p'
     \<and> pb_checksum p' = pb_checksum (projr (parseBatchJsonl id 80 [demo_line demo_body]))"
proof -
  have b: "same_json demo_body (JObj [(''prompt'', JStr ''hi''), (''model'', JStr ''m'')])"
    unfolding demo_body_def
    by (rule same_obj [where kvs' = "[(''model'', JStr ''m''), (''prompt'', JStr ''hi'')]"]) (simp_all add: same_refl add_mset_commute)
  have "same_json (JObj [(''custom_id'', JStr ''a''), (''method'', JStr ''POST''), (''url'', JStr ''/v1/complete''), (''body'', demo_body)])
     (JObj [(''custom_id'', JStr ''a''), (''method'', JStr ''POST''), (''url'', JStr ''/v1/complete''),
        (''body'', JObj [(''prompt'', JStr ''hi''), (''model'', JStr ''m'')])])"
    by (rule same_obj [OF _ refl]) (simp_all add: same_refl b)
  then have "list_all2 same_line [demo_line demo_body] [demo_line (JObj [(''prompt'', JStr ''hi''), (''model'', JStr ''m'')])]"
    by (simp add: demo_line_def)
  from batch_checksum_canonical [OF this, of id 80]
  have c: "case parseBatchJsonl id 80 [demo_line demo_body] of
      Inl e \<Rightarrow> parseBatchJsonl id 80 [demo_line (JObj [(''prompt'', JStr ''hi''), (''model'', JStr ''m'')])] = Inl e
    | Inr p \<Rightarrow> \<exists>p'. parseBatchJsonl id 80 [demo_line (JObj [(''prompt'', JStr ''hi''), (''model'', JStr ''m'')])] = Inr p' \<and> pb_checksum p' = pb_checksum p"
    by (auto split: sum.splits)
  have "isl (parseBatchJsonl id 80 [demo_line demo_body]) = False" by code_simp
  with c show ?thesis by (cases "parseBatchJsonl id 80 [demo_line demo_body]") auto
qed
end
