(* ===== verification/Batches.thy ===== *)
theory Batches
  imports Billing BatchInput
begin

text \<open>
  Batch inference: \<open>backend/src/services/batchInferenceJobs.js\<close> (jobs and lines),
  \<open>services/batchInferenceSettlement.js\<close> (charging the lines) and
  \<open>workers/batchInferenceWorker.js\<close>. The worker awaits the executor between marking a batch running
  and applying its result, so a run is two steps per batch. The texts of error messages are left out.
\<close>

section \<open>State\<close>

datatype batch_status = BCreated | BQueued | BRunning | BCompleted | BFailed | BCancelled
datatype line_status = LPending | LRunning | LSucceeded | LFailed | LCancelled
datatype line_settlement = Unsettled | NotRequired | LineSettled | LineAlreadySettled | SettlementFailed

record batch_row =
  bt_batch_id :: string
  bt_renter :: int
  bt_input_key :: string
  bt_checksum :: string
  bt_bytes :: int
  bt_requests :: int
  bt_window :: string
  bt_metadata :: "string option"
  bt_result_key :: "string option"
  bt_result_checksum :: "string option"
  bt_result_bytes :: int
  bt_status :: batch_status
  bt_completed :: int
  bt_failed :: int
  bt_total_cost :: int
  bt_idem :: "string option"
  bt_created_at :: int
  bt_updated_at :: int
  bt_started_at :: "int option"
  bt_completed_at :: "int option"
  bt_expires_at :: int

record line_row =
  ln_batch_id :: string
  ln_renter :: int
  ln_index :: int
  ln_custom_id :: string
  ln_model :: string
  ln_request_checksum :: string
  ln_status :: line_status
  ln_status_code :: "int option"
  ln_checksum :: "string option"
  ln_bytes :: int
  ln_provider :: "int option"
  ln_prompt_tokens :: int
  ln_completion_tokens :: int
  ln_total_tokens :: int
  ln_cost :: int
  ln_request_id :: "string option"
  ln_response_id :: "string option"
  ln_settlement :: line_settlement
  ln_settlement_id :: "string option"
  ln_settlement_error :: "string option"
  ln_settled_at :: "int option"
  ln_error_code :: "string option"
  ln_updated_at :: int
  ln_completed_at :: "int option"

record batch_state =
  bs_db :: db
  bs_batches :: "batch_row list"
  bs_lines :: "line_row list"

datatype batch_error =
  InvalidBatchId
| BatchExists string
| InvalidStorageKey
| InvalidWindow
| InvalidMetadata
| MetadataTooLarge
| InvalidIdempotencyKey
| InvalidInput input_error
| InvalidChecksum
| ResultProofMissing
| InvalidInteger
| InvalidString
| InvalidStatusCode

section \<open>Checks\<close>

definition MAX_LIMIT :: int where "MAX_LIMIT = 100"
definition DEFAULT_LIMIT :: int where "DEFAULT_LIMIT = 50"
definition MAX_METADATA_BYTES :: int where "MAX_METADATA_BYTES = 8 * 1024"

definition is_integer :: "rat \<Rightarrow> bool" where
  "is_integer r = (of_int \<lfloor>r\<rfloor> = r)"

definition normalizeLimit :: "js_num \<Rightarrow> int" where
  "normalizeLimit v = (case v of None \<Rightarrow> DEFAULT_LIMIT
     | Some r \<Rightarrow> if is_integer r \<and> 1 \<le> r then min \<lfloor>r\<rfloor> MAX_LIMIT else DEFAULT_LIMIT)"

definition normalizeOffset :: "js_num \<Rightarrow> int" where
  "normalizeOffset v = (case v of None \<Rightarrow> 0 | Some r \<Rightarrow> if is_integer r \<and> 0 \<le> r then \<lfloor>r\<rfloor> else 0)"

definition normalizeNonNegativeInteger :: "js_num \<Rightarrow> int option" where
  "normalizeNonNegativeInteger v = (case v of None \<Rightarrow> None | Some r \<Rightarrow> if is_integer r \<and> 0 \<le> r then Some \<lfloor>r\<rfloor> else None)"

definition normalizePositiveInteger :: "js_num \<Rightarrow> int option" where
  "normalizePositiveInteger v = (case v of None \<Rightarrow> None | Some r \<Rightarrow> if is_integer r \<and> 0 < r then Some \<lfloor>r\<rfloor> else None)"

definition normalizeOptionalHttpStatus :: "js_num \<Rightarrow> int option" where
  "normalizeOptionalHttpStatus v =
     (case v of None \<Rightarrow> None | Some r \<Rightarrow> if is_integer r \<and> 100 \<le> r \<and> r \<le> 599 then Some \<lfloor>r\<rfloor> else None)"

definition normalizeBoundedString :: "nat \<Rightarrow> string \<Rightarrow> string option" where
  "normalizeBoundedString n s = (let t = strip s in if t = [] \<or> length t > n then None else Some t)"

definition hex64 :: "string \<Rightarrow> bool" where
  \<comment> \<open>\<open>/^[a-f0-9]{64}$/\<close>\<close>
  "hex64 s = (length s = 64 \<and> list_all (\<lambda>c. is_digit c \<or> c \<in> set ''abcdef'') s)"

definition normalizeChecksum :: "string \<Rightarrow> string option" where
  "normalizeChecksum s = (case normalizeBoundedString 64 s of None \<Rightarrow> None
     | Some t \<Rightarrow> if hex64 (to_lower t) then Some (to_lower t) else None)"

definition batch_id_ok :: "string \<Rightarrow> bool" where
  \<comment> \<open>\<open>/^batch_[a-z0-9][a-z0-9_-]{5,63}$/\<close>\<close>
  "batch_id_ok s = (let t = drop 6 s in take 6 s = ''batch_'' \<and> 6 \<le> length t \<and> length t \<le> 64
     \<and> (is_lower (hd t) \<or> is_digit (hd t)) \<and> list_all (\<lambda>c. is_lower c \<or> is_digit c \<or> c \<in> set ''_-'') t)"

definition normalizeBatchId :: "string \<Rightarrow> string option \<Rightarrow> string option" where
  \<comment> \<open>the first argument is what \<open>generateBatchId\<close> draws\<close>
  "normalizeBatchId fresh v = (let i = (case v of None \<Rightarrow> fresh | Some s \<Rightarrow> strip s) in if batch_id_ok i then Some i else None)"

fun segments :: "string \<Rightarrow> string list" where
  \<comment> \<open>\<open>split('/')\<close>\<close>
  "segments [] = [[]]"
| "segments (c # s) = (case segments s of [] \<Rightarrow> [[c]]
     | t # ts \<Rightarrow> if c = CHR ''/'' then [] # t # ts else (c # t) # ts)"

definition normalizeStorageKey :: "string \<Rightarrow> string option" where
  "normalizeStorageKey v =
     (let key = dropWhile (\<lambda>c. c = CHR ''/'') (strip v) in
      if key = [] \<or> length key > 512 \<or> CHR 0x00 \<in> set key then None
      else if list_ex (\<lambda>t. t = ''.'' \<or> t = ''..'' \<or> t = []) (segments key) then None
      else Some key)"

definition normalizeInputStorageKey :: "string option \<Rightarrow> int \<Rightarrow> string \<Rightarrow> string option" where
  "normalizeInputStorageKey v renter batch =
     (if \<not> truthy_str v then Some (''batch-inputs/renter-'' @ dec renter @ ''/'' @ batch @ ''/input.jsonl'')
      else normalizeStorageKey (the v))"

definition normalizeCompletionWindow :: "string option \<Rightarrow> string option" where
  "normalizeCompletionWindow v =
     (let w = to_lower (strip (if truthy_str v then the v else ''24h'')) in if w = ''24h'' then Some w else None)"

definition normalizeMetadata :: "json option \<Rightarrow> batch_error + string option" where
  "normalizeMetadata v =
     (case v of None \<Rightarrow> Inr None | Some JNull \<Rightarrow> Inr None
      | Some (JObj kvs) \<Rightarrow> let t = stringify (JObj kvs) in
          if utf8_length t > MAX_METADATA_BYTES then Inl MetadataTooLarge else Inr (Some t)
      | _ \<Rightarrow> Inl InvalidMetadata)"

definition normalizeOptionalIdempotencyKey :: "string option \<Rightarrow> batch_error + string option" where
  "normalizeOptionalIdempotencyKey v =
     (if \<not> truthy_str v then Inr None
      else if url_safe 180 (strip (the v)) then Inr (Some (strip (the v))) else Inl InvalidIdempotencyKey)"

definition optional :: "('a \<Rightarrow> 'b option) \<Rightarrow> 'a option \<Rightarrow> 'b option option" where
  \<comment> \<open>\<open>v == null ? null : normalize(v)\<close>; \<open>None\<close> when it throws\<close>
  "optional f v = (case v of None \<Rightarrow> Some None | Some x \<Rightarrow> map_option Some (f x))"

section \<open>Batches\<close>

definition batch_of :: "batch_state \<Rightarrow> int \<Rightarrow> string \<Rightarrow> batch_row option" where
  "batch_of s renter bid = sql_get (\<lambda>b. bt_renter b = renter \<and> bt_batch_id b = bid) (bs_batches s)"

definition getBatchByIdempotencyKey :: "batch_state \<Rightarrow> int \<Rightarrow> string \<Rightarrow> batch_row option" where
  "getBatchByIdempotencyKey s renter key = sql_get (\<lambda>b. bt_renter b = renter \<and> bt_idem b = Some key) (bs_batches s)"

record batch_input =
  bi_lines :: "raw_line list"
  bi_bytes :: int
  bi_batch_id :: "string option"
  bi_storage_key :: "string option"
  bi_window :: "string option"
  bi_metadata :: "json option"
  bi_idem :: "string option"

definition insertBatchInferenceJobLines ::
    "(string \<Rightarrow> string) \<Rightarrow> int \<Rightarrow> string \<Rightarrow> request list \<Rightarrow> int \<Rightarrow> line_row list \<Rightarrow> line_row list" where
  "insertBatchInferenceJobLines sha renter bid rs now rows = rows @ map (\<lambda>(i, r).
     \<lparr>ln_batch_id = bid, ln_renter = renter, ln_index = int i + 1, ln_custom_id = rq_custom_id r, ln_model = rq_model r,
      ln_request_checksum = checksumBatchRequest sha r, ln_status = LPending, ln_status_code = None, ln_checksum = None,
      ln_bytes = 0, ln_provider = None, ln_prompt_tokens = 0, ln_completion_tokens = 0, ln_total_tokens = 0, ln_cost = 0,
      ln_request_id = None, ln_response_id = None, ln_settlement = Unsettled, ln_settlement_id = None,
      ln_settlement_error = None, ln_settled_at = None, ln_error_code = None, ln_updated_at = now, ln_completed_at = None\<rparr>)
     (enumerate 0 rs)"

definition createBatchInferenceJob ::
    "(string \<Rightarrow> string) \<Rightarrow> string \<Rightarrow> int \<Rightarrow> int \<Rightarrow> batch_input \<Rightarrow> batch_state \<Rightarrow> batch_state \<times> (batch_error + batch_row \<times> bool)" where
  "createBatchInferenceJob sha fresh now renter q s =
     (case normalizeOptionalIdempotencyKey (bi_idem q) of Inl e \<Rightarrow> (s, Inl e)
      | Inr idem \<Rightarrow>
        (case (case idem of None \<Rightarrow> None | Some k \<Rightarrow> getBatchByIdempotencyKey s renter k) of
           Some b \<Rightarrow> (s, Inr (b, True))
         | None \<Rightarrow>
        (case parseBatchJsonl sha (bi_bytes q) (bi_lines q) of Inl e \<Rightarrow> (s, Inl (InvalidInput e))
         | Inr p \<Rightarrow>
        (case normalizeBatchId fresh (bi_batch_id q) of None \<Rightarrow> (s, Inl InvalidBatchId)
         | Some bid \<Rightarrow>
        (case normalizeInputStorageKey (bi_storage_key q) renter bid of None \<Rightarrow> (s, Inl InvalidStorageKey)
         | Some key \<Rightarrow>
        (case normalizeCompletionWindow (bi_window q) of None \<Rightarrow> (s, Inl InvalidWindow)
         | Some w \<Rightarrow>
        (case normalizeMetadata (bi_metadata q) of Inl e \<Rightarrow> (s, Inl e)
         | Inr meta \<Rightarrow>
           if bid \<in> set (map bt_batch_id (bs_batches s)) then (s, Inl (BatchExists bid))
           else let b = \<lparr>bt_batch_id = bid, bt_renter = renter, bt_input_key = key, bt_checksum = pb_checksum p,
                   bt_bytes = pb_bytes p, bt_requests = int (length (pb_requests p)), bt_window = w, bt_metadata = meta,
                   bt_result_key = None, bt_result_checksum = None, bt_result_bytes = 0, bt_status = BCreated,
                   bt_completed = 0, bt_failed = 0, bt_total_cost = 0, bt_idem = idem, bt_created_at = now,
                   bt_updated_at = now, bt_started_at = None, bt_completed_at = None, bt_expires_at = now + day_ms\<rparr>
             in (s\<lparr>bs_batches := sql_insert b (bs_batches s),
                   bs_lines := insertBatchInferenceJobLines sha renter bid (pb_requests p) now (bs_lines s)\<rparr>,
                 Inr (b, False)))))))))"

record batch_update =
  bu_key :: "string option"
  bu_checksum :: "string option"
  bu_bytes :: "js_num option"
  bu_completed :: "js_num option"
  bu_failed :: "js_num option"
  bu_cost :: "js_num option"

definition no_update :: batch_update where
  "no_update = \<lparr>bu_key = None, bu_checksum = None, bu_bytes = None, bu_completed = None, bu_failed = None, bu_cost = None\<rparr>"

definition count_or_0 :: "js_num option \<Rightarrow> int option" where
  \<comment> \<open>\<open>normalizeNonNegativeInteger(v ?? 0)\<close>\<close>
  "count_or_0 v = (case v of None \<Rightarrow> Some 0 | Some x \<Rightarrow> normalizeNonNegativeInteger x)"

definition is_final :: "batch_status \<Rightarrow> bool" where
  "is_final st = (st \<in> {BCompleted, BFailed, BCancelled})"

definition updateBatchInferenceJobStatus ::
    "int \<Rightarrow> int \<Rightarrow> string \<Rightarrow> batch_status \<Rightarrow> batch_update \<Rightarrow> batch_state \<Rightarrow> batch_error + batch_state" where
  "updateBatchInferenceJobStatus now renter bid st u s =
     (case optional normalizeStorageKey (bu_key u) of None \<Rightarrow> Inl InvalidStorageKey
      | Some key \<Rightarrow>
     (case optional normalizeChecksum (bu_checksum u) of None \<Rightarrow> Inl InvalidChecksum
      | Some cks \<Rightarrow>
     (case optional normalizeNonNegativeInteger (bu_bytes u) of None \<Rightarrow> Inl InvalidInteger
      | Some bytes \<Rightarrow>
        if st = BCompleted \<and> (key = None \<or> cks = None) then Inl ResultProofMissing
        else
     (case (count_or_0 (bu_completed u), count_or_0 (bu_failed u), count_or_0 (bu_cost u)) of
        (Some fin, Some failed, Some cost) \<Rightarrow>
          Inr (s\<lparr>bs_batches := sql_update (\<lambda>b. bt_renter b = renter \<and> bt_batch_id b = bid)
            (\<lambda>b. b\<lparr>bt_status := st, bt_result_key := coalesce key (bt_result_key b),
                   bt_result_checksum := coalesce cks (bt_result_checksum b),
                   bt_result_bytes := (case bytes of None \<Rightarrow> bt_result_bytes b | Some n \<Rightarrow> n),
                   bt_completed := (if is_final st then fin else bt_completed b),
                   bt_failed := (if is_final st then failed else bt_failed b),
                   bt_total_cost := (if is_final st then cost else bt_total_cost b),
                   bt_updated_at := now,
                   bt_started_at := coalesce (bt_started_at b) (if st = BRunning then Some now else None),
                   bt_completed_at := coalesce (if is_final st then Some now else None) (bt_completed_at b)\<rparr>)
            (bs_batches s)\<rparr>)
      | _ \<Rightarrow> Inl InvalidInteger))))"

definition listCreatedBatchInferenceJobs :: "js_num \<Rightarrow> batch_state \<Rightarrow> batch_row list" where
  \<comment> \<open>rowids increase in the order of the table, so ties keep it\<close>
  "listCreatedBatchInferenceJobs limit s =
     take (nat (normalizeLimit limit)) (sort_key bt_created_at (sql_all (\<lambda>b. bt_status b = BCreated) (bs_batches s)))"

section \<open>Lines\<close>

definition line_at :: "int \<Rightarrow> string \<Rightarrow> string \<Rightarrow> line_row \<Rightarrow> bool" where
  "line_at renter bid custom l = (ln_renter l = renter \<and> ln_batch_id l = bid \<and> ln_custom_id l = custom)"

definition listBatchInferenceJobLines :: "int \<Rightarrow> string \<Rightarrow> js_num \<Rightarrow> js_num \<Rightarrow> batch_state \<Rightarrow> line_row list option" where
  "listBatchInferenceJobLines renter bid limit offset s =
     (case batch_of s renter bid of None \<Rightarrow> None
      | Some _ \<Rightarrow> Some (sql_limit (normalizeLimit limit) (normalizeOffset offset)
          (sort_key ln_index (sql_all (\<lambda>l. ln_renter l = renter \<and> ln_batch_id l = bid) (bs_lines s)))))"

record line_usage =
  lu_prompt :: "js_num option"
  lu_completion :: "js_num option"
  lu_total :: "js_num option"

record line_update =
  nu_status_code :: "int option"
  nu_checksum :: "string option"
  nu_bytes :: "js_num option"
  nu_provider :: "int option"
  nu_usage :: "line_usage option"
  nu_cost :: int
  nu_request_id :: "string option"
  nu_response_id :: "string option"
  nu_error_code :: "string option"

definition normalizeLineUsage :: "line_usage option \<Rightarrow> (int \<times> int \<times> int) option" where
  \<comment> \<open>of \<open>options.usage || {}\<close>: without a usage the counters are reset to 0\<close>
  "normalizeLineUsage u = (case u of None \<Rightarrow> Some (0, 0, 0)
     | Some v \<Rightarrow> (case (count_or_0 (lu_prompt v), count_or_0 (lu_completion v)) of
         (Some p, Some c) \<Rightarrow> (case lu_total v of None \<Rightarrow> Some (p, c, p + c)
            | Some t \<Rightarrow> map_option (\<lambda>n. (p, c, n)) (normalizeNonNegativeInteger t))
       | _ \<Rightarrow> None))"

definition updateBatchInferenceJobLineStatus ::
    "int \<Rightarrow> int \<Rightarrow> string \<Rightarrow> string \<Rightarrow> line_status \<Rightarrow> line_update \<Rightarrow> batch_state \<Rightarrow> batch_error + batch_state" where
  "updateBatchInferenceJobLineStatus now renter bid custom st u s =
     (case optional normalizeChecksum (nu_checksum u) of None \<Rightarrow> Inl InvalidChecksum
      | Some cks \<Rightarrow>
     (case optional normalizeNonNegativeInteger (nu_bytes u) of None \<Rightarrow> Inl InvalidInteger
      | Some bytes \<Rightarrow>
     (case normalizeLineUsage (nu_usage u) of None \<Rightarrow> Inl InvalidInteger
      | Some (p, c, t) \<Rightarrow>
     (case (optional (normalizeBoundedString 180) (nu_request_id u), optional (normalizeBoundedString 180) (nu_response_id u),
            optional (normalizeBoundedString 120) (nu_error_code u)) of
        (Some rid, Some pid, Some err) \<Rightarrow>
          Inr (s\<lparr>bs_lines := sql_update (line_at renter bid custom)
            (\<lambda>l. l\<lparr>ln_status := st, ln_status_code := coalesce (nu_status_code u) (ln_status_code l),
                   ln_checksum := coalesce cks (ln_checksum l),
                   ln_bytes := (case bytes of None \<Rightarrow> ln_bytes l | Some n \<Rightarrow> n),
                   ln_provider := coalesce (nu_provider u) (ln_provider l),
                   ln_prompt_tokens := p, ln_completion_tokens := c, ln_total_tokens := t, ln_cost := nu_cost u,
                   ln_request_id := coalesce rid (ln_request_id l), ln_response_id := coalesce pid (ln_response_id l),
                   ln_error_code := coalesce err (ln_error_code l), ln_updated_at := now,
                   ln_completed_at := coalesce (if st \<in> {LSucceeded, LFailed, LCancelled} then Some now else None) (ln_completed_at l)\<rparr>)
            (bs_lines s)\<rparr>)
      | _ \<Rightarrow> Inl InvalidString))))"

definition updateBatchInferenceJobLineSettlement ::
    "int \<Rightarrow> int \<Rightarrow> string \<Rightarrow> string \<Rightarrow> line_settlement \<Rightarrow> string option \<Rightarrow> int option \<Rightarrow> string option
       \<Rightarrow> batch_state \<Rightarrow> batch_error + batch_state" where
  "updateBatchInferenceJobLineSettlement now renter bid custom st rid provider err s =
     (case optional (normalizeBoundedString 240) rid of None \<Rightarrow> Inl InvalidString
      | Some rid' \<Rightarrow>
        if (case provider of None \<Rightarrow> False | Some p \<Rightarrow> p \<le> 0) then Inl InvalidInteger
        else (case optional (normalizeBoundedString 120) err of None \<Rightarrow> Inl InvalidString
          | Some err' \<Rightarrow>
            Inr (s\<lparr>bs_lines := sql_update (line_at renter bid custom)
              (\<lambda>l. l\<lparr>ln_settlement := st, ln_settlement_id := coalesce rid' (ln_settlement_id l),
                     ln_provider := coalesce provider (ln_provider l), ln_settlement_error := err',
                     ln_settled_at := (if st \<noteq> Unsettled then Some now else ln_settled_at l), ln_updated_at := now\<rparr>)
              (bs_lines s)\<rparr>)))"

section \<open>Charging the lines\<close>

definition buildBatchLineSettlementRequestId :: "batch_row \<Rightarrow> line_row \<Rightarrow> string" where
  "buildBatchLineSettlementRequestId b l = ''batch-line:'' @ bt_batch_id b @ '':'' @ ln_custom_id l"

record batch_summary =
  bm_attempted :: int
  bm_settled :: int
  bm_already :: int
  bm_not_required :: int
  bm_total :: int

datatype batch_settle_error = SettleInsufficient int | LineFailed string | BadUpdate batch_error

definition billable :: "line_row \<Rightarrow> bool" where
  "billable l = (ln_status l = LSucceeded \<and> ln_cost l > 0)"

definition line_settle_args :: "int \<Rightarrow> int option \<Rightarrow> batch_row \<Rightarrow> line_row \<Rightarrow> settle_args" where
  "line_settle_args now provider b l =
     (let rid = buildBatchLineSettlementRequestId b l in
      \<lparr>sa_request_id = rid, sa_renter = bt_renter b, sa_provider = provider, sa_cost = Some (of_int (ln_cost l)),
       sa_model = ln_model l,
       sa_usage = Some \<lparr>ui_prompt_tokens = ln_prompt_tokens l, ui_completion_tokens = ln_completion_tokens l,
         ui_prompt_cost = 0, ui_completion_cost = ln_cost l, ui_in_rate = 0, ui_out_rate = 0,
         ui_source = Some ''batch/inference''\<rparr>,
       sa_job = Some \<lparr>ji_job_id = rid, ji_submitted_at = None, ji_started_at = None, ji_completed_at = None,
         ji_duration = 0, ji_result = None, ji_notes = Some ''batch:billingService.settleInferenceOnce''\<rparr>,
       sa_now = now\<rparr>)"

definition line_provider :: "int option \<Rightarrow> line_row \<Rightarrow> int option" where
  \<comment> \<open>\<open>line.provider_id || options.providerId || null\<close>\<close>
  "line_provider opt l = (case truthy_id (ln_provider l) of Some p \<Rightarrow> Some p | None \<Rightarrow> truthy_id opt)"

text \<open>A loop over lines that stops at the first error and keeps what it has written.\<close>

fun each_line :: "('l \<Rightarrow> 's \<Rightarrow> 'e + 's) \<Rightarrow> 'l list \<Rightarrow> 's \<Rightarrow> 's \<times> 'e option" where
  "each_line f [] s = (s, None)"
| "each_line f (l # ls) s = (case f l s of Inl e \<Rightarrow> (s, Some e) | Inr s' \<Rightarrow> each_line f ls s')"

definition mark_line ::
    "int \<Rightarrow> batch_row \<Rightarrow> line_settlement \<Rightarrow> (line_row \<Rightarrow> string option) \<Rightarrow> (line_row \<Rightarrow> int option) \<Rightarrow> string option
       \<Rightarrow> line_row \<Rightarrow> batch_state \<Rightarrow> batch_error + batch_state" where
  "mark_line now b st rid provider err l =
     updateBatchInferenceJobLineSettlement now (bt_renter b) (bt_batch_id b) (ln_custom_id l) st (rid l) (provider l) err"

fun settle_loop ::
    "int \<Rightarrow> int option \<Rightarrow> batch_row \<Rightarrow> line_row list \<Rightarrow> batch_state \<times> batch_summary \<Rightarrow> batch_state \<times> (batch_settle_error + batch_summary)" where
  "settle_loop now opt b [] (s, m) = (s, Inr m)"
| "settle_loop now opt b (l # ls) (s, m) =
     (let provider = line_provider opt l;
          rid = (\<lambda>l. Some (buildBatchLineSettlementRequestId b l));
          m1 = m\<lparr>bm_attempted := bm_attempted m + 1\<rparr> in
      case settleInferenceOnce (bs_db s) (line_settle_args now provider b l) of
        Inl e \<Rightarrow>
          (case mark_line now b SettlementFailed rid (\<lambda>_. provider)
              (Some (case e of InsufficientBalance _ _ _ \<Rightarrow> ''insufficient_balance'' | RequestIdRequired \<Rightarrow> ''error'')) l s of
             Inl e' \<Rightarrow> (s, Inl (BadUpdate e'))
           | Inr s' \<Rightarrow> (s', Inl (LineFailed (ln_custom_id l))))
      | Inr (d, r) \<Rightarrow>
          (let st = (case r of AlreadySettled _ \<Rightarrow> LineAlreadySettled | Settled _ \<Rightarrow> LineSettled);
               s1 = s\<lparr>bs_db := d\<rparr> in
           case mark_line now b st rid (\<lambda>_. provider) None l s1 of
             Inl e' \<Rightarrow> \<comment> \<open>caught, and thrown again by the second update with the same arguments\<close>
               (s1, Inl (BadUpdate e'))
           | Inr s2 \<Rightarrow> settle_loop now opt b ls (s2,
               if st = LineAlreadySettled then m1\<lparr>bm_already := bm_already m1 + 1\<rparr>
               else m1\<lparr>bm_settled := bm_settled m1 + 1\<rparr>)))"

definition settleBatchInferenceLines ::
    "int \<Rightarrow> int option \<Rightarrow> batch_row \<Rightarrow> line_row list \<Rightarrow> batch_state \<Rightarrow> batch_state \<times> (batch_settle_error + batch_summary)" where
  "settleBatchInferenceLines now opt b ls s =
     (let paying = filter billable ls; rest = filter (\<lambda>l. \<not> billable l) ls;
          total = sum_list (map ln_cost paying);
          m = \<lparr>bm_attempted = 0, bm_settled = 0, bm_already = 0, bm_not_required = int (length rest), bm_total = total\<rparr> in
      case each_line (mark_line now b NotRequired (\<lambda>_. None) (\<lambda>_. None) None) rest s of
        (s1, Some e) \<Rightarrow> (s1, Inl (BadUpdate e))
      | (s1, None) \<Rightarrow>
          if paying = [] then (s1, Inr m)
          else let g = checkBalanceGate (bs_db s1) (bt_renter b) (Some (of_int total)) now in
            if \<not> ga_ok g
            then (case each_line (mark_line now b SettlementFailed (\<lambda>l. Some (buildBatchLineSettlementRequestId b l))
                     (line_provider opt) (Some ''insufficient_balance'')) paying s1 of
                   (s2, Some e) \<Rightarrow> (s2, Inl (BadUpdate e))
                 | (s2, None) \<Rightarrow> (s2, Inl (SettleInsufficient (case ga_deficit g of None \<Rightarrow> total | Some k \<Rightarrow> k))))
            else settle_loop now opt b paying (s1, m))"


section \<open>The worker\<close>

record exec_line =
  xl_custom_id :: "string option"
  xl_status_code :: "js_num option"
  xl_status :: "string option"
  xl_error_code :: "string option"
  xl_error_message :: "string option"
  xl_error :: "string option"
  xl_checksum :: "string option"
  xl_bytes :: "js_num option"
  xl_provider :: "js_num option"
  xl_usage :: "line_usage option"
  xl_cost :: js_num
  xl_request_id :: "string option"
  xl_response_id :: "string option"

record execution =
  ex_key :: "string option"
  ex_checksum :: "string option"
  ex_bytes :: js_num
  ex_lines :: "exec_line list option"
  ex_completed :: js_num
  ex_failed :: js_num
  ex_cost :: js_num

datatype worker_error =
  ExecutorFailed
| BadResultChecksum
| LinesMissing
| LineCount nat
| BadLine string
| LineUpdate batch_error
| SettlementRequiresLines
| SettlementError batch_settle_error
| StatusUpdate batch_error

definition nonneg_or :: "js_num \<Rightarrow> int \<Rightarrow> int" where
  "nonneg_or v d = (case normalizeNonNegativeInteger v of None \<Rightarrow> d | Some n \<Rightarrow> n)"

definition buildBatchResultStorageKey :: "batch_row \<Rightarrow> string" where
  "buildBatchResultStorageKey b = ''batch-results/renter-'' @ dec (bt_renter b) @ ''/'' @ bt_batch_id b @ ''/output.jsonl''"

definition requireSha256 :: "string option \<Rightarrow> string option" where
  "requireSha256 v = (let c = to_lower (strip (case v of None \<Rightarrow> [] | Some s \<Rightarrow> s)) in if hex64 c then Some c else None)"

record proof_line =
  pl_custom_id :: string
  pl_status :: line_status
  pl_cost :: int
  pl_update :: line_update

definition line_outcome :: "exec_line \<Rightarrow> int option \<Rightarrow> line_status option" where
  \<comment> \<open>the explicit status, or the one inferred from the status code; \<open>None\<close> when it is neither\<close>
  "line_outcome x code =
     (let explicit = to_lower (strip (case xl_status x of None \<Rightarrow> [] | Some t \<Rightarrow> t));
          has_error = (xl_error_code x \<noteq> None \<or> xl_error_message x \<noteq> None \<or> xl_error x \<noteq> None);
          inferred = (if (case code of None \<Rightarrow> False | Some c \<Rightarrow> 200 \<le> c \<and> c < 300) \<and> \<not> has_error then ''succeeded'' else ''failed'');
          st = (if explicit \<noteq> [] then explicit else inferred)
      in if st = ''succeeded'' then Some LSucceeded else if st = ''failed'' then Some LFailed else None)"

definition normalizeExecutionLine :: "string list \<Rightarrow> string list \<Rightarrow> exec_line \<Rightarrow> worker_error + proof_line" where
  "normalizeExecutionLine expected seen x =
     (let custom = strip (case xl_custom_id x of None \<Rightarrow> [] | Some t \<Rightarrow> t) in
      if custom = [] \<or> custom \<in> set seen \<or> custom \<notin> set expected then Inl (BadLine custom)
      else case optional normalizeOptionalHttpStatus (xl_status_code x) of None \<Rightarrow> Inl (BadLine custom)
      | Some code \<Rightarrow>
     (case line_outcome x code of None \<Rightarrow> Inl (BadLine custom)
      | Some st \<Rightarrow>
        if st = LSucceeded \<and> ((case code of None \<Rightarrow> True | Some c \<Rightarrow> c < 200 \<or> 300 \<le> c) \<or> requireSha256 (xl_checksum x) = None)
        then Inl (BadLine custom)
        else (case optional normalizePositiveInteger (xl_provider x) of None \<Rightarrow> Inl (BadLine custom)
        | Some prov \<Rightarrow>
            Inr \<lparr>pl_custom_id = custom, pl_status = st, pl_cost = nonneg_or (xl_cost x) 0,
              pl_update = \<lparr>nu_status_code = code, nu_checksum = xl_checksum x, nu_bytes = xl_bytes x, nu_provider = prov,
                nu_usage = xl_usage x, nu_cost = nonneg_or (xl_cost x) 0, nu_request_id = xl_request_id x,
                nu_response_id = xl_response_id x,
                nu_error_code = (if truthy_str (xl_error_code x) then xl_error_code x
                  else if st = LFailed then Some ''batch_line_failed'' else None)\<rparr>\<rparr>)))"

fun normalize_all :: "string list \<Rightarrow> string list \<Rightarrow> exec_line list \<Rightarrow> worker_error + proof_line list" where
  "normalize_all expected seen [] = Inr []"
| "normalize_all expected seen (x # xs) =
     (case normalizeExecutionLine expected seen x of Inl e \<Rightarrow> Inl e
      | Inr p \<Rightarrow> (case normalize_all expected (pl_custom_id p # seen) xs of Inl e \<Rightarrow> Inl e | Inr ps \<Rightarrow> Inr (p # ps)))"

record line_summary =
  lm_completed :: int
  lm_failed :: int
  lm_cost :: int

definition applyExecutionLineProofs ::
    "int \<Rightarrow> batch_row \<Rightarrow> exec_line list option \<Rightarrow> batch_state \<Rightarrow> batch_state \<times> (worker_error + line_summary option)" where
  "applyExecutionLineProofs now b xs s =
     (case xs of None \<Rightarrow> (s, Inr None)
      | Some lines \<Rightarrow>
        let expected = (case listBatchInferenceJobLines (bt_renter b) (bt_batch_id b) (Some (of_int (max (bt_requests b) 1))) None s of
                          None \<Rightarrow> [] | Some ls \<Rightarrow> ls) in
        if length lines \<noteq> length expected then (s, Inl (LineCount (length expected)))
        else case normalize_all (map ln_custom_id expected) [] lines of Inl e \<Rightarrow> (s, Inl e)
        | Inr ps \<Rightarrow>
          (case each_line (\<lambda>p. updateBatchInferenceJobLineStatus now (bt_renter b) (bt_batch_id b) (pl_custom_id p) (pl_status p) (pl_update p)) ps s of
             (s1, Some e) \<Rightarrow> (s1, Inl (LineUpdate e))
           | (s1, None) \<Rightarrow>
               (s1, Inr (Some \<lparr>lm_completed = int (length (filter (\<lambda>p. pl_status p = LSucceeded) ps)),
                  lm_failed = int (length (filter (\<lambda>p. pl_status p = LFailed) ps)),
                  lm_cost = sum_list (map pl_cost ps)\<rparr>))))"

record worker_config =
  wc_settlement :: bool
  wc_provider :: "int option"

definition settle_executed ::
    "worker_config \<Rightarrow> int \<Rightarrow> batch_row \<Rightarrow> line_summary option \<Rightarrow> batch_state \<Rightarrow> batch_state \<times> worker_error option" where
  "settle_executed cfg now b sm s =
     (if \<not> wc_settlement cfg then (s, None)
      else if sm = None then (s, Some SettlementRequiresLines)
      else let ls = (case listBatchInferenceJobLines (bt_renter b) (bt_batch_id b) (Some (of_int (max (bt_requests b) 1))) None s of
                       None \<Rightarrow> [] | Some ls \<Rightarrow> ls) in
        (case settleBatchInferenceLines now (wc_provider cfg) b ls s of
           (s', Inl e) \<Rightarrow> (s', Some (SettlementError e)) | (s', Inr _) \<Rightarrow> (s', None)))"

definition completed_update :: "batch_row \<Rightarrow> execution \<Rightarrow> string \<Rightarrow> line_summary option \<Rightarrow> batch_update" where
  "completed_update b x cks sm =
     \<lparr>bu_key = Some (if truthy_str (ex_key x) then the (ex_key x) else buildBatchResultStorageKey b),
      bu_checksum = Some cks, bu_bytes = Some (Some (of_int (nonneg_or (ex_bytes x) 0))),
      bu_completed = Some (Some (of_int (case sm of Some m \<Rightarrow> lm_completed m | None \<Rightarrow> nonneg_or (ex_completed x) (bt_requests b)))),
      bu_failed = Some (Some (of_int (case sm of Some m \<Rightarrow> lm_failed m | None \<Rightarrow> nonneg_or (ex_failed x) 0))),
      bu_cost = Some (Some (of_int (case sm of Some m \<Rightarrow> lm_cost m | None \<Rightarrow> nonneg_or (ex_cost x) 0)))\<rparr>"

definition try_finish ::
    "worker_config \<Rightarrow> int \<Rightarrow> batch_row \<Rightarrow> execution option \<Rightarrow> batch_state \<Rightarrow> batch_state \<times> (worker_error + unit)" where
  \<comment> \<open>the \<open>try\<close> block after the executor; a rejected executor is \<open>None\<close>\<close>
  "try_finish cfg now b ex s =
     (case ex of None \<Rightarrow> (s, Inl ExecutorFailed)
      | Some x \<Rightarrow>
     (case requireSha256 (ex_checksum x) of None \<Rightarrow> (s, Inl BadResultChecksum)
      | Some cks \<Rightarrow>
     (case applyExecutionLineProofs now b (ex_lines x) s of (s1, Inl e) \<Rightarrow> (s1, Inl e)
      | (s1, Inr sm) \<Rightarrow>
     (case settle_executed cfg now b sm s1 of (s2, Some e) \<Rightarrow> (s2, Inl e)
      | (s2, None) \<Rightarrow>
        (case updateBatchInferenceJobStatus now (bt_renter b) (bt_batch_id b) BCompleted (completed_update b x cks sm) s2 of
           Inl e \<Rightarrow> (s2, Inl (StatusUpdate e)) | Inr s3 \<Rightarrow> (s3, Inr ()))))))"

definition worker_start :: "int \<Rightarrow> batch_row \<Rightarrow> batch_state \<Rightarrow> batch_state" where
  "worker_start now b s =
     (case updateBatchInferenceJobStatus now (bt_renter b) (bt_batch_id b) BRunning no_update s of Inl _ \<Rightarrow> s | Inr s' \<Rightarrow> s')"

definition worker_finish ::
    "worker_config \<Rightarrow> int \<Rightarrow> batch_row \<Rightarrow> execution option \<Rightarrow> batch_state \<Rightarrow> batch_state \<times> (worker_error + unit)" where
  "worker_finish cfg now b ex s =
     (case try_finish cfg now b ex s of (s1, Inr ()) \<Rightarrow> (s1, Inr ())
      | (s1, Inl e) \<Rightarrow>
        ((case updateBatchInferenceJobStatus now (bt_renter b) (bt_batch_id b) BFailed
            (no_update\<lparr>bu_completed := Some (Some 0), bu_failed := Some (Some (of_int (bt_requests b))), bu_cost := Some (Some 0)\<rparr>) s1 of
            Inl _ \<Rightarrow> s1 | Inr s2 \<Rightarrow> s2), Inl e))"

text \<open>A run with nothing in between; \<open>clock\<close> gives the time of each batch's answer.\<close>

fun worker_run ::
    "worker_config \<Rightarrow> int \<Rightarrow> (batch_row \<Rightarrow> int) \<Rightarrow> (batch_row \<Rightarrow> execution option) \<Rightarrow> batch_row list
       \<Rightarrow> batch_state \<Rightarrow> batch_state \<times> (worker_error + unit) list" where
  "worker_run cfg now clock executor [] s = (s, [])"
| "worker_run cfg now clock executor (b # bs) s =
     (let (s1, r) = worker_finish cfg (clock b) b (executor b) (worker_start now b s);
          (s2, rs) = worker_run cfg (clock b) clock executor bs s1 in (s2, r # rs))"

definition runBatchInferenceWorkerOnce ::
    "worker_config \<Rightarrow> bool \<Rightarrow> js_num \<Rightarrow> int \<Rightarrow> (batch_row \<Rightarrow> int) \<Rightarrow> (batch_row \<Rightarrow> execution option) option
       \<Rightarrow> batch_state \<Rightarrow> batch_state \<times> (worker_error + unit) list" where
  "runBatchInferenceWorkerOnce cfg enabled limit now clock executor s =
     (if \<not> enabled then (s, [])
      else case executor of None \<Rightarrow> (s, [])
      | Some f \<Rightarrow>
        let n = (case limit of None \<Rightarrow> 5 | Some r \<Rightarrow> if is_integer r \<and> 1 \<le> r then min \<lfloor>r\<rfloor> 25 else 5) in
        worker_run cfg now clock f (listCreatedBatchInferenceJobs (Some (of_int n)) s) s)"

section \<open>What is left of the grants\<close>

definition live_left :: "int \<Rightarrow> int \<Rightarrow> credit_grant list \<Rightarrow> int" where
  "live_left r now rows = sum_list (map (\<lambda>g. if sc_renter g = r \<and> now < sc_expires_at g then max 0 (grant_left g) else 0) rows)"

lemma remaining_live: "getRemainingCreditTotal d r now = live_left r now (credits d)"
  unfolding getRemainingCreditTotal_def sql_sum_def live_left_def sum_list_filter_mono
  by (rule arg_cong [of _ _ sum_list]) (auto simp: spendable_def grant_left_def)

lemma live_left_consume:
  assumes "has_key sc_id rows" "g \<in> set rows" "spendable r now g" "0 \<le> t" "t \<le> grant_left g"
  shows "live_left r now (consume (sc_id g) t rows) = live_left r now rows - t"
  using sum_list_update_key [OF assms(1,2), of "\<lambda>x. sc_consumed x + t \<le> sc_amount x"
      "\<lambda>g. if sc_renter g = r \<and> now < sc_expires_at g then max 0 (grant_left g) else 0"
      "\<lambda>g. g\<lparr>sc_consumed := sc_consumed g + t\<rparr>"] assms(3-5)
  by (simp add: live_left_def consume_def spendable_def grant_left_def)

lemma drain_loop_left:
  "drain_ready gs s \<Longrightarrow> \<forall>g\<in>set gs. spendable r now g \<Longrightarrow> 0 \<le> dr_remaining s \<Longrightarrow>
     live_left r now (dr_table (drain_loop gs s)) + dr_drained (drain_loop gs s) = live_left r now (dr_table s) + dr_drained s"
proof (induction gs s rule: drain_loop.induct)
  case (2 g gs s)
  show ?case
  proof (cases "dr_remaining s \<le> 0")
    case False
    have left: "0 < sc_amount g - sc_consumed g" and key: "has_key sc_id (dr_table s)" and mem: "g \<in> set (dr_table s)"
      using "2.prems" by (auto simp: drain_ready_def grant_left_def)
    let ?t = "min (sc_amount g - sc_consumed g) (dr_remaining s)"
    let ?s = "s\<lparr>dr_table := consume (sc_id g) ?t (dr_table s), dr_remaining := dr_remaining s - ?t,
                dr_drained := dr_drained s + ?t, dr_touched := dr_touched s @ [(sc_id g, ?t)]\<rparr>"
    have "drain_ready gs ?s" by (rule drain_ready_step [OF "2.prems"(1)])
    moreover have "0 \<le> dr_remaining ?s" "\<forall>g\<in>set gs. spendable r now g" using "2.prems" by simp_all
    ultimately have "live_left r now (dr_table (drain_loop gs ?s)) + dr_drained (drain_loop gs ?s)
        = live_left r now (dr_table ?s) + dr_drained ?s"
      using "2.IH"(2) False left by (simp add: Let_def)
    moreover have "live_left r now (consume (sc_id g) ?t (dr_table s)) = live_left r now (dr_table s) - ?t"
      using "2.prems"(2) False left by (intro live_left_consume [OF key mem]) (simp_all add: grant_left_def)
    ultimately show ?thesis using False left by (simp add: Let_def)
  qed simp
qed simp

lemma debit_left:
  assumes "has_key sc_id (credits d)" "debitSubscriptionCredits d r cost now = (d', s)"
  shows "getRemainingCreditTotal d' r now = getRemainingCreditTotal d r now - dr_drained s"
proof -
  let ?s0 = "\<lparr>dr_table = credits d, dr_remaining = floor0 cost, dr_drained = 0, dr_touched = []\<rparr>"
  have "\<forall>g\<in>set (getAvailableCredits d r now). spendable r now g" by (simp add: set_getAvailableCredits)
  from drain_loop_left [OF drain_start_ready [OF assms(1), of r now "floor0 cost" 0 "[]"] this]
  have "live_left r now (dr_table (drain_loop (getAvailableCredits d r now) ?s0))
      + dr_drained (drain_loop (getAvailableCredits d r now) ?s0) = live_left r now (credits d)" by simp
  then show ?thesis
    using assms(2) by (auto simp: debitSubscriptionCredits_def Let_def remaining_live split: if_splits)
qed

definition available :: "db \<Rightarrow> int \<Rightarrow> int \<Rightarrow> int" where
  "available d r now = eb_total (getEffectiveBalance d r now)"

lemma available_sum: "available d r now = balance_of d r + getRemainingCreditTotal d r now"
  by (simp add: available_def sum_effective)

lemma settled_available:
  assumes k: "money_keys d" and ok: "settleInferenceOnce d a = Inr (d', Settled x)"
  shows "available d' (sa_renter a) (sa_now a) = available d (sa_renter a) (sa_now a) - settle_cost a"
proof -
  obtain d2 dr d3 where c:
    "debitSubscriptionCredits (claim_request a d) (sa_renter a) (Some (of_int (settle_cost a))) (sa_now a) = (d2, dr)"
    "(if dr_remaining dr > 0 then debit_renter (sa_renter a) (dr_remaining dr) (sa_now a) d2 else Some d2) = Some d3"
    "d' = settle_tail a d3"
    "x = \<lparr>se_cost = settle_cost a, se_earned = settle_earned a, se_shortfall = dr_remaining dr,
          se_drained = dr_drained dr, se_balance_after = balance_of d' (sa_renter a)\<rparr>"
    by (rule settled_cases [OF ok])
  have d3: "credits d' = credits d2" using c(2,3) debit_renter_frame(2) [of _ _ _ d2 d3] by (auto split: if_splits)
  have "getRemainingCreditTotal d2 (sa_renter a) (sa_now a)
      = getRemainingCreditTotal (claim_request a d) (sa_renter a) (sa_now a) - dr_drained dr"
    using k by (intro debit_left [OF _ c(1)]) (simp add: money_keys_def)
  then have "getRemainingCreditTotal d' (sa_renter a) (sa_now a) = getRemainingCreditTotal d (sa_renter a) (sa_now a) - se_drained x"
    using d3 c(4) by (simp add: remaining_live)
  moreover have "balance_of d' (sa_renter a) = balance_of d (sa_renter a) - se_shortfall x" "se_drained x + se_shortfall x = settle_cost a"
    using settled_effect(4,7) [OF _ _ ok] k by (simp_all add: money_keys_def)
  ultimately show ?thesis by (simp add: available_sum)
qed

section \<open>Charging the lines of a batch\<close>

lemma length_strip: "length (strip s) \<le> length s"
  unfolding strip_def Let_def length_rev
  by (rule order_trans [OF length_dropWhile_le]) (simp add: length_dropWhile_le)

lemma strip_nonempty: "c \<in> set s \<Longrightarrow> c \<notin> {CHR '' '', CHR 0x09, CHR 0x0A, CHR 0x0B, CHR 0x0C, CHR 0x0D} \<Longrightarrow> strip s \<noteq> []"
  unfolding strip_def Let_def rev_is_Nil_conv dropWhile_eq_Nil_conv set_rev
  by (metis (no_types, lifting) UnE set_append set_takeWhileD takeWhile_dropWhile_id)

definition valid_line :: "int option \<Rightarrow> batch_row \<Rightarrow> line_row \<Rightarrow> bool" where
  "valid_line opt b l = (batch_id_ok (bt_batch_id b) \<and> url_safe 128 (ln_custom_id l)
     \<and> (case line_provider opt l of None \<Rightarrow> True | Some p \<Rightarrow> 0 < p))"

lemma request_id_bounded:
  assumes "valid_line opt b l"
  shows "normalizeBoundedString 240 (buildBatchLineSettlementRequestId b l) \<noteq> None"
proof -
  let ?i = "buildBatchLineSettlementRequestId b l"
  have "take 6 (bt_batch_id b) @ drop 6 (bt_batch_id b) = bt_batch_id b" by (rule append_take_drop_id)
  then have "length (bt_batch_id b) = length (take 6 (bt_batch_id b)) + length (drop 6 (bt_batch_id b))" by simp
  then have "length (bt_batch_id b) \<le> 70" "length (ln_custom_id l) \<le> 128"
    using assms by (auto simp: valid_line_def batch_id_ok_def url_safe_def Let_def)
  then have "length ?i \<le> 240" by (simp add: buildBatchLineSettlementRequestId_def)
  moreover have "strip ?i \<noteq> []"
    by (rule strip_nonempty [of "CHR ''b''"]) (simp_all add: buildBatchLineSettlementRequestId_def)
  ultimately show ?thesis using length_strip [of ?i] by (simp add: normalizeBoundedString_def Let_def)
qed

lemma request_id_inj:
  "buildBatchLineSettlementRequestId b l = buildBatchLineSettlementRequestId b k \<longleftrightarrow> ln_custom_id l = ln_custom_id k"
  by (simp add: buildBatchLineSettlementRequestId_def)

definition set_settlement :: "int \<Rightarrow> line_settlement \<Rightarrow> string option option \<Rightarrow> int option \<Rightarrow> string option option \<Rightarrow> line_row \<Rightarrow> line_row" where
  "set_settlement now st rid provider err l =
     l\<lparr>ln_settlement := st, ln_settlement_id := coalesce (case rid of None \<Rightarrow> None | Some r \<Rightarrow> r) (ln_settlement_id l),
       ln_provider := coalesce provider (ln_provider l), ln_settlement_error := (case err of None \<Rightarrow> None | Some e \<Rightarrow> e),
       ln_settled_at := (if st \<noteq> Unsettled then Some now else ln_settled_at l), ln_updated_at := now\<rparr>"

lemma set_settlement_simps [simp]:
  "ln_settlement (set_settlement now st rid p err l) = st" "ln_custom_id (set_settlement now st rid p err l) = ln_custom_id l"
  "line_at n i c (set_settlement now st rid p err l) = line_at n i c l"
  by (simp_all add: set_settlement_def line_at_def)

text \<open>A mark of a valid line goes through and touches the rows of that line only.\<close>

lemma mark_line_ok:
  assumes "valid_line opt b l" "rid l = None \<or> rid l = Some (buildBatchLineSettlementRequestId b l)"
    "provider l = None \<or> provider l = line_provider opt l" "\<And>e. err = Some e \<Longrightarrow> normalizeBoundedString 120 e \<noteq> None"
  obtains r e where "mark_line now b st rid provider err l s
     = Inr (s\<lparr>bs_lines := sql_update (line_at (bt_renter b) (bt_batch_id b) (ln_custom_id l)) (set_settlement now st r (provider l) e) (bs_lines s)\<rparr>)"
proof -
  obtain r where r: "optional (normalizeBoundedString 240) (rid l) = Some r"
    using request_id_bounded [OF assms(1)] assms(2) by (auto simp: optional_def)
  obtain e where e: "optional (normalizeBoundedString 120) err = Some e"
    using assms(4) by (cases err) (auto simp: optional_def)
  have "\<not> (case provider l of None \<Rightarrow> False | Some p \<Rightarrow> p \<le> 0)"
    using assms(1,3) by (auto simp: valid_line_def split: option.splits)
  then show thesis using that [of "Some r" "Some e"] r e
    by (simp add: mark_line_def updateBatchInferenceJobLineSettlement_def set_settlement_def [abs_def])
qed

lemma mark_lines_ok:
  assumes "\<forall>l\<in>set ls. valid_line opt b l" "\<And>l. rid l = None \<or> rid l = Some (buildBatchLineSettlementRequestId b l)"
    "\<And>l. provider l = None \<or> provider l = line_provider opt l" "\<And>e. err = Some e \<Longrightarrow> normalizeBoundedString 120 e \<noteq> None"
  shows "\<exists>rows. each_line (mark_line now b st rid provider err) ls s = (s\<lparr>bs_lines := rows\<rparr>, None)"
  using assms(1)
proof (induction ls arbitrary: s)
  case Nil
  show ?case by (intro exI [of _ "bs_lines s"]) simp
next
  case (Cons l ls)
  have v: "valid_line opt b l" using Cons.prems by simp
  obtain r e where m: "mark_line now b st rid provider err l s
     = Inr (s\<lparr>bs_lines := sql_update (line_at (bt_renter b) (bt_batch_id b) (ln_custom_id l)) (set_settlement now st r (provider l) e) (bs_lines s)\<rparr>)"
    by (rule mark_line_ok [of opt b l rid provider err now st s]) (use v assms(2,3,4) in auto)
  then show ?case using Cons.IH [of "s\<lparr>bs_lines := sql_update (line_at (bt_renter b) (bt_batch_id b) (ln_custom_id l)) (set_settlement now st r (provider l) e) (bs_lines s)\<rparr>"]
      Cons.prems by simp
qed

definition paid_line :: "line_row \<Rightarrow> bool" where
  "paid_line x = (ln_settlement x \<in> {LineSettled, LineAlreadySettled})"

abbreviation line_id :: "batch_row \<Rightarrow> line_row \<Rightarrow> string" where
  "line_id b l \<equiv> buildBatchLineSettlementRequestId b l"

definition fresh_cost :: "batch_row \<Rightarrow> line_row list \<Rightarrow> db \<Rightarrow> int" where
  "fresh_cost b ls d = sum_list (map ln_cost (filter (\<lambda>l. line_id b l \<notin> request_ids d) ls))"

definition of_batch :: "batch_row \<Rightarrow> line_row \<Rightarrow> bool" where
  "of_batch b x = (ln_renter x = bt_renter b \<and> ln_batch_id x = bt_batch_id b)"

lemma fresh_cost_le: "\<forall>l\<in>set ls. billable l \<Longrightarrow> fresh_cost b ls d \<le> sum_list (map ln_cost ls)"
  unfolding fresh_cost_def by (induction ls) (auto simp: billable_def)

lemma line_args [simp]:
  "sa_request_id (line_settle_args now p b l) = line_id b l" "sa_renter (line_settle_args now p b l) = bt_renter b"
  "sa_now (line_settle_args now p b l) = now" "settle_cost (line_settle_args now p b l) = max 0 (ln_cost l)"
  by (simp_all add: line_settle_args_def Let_def settle_cost_def)

lemma line_id_nonempty [simp]: "line_id b l \<noteq> []"
  by (simp add: buildBatchLineSettlementRequestId_def)

text \<open>One line: what \<open>settleInferenceOnce\<close> does to it when the money suffices.\<close>

lemma line_settles:
  assumes "money_keys d" "0 < ln_cost l" "line_id b l \<notin> request_ids d \<Longrightarrow> ln_cost l \<le> available d (bt_renter b) now"
  obtains d' r where "settleInferenceOnce d (line_settle_args now p b l) = Inr (d', r)"
    "money_keys d'" "request_ids d' = insert (line_id b l) (request_ids d)"
    "available d' (bt_renter b) now = available d (bt_renter b) now - (if line_id b l \<in> request_ids d then 0 else ln_cost l)"
    "d' = settle_db d (line_settle_args now p b l)"
proof (cases "line_id b l \<in> request_ids d")
  case True
  then have r: "settleInferenceOnce d (line_settle_args now p b l)
      = Inr (d, AlreadySettled (sql_get (\<lambda>x. ba_request_id x = line_id b l) (billing_attempts d)))"
    by (simp add: settleInferenceOnce_def request_ids_def)
  from that [OF r] show thesis using True assms(1) r by (simp add: insert_absorb settle_db_def)
next
  case False
  let ?a = "line_settle_args now p b l"
  have k: "has_key rn_id (renters d)" using assms(1) by (simp add: money_keys_def)
  have "shortfall_of d ?a = 0 \<or> shortfall_of d ?a \<le> balance_of d (sa_renter ?a)"
    using assms(2) assms(3) [OF False] by (auto simp: shortfall_of_def available_sum)
  then obtain d' x where ok: "settleInferenceOnce d ?a = Inr (d', Settled x)"
    using settle_fresh_outcome(1) [OF k, of ?a] False line_id_nonempty [of b l] unfolding request_ids_def line_args by blast
  have keys: "money_keys d'" using settle_db_keys [OF assms(1), of ?a] ok by (simp add: settle_db_def)
  have ids: "request_ids d' = insert (line_id b l) (request_ids d)"
    using settled_attempts [OF ok] by (simp add: request_ids_def flip: set_map)
  have av: "available d' (bt_renter b) now = available d (bt_renter b) now - ln_cost l"
    using settled_available [OF assms(1) ok] assms(2) by simp
  have run: "d' = settle_db d ?a" using ok by (simp add: settle_db_def)
  show thesis by (rule that [OF ok keys ids _ run]) (simp add: av False)
qed

lemma settle_loop_ok:
  "money_keys (bs_db s) \<Longrightarrow> \<forall>l\<in>set ls. valid_line opt b l \<and> billable l \<Longrightarrow> distinct (map ln_custom_id ls) \<Longrightarrow>
   fresh_cost b ls (bs_db s) \<le> available (bs_db s) (bt_renter b) now \<Longrightarrow>
   \<exists>s' m'. settle_loop now opt b ls (s, m) = (s', Inr m')
     \<and> bm_settled m' + bm_already m' = bm_settled m + bm_already m + int (length ls)
     \<and> available (bs_db s') (bt_renter b) now = available (bs_db s) (bt_renter b) now - fresh_cost b ls (bs_db s)
     \<and> request_ids (bs_db s') = line_id b ` set ls \<union> request_ids (bs_db s)
     \<and> (\<forall>x\<in>set (bs_lines s'). of_batch b x \<longrightarrow> ln_custom_id x \<in> ln_custom_id ` set ls \<longrightarrow> paid_line x)
     \<and> (\<forall>x\<in>set (bs_lines s'). of_batch b x \<longrightarrow> ln_custom_id x \<notin> ln_custom_id ` set ls \<longrightarrow> x \<in> set (bs_lines s))"
proof (induction ls arbitrary: s m)
  case Nil
  then show ?case by (simp add: fresh_cost_def)
next
  case (Cons l ls)
  let ?d = "bs_db s" and ?p = "line_provider opt l"
  have v: "valid_line opt b l" "0 < ln_cost l" and rest: "\<forall>l\<in>set ls. valid_line opt b l \<and> billable l" "distinct (map ln_custom_id ls)"
    and new: "ln_custom_id l \<notin> ln_custom_id ` set ls" using Cons.prems by (auto simp: billable_def)
  have nn: "0 \<le> fresh_cost b ls d" for d
    unfolding fresh_cost_def using rest(1) by (intro sum_list_nonneg) (auto simp: billable_def)
  have hd_cost: "fresh_cost b (l # ls) ?d = (if line_id b l \<in> request_ids ?d then 0 else ln_cost l) + fresh_cost b ls ?d"
    by (simp add: fresh_cost_def)
  obtain d r where st: "settleInferenceOnce ?d (line_settle_args now ?p b l) = Inr (d, r)" "money_keys d"
    "request_ids d = insert (line_id b l) (request_ids ?d)"
    "available d (bt_renter b) now = available ?d (bt_renter b) now - (if line_id b l \<in> request_ids ?d then 0 else ln_cost l)"
    using line_settles [OF Cons.prems(1) v(2), of b now ?p] Cons.prems(4) hd_cost nn [of ?d] by (smt (verit))
  have same: "fresh_cost b ls d = fresh_cost b ls ?d"
    unfolding fresh_cost_def st(3) by (rule arg_cong [of _ _ "\<lambda>f. sum_list (map ln_cost f)"], rule filter_cong)
      (use new in \<open>auto simp: request_id_inj rev_image_eqI\<close>)
  let ?st = "case r of AlreadySettled _ \<Rightarrow> LineAlreadySettled | Settled _ \<Rightarrow> LineSettled"
  obtain ri e where mk: "mark_line now b ?st (\<lambda>l. Some (line_id b l)) (\<lambda>_. ?p) None l (s\<lparr>bs_db := d\<rparr>)
      = Inr (s\<lparr>bs_db := d, bs_lines := sql_update (line_at (bt_renter b) (bt_batch_id b) (ln_custom_id l))
          (set_settlement now ?st ri ?p e) (bs_lines s)\<rparr>)"
    by (rule mark_line_ok [OF v(1), of "\<lambda>l. Some (line_id b l)" "\<lambda>_. ?p" None now ?st "s\<lparr>bs_db := d\<rparr>"]) auto
  define s2 where "s2 = s\<lparr>bs_db := d, bs_lines := sql_update (line_at (bt_renter b) (bt_batch_id b) (ln_custom_id l))
          (set_settlement now ?st ri ?p e) (bs_lines s)\<rparr>"
  define m2 where "m2 = (let m1 = m\<lparr>bm_attempted := bm_attempted m + 1\<rparr> in
      if ?st = LineAlreadySettled then m1\<lparr>bm_already := bm_already m1 + 1\<rparr> else m1\<lparr>bm_settled := bm_settled m1 + 1\<rparr>)"
  have loop: "settle_loop now opt b (l # ls) (s, m) = settle_loop now opt b ls (s2, m2)"
    unfolding s2_def m2_def by (simp add: st(1) mk Let_def)
  have m2: "bm_settled m2 + bm_already m2 = bm_settled m + bm_already m + 1" by (simp add: m2_def Let_def)
  have db2: "bs_db s2 = d" by (simp add: s2_def)
  have "fresh_cost b ls (bs_db s2) \<le> available (bs_db s2) (bt_renter b) now"
    using Cons.prems(4) hd_cost same st(4) db2 by simp
  from Cons.IH [OF _ rest this, of m2] obtain s' m' where IH: "settle_loop now opt b ls (s2, m2) = (s', Inr m')"
    "bm_settled m' + bm_already m' = bm_settled m2 + bm_already m2 + int (length ls)"
    "available (bs_db s') (bt_renter b) now = available d (bt_renter b) now - fresh_cost b ls d"
    "request_ids (bs_db s') = line_id b ` set ls \<union> request_ids d"
    "\<forall>x\<in>set (bs_lines s'). of_batch b x \<longrightarrow> ln_custom_id x \<in> ln_custom_id ` set ls \<longrightarrow> paid_line x"
    "\<forall>x\<in>set (bs_lines s'). of_batch b x \<longrightarrow> ln_custom_id x \<notin> ln_custom_id ` set ls \<longrightarrow> x \<in> set (bs_lines s2)"
    using st(2) db2 by auto
  have upd: "of_batch b x \<longrightarrow> (if ln_custom_id x = ln_custom_id l then paid_line x else x \<in> set (bs_lines s))"
    if "x \<in> set (bs_lines s2)" for x
    using that by (auto simp: s2_def set_sql_update line_at_def of_batch_def paid_line_def set_settlement_def split: settle_result.splits)
  show ?case
    using IH loop m2 hd_cost same st(3,4) upd by (intro exI [of _ s'] exI [of _ m']) (auto split: if_splits)
qed

lemma settle_loop_total: "settle_loop now opt b ls (s, m) = (s', Inr m') \<Longrightarrow> bm_total m' = bm_total m"
  by (induction ls arbitrary: s m) (force simp: Let_def split: sum.splits prod.splits if_splits settle_result.splits)+

section \<open>What a settled batch is\<close>


definition demo_batch :: batch_row where
  "demo_batch =
     \<lparr>bt_batch_id = ''batch_abc123'', bt_renter = 1, bt_input_key = ''k'', bt_checksum = ''c'', bt_bytes = 80, bt_requests = 2,
      bt_window = ''24h'', bt_metadata = None, bt_result_key = None, bt_result_checksum = None, bt_result_bytes = 0,
      bt_status = BRunning, bt_completed = 0, bt_failed = 0, bt_total_cost = 0, bt_idem = None, bt_created_at = 0,
      bt_updated_at = 0, bt_started_at = None, bt_completed_at = None, bt_expires_at = day_ms\<rparr>"

definition demo_line_row :: "int \<Rightarrow> string \<Rightarrow> line_status \<Rightarrow> int \<Rightarrow> line_row" where
  "demo_line_row i custom st cost =
     \<lparr>ln_batch_id = ''batch_abc123'', ln_renter = 1, ln_index = i, ln_custom_id = custom, ln_model = ''m'', ln_request_checksum = ''r'',
      ln_status = st, ln_status_code = None, ln_checksum = None, ln_bytes = 0, ln_provider = Some 7, ln_prompt_tokens = 0,
      ln_completion_tokens = 0, ln_total_tokens = 0, ln_cost = cost, ln_request_id = None, ln_response_id = None,
      ln_settlement = Unsettled, ln_settlement_id = None, ln_settlement_error = None, ln_settled_at = None,
      ln_error_code = None, ln_updated_at = 0, ln_completed_at = None\<rparr>"

definition demo_batch_state :: batch_state where
  "demo_batch_state = \<lparr>bs_db = demo_sub_db, bs_batches = [demo_batch],
     bs_lines = [demo_line_row 1 ''a'' LSucceeded 300, demo_line_row 2 ''c'' LFailed 50]\<rparr>"

lemma demo_available: "available demo_sub_db 1 1000 = 1100"
  by (simp add: available_sum getRemainingCreditTotal_def sql_sum_def spendable_def demo_grant_def)

lemma demo_valid: "valid_line None demo_batch (demo_line_row i ''a'' st c)" "valid_line None demo_batch (demo_line_row i ''c'' st c)"
proof -
  have "batch_id_ok ''batch_abc123''" "url_safe 128 ''a''" "url_safe 128 ''c''" by code_simp+
  then show "valid_line None demo_batch (demo_line_row i ''a'' st c)" "valid_line None demo_batch (demo_line_row i ''c'' st c)"
    by (simp_all add: valid_line_def demo_batch_def demo_line_row_def line_provider_def truthy_id_def)
qed


section \<open>Batches that cannot complete\<close>

lemma update_status_ok:
  assumes "count_or_0 c = Some nc" "count_or_0 f = Some nf" "count_or_0 h = Some nh" "st \<noteq> BCompleted"
  shows "\<exists>rows. updateBatchInferenceJobStatus now renter bid st \<lparr>bu_key = None, bu_checksum = None, bu_bytes = None, bu_completed = c, bu_failed = f, bu_cost = h\<rparr> s
       = Inr (s\<lparr>bs_batches := rows\<rparr>)
     \<and> (\<forall>b\<in>set rows. bt_renter b = renter \<and> bt_batch_id b = bid \<longrightarrow> bt_status b = st)
     \<and> map bt_batch_id rows = map bt_batch_id (bs_batches s) \<and> map bt_renter rows = map bt_renter (bs_batches s)"
proof -
  let ?P = "\<lambda>b. bt_renter b = renter \<and> bt_batch_id b = bid"
  obtain g where g: "updateBatchInferenceJobStatus now renter bid st \<lparr>bu_key = None, bu_checksum = None, bu_bytes = None, bu_completed = c, bu_failed = f, bu_cost = h\<rparr> s
       = Inr (s\<lparr>bs_batches := sql_update ?P g (bs_batches s)\<rparr>)"
    and "\<And>b. bt_status (g b) = st \<and> bt_batch_id (g b) = bt_batch_id b \<and> bt_renter (g b) = bt_renter b"
    using assms by (simp add: updateBatchInferenceJobStatus_def optional_def)
  then show ?thesis by (intro exI [of _ "sql_update ?P g (bs_batches s)"]) (auto simp: set_sql_update map_sql_update)
qed

lemma count_of_int [simp]: "count_or_0 None = Some 0" "0 \<le> n \<Longrightarrow> count_or_0 (Some (Some (of_int n))) = Some n"
  "count_or_0 (Some (Some 0)) = Some 0"
  by (simp_all add: count_or_0_def normalizeNonNegativeInteger_def is_integer_def)

lemma worker_start_ok:
  "\<exists>rows. worker_start now b s = s\<lparr>bs_batches := rows\<rparr>
     \<and> map bt_batch_id rows = map bt_batch_id (bs_batches s) \<and> map bt_renter rows = map bt_renter (bs_batches s)"
  using update_status_ok [OF count_of_int(1) count_of_int(1) count_of_int(1), of BRunning now "bt_renter b" "bt_batch_id b" s] by (auto simp: worker_start_def no_update_def)

lemma batch_known:
  assumes "map bt_batch_id rows = map bt_batch_id rows'" "map bt_renter rows = map bt_renter rows'"
  shows "(\<exists>x\<in>set rows. bt_renter x = r \<and> bt_batch_id x = i) = (\<exists>x\<in>set rows'. bt_renter x = r \<and> bt_batch_id x = i)"
proof -
  have "map (\<lambda>x. (bt_renter x, bt_batch_id x)) rows = map (\<lambda>x. (bt_renter x, bt_batch_id x)) rows'"
    using assms by (simp add: list_eq_iff_nth_eq)
  then have "(r, i) \<in> set (map (\<lambda>x. (bt_renter x, bt_batch_id x)) rows) \<longleftrightarrow> (r, i) \<in> set (map (\<lambda>x. (bt_renter x, bt_batch_id x)) rows')"
    by simp
  then show ?thesis by (auto simp: image_iff)
qed

lemma batch_of_known: "(batch_of s r i \<noteq> None) = (\<exists>x\<in>set (bs_batches s). bt_renter x = r \<and> bt_batch_id x = i)"
  by (auto simp: batch_of_def sql_get_None)

definition batch_lines :: "batch_row \<Rightarrow> batch_state \<Rightarrow> line_row list" where
  "batch_lines b s = sql_all (\<lambda>l. ln_renter l = bt_renter b \<and> ln_batch_id l = bt_batch_id b) (bs_lines s)"

lemma listed_lines:
  assumes "batch_of s (bt_renter b) (bt_batch_id b) \<noteq> None" "100 \<le> n" "length (batch_lines b s) \<ge> 100"
  shows "\<exists>ls. listBatchInferenceJobLines (bt_renter b) (bt_batch_id b) (Some (of_int n)) None s = Some ls \<and> length ls = 100"
  using assms by (auto simp: listBatchInferenceJobLines_def sql_limit_def Let_def normalizeLimit_def normalizeOffset_def
      is_integer_def MAX_LIMIT_def batch_lines_def [symmetric])

text \<open>
  A batch of more than 100 requests never completes with a proof per line. Up to 1000 requests are
  accepted, but the worker reads back at most 100 lines and insists on exactly as many results: an
  executor that answers every line of such a batch has its work thrown away. The batch is failed, no
  line is updated and nobody is charged or paid.
\<close>

theorem long_batches_fail:
  assumes "batch_of s (bt_renter b) (bt_batch_id b) \<noteq> None" "int (length (batch_lines b s)) = bt_requests b" "100 < bt_requests b"
    and "ex_lines x = Some xs" "int (length xs) = bt_requests b" "requireSha256 (ex_checksum x) \<noteq> None"
    and "worker_finish cfg later b (Some x) (worker_start now b s) = (s', r)"
  shows "r = Inl (LineCount 100) \<and> bs_db s' = bs_db s \<and> bs_lines s' = bs_lines s
    \<and> map_option bt_status (batch_of s' (bt_renter b) (bt_batch_id b)) = Some BFailed"
proof -
  obtain rows where s1: "worker_start now b s = s\<lparr>bs_batches := rows\<rparr>" and ids: "map bt_batch_id rows = map bt_batch_id (bs_batches s)"
    "map bt_renter rows = map bt_renter (bs_batches s)" using worker_start_ok by blast
  let ?s1 = "s\<lparr>bs_batches := rows\<rparr>"
  have known: "batch_of ?s1 (bt_renter b) (bt_batch_id b) \<noteq> None"
    using assms(1) batch_known [OF ids] unfolding batch_of_known by simp
  obtain ls where ls: "listBatchInferenceJobLines (bt_renter b) (bt_batch_id b) (Some (of_int (max (bt_requests b) 1))) None ?s1 = Some ls"
    "length ls = 100"
    using listed_lines [OF known, of "max (bt_requests b) 1"] assms(2,3) by (auto simp: batch_lines_def)
  have "length xs \<noteq> 100" using assms(3,5) by linarith
  then have apply_fails: "applyExecutionLineProofs later b (ex_lines x) ?s1 = (?s1, Inl (LineCount 100))"
    using ls by (simp add: applyExecutionLineProofs_def assms(4))
  have run: "try_finish cfg later b (Some x) ?s1 = (?s1, Inl (LineCount 100))"
    using assms(6) apply_fails by (auto simp: try_finish_def)
  obtain rows2 where up: "updateBatchInferenceJobStatus later (bt_renter b) (bt_batch_id b) BFailed
      (no_update\<lparr>bu_completed := Some (Some 0), bu_failed := Some (Some (of_int (bt_requests b))), bu_cost := Some (Some 0)\<rparr>) ?s1 = Inr (?s1\<lparr>bs_batches := rows2\<rparr>)"
    and st: "\<forall>x\<in>set rows2. bt_renter x = bt_renter b \<and> bt_batch_id x = bt_batch_id b \<longrightarrow> bt_status x = BFailed"
    and ids2: "map bt_batch_id rows2 = map bt_batch_id rows" "map bt_renter rows2 = map bt_renter rows"
    using update_status_ok [OF count_of_int(3) count_of_int(2) [of "bt_requests b"] count_of_int(3), of BFailed later "bt_renter b" "bt_batch_id b" ?s1]
      assms(3) by (auto simp: no_update_def)
  have s': "s' = s\<lparr>bs_batches := rows2\<rparr>" "r = Inl (LineCount 100)"
    using assms(7) unfolding s1 worker_finish_def run by (simp_all add: up)
  have "batch_of s' (bt_renter b) (bt_batch_id b) \<noteq> None"
    using known batch_known [OF ids2] unfolding batch_of_known s'(1) by simp
  then obtain y where "batch_of s' (bt_renter b) (bt_batch_id b) = Some y" by blast
  then show ?thesis using st s' by (auto simp: batch_of_def dest: sql_get_Some)
qed

definition long_batch :: batch_row where "long_batch = demo_batch\<lparr>bt_requests := 101\<rparr>"

definition long_state :: batch_state where
  "long_state = \<lparr>bs_db = demo_sub_db, bs_batches = [long_batch],
     bs_lines = map (\<lambda>i. demo_line_row (int i) (dec (int i)) LPending 0) [1..<102]\<rparr>"

definition answer_line :: exec_line where
  "answer_line = \<lparr>xl_custom_id = Some ''1'', xl_status_code = Some (Some 200), xl_status = None, xl_error_code = None,
     xl_error_message = None, xl_error = None, xl_checksum = None, xl_bytes = None, xl_provider = None, xl_usage = None,
     xl_cost = None, xl_request_id = None, xl_response_id = None\<rparr>"

definition long_answer :: execution where
  "long_answer = \<lparr>ex_key = None, ex_checksum = Some (replicate 64 (CHR ''a'')), ex_bytes = None,
     ex_lines = Some (replicate 101 answer_line), ex_completed = None, ex_failed = None, ex_cost = None\<rparr>"

theorem long_batches_fail_witness:
  "snd (worker_finish \<lparr>wc_settlement = True, wc_provider = None\<rparr> 9 long_batch (Some long_answer) (worker_start 5 long_batch long_state))
     = Inl (LineCount 100)"
proof -
  obtain s' r where w: "worker_finish \<lparr>wc_settlement = True, wc_provider = None\<rparr> 9 long_batch (Some long_answer) (worker_start 5 long_batch long_state) = (s', r)"
    by fastforce
  have "batch_of long_state (bt_renter long_batch) (bt_batch_id long_batch) \<noteq> None"
    by (simp add: batch_of_def long_state_def sql_get_def)
  moreover have "filter (\<lambda>l. ln_renter l = bt_renter long_batch \<and> ln_batch_id l = bt_batch_id long_batch) (bs_lines long_state) = bs_lines long_state"
    by (rule filter_True) (auto simp: long_state_def long_batch_def demo_batch_def demo_line_row_def)
  then have "int (length (batch_lines long_batch long_state)) = bt_requests long_batch"
    unfolding batch_lines_def sql_all_def by (simp add: long_state_def long_batch_def)
  moreover have "requireSha256 (ex_checksum long_answer) \<noteq> None" by code_simp
  moreover have "100 < bt_requests long_batch" "ex_lines long_answer = Some (replicate 101 answer_line)"
    "int (length (replicate 101 answer_line)) = bt_requests long_batch"
    by (simp_all add: long_batch_def long_answer_def)
  ultimately show ?thesis using long_batches_fail [OF _ _ _ _ _ _ w] w by simp
qed

section \<open>The worker among everything else\<close>

text \<open>
  Creations, the two halves of the worker, of any number of workers, and other settled inference
  requests, in any order.
\<close>

datatype batch_event =
  BatchCreate "string \<Rightarrow> string" string int int batch_input
| WorkerStart int batch_row
| WorkerFinish worker_config int batch_row "execution option"
| OtherRequest settle_args

fun batch_step :: "batch_state \<Rightarrow> batch_event \<Rightarrow> batch_state" where
  "batch_step s (BatchCreate sha fresh now renter q) = fst (createBatchInferenceJob sha fresh now renter q s)"
| "batch_step s (WorkerStart now b) = worker_start now b s"
| "batch_step s (WorkerFinish cfg now b ex) = fst (worker_finish cfg now b ex s)"
| "batch_step s (OtherRequest a) = s\<lparr>bs_db := settle_db (bs_db s) a\<rparr>"

text \<open>Whatever the step, the money moves by settlements alone.\<close>

definition settles_to :: "batch_state \<Rightarrow> batch_state \<Rightarrow> bool" where
  "settles_to s s' = (\<exists>as. bs_db s' = foldl settle_db (bs_db s) as)"

lemma settles_refl: "bs_db s' = bs_db s \<Longrightarrow> settles_to s s'"
  unfolding settles_to_def by (rule exI [of _ "[]"]) simp

lemma settles_trans: "settles_to s t \<Longrightarrow> settles_to t u \<Longrightarrow> settles_to s u"
  unfolding settles_to_def by (metis foldl_append)

lemma each_line_db: "(\<And>l s s'. f l s = Inr s' \<Longrightarrow> bs_db s' = bs_db s) \<Longrightarrow> bs_db (fst (each_line f ls s)) = bs_db s"
  by (induction ls arbitrary: s) (auto split: sum.splits)

lemma mark_line_db: "mark_line now b st rid p err l s = Inr s' \<Longrightarrow> bs_db s' = bs_db s"
  by (auto simp: mark_line_def updateBatchInferenceJobLineSettlement_def split: option.splits if_splits)

lemma update_status_db: "updateBatchInferenceJobStatus now renter bid st u s = Inr s' \<Longrightarrow> bs_db s' = bs_db s"
  by (auto simp: updateBatchInferenceJobStatus_def split: option.splits if_splits)

lemma update_line_db: "updateBatchInferenceJobLineStatus now renter bid c st u s = Inr s' \<Longrightarrow> bs_db s' = bs_db s"
  by (auto simp: updateBatchInferenceJobLineStatus_def split: option.splits if_splits)

lemma settle_loop_settles: "settles_to s (fst (settle_loop now opt b ls (s, m)))"
proof (induction ls arbitrary: s m)
  case (Cons l ls)
  let ?a = "line_settle_args now (line_provider opt l) b l"
  show ?case
  proof (cases "settleInferenceOnce (bs_db s) ?a")
    case (Inl e)
    then show ?thesis by (auto simp: Let_def intro!: settles_refl dest: mark_line_db split: sum.splits)
  next
    case (Inr p)
    obtain d r where p: "p = (d, r)" by fastforce
    have one: "settles_to s (s\<lparr>bs_db := d\<rparr>)"
      unfolding settles_to_def using Inr p by (intro exI [of _ "[?a]"]) (simp add: settle_db_def)
    have step: "settles_to s s2" if "mark_line now b st rid pr err l (s\<lparr>bs_db := d\<rparr>) = Inr s2" for st rid pr err s2
      using settles_trans [OF one settles_refl] mark_line_db [OF that] by simp
    show ?thesis using Inr p one settles_trans [OF step Cons.IH] by (auto simp: Let_def split: sum.splits)
  qed
qed (simp add: settles_refl)

lemma settle_lines_settles: "settles_to s (fst (settleBatchInferenceLines now opt b ls s))"
proof -
  have marks: "settles_to s s2" if "each_line (mark_line now b st rid pr err) xs s = (s2, e)" for s s2 st rid pr err xs e
    using each_line_db [of "mark_line now b st rid pr err" xs s] mark_line_db that by (metis fst_conv settles_refl)
  show ?thesis unfolding settleBatchInferenceLines_def Let_def
    by (auto split: prod.splits option.splits dest: marks intro: settles_trans settle_loop_settles)
qed

lemma apply_proofs_db: "applyExecutionLineProofs now b xs s = (s1, r) \<Longrightarrow> bs_db s1 = bs_db s"
proof (cases xs)
  case (Some lines)
  assume a: "applyExecutionLineProofs now b xs s = (s1, r)"
  have e: "bs_db t = bs_db s" if "each_line (\<lambda>p. updateBatchInferenceJobLineStatus now (bt_renter b) (bt_batch_id b) (pl_custom_id p)
      (pl_status p) (pl_update p)) ps s = (t, err)" for ps t err
    using each_line_db [of "\<lambda>p. updateBatchInferenceJobLineStatus now (bt_renter b) (bt_batch_id b) (pl_custom_id p)
      (pl_status p) (pl_update p)" ps s, OF update_line_db] that by simp
  from a show ?thesis unfolding applyExecutionLineProofs_def Let_def Some
    by (auto split: option.splits sum.splits prod.splits if_splits dest: e)
qed (simp add: applyExecutionLineProofs_def)

lemma settle_executed_settles: "settles_to s (fst (settle_executed cfg now b sm s))"
proof -
  define ls where "ls = (case listBatchInferenceJobLines (bt_renter b) (bt_batch_id b) (Some (of_int (max (bt_requests b) 1))) None s of
      None \<Rightarrow> [] | Some ls \<Rightarrow> ls)"
  obtain t r where t: "settleBatchInferenceLines now (wc_provider cfg) b ls s = (t, r)" by fastforce
  then have "settles_to s t" using settle_lines_settles [of s now "wc_provider cfg" b ls] by simp
  then show ?thesis using t unfolding settle_executed_def ls_def [symmetric] Let_def by (cases r) (simp_all add: settles_refl)
qed

lemma try_finish_settles: "settles_to s (fst (try_finish cfg now b ex s))"
proof (cases "ex = None \<or> requireSha256 (ex_checksum (the ex)) = None")
  case True
  then show ?thesis by (auto simp: try_finish_def settles_refl split: option.splits)
next
  case False
  then obtain x cks where x: "ex = Some x" "requireSha256 (ex_checksum x) = Some cks" by auto
  obtain s1 r1 where s1: "applyExecutionLineProofs now b (ex_lines x) s = (s1, r1)" by fastforce
  have d1: "settles_to s s1" by (rule settles_refl) (rule apply_proofs_db [OF s1])
  show ?thesis
  proof (cases r1)
    case (Inl e)
    then show ?thesis using x s1 d1 by (simp add: try_finish_def)
  next
    case (Inr sm)
    obtain s2 e2 where s2: "settle_executed cfg now b sm s1 = (s2, e2)" by fastforce
    have "settles_to s1 (fst (settle_executed cfg now b sm s1))" by (rule settle_executed_settles)
    then have d2: "settles_to s s2" using settles_trans [OF d1] s2 by simp
    show ?thesis
    proof (cases e2)
      case None
      have u: "settles_to s s3" if "updateBatchInferenceJobStatus now (bt_renter b) (bt_batch_id b) BCompleted (completed_update b x cks sm) s2 = Inr s3" for s3
        using settles_trans [OF d2 settles_refl [OF update_status_db [OF that]]] .
      show ?thesis
        by (cases "updateBatchInferenceJobStatus now (bt_renter b) (bt_batch_id b) BCompleted (completed_update b x cks sm) s2")
          (simp_all add: try_finish_def x s1 s2 Inr None d2 u)
    qed (simp add: try_finish_def x s1 s2 Inr d2)
  qed
qed

lemma batch_step_settles: "settles_to s (batch_step s e)"
proof (cases e)
  case (BatchCreate sha fresh now renter q)
  have "bs_db (fst (createBatchInferenceJob sha fresh now renter q s)) = bs_db s"
    by (auto simp: createBatchInferenceJob_def Let_def split: sum.splits option.splits)
  with BatchCreate show ?thesis by (simp add: settles_refl)
next
  case (WorkerStart now b)
  then show ?thesis using worker_start_ok [of now b s] by (auto intro: settles_refl)
next
  case (WorkerFinish cfg now b ex)
  obtain s1 r where s1: "try_finish cfg now b ex s = (s1, r)" by fastforce
  then have d: "settles_to s s1" using try_finish_settles [of s cfg now b ex] by simp
  show ?thesis
  proof (cases r)
    case (Inl e)
    let ?u = "no_update\<lparr>bu_completed := Some (Some 0), bu_failed := Some (Some (of_int (bt_requests b))), bu_cost := Some (Some 0)\<rparr>"
    have u: "settles_to s s2" if "updateBatchInferenceJobStatus now (bt_renter b) (bt_batch_id b) BFailed ?u s1 = Inr s2" for s2
      using settles_trans [OF d settles_refl [OF update_status_db [OF that]]] .
    show ?thesis
      by (cases "updateBatchInferenceJobStatus now (bt_renter b) (bt_batch_id b) BFailed ?u s1")
        (simp_all add: WorkerFinish worker_finish_def s1 Inl d u)
  qed (simp add: WorkerFinish worker_finish_def s1 d split: unit.splits)
next
  case (OtherRequest a)
  then show ?thesis by (auto simp: settles_to_def intro!: exI [of _ "[a]"])
qed

lemma settles_keeps:
  assumes "settles_to s s'" "money_keys (bs_db s)"
  shows "money_keys (bs_db s') \<and> books (bs_db s') = books (bs_db s)"
  using assms settle_books.amount_kept settle_books.good_run_all unfolding settles_to_def by metis

interpretation batch_books: conserved batch_step "\<lambda>s. books (bs_db s)" "\<lambda>s. money_keys (bs_db s)" "\<lambda>_ _. 0"
  by unfold_locales (use settles_keeps [OF batch_step_settles] in auto)

interpretation batch_solvent: preserved batch_step "\<lambda>s. solvent (bs_db s)"
proof
  show "solvent (bs_db (batch_step s e))" if "solvent (bs_db s)" for s e
    using batch_step_settles [of s e] settle_solvent.inv_run_all [OF that] by (auto simp: settles_to_def)
qed

definition charged_once :: "db \<Rightarrow> bool" where
  "charged_once d = has_key ba_request_id (billing_attempts d)"

lemma settle_once: "charged_once d \<Longrightarrow> charged_once (settle_db d a)"
  using settle_db_cases [of d a] settled_attempts [of d a] settled_cases [of d a]
  by (auto simp: charged_once_def has_key_def) metis

interpretation settle_unique: preserved settle_db charged_once
  by unfold_locales (rule settle_once)

interpretation batch_unique: preserved batch_step "\<lambda>s. charged_once (bs_db s)"
proof
  show "charged_once (bs_db (batch_step s e))" if "charged_once (bs_db s)" for s e
    using batch_step_settles [of s e] settle_unique.inv_run_all [OF that] by (auto simp: settles_to_def)
qed

text \<open>
  C6: No run of batch workers creates or loses a halala or charges a line twice. Over any sequence of
  batch creations, worker steps of any number of workers with whatever answers of their executors,
  failures on the way included, and other inference requests, balances less consumed credits plus
  recorded charges stay the same, no balance becomes negative, and there is at most one charge
  for each request id.
\<close>

theorem batches_conserve:
  assumes "solvent (bs_db s)" "charged_once (bs_db s)" "s' = foldl batch_step s es"
  shows "total_balance (bs_db s') - total_consumed (credits (bs_db s')) + sum_list (map ba_cost (billing_attempts (bs_db s')))
      = total_balance (bs_db s) - total_consumed (credits (bs_db s)) + sum_list (map ba_cost (billing_attempts (bs_db s)))
    \<and> (\<forall>i. 0 \<le> balance_of (bs_db s') i) \<and> distinct (map ba_request_id (billing_attempts (bs_db s')))"
proof -
  have "money_keys (bs_db s)" using assms(1) by (simp add: solvent_def)
  from batch_books.amount_kept [OF this, of es] batch_solvent.inv_run_all [of s es, OF assms(1)]
    batch_unique.inv_run_all [of s es, OF assms(2)]
  show ?thesis unfolding assms(3) by (simp add: books_def charged_def solvent_def charged_once_def has_key_def)
qed

theorem batches_conserve_witness:
  "total_balance (bs_db (foldl batch_step demo_batch_state
      [WorkerStart 5 demo_batch, WorkerFinish \<lparr>wc_settlement = True, wc_provider = None\<rparr> 9 demo_batch (Some long_answer), OtherRequest demo_settle]))
     - total_consumed (credits (bs_db (foldl batch_step demo_batch_state
      [WorkerStart 5 demo_batch, WorkerFinish \<lparr>wc_settlement = True, wc_provider = None\<rparr> 9 demo_batch (Some long_answer), OtherRequest demo_settle])))
     + sum_list (map ba_cost (billing_attempts (bs_db (foldl batch_step demo_batch_state
      [WorkerStart 5 demo_batch, WorkerFinish \<lparr>wc_settlement = True, wc_provider = None\<rparr> 9 demo_batch (Some long_answer), OtherRequest demo_settle]))))
   = 1000"
proof -
  have "solvent (bs_db demo_batch_state)"
    using demo_nonneg by (simp add: demo_batch_state_def solvent_def credits_ok_def demo_grant_def)
  moreover have "charged_once (bs_db demo_batch_state)" by (simp add: demo_batch_state_def charged_once_def has_key_def)
  ultimately show ?thesis
    using batches_conserve [OF _ _ refl, of demo_batch_state "[WorkerStart 5 demo_batch,
      WorkerFinish \<lparr>wc_settlement = True, wc_provider = None\<rparr> 9 demo_batch (Some long_answer), OtherRequest demo_settle]"]
    by (simp add: demo_batch_state_def total_balance_def total_consumed_def demo_renter_def demo_grant_def)
qed
end
