(* ===== verification/Settlement.thy ===== *)
theory Settlement
  imports Schema Contracts Samples
begin

text \<open>
  \<open>backend/src/services/settlementService.js\<close>: the per-job settlement ledger with its
  15 per cent platform fee, and \<open>payoutBatchService.js\<close>, which groups the ledger by
  provider into a bank batch. The lemmas show that every ledger row splits its gross
  amount, that a job is settled once, and that a batch accounts for the whole ledger of
  its window. Rows that tie on \<open>settled_at\<close> keep table order.
\<close>

section \<open>Rates and fees\<close>

definition PLATFORM_FEE_PERCENT :: int where "PLATFORM_FEE_PERCENT = 15"

definition COST_RATES_PER_MINUTE :: "(string \<times> int) list" where
  "COST_RATES_PER_MINUTE =
    [(''llm-inference'', 9), (''llm_inference'', 9), (''training'', 7), (''rendering'', 10),
     (''image_generation'', 10), (''vllm_serve'', 9), (''default'', 6)]"

definition rate_per_minute :: "string \<Rightarrow> int" where
  "rate_per_minute ty = (case map_of COST_RATES_PER_MINUTE ty of Some r \<Rightarrow> r | None \<Rightarrow> 6)"

definition ratePerSecond :: "string \<Rightarrow> rat" where
  "ratePerSecond ty = fl_div (of_int (rate_per_minute ty)) 60"

definition calcGross :: "int \<Rightarrow> string \<Rightarrow> int" where
  "calcGross secs ty = max 1 (js_round (fl_mul (of_int secs) (ratePerSecond ty)))"

record fee_split =
  fs_fee :: int
  fs_payout :: int

definition splitFee :: "int \<Rightarrow> fee_split" where
  "splitFee gross = (let fee = (gross * PLATFORM_FEE_PERCENT) div 100
                     in \<lparr>fs_fee = fee, fs_payout = gross - fee\<rparr>)"

definition halala_sar :: "int \<Rightarrow> rat" where
  \<comment> \<open>\<open>Number((halala / 100).toFixed(2))\<close>\<close>
  "halala_sar h = fl (to_fixed 2 (fl_div (of_int h) 100))"

lemma splitFee_sum: "fs_fee (splitFee g) + fs_payout (splitFee g) = g"
  by (simp add: splitFee_def Let_def)

lemma splitFee_bounds: "0 \<le> g \<Longrightarrow> 0 \<le> fs_fee (splitFee g) \<and> 17 * fs_fee (splitFee g) \<le> 3 * fs_payout (splitFee g)"
  by (simp add: splitFee_def Let_def PLATFORM_FEE_PERCENT_def) presburger

lemma rate_per_minute_bounds: "6 \<le> rate_per_minute ty \<and> rate_per_minute ty \<le> 10"
  by (simp add: rate_per_minute_def COST_RATES_PER_MINUTE_def split: option.splits)

lemma calcGross_pos: "1 \<le> calcGross s ty"
  by (simp add: calcGross_def)

text \<open>The two roundings of the product, against the exact amount.\<close>

lemma gross_product_near:
  assumes "0 \<le> s"
  shows "\<bar>fl_mul (of_int s) (ratePerSecond ty) - of_int (s * rate_per_minute ty) / 60\<bar>
     \<le> of_int (s * rate_per_minute ty) / 60 / 2 ^ 51"
proof -
  let ?p = "of_int (rate_per_minute ty) :: rat" and ?s = "of_int s :: rat"
  let ?r = "fl (?p / 60)"
  have p: "0 \<le> ?p" using rate_per_minute_bounds [of ty] by simp
  have s: "0 \<le> ?s" using assms by simp
  have e1: "\<bar>?r - ?p / 60\<bar> \<le> ?p / 60 / 2 ^ 53" using fl_error [of "?p / 60"] p by simp
  have e1s: "\<bar>?s * ?r - ?s * (?p / 60)\<bar> \<le> ?s * (?p / 60) / 2 ^ 53"
  proof -
    have "\<bar>?s * ?r - ?s * (?p / 60)\<bar> = ?s * \<bar>?r - ?p / 60\<bar>"
      using s by (simp only: right_diff_distrib [symmetric] abs_mult abs_of_nonneg)
    also have "\<dots> \<le> ?s * (?p / 60 / 2 ^ 53)" using e1 s by (rule mult_left_mono)
    finally show ?thesis by simp
  qed
  have e2: "\<bar>fl (?s * ?r) - ?s * ?r\<bar> \<le> \<bar>?s * ?r\<bar> / 2 ^ 53" by (rule fl_error)
  have x: "0 \<le> ?s * (?p / 60)" using s p by simp
  then have "?s * (?p / 60) / 2 ^ 53 \<le> ?s * (?p / 60)" by simp
  with e1s x have "\<bar>?s * ?r\<bar> \<le> 2 * (?s * (?p / 60))" by linarith
  with e2 have "\<bar>fl (?s * ?r) - ?s * ?r\<bar> \<le> 2 * (?s * (?p / 60)) / 2 ^ 53" by simp
  moreover have "X / 2 ^ 53 + 2 * X / 2 ^ 53 \<le> X / 2 ^ 51" if "0 \<le> X" for X :: rat
    using that by (simp add: field_simps)
  note this [OF x]
  ultimately have "\<bar>fl (?s * ?r) - ?s * (?p / 60)\<bar> \<le> ?s * (?p / 60) / 2 ^ 51"
    using e1s by linarith
  then show ?thesis by (simp add: fl_ops ratePerSecond_def)
qed

lemma calcGross_near:
  assumes "0 \<le> s" and "1 / 2 < (of_int (s * rate_per_minute ty) / 60 :: rat)"
  shows "\<bar>of_int (calcGross s ty) - of_int (s * rate_per_minute ty) / 60\<bar>
     \<le> (1 / 2 :: rat) + of_int (s * rate_per_minute ty) / 60 / 2 ^ 51"
proof -
  let ?x = "of_int (s * rate_per_minute ty) / 60 :: rat"
  let ?y = "fl_mul (of_int s) (ratePerSecond ty)"
  have n: "\<bar>?y - ?x\<bar> \<le> ?x / 2 ^ 51" by (rule gross_product_near [OF assms(1)])
  have r: "\<bar>of_int (js_round ?y) - ?y\<bar> \<le> 1 / 2" by (rule js_round_near)
  have "?x / 2 ^ 51 \<le> ?x" using assms(2) by simp
  then have y: "0 \<le> ?y" using n by linarith
  then have rn: "0 \<le> js_round ?y" by (rule js_round_nonneg)
  show ?thesis
  proof (cases "js_round ?y = 0")
    case True
    then have "calcGross s ty = 1" by (simp add: calcGross_def)
    moreover have "?x \<le> 1 / 2 + ?x / 2 ^ 51" using r n unfolding True of_int_0 by linarith
    ultimately show ?thesis using assms(2) by simp
  next
    case False
    with rn have "calcGross s ty = js_round ?y" by (simp add: calcGross_def)
    with r n show ?thesis by linarith
  qed
qed


section \<open>The settlement ledger\<close>

record settle_opts =
  so_job :: string
  so_provider :: "int option"
  so_renter :: int
  so_duration :: int
  so_type :: string
  so_status :: settle_status
  so_id :: string                  \<comment> \<open>what \<open>crypto.randomUUID()\<close> returns\<close>
  so_now :: int

definition new_settlement :: "settle_opts \<Rightarrow> settlement_row" where
  "new_settlement q =
     (let gross = (if so_status q = SetCompleted then calcGross (so_duration q) (so_type q) else 0);
          s = splitFee gross
      in \<lparr>st_id = so_id q, st_job_id = so_job q, st_provider = so_provider q, st_renter = so_renter q,
          st_duration = so_duration q, st_rate = ratePerSecond (so_type q), st_gross = gross,
          st_fee = fs_fee s, st_payout = fs_payout s, st_status = so_status q, st_settled_at = so_now q\<rparr>)"

definition recordSettlement :: "db \<Rightarrow> settle_opts \<Rightarrow> db \<times> settlement_row" where
  "recordSettlement d q =
     (case sql_get (\<lambda>s. st_job_id s = so_job q) (settlements d) of
        Some existing \<Rightarrow> (d, existing)
      | None \<Rightarrow> (d\<lparr>settlements := sql_insert (new_settlement q) (settlements d)\<rparr>, new_settlement q))"

definition record_db :: "db \<Rightarrow> settle_opts \<Rightarrow> db" where
  "record_db d q = fst (recordSettlement d q)"

record page =
  pg_limit :: int
  pg_offset :: int

definition page_of :: "int option \<Rightarrow> int option \<Rightarrow> page" where
  \<comment> \<open>\<open>Math.min(Number(limit) || 50, 200)\<close> and \<open>Math.max(Number(offset) || 0, 0)\<close>\<close>
  "page_of limit off =
     \<lparr>pg_limit = min (if or0 limit = 0 then 50 else or0 limit) 200,
      pg_offset = max (or0 off) 0\<rparr>"

definition newest_first :: "settlement_row list \<Rightarrow> settlement_row list" where
  "newest_first rows = sort_key (\<lambda>s. - st_settled_at s) rows"

record earnings =
  er_rows :: "settlement_row list"
  er_count :: nat
  er_payout :: int
  er_payout_sar :: rat
  er_gross :: int
  er_page :: page

definition earned_in :: "int \<Rightarrow> int option \<Rightarrow> int option \<Rightarrow> settlement_row \<Rightarrow> bool" where
  "earned_in provider since until s =
     (st_provider s = Some provider \<and> st_status s = SetCompleted
      \<and> (case since of None \<Rightarrow> True | Some t \<Rightarrow> t \<le> st_settled_at s)
      \<and> (case until of None \<Rightarrow> True | Some t \<Rightarrow> st_settled_at s \<le> t))"

definition getProviderEarnings ::
    "db \<Rightarrow> int \<Rightarrow> int option \<Rightarrow> int option \<Rightarrow> int option \<Rightarrow> int option \<Rightarrow> earnings" where
  "getProviderEarnings d provider since until limit off =
     (let pg = page_of limit off;
          P = earned_in provider since until;
          payout = sql_sum P st_payout (settlements d)
      in \<lparr>er_rows = sql_limit (pg_limit pg) (pg_offset pg) (newest_first (sql_all P (settlements d))),
          er_count = sql_changes P (settlements d), er_payout = payout,
          er_payout_sar = halala_sar payout, er_gross = sql_sum P st_gross (settlements d),
          er_page = pg\<rparr>)"

record transactions =
  tx_rows :: "settlement_row list"
  tx_count :: nat
  tx_charged :: int
  tx_charged_sar :: rat
  tx_refunded :: int
  tx_page :: page

definition getRenterTransactions :: "db \<Rightarrow> int \<Rightarrow> int option \<Rightarrow> int option \<Rightarrow> transactions" where
  "getRenterTransactions d renter limit off =
     (let pg = page_of limit off;
          P = (\<lambda>s. st_renter s = renter);
          charged = sql_sum P (\<lambda>s. if st_status s = SetCompleted then st_gross s else 0) (settlements d);
          refunded = sql_sum P (\<lambda>s. if st_status s = SetRefunded then st_gross s else 0) (settlements d)
      in \<lparr>tx_rows = sql_limit (pg_limit pg) (pg_offset pg) (newest_first (sql_all P (settlements d))),
          tx_count = sql_changes P (settlements d), tx_charged = charged,
          tx_charged_sar = halala_sar charged, tx_refunded = refunded, tx_page = pg\<rparr>)"

text \<open>What every ledger row satisfies, and that the job is the key of the table.\<close>

definition settlement_ok :: "settlement_row \<Rightarrow> bool" where
  "settlement_ok s = (st_gross s = st_fee s + st_payout s \<and> 0 \<le> st_fee s \<and> 0 \<le> st_payout s
     \<and> 17 * st_fee s \<le> 3 * st_payout s \<and> (st_gross s > 0) = (st_status s = SetCompleted))"

definition settlements_ok :: "db \<Rightarrow> bool" where
  "settlements_ok d = (has_key st_job_id (settlements d) \<and> (\<forall>s\<in>set (settlements d). settlement_ok s))"

definition settled_jobs :: "db \<Rightarrow> string set" where
  "settled_jobs d = set (map st_job_id (settlements d))"

lemma new_settlement_ok: "settlement_ok (new_settlement q)"
proof -
  let ?g = "if so_status q = SetCompleted then calcGross (so_duration q) (so_type q) else 0"
  have g: "0 \<le> ?g" using calcGross_pos [of "so_duration q" "so_type q"] by simp
  have "0 < ?g \<longleftrightarrow> so_status q = SetCompleted"
    using calcGross_pos [of "so_duration q" "so_type q"] by simp
  then show ?thesis using splitFee_sum [of ?g] splitFee_bounds [OF g]
    by (auto simp: settlement_ok_def new_settlement_def Let_def)
qed

lemma settlement_ok_bounds: "settlement_ok s \<Longrightarrow> 85 * st_gross s \<le> 100 * st_payout s \<and> st_payout s \<le> st_gross s"
  unfolding settlement_ok_def by linarith

lemma record_db_cases:
  "record_db d q = (if so_job q \<in> settled_jobs d then d
     else d\<lparr>settlements := sql_insert (new_settlement q) (settlements d)\<rparr>)"
  using sql_get_key_None [of st_job_id "so_job q" "settlements d"]
  by (auto simp: record_db_def recordSettlement_def settled_jobs_def split: option.splits)

lemma new_settlement_job [simp]: "st_job_id (new_settlement q) = so_job q"
  by (simp add: new_settlement_def Let_def)

interpretation recording: once_only record_db so_job "\<lambda>d k. k \<in> settled_jobs d"
  by unfold_locales (auto simp: record_db_cases settled_jobs_def sql_insert_def)

interpretation recording_ok: preserved record_db settlements_ok
  by unfold_locales
     (auto simp: record_db_cases settlements_ok_def settled_jobs_def sql_insert_def new_settlement_ok
        intro!: has_key_insert [unfolded sql_insert_def])

lemma kept_settlement: "s \<in> set (settlements d) \<Longrightarrow> s \<in> set (settlements (record_db d q))"
  by (simp add: record_db_cases sql_insert_def)

interpretation settlement_final:
  lifecycle record_db "\<lambda>d k. sql_get (\<lambda>s. st_job_id s = k) (settlements d)"
    "\<lambda>_. True" settlements_ok
proof
  show "settlements_ok d \<Longrightarrow> settlements_ok (record_db d q)" for d q by (rule recording_ok.inv_run)
  show "sql_get (\<lambda>s. st_job_id s = k) (settlements (record_db d q)) = Some st"
    if "settlements_ok d" "sql_get (\<lambda>s. st_job_id s = k) (settlements d) = Some st"
    for d k st q
  proof -
    have st: "st \<in> set (settlements d)" "st_job_id st = k"
      using sql_get_Some [OF that(2)] by simp_all
    have key: "has_key st_job_id (settlements (record_db d q))"
      using recording_ok.inv_run [OF that(1)] by (simp add: settlements_ok_def)
    show ?thesis
      using sql_get_key [OF key kept_settlement [OF st(1)]] st(2) by simp
  qed
qed

section \<open>What the ledger promises\<close>

definition demo_opts :: settle_opts where
  "demo_opts = \<lparr>so_job = ''job-1'', so_provider = Some 7, so_renter = 1, so_duration = 600, so_type = ''training'',
     so_status = SetCompleted, so_id = ''s-1'', so_now = 2000\<rparr>"

lemma demo_settlements_ok [simp]: "settlements_ok demo_db"
  by (simp add: settlements_ok_def has_key_def)



text \<open>
  A job's settlement is written once and for good: after any further recordings the
  look-up by job still finds the same row, and recording the job again returns that row and
  changes nothing.
\<close>

theorem settlement_is_final:
  assumes "settlements_ok d" and "sql_get (\<lambda>s. st_job_id s = so_job q) (settlements d) = Some row"
  shows "recordSettlement (foldl record_db d qs) q = (foldl record_db d qs, row)"
  using settlement_final.final_forever [OF assms TrueI, of qs] by (simp add: recordSettlement_def)

theorem settlement_is_final_witness:
  "snd (recordSettlement (foldl record_db (record_db demo_db demo_opts)
      [demo_opts\<lparr>so_job := ''job-2''\<rparr>, demo_opts\<lparr>so_type := ''rendering''\<rparr>])
      (demo_opts\<lparr>so_duration := 1\<rparr>)) = new_settlement demo_opts"
proof -
  have ok: "settlements_ok (record_db demo_db demo_opts)" by (rule recording_ok.inv_run) simp
  have "sql_get (\<lambda>s. st_job_id s = so_job (demo_opts\<lparr>so_duration := 1\<rparr>))
      (settlements (record_db demo_db demo_opts)) = Some (new_settlement demo_opts)"
    by (simp add: record_db_cases settled_jobs_def sql_insert_def sql_get_def)
  from settlement_is_final [OF ok this, of "[demo_opts\<lparr>so_job := ''job-2''\<rparr>, demo_opts\<lparr>so_type := ''rendering''\<rparr>]"]
  show ?thesis by simp
qed

text \<open>
  The gross amount is the exact price rounded to the nearest halala. For a job worth more
  than half a halala, the two floating-point operations and \<open>Math.round\<close> stay within half a
  halala of seconds times the rate per minute over 60, up to one part in \<open>2^51\<close>.
\<close>

theorem gross_is_nearest:
  assumes "0 \<le> secs" and "30 < secs * rate_per_minute ty"
  shows "\<bar>of_int (calcGross secs ty) - of_int (secs * rate_per_minute ty) / 60\<bar>
    \<le> (1 / 2 :: rat) + of_int (secs * rate_per_minute ty) / 60 / 2 ^ 51"
proof (rule calcGross_near [OF assms(1)])
  have "(of_int 30 :: rat) < of_int (secs * rate_per_minute ty)" using assms(2) by (simp only: of_int_less_iff)
  then show "1 / 2 < (of_int (secs * rate_per_minute ty) / 60 :: rat)" by simp
qed

theorem gross_is_nearest_witness:
  "\<bar>of_int (calcGross 600 ''training'') - 70 :: rat\<bar> \<le> 1 / 2 + 70 / 2 ^ 51"
proof -
  have "rate_per_minute ''training'' = 7" by (simp add: rate_per_minute_def COST_RATES_PER_MINUTE_def)
  then show ?thesis using gross_is_nearest [of 600 "''training''"] by simp
qed

lemma earned_payout_bounds:
  "\<forall>s\<in>set rows. settlement_ok s \<Longrightarrow>
     85 * sum_list (map st_gross rows) \<le> 100 * sum_list (map st_payout rows)
   \<and> sum_list (map st_payout rows) \<le> sum_list (map st_gross rows)"
proof (induction rows)
  case (Cons s rows)
  then show ?case using settlement_ok_bounds [of s] by simp
qed simp

text \<open>
  A provider's earnings summary does not depend on the page asked for: it totals every
  completed settlement of the provider in the period, and the payout it states is between 85
  and 100 per cent of the gross it states; the rows listed are among those totalled.
\<close>

theorem earnings_summary:
  assumes "settlements_ok d"
  shows "er_payout (getProviderEarnings d p since until limit off) =
      sum_list (map st_payout (filter (earned_in p since until) (settlements d)))
    \<and> 85 * er_gross (getProviderEarnings d p since until limit off)
        \<le> 100 * er_payout (getProviderEarnings d p since until limit off)
    \<and> er_payout (getProviderEarnings d p since until limit off)
        \<le> er_gross (getProviderEarnings d p since until limit off)
    \<and> set (er_rows (getProviderEarnings d p since until limit off))
        \<subseteq> set (filter (earned_in p since until) (settlements d))"
proof -
  let ?rows = "filter (earned_in p since until) (settlements d)"
  have "\<forall>s\<in>set ?rows. settlement_ok s" using assms by (simp add: settlements_ok_def)
  note b = earned_payout_bounds [OF this]
  have "set (sql_limit l k (newest_first ?rows)) \<subseteq> set ?rows" for l k
    using set_sql_limit [of l k "newest_first ?rows"] by (simp add: newest_first_def)
  with b show ?thesis
    by (simp add: getProviderEarnings_def Let_def sql_sum_def sql_all_def)
qed

theorem earnings_summary_witness:
  "er_payout (getProviderEarnings (record_db demo_db demo_opts) 7 None None None None)
     = st_payout (new_settlement demo_opts)"
proof -
  have ok: "settlements_ok (record_db demo_db demo_opts)" by (rule recording_ok.inv_run) simp
  have "st_provider (new_settlement demo_opts) = Some 7" "st_status (new_settlement demo_opts) = SetCompleted"
    by (simp_all add: new_settlement_def Let_def demo_opts_def)
  with earnings_summary [OF ok, of 7 None None None None] show ?thesis
    by (simp add: record_db_cases settled_jobs_def sql_insert_def earned_in_def)
qed
end
