(* ===== verification/PayoutBatch.thy ===== *)
theory PayoutBatch
  imports Settlement
begin

text \<open>
  \<open>backend/src/services/payoutBatchService.js\<close>: the settlement ledger of a window grouped
  by provider, as a preview and as a bank batch. The digest functions of Node's \<open>crypto\<close>
  and \<open>toISOString\<close> are parameters (\<open>sha256\<close>, \<open>hmac\<close>, \<open>iso_str\<close>). A bound that is
  no timestamp is \<open>None\<close>.
\<close>

record withdrawal_row =
  wr_provider :: int
  wr_iban :: string
  wr_created_at :: int

datatype batch_error = InvalidWindowStart | InvalidWindowEnd | WindowReversed | BatchMismatch int int

definition window_check :: "int option \<Rightarrow> int option \<Rightarrow> batch_error + (int \<times> int)" where
  "window_check s e =
     (case s of None \<Rightarrow> Inl InvalidWindowStart
      | Some a \<Rightarrow> (case e of None \<Rightarrow> Inl InvalidWindowEnd
          | Some b \<Rightarrow> if a > b then Inl WindowReversed else Inr (a, b)))"

definition in_window :: "int \<Rightarrow> int \<Rightarrow> settlement_row \<Rightarrow> bool" where
  "in_window a b s = (st_status s = SetCompleted \<and> st_provider s \<noteq> None
     \<and> a \<le> st_settled_at s \<and> st_settled_at s \<le> b)"

text \<open>\<open>GROUP BY provider_id ORDER BY provider_id ASC\<close>\<close>

definition group_ids :: "settlement_row list \<Rightarrow> int list" where
  "group_ids rows = sort (remdups (map (\<lambda>s. the (st_provider s)) rows))"

definition of_provider :: "int \<Rightarrow> settlement_row list \<Rightarrow> settlement_row list" where
  "of_provider p rows = filter (\<lambda>s. st_provider s = Some p) rows"

lemma group_sum:
  fixes g :: "settlement_row \<Rightarrow> int"
  assumes "\<forall>s\<in>set rows. st_provider s \<noteq> None"
  shows "sum_list (map (\<lambda>p. sum_list (map g (of_provider p rows))) (group_ids rows)) = sum_list (map g rows)"
proof -
  have gen: "(\<Sum>p\<in>A. sum_list (map g (of_provider p rows))) = sum_list (map g rows)"
    if "finite A" "\<forall>s\<in>set rows. st_provider s \<noteq> None \<and> the (st_provider s) \<in> A" for A rows
    using that(2)
  proof (induction rows)
    case Nil
    then show ?case by (simp add: of_provider_def)
  next
    case (Cons s rows)
    from Cons.prems obtain p where p: "st_provider s = Some p" "p \<in> A" by auto
    have "sum_list (map g (of_provider q (s # rows))) =
        (if q = p then g s else 0) + sum_list (map g (of_provider q rows))" for q
      by (simp add: of_provider_def p)
    then have "(\<Sum>q\<in>A. sum_list (map g (of_provider q (s # rows)))) =
        (\<Sum>q\<in>A. if q = p then g s else 0) + (\<Sum>q\<in>A. sum_list (map g (of_provider q rows)))"
      by (simp add: sum.distrib)
    with p(2) \<open>finite A\<close> Cons show ?case by simp
  qed
  have d: "distinct (group_ids rows)" "set (group_ids rows) = (\<lambda>s. the (st_provider s)) ` set rows"
    by (simp_all add: group_ids_def)
  have "sum_list (map (\<lambda>p. sum_list (map g (of_provider p rows))) (group_ids rows)) =
      (\<Sum>p\<in>set (group_ids rows). sum_list (map g (of_provider p rows)))"
    by (rule sum_list_distinct_conv_sum_set [OF d(1)])
  also have "\<dots> = sum_list (map g rows)"
    using assms d(2) by (intro gen) auto
  finally show ?thesis .
qed

section \<open>The preview\<close>

record preview_row =
  pr_provider :: int
  pr_jobs :: nat
  pr_gross :: int
  pr_fee :: int
  pr_net :: int
  pr_ok :: bool

record preview =
  pw_start :: int
  pw_end :: int
  pw_providers :: "preview_row list"
  pw_jobs :: nat
  pw_gross :: int
  pw_fee :: int
  pw_net :: int
  pw_equal :: bool
  pw_delta :: int

definition preview_row_of :: "settlement_row list \<Rightarrow> int \<Rightarrow> preview_row" where
  "preview_row_of rows p =
     (let mine = of_provider p rows;
          gross = sum_list (map st_gross mine);
          fee = sum_list (map st_fee mine);
          net = sum_list (map st_payout mine)
      in \<lparr>pr_provider = p, pr_jobs = length mine, pr_gross = gross, pr_fee = fee, pr_net = net,
          pr_ok = (gross = fee + net)\<rparr>)"

definition buildProviderSettlementPreview ::
    "db \<Rightarrow> int option \<Rightarrow> int option \<Rightarrow> int option \<Rightarrow> batch_error + preview" where
  "buildProviderSettlementPreview d ws we provider =
     (case window_check ws we of
        Inl e \<Rightarrow> Inl e
      | Inr (a, b) \<Rightarrow>
        (let rows = sql_all (\<lambda>s. in_window a b s \<and>
                       (case provider of None \<Rightarrow> True | Some p \<Rightarrow> st_provider s = Some p)) (settlements d);
             ps = map (preview_row_of rows) (group_ids rows);
             gross = sum_list (map pr_gross ps);
             fee = sum_list (map pr_fee ps);
             net = sum_list (map pr_net ps)
         in Inr \<lparr>pw_start = a, pw_end = b, pw_providers = ps, pw_jobs = sum_list (map pr_jobs ps),
                 pw_gross = gross, pw_fee = fee, pw_net = net, pw_equal = (gross = fee + net),
                 pw_delta = gross - (fee + net)\<rparr>))"

section \<open>The batch\<close>

record batch_entry =
  be_provider :: int
  be_iban :: string
  be_amount :: int
  be_currency :: string
  be_jobs :: nat

record batch =
  bt_id :: string
  bt_start :: int
  bt_end :: int
  bt_ledger :: int
  bt_covered :: int
  bt_exported :: int
  bt_skipped_total :: int
  bt_checksum :: string
  bt_signature :: "string \<times> string"
  bt_entries :: "batch_entry list"
  bt_skipped :: "(int \<times> int) list"

definition sql_trim :: "string \<Rightarrow> string" where
  \<comment> \<open>SQLite's \<open>TRIM\<close>: spaces only\<close>
  "sql_trim s = (let sp = (\<lambda>c. c = CHR '' '') in rev (dropWhile sp (rev (dropWhile sp s))))"

definition ibanLookup :: "withdrawal_row list \<Rightarrow> int \<Rightarrow> string option" where
  "ibanLookup ws p =
     map_option wr_iban (sql_get (\<lambda>_. True)
       (sort_key (\<lambda>w. - wr_created_at w) (sql_all (\<lambda>w. wr_provider w = p \<and> sql_trim (wr_iban w) \<noteq> []) ws)))"

record batch_acc =
  bx_entries :: "batch_entry list"
  bx_skipped :: "(int \<times> int) list"
  bx_ledger :: int
  bx_covered :: int

fun batch_loop ::
    "withdrawal_row list \<Rightarrow> string \<Rightarrow> settlement_row list \<Rightarrow> int list \<Rightarrow> batch_acc \<Rightarrow> batch_acc" where
  "batch_loop ws cur rows [] s = s"
| "batch_loop ws cur rows (p # ps) s =
     (let payout = sum_list (map st_payout (of_provider p rows)) in
      if payout \<le> 0 then batch_loop ws cur rows ps s
      else
        (let s1 = s\<lparr>bx_ledger := bx_ledger s + payout\<rparr> in
         if \<not> truthy_str (ibanLookup ws p)
         then batch_loop ws cur rows ps (s1\<lparr>bx_skipped := bx_skipped s1 @ [(p, payout)]\<rparr>)
         else batch_loop ws cur rows ps
                (s1\<lparr>bx_covered := bx_covered s1 + payout,
                    bx_entries := bx_entries s1 @
                      [\<lparr>be_provider = p, be_iban = strip (the (ibanLookup ws p)), be_amount = payout,
                        be_currency = cur, be_jobs = length (of_provider p rows)\<rparr>]\<rparr>)))"

definition checksum_line :: "(int \<Rightarrow> string) \<Rightarrow> int \<Rightarrow> int \<Rightarrow> string \<Rightarrow> batch_entry \<Rightarrow> string" where
  "checksum_line iso_str a b cur e =
     dec (be_provider e) @ ''|'' @ be_iban e @ ''|'' @ dec (be_amount e) @ ''|'' @ cur @ ''|''
     @ iso_str a @ ''|'' @ iso_str b @ [CHR 0x0A]"

definition buildBatchChecksum ::
    "(string \<Rightarrow> string) \<Rightarrow> (int \<Rightarrow> string) \<Rightarrow> batch_entry list \<Rightarrow> int \<Rightarrow> int \<Rightarrow> string \<Rightarrow> string" where
  "buildBatchChecksum sha256 iso_str es a b cur = sha256 (concat (map (checksum_line iso_str a b cur) es))"

definition buildBatchSignature :: "(string \<Rightarrow> string \<Rightarrow> string) \<Rightarrow> string \<Rightarrow> string \<Rightarrow> string \<times> string" where
  "buildBatchSignature hmac checksum signingKey =
     (if signingKey = [] then (''sha256'', checksum) else (''hmac-sha256'', hmac signingKey checksum))"

definition generateProviderPayoutBatch ::
    "(string \<Rightarrow> string) \<Rightarrow> (string \<Rightarrow> string \<Rightarrow> string) \<Rightarrow> (int \<Rightarrow> string) \<Rightarrow> db \<Rightarrow> withdrawal_row list
      \<Rightarrow> int option \<Rightarrow> int option \<Rightarrow> string \<Rightarrow> string \<Rightarrow> batch_error + batch" where
  "generateProviderPayoutBatch sha256 hmac iso_str d ws start end currency signingKey =
     (case window_check start end of
        Inl e \<Rightarrow> Inl e
      | Inr (a, b) \<Rightarrow>
        (let rows = sql_all (in_window a b) (settlements d);
             s = batch_loop ws currency rows (group_ids rows)
                   \<lparr>bx_entries = [], bx_skipped = [], bx_ledger = 0, bx_covered = 0\<rparr>;
             entries = sort_key be_provider (bx_entries s);
             exported = sum_list (map be_amount entries);
             checksum = buildBatchChecksum sha256 iso_str entries a b currency
         in if exported \<noteq> bx_covered s then Inl (BatchMismatch exported (bx_covered s))
            else Inr \<lparr>bt_id = ''payout-'' @ take 10 (iso_str a) @ ''-'' @ take 10 (iso_str b) @ ''-'' @ take 12 checksum,
                      bt_start = a, bt_end = b, bt_ledger = bx_ledger s, bt_covered = bx_covered s,
                      bt_exported = exported, bt_skipped_total = sum_list (map snd (bx_skipped s)),
                      bt_checksum = checksum, bt_signature = buildBatchSignature hmac checksum signingKey,
                      bt_entries = entries, bt_skipped = bx_skipped s\<rparr>))"

text \<open>The loop's running totals.\<close>

definition batch_inv :: "batch_acc \<Rightarrow> bool" where
  "batch_inv s = (bx_covered s = sum_list (map be_amount (bx_entries s))
     \<and> bx_ledger s = bx_covered s + sum_list (map snd (bx_skipped s)))"

lemma batch_loop_inv: "batch_inv s \<Longrightarrow> batch_inv (batch_loop ws cur rows ps s)"
proof (induction ps arbitrary: s)
  case (Cons p ps)
  note inv = Cons.prems [unfolded batch_inv_def]
  show ?case unfolding batch_loop.simps Let_def
    by (simp only: split: if_split) (intro conjI impI; rule Cons.IH; use inv in \<open>simp add: batch_inv_def\<close>)
qed simp

lemma batch_loop_ledger:
  "\<forall>p\<in>set ps. 0 \<le> sum_list (map st_payout (of_provider p rows)) \<Longrightarrow>
   bx_ledger (batch_loop ws cur rows ps s) =
     bx_ledger s + sum_list (map (\<lambda>p. sum_list (map st_payout (of_provider p rows))) ps)"
  by (induction ps arbitrary: s) (auto simp: Let_def)

lemma batch_loop_providers:
  "map be_provider (bx_entries (batch_loop ws cur rows ps s)) = map be_provider (bx_entries s) @
     filter (\<lambda>p. 0 < sum_list (map st_payout (of_provider p rows)) \<and> truthy_str (ibanLookup ws p)) ps"
  by (induction ps arbitrary: s) (auto simp: Let_def)

lemma sum_list_sort_key: "sum_list (map f (sort_key k xs)) = sum_list (map f xs)" for f :: "'b \<Rightarrow> int"
proof -
  have "sum_mset (mset (map f (sort_key k xs))) = sum_mset (mset (map f xs))" by simp
  then show ?thesis by (simp only: sum_mset_sum_list)
qed


section \<open>What a batch accounts for\<close>

lemma batch_rows_ok:
  assumes "settlements_ok d" and "rows = sql_all (in_window a b) (settlements d)"
  shows "\<forall>s\<in>set rows. st_provider s \<noteq> None" "\<forall>s\<in>set rows. 0 \<le> st_payout s"
  using assms by (auto simp: sql_all_def in_window_def settlements_ok_def settlement_ok_def)

lemma group_nonneg: "\<forall>s\<in>set rows. 0 \<le> st_payout s \<Longrightarrow> 0 \<le> sum_list (map st_payout (of_provider p rows))"
  by (rule sum_list_nonneg) (auto simp: of_provider_def)

text \<open>
  A payout batch never trips its own mismatch guard and loses nothing: for a ledger whose
  rows are well formed, the ledger total it states is the sum of all completed payouts of the
  window, exported plus skipped make up that total, the entries add up to the exported amount,
  every entry is positive and no provider appears twice.
\<close>

theorem payout_batch_accounts:
  assumes "settlements_ok d" and "window_check start end = Inr (a, b)"
  shows "\<exists>bt. generateProviderPayoutBatch sha256 hmac iso_str d ws start end cur key = Inr bt
    \<and> bt_ledger bt = sum_list (map st_payout (filter (in_window a b) (settlements d)))
    \<and> bt_exported bt + bt_skipped_total bt = bt_ledger bt
    \<and> bt_exported bt = sum_list (map be_amount (bt_entries bt))
    \<and> distinct (map be_provider (bt_entries bt))"
proof -
  let ?rows = "sql_all (in_window a b) (settlements d)"
  let ?z = "\<lparr>bx_entries = [], bx_skipped = [], bx_ledger = 0, bx_covered = 0\<rparr>"
  let ?s = "batch_loop ws cur ?rows (group_ids ?rows) ?z"
  note ok = batch_rows_ok [OF assms(1) refl, of a b]
  have inv: "batch_inv ?s" by (rule batch_loop_inv) (simp add: batch_inv_def)
  have led: "bx_ledger ?s = sum_list (map st_payout ?rows)"
    using batch_loop_ledger [of "group_ids ?rows" ?rows ws cur ?z] group_nonneg [OF ok(2)]
      group_sum [OF ok(1), of st_payout] by simp
  have "distinct (map be_provider (bx_entries ?s))"
    by (simp add: batch_loop_providers group_ids_def)
  then have "distinct (map be_provider (sort_key be_provider (bx_entries ?s)))"
    by (simp add: distinct_map)
  with inv led show ?thesis
    unfolding generateProviderPayoutBatch_def assms(2) sum.case prod.case Let_def sum_list_sort_key
    by (simp add: batch_inv_def sql_all_def sum_list_sort_key)
qed

theorem payout_batch_accounts_witness:
  "\<exists>bt. generateProviderPayoutBatch id (\<lambda>_ x. x) (\<lambda>_. ''2026'') (record_db demo_db demo_opts)
        [\<lparr>wr_provider = 7, wr_iban = ''SA1'', wr_created_at = 0\<rparr>] (Some 0) (Some 9000) ''SAR'' [] = Inr bt
      \<and> bt_exported bt + bt_skipped_total bt = st_payout (new_settlement demo_opts)"
proof -
  have ok: "settlements_ok (record_db demo_db demo_opts)" by (rule recording_ok.inv_run) simp
  have w: "window_check (Some 0) (Some 9000) = Inr (0, 9000)" by (simp add: window_check_def)
  have "in_window 0 9000 (new_settlement demo_opts)"
    by (simp add: in_window_def new_settlement_def Let_def demo_opts_def)
  then have "sum_list (map st_payout (filter (in_window 0 9000) (settlements (record_db demo_db demo_opts))))
      = st_payout (new_settlement demo_opts)"
    by (simp add: record_db_cases settled_jobs_def sql_insert_def)
  with payout_batch_accounts [OF ok w, of id "\<lambda>_ x. x" "\<lambda>_. ''2026''"
      "[\<lparr>wr_provider = 7, wr_iban = ''SA1'', wr_created_at = 0\<rparr>]" "''SAR''" "[]"]
  show ?thesis by metis
qed

text \<open>
  The settlement preview reconciles: over a well-formed ledger every provider row and the
  grand total have gross equal to fee plus net, the reported delta is 0, and the total net is
  the sum of the payouts of the window, so preview and batch agree.
\<close>

theorem preview_reconciles:
  assumes "settlements_ok d" and "window_check start end = Inr (a, b)"
  shows "\<exists>pw. buildProviderSettlementPreview d start end None = Inr pw
    \<and> pw_equal pw \<and> pw_delta pw = 0 \<and> (\<forall>r\<in>set (pw_providers pw). pr_ok r)
    \<and> pw_net pw = sum_list (map st_payout (filter (in_window a b) (settlements d)))"
proof -
  let ?rows = "filter (in_window a b) (settlements d)"
  have prov: "\<forall>s\<in>set ?rows. st_provider s \<noteq> None" by (auto simp: in_window_def)
  have split: "sum_list (map st_gross rs) = sum_list (map st_fee rs) + sum_list (map st_payout rs)"
    if "set rs \<subseteq> set (settlements d)" for rs
    using that
  proof (induction rs)
    case (Cons s rs)
    then have "settlement_ok s" using assms(1) by (simp add: settlements_ok_def)
    then have "st_gross s = st_fee s + st_payout s" by (simp add: settlement_ok_def)
    with Cons show ?case by simp
  qed simp
  have row: "pr_ok (preview_row_of ?rows p)" for p
    using split [of "of_provider p ?rows"] by (auto simp: preview_row_of_def Let_def of_provider_def)
  have t: "sum_list (map (\<lambda>p. sum_list (map g (of_provider p ?rows))) (group_ids ?rows)) = sum_list (map g ?rows)"
    for g :: "settlement_row \<Rightarrow> int" by (rule group_sum [OF prov])
  have all: "sum_list (map st_gross ?rows) = sum_list (map st_fee ?rows) + sum_list (map st_payout ?rows)"
    by (rule split) auto
  have g: "sum_list (map pr_gross (map (preview_row_of ?rows) (group_ids ?rows))) = sum_list (map st_gross ?rows)"
    and f: "sum_list (map pr_fee (map (preview_row_of ?rows) (group_ids ?rows))) = sum_list (map st_fee ?rows)"
    and n: "sum_list (map pr_net (map (preview_row_of ?rows) (group_ids ?rows))) = sum_list (map st_payout ?rows)"
    using t by (simp_all add: preview_row_of_def Let_def o_def)
  show ?thesis
    unfolding buildProviderSettlementPreview_def assms(2) sum.case prod.case Let_def sql_all_def
    by (simp add: g f n all row del: map_map)
qed

theorem preview_reconciles_witness:
  "\<exists>pw. buildProviderSettlementPreview (record_db demo_db demo_opts) (Some 0) (Some 9000) None = Inr pw
     \<and> pw_delta pw = 0"
proof -
  have ok: "settlements_ok (record_db demo_db demo_opts)" by (rule recording_ok.inv_run) simp
  have w: "window_check (Some 0) (Some 9000) = Inr (0, 9000)" by (simp add: window_check_def)
  show ?thesis using preview_reconciles [OF ok w] by metis
qed
end
