(* ===== verification/Credits.thy ===== *)
theory Credits
  imports Schema Contracts Samples
begin

text \<open>
  \<open>backend/src/services/creditService.js\<close>: the renter credit ledger. Additions and
  deductions write a ledger row and the balance in one transaction; the lemmas show that the
  two never drift apart and that a deduction cannot overdraw.
\<close>

section \<open>Amounts\<close>

definition DISPATCH_BUFFER_PCT :: rat where "DISPATCH_BUFFER_PCT = fl (1 / 10)"

definition SAR_PER_USD :: rat where "SAR_PER_USD = 3.75"

definition halalaToSar :: "int \<Rightarrow> rat" where
  "halalaToSar h = fl (to_fixed 2 (fl_div (of_int h) 100))"

definition halalaToUsd :: "int \<Rightarrow> rat" where
  "halalaToUsd h = fl (to_fixed 4 (fl_div (fl_div (of_int h) 100) SAR_PER_USD))"

definition VALID_SOURCES :: "string list" where
  "VALID_SOURCES = [''topup'', ''admin_grant'', ''job_debit'', ''job_refund'', ''adjustment'']"

section \<open>Balance\<close>

record balance_view =
  bv_balance :: int
  bv_balance_sar :: rat
  bv_balance_usd :: rat
  bv_last_topup :: "int option"
  bv_spent :: int
  bv_spent_sar :: rat
  bv_spent_usd :: rat

definition getRenterBalance :: "db \<Rightarrow> int \<Rightarrow> balance_view option" where
  "getRenterBalance d renter =
     (case sql_get (\<lambda>r. rn_id r = renter \<and> rn_status r \<noteq> ''deleted'') (renters d) of
        None \<Rightarrow> None
      | Some r \<Rightarrow>
        (let tops = sql_all (\<lambda>l. lg_renter l = renter \<and> lg_direction l = Credit
                       \<and> (lg_source l = ''topup'' \<or> lg_source l = ''admin_grant'')) (ledger d)
         in Some \<lparr>bv_balance = rn_balance r, bv_balance_sar = halalaToSar (rn_balance r),
                  bv_balance_usd = halalaToUsd (rn_balance r),
                  bv_last_topup = map_option lg_created_at
                    (sql_get (\<lambda>_. True) (sort_key (\<lambda>l. - lg_created_at l) tops)),
                  bv_spent = rn_total_spent r, bv_spent_sar = halalaToSar (rn_total_spent r),
                  bv_spent_usd = halalaToUsd (rn_total_spent r)\<rparr>))"

section \<open>Additions and deductions\<close>

record credit_opts =
  co_job :: "string option"
  co_payment_ref :: "string option"
  co_note :: "string option"

datatype credit_error =
  AmountNotPositive
| InvalidSource string
| JobIdRequired
| NoSuchRenter                   \<comment> \<open>the foreign key of \<open>renter_id\<close>: the transaction rolls back\<close>

definition or_null :: "string option \<Rightarrow> string option" where
  "or_null s = (if truthy_str s then s else None)"

definition credit_row :: "string \<Rightarrow> int \<Rightarrow> int \<Rightarrow> string \<Rightarrow> credit_opts \<Rightarrow> int \<Rightarrow> ledger_row" where
  "credit_row i renter amount source opts now =
     \<lparr>lg_id = i, lg_renter = renter, lg_amount = amount, lg_direction = Credit, lg_source = source,
      lg_job_id = or_null (co_job opts), lg_payment_ref = or_null (co_payment_ref opts),
      lg_note = or_null (co_note opts), lg_created_at = now\<rparr>"

text \<open>An amount that is not an integer is \<open>None\<close>; \<open>uuid\<close> is what \<open>randomUUID\<close> returns.\<close>

definition addCredits ::
    "db \<Rightarrow> int \<Rightarrow> int option \<Rightarrow> string \<Rightarrow> credit_opts \<Rightarrow> string \<Rightarrow> int \<Rightarrow> db \<times> (credit_error + int)" where
  "addCredits d renter amount source opts uuid now =
     (case amount of
        None \<Rightarrow> (d, Inl AmountNotPositive)
      | Some a \<Rightarrow>
        if a \<le> 0 then (d, Inl AmountNotPositive)
        else if source \<notin> set VALID_SOURCES then (d, Inl (InvalidSource source))
        else if renter_by_id d renter = None then (d, Inl NoSuchRenter)
        else
          (let d1 = d\<lparr>ledger := sql_insert (credit_row uuid renter a source opts now) (ledger d),
                      renters := sql_update (\<lambda>r. rn_id r = renter)
                        (\<lambda>r. r\<lparr>rn_balance := rn_balance r + a, rn_updated_at := Some now\<rparr>) (renters d)\<rparr>
           in (d1, Inr (balance_of d1 renter))))"

datatype deduct_result =
  Deducted string int            \<comment> \<open>ledger id, new balance\<close>
| RenterNotFound
| Insufficient int int           \<comment> \<open>balance, shortfall\<close>

definition debit_row :: "string \<Rightarrow> int \<Rightarrow> int \<Rightarrow> string \<Rightarrow> int \<Rightarrow> ledger_row" where
  "debit_row i renter amount job now =
     \<lparr>lg_id = i, lg_renter = renter, lg_amount = amount, lg_direction = Debit, lg_source = ''job_debit'',
      lg_job_id = Some job, lg_payment_ref = None, lg_note = None, lg_created_at = now\<rparr>"

definition deductCredits ::
    "db \<Rightarrow> int \<Rightarrow> int option \<Rightarrow> string \<Rightarrow> string \<Rightarrow> int \<Rightarrow> db \<times> (credit_error + deduct_result)" where
  "deductCredits d renter amount job uuid now =
     (case amount of
        None \<Rightarrow> (d, Inl AmountNotPositive)
      | Some a \<Rightarrow>
        if a \<le> 0 then (d, Inl AmountNotPositive)
        else if job = [] then (d, Inl JobIdRequired)
        else case sql_get (\<lambda>r. rn_id r = renter \<and> rn_status r \<noteq> ''deleted'') (renters d) of
          None \<Rightarrow> (d, Inr RenterNotFound)
        | Some r \<Rightarrow>
          if rn_balance r < a then (d, Inr (Insufficient (rn_balance r) (a - rn_balance r)))
          else
            (let d1 = d\<lparr>ledger := sql_insert (debit_row uuid renter a job now) (ledger d),
                        renters := sql_update (\<lambda>x. rn_id x = renter)
                          (\<lambda>x. x\<lparr>rn_balance := rn_balance x - a, rn_total_spent := rn_total_spent x + a,
                                 rn_total_jobs := rn_total_jobs x + 1, rn_updated_at := Some now\<rparr>) (renters d)\<rparr>
             in (d1, Inr (Deducted uuid (balance_of d1 renter)))))"

section \<open>The dispatch gate\<close>

record balance_check =
  bc_allowed :: bool
  bc_found :: bool
  bc_balance :: int
  bc_required :: int
  bc_shortfall :: int

definition with_buffer :: "int \<Rightarrow> int" where
  \<comment> \<open>\<open>Math.ceil(cost * (1 + DISPATCH_BUFFER_PCT))\<close>\<close>
  "with_buffer cost = \<lceil>fl_mul (of_int cost) (fl_add 1 DISPATCH_BUFFER_PCT)\<rceil>"

definition checkBalance :: "db \<Rightarrow> int \<Rightarrow> int \<Rightarrow> balance_check" where
  "checkBalance d renter cost =
     (case sql_get (\<lambda>r. rn_id r = renter \<and> rn_status r = ''active'') (renters d) of
        None \<Rightarrow> \<lparr>bc_allowed = False, bc_found = False, bc_balance = 0, bc_required = cost, bc_shortfall = 0\<rparr>
      | Some r \<Rightarrow>
        (let required = with_buffer cost; allowed = (rn_balance r \<ge> required)
         in \<lparr>bc_allowed = allowed, bc_found = True, bc_balance = rn_balance r, bc_required = required,
             bc_shortfall = (if allowed then 0 else required - rn_balance r)\<rparr>))"

section \<open>The ledger query\<close>

record ledger_view =
  lv_entries :: "ledger_row list"
  lv_total :: nat
  lv_limit :: int
  lv_offset :: int

definition getLedger :: "db \<Rightarrow> int \<Rightarrow> int option \<Rightarrow> int option \<Rightarrow> direction option \<Rightarrow> ledger_view" where
  "getLedger d renter limit off dir =
     (let l = min (case limit of None \<Rightarrow> 50 | Some n \<Rightarrow> n) 200;
          k = (case off of None \<Rightarrow> 0 | Some n \<Rightarrow> if n \<ge> 0 then n else 0);
          P = (\<lambda>e. lg_renter e = renter \<and> (case dir of None \<Rightarrow> True | Some x \<Rightarrow> lg_direction e = x))
      in \<lparr>lv_entries = sql_limit l k (sort_key (\<lambda>e. - lg_created_at e) (sql_all P (ledger d))),
          lv_total = sql_changes P (ledger d), lv_limit = l, lv_offset = k\<rparr>)"

lemma buffer_factor: "fl_add 1 DISPATCH_BUFFER_PCT = 2476979795053773 / 2251799813685248"
  by code_simp


text \<open>The two roundings cost less than a hundredth for any amount up to \<open>10^12\<close>.\<close>

lemma with_buffer_near:
  assumes "0 \<le> c" "c \<le> 10 ^ 12"
  shows "\<bar>fl_mul (of_int c) (fl_add 1 DISPATCH_BUFFER_PCT) - 11 * of_int c / 10\<bar> \<le> (1 / 100 :: rat)"
proof -
  let ?b = "2476979795053773 / 2251799813685248 :: rat" and ?c = "of_int c :: rat"
  have c0: "0 \<le> ?c" using assms(1) by simp
  have "?c \<le> of_int (10 ^ 12)" using assms(2) by (simp only: of_int_le_iff)
  then have c1: "?c \<le> 1000000000000" by simp
  have "\<bar>fl (?c * ?b) - ?c * ?b\<bar> \<le> ?c * ?b / 2 ^ 53" using fl_error [of "?c * ?b"] c0 by simp
  moreover have "?c * ?b / 2 ^ 53 \<le> 1 / 1000" using c1 by simp
  moreover have "\<bar>?c * ?b - 11 * ?c / 10\<bar> \<le> 1 / 1000" using c0 c1 by (simp add: abs_le_iff)
  ultimately show ?thesis unfolding buffer_factor fl_mul_def by linarith
qed

lemma with_buffer_bounds:
  assumes "0 \<le> c" "c \<le> 10 ^ 12"
  shows "11 * c \<le> 10 * with_buffer c" "10 * with_buffer c \<le> 11 * c + 10"
proof -
  let ?y = "fl_mul (of_int c) (fl_add 1 DISPATCH_BUFFER_PCT)"
  note n = with_buffer_near [OF assms]
  have y: "?y \<le> of_int (with_buffer c)" "of_int (with_buffer c) < ?y + 1"
    unfolding with_buffer_def by linarith+
  have "11 * of_int c < 10 * of_int (with_buffer c) + (1 :: rat)" using n y(1) by linarith
  then have "(of_int (11 * c) :: rat) < of_int (10 * with_buffer c + 1)" by simp
  then show "11 * c \<le> 10 * with_buffer c" unfolding of_int_less_iff by simp
  have "10 * of_int (with_buffer c) < 11 * of_int c + (11 :: rat)" using n y(2) by linarith
  then have "(of_int (10 * with_buffer c) :: rat) < of_int (11 * c + 11)" by simp
  then show "10 * with_buffer c \<le> 11 * c + 10" unfolding of_int_less_iff by simp
qed

section \<open>Balance and ledger together\<close>

datatype credit_event =
  EvAdd int "int option" string credit_opts string int
| EvDeduct int "int option" string string int

fun credit_run :: "db \<Rightarrow> credit_event \<Rightarrow> db" where
  "credit_run d (EvAdd renter a source opts uuid now) = fst (addCredits d renter a source opts uuid now)"
| "credit_run d (EvDeduct renter a job uuid now) = fst (deductCredits d renter a job uuid now)"

definition signed :: "ledger_row \<Rightarrow> int" where
  "signed l = (case lg_direction l of Credit \<Rightarrow> lg_amount l | Debit \<Rightarrow> - lg_amount l)"

definition net_ledger :: "db \<Rightarrow> int \<Rightarrow> int" where
  "net_ledger d i = sql_sum (\<lambda>l. lg_renter l = i) signed (ledger d)"

lemma net_ledger_insert:
  "net_ledger (d\<lparr>ledger := sql_insert l (ledger d), renters := rs\<rparr>) i =
     net_ledger d i + (if lg_renter l = i then signed l else 0)"
  by (simp add: net_ledger_def sql_sum_def sql_insert_def)

lemma renter_update:
  assumes "\<And>r. rn_id (f r) = rn_id r"
  shows "renter_by_id (d\<lparr>ledger := ls, renters := sql_update (\<lambda>r. rn_id r = k) f (renters d)\<rparr>) i =
     map_option (\<lambda>r. if rn_id r = k then f r else r) (renter_by_id d i)"
  using assms by (simp add: renter_by_id_def sql_get_update)

lemma renter_by_id_id: "renter_by_id d i = Some r \<Longrightarrow> rn_id r = i"
  by (auto simp: renter_by_id_def dest: sql_get_Some)

lemma balance_update:
  assumes "\<And>r. rn_id (f r) = rn_id r"
  shows "balance_of (d\<lparr>ledger := ls, renters := sql_update (\<lambda>r. rn_id r = k) f (renters d)\<rparr>) i =
     balance_of d i + (case renter_by_id d i of None \<Rightarrow> 0
        | Some r \<Rightarrow> if i = k then rn_balance (f r) - rn_balance r else 0)"
  using renter_by_id_id [of d i] assms by (auto simp: balance_of_def renter_update split: option.splits)

lemma credit_step:
  "balance_of (credit_run d e) i - net_ledger (credit_run d e) i = balance_of d i - net_ledger d i"
proof (cases e)
  case (EvAdd renter a source opts uuid now)
  then show ?thesis
    by (auto simp: addCredits_def Let_def balance_update net_ledger_insert
        signed_def credit_row_def split: option.splits)
next
  case (EvDeduct renter a job uuid now)
  show ?thesis
  proof (cases "sql_get (\<lambda>r. rn_id r = renter \<and> rn_status r \<noteq> ''deleted'') (renters d)")
    case None
    then show ?thesis using EvDeduct by (auto simp: deductCredits_def split: option.splits)
  next
    case (Some r)
    then have "renter_by_id d renter \<noteq> None"
      by (auto simp: renter_by_id_def sql_get_None dest: sql_get_Some)
    then show ?thesis using EvDeduct Some
      by (auto simp: deductCredits_def Let_def balance_update net_ledger_insert
          signed_def debit_row_def split: option.splits)
  qed
qed

interpretation credit_books: conserved credit_run "\<lambda>d. balance_of d i - net_ledger d i" "\<lambda>_. True" "\<lambda>_ _. 0"
  for i
  by unfold_locales (simp_all add: credit_step)

definition balances_ok :: "db \<Rightarrow> bool" where
  "balances_ok d = (has_key rn_id (renters d) \<and> (\<forall>r\<in>set (renters d). 0 \<le> rn_balance r))"

lemma balances_ok_update:
  assumes "balances_ok d" and "\<And>r. rn_id (f r) = rn_id r"
    and "\<And>r. r \<in> set (renters d) \<Longrightarrow> rn_id r = k \<Longrightarrow> 0 \<le> rn_balance (f r)"
  shows "balances_ok (d\<lparr>ledger := ls, renters := sql_update (\<lambda>r. rn_id r = k) f (renters d)\<rparr>)"
proof -
  have "has_key rn_id (sql_update (\<lambda>r. rn_id r = k) f (renters d))"
    using assms(1,2) by (simp add: balances_ok_def has_key_update)
  moreover have "0 \<le> rn_balance x" if upd: "x \<in> set (sql_update (\<lambda>r. rn_id r = k) f (renters d))" for x
  proof -
    obtain y where y: "y \<in> set (renters d)" "x = (if rn_id y = k then f y else y)"
      using upd unfolding set_sql_update by blast
    show ?thesis
    proof (cases "rn_id y = k")
      case True
      then show ?thesis using assms(3) [OF y(1)] y(2) by simp
    next
      case False
      then show ?thesis using assms(1) y unfolding balances_ok_def by simp
    qed
  qed
  ultimately show ?thesis by (simp add: balances_ok_def)
qed

interpretation credit_solvent: preserved credit_run balances_ok
proof
  fix d :: db and e
  assume ok: "balances_ok d"
  show "balances_ok (credit_run d e)"
  proof (cases e)
    case (EvAdd renter a source opts uuid now)
    show ?thesis
    proof (cases "a = None \<or> the a \<le> 0 \<or> source \<notin> set VALID_SOURCES")
      case True
      then show ?thesis using ok EvAdd by (auto simp: addCredits_def split: option.splits)
    next
      case False
      then obtain v where a: "a = Some v" "0 < v" by auto
      show ?thesis using False a ok EvAdd
        by (auto simp: addCredits_def Let_def intro!: balances_ok_update split: option.splits)
           (auto simp: balances_ok_def)
    qed
  next
    case (EvDeduct renter a job uuid now)
    show ?thesis
    proof (cases "\<exists>v r. a = Some v \<and> 0 < v \<and> job \<noteq> [] \<and> v \<le> rn_balance r \<and>
        sql_get (\<lambda>r. rn_id r = renter \<and> rn_status r \<noteq> ''deleted'') (renters d) = Some r")
      case False
      then have "credit_run d e = d"
        by (cases a; cases "sql_get (\<lambda>r. rn_id r = renter \<and> rn_status r \<noteq> ''deleted'') (renters d)")
           (use EvDeduct in \<open>auto simp: deductCredits_def Let_def\<close>)
      then show ?thesis using ok by simp
    next
      case True
      then obtain v r where a: "a = Some v" "0 < v" "job \<noteq> []" "v \<le> rn_balance r"
        "sql_get (\<lambda>r. rn_id r = renter \<and> rn_status r \<noteq> ''deleted'') (renters d) = Some r" by blast
      then have r: "r \<in> set (renters d)" "rn_id r = renter" using sql_get_Some [OF a(5)] by simp_all
      have "x = r" if "x \<in> set (renters d)" "rn_id x = renter" for x
        using has_key_eq [of rn_id "renters d"] ok r that by (simp add: balances_ok_def)
      then show ?thesis using a ok EvDeduct
        by (auto simp: deductCredits_def Let_def intro!: balances_ok_update)
    qed
  qed
qed

section \<open>What the ledger promises\<close>

text \<open>
  The ledger explains the balance: over any sequence of additions and deductions, accepted
  or refused, a renter's balance changes by exactly the credits minus the debits that the
  ledger gained for it.
\<close>

theorem ledger_explains_balance:
  "balance_of (foldl credit_run d es) i - balance_of d i
    = net_ledger (foldl credit_run d es) i - net_ledger d i"
  using credit_books.amount_kept [OF TrueI, of d es i] by simp

text \<open>
  C9: Deductions never overdraw: from a renters table with distinct ids and no negative
  balance, every sequence of additions and deductions leads to one of the same kind.
\<close>

theorem credits_never_overdraw:
  assumes "has_key rn_id (renters d)" and "\<forall>r\<in>set (renters d). 0 \<le> rn_balance r"
  shows "\<forall>r\<in>set (renters (foldl credit_run d es)). 0 \<le> rn_balance r"
  using credit_solvent.inv_run_all [of d es] assms by (simp add: balances_ok_def)

theorem credits_never_overdraw_witness:
  "list_all (\<lambda>r. 0 \<le> rn_balance r)
     (renters (foldl credit_run demo_db [EvDeduct 1 (Some 700) ''j'' ''b'' 2, EvDeduct 1 (Some 700) ''k'' ''c'' 3]))"
  unfolding list_all_iff by (rule credits_never_overdraw) (simp_all add: has_key_def demo_renter_def)

text \<open>
  C10: The dispatch gate keeps its promise in floating point: for a cost up to \<open>10^12\<close>
  halala, a job it admits can be charged in full at once and leaves the renter at least a
  tenth of the cost; and it never asks for more than 110 per cent rounded up plus one halala.
\<close>

theorem dispatch_gate_covers:
  assumes key: "has_key rn_id (renters d)" and c: "0 < cost" "cost \<le> 10 ^ 12" and "job \<noteq> []"
    and ok: "bc_allowed (checkBalance d renter cost)"
  shows "\<exists>d' after. deductCredits d renter (Some cost) job uuid now = (d', Inr (Deducted uuid after))
      \<and> cost \<le> 10 * after \<and> after = balance_of d renter - cost
      \<and> 10 * bc_required (checkBalance d renter cost) \<le> 11 * cost + 10"
proof -
  obtain r where g: "sql_get (\<lambda>r. rn_id r = renter \<and> rn_status r = ''active'') (renters d) = Some r"
    and b: "with_buffer cost \<le> rn_balance r"
    using ok by (auto simp: checkBalance_def Let_def split: option.splits)
  have r: "r \<in> set (renters d)" "rn_id r = renter" "rn_status r = ''active''"
    using sql_get_Some [OF g] by simp_all
  have s: "sql_get (\<lambda>r. rn_id r = renter \<and> rn_status r \<noteq> ''deleted'') (renters d) = Some r"
  proof (cases "sql_get (\<lambda>r. rn_id r = renter \<and> rn_status r \<noteq> ''deleted'') (renters d)")
    case None
    then show ?thesis using r by (simp add: sql_get_None)
  next
    case (Some x)
    then show ?thesis using sql_get_Some [OF Some] has_key_eq [OF key, of x r] r by simp
  qed
  have w: "11 * cost \<le> 10 * with_buffer cost" "10 * with_buffer cost \<le> 11 * cost + 10"
    using with_buffer_bounds c by simp_all
  have bal: "renter_by_id d renter = Some r" using sql_get_key [OF key r(1)] r(2) by (simp add: renter_by_id_def)
  have "\<not> rn_balance r < cost" using b w(1) c(1) by linarith
  moreover have "11 * cost \<le> 10 * rn_balance r" using b w(1) by simp
  then have "cost \<le> 10 * (rn_balance r - cost)" by simp
  ultimately show ?thesis using s bal c(1) \<open>job \<noteq> []\<close> g w(2) r(2)
    by (simp add: deductCredits_def Let_def balance_of_def renter_update checkBalance_def)
qed

theorem dispatch_gate_covers_witness:
  "with_buffer 100 = 111 \<and> (\<exists>d' after. deductCredits demo_db 1 (Some 100) ''j'' ''u'' 5 = (d', Inr (Deducted ''u'' after)))"
proof -
  have w: "with_buffer 100 = 111" by code_simp
  have ok: "bc_allowed (checkBalance demo_db 1 100)"
    by (simp add: checkBalance_def sql_get_def demo_renter_def w Let_def)
  have k: "has_key rn_id (renters demo_db)" by (simp add: has_key_def)
  show ?thesis using dispatch_gate_covers [OF k _ _ _ ok, of "''j''" "''u''" 5] w by auto
qed
end
