(* ===== verification/Wallet.thy ===== *)
theory Wallet
  imports Schema Contracts Samples
begin

text \<open>
  The two statements by which \<open>routes/pods.js\<close>, \<open>routes/volumes.js\<close> and \<open>services/jobSweep.js\<close>
  move a renter's prepaid balance, and what they do to every balance.
\<close>

definition credit_balance :: "int \<Rightarrow> int \<Rightarrow> db \<Rightarrow> db" where
  "credit_balance i amount d =
     d\<lparr>renters := sql_update (\<lambda>r. rn_id r = i) (\<lambda>r. r\<lparr>rn_balance := rn_balance r + amount\<rparr>) (renters d)\<rparr>"

definition debit_balance :: "int \<Rightarrow> int \<Rightarrow> int \<Rightarrow> db \<Rightarrow> db option" where
  \<comment> \<open>\<open>UPDATE .. SET balance - ? WHERE id = ? AND balance >= ?\<close>; \<open>None\<close> unless one row changed\<close>
  "debit_balance i amount now d =
     (let P = (\<lambda>r. rn_id r = i \<and> rn_balance r \<ge> amount)
      in if sql_changes P (renters d) \<noteq> 1 then None
         else Some (d\<lparr>renters := sql_update P
           (\<lambda>r. r\<lparr>rn_balance := rn_balance r - amount, rn_updated_at := Some now\<rparr>) (renters d)\<rparr>))"

lemma balance_update_rows:
  assumes "renters d' = sql_update P f (renters d)" "\<And>r. rn_id (f r) = rn_id r"
  shows "balance_of d' k = (case renter_by_id d k of None \<Rightarrow> 0 | Some r \<Rightarrow> rn_balance (if P r then f r else r))"
  using assms unfolding balance_of_def renter_by_id_def
  by (subst assms(1), subst sql_get_update) (auto split: option.splits)

lemma balance_credit:
  "i \<in> rn_id ` set (renters d) \<Longrightarrow> balance_of (credit_balance i a d) k = balance_of d k + (if k = i then a else 0)"
proof -
  assume i: "i \<in> rn_id ` set (renters d)"
  have "balance_of (credit_balance i a d) k = (case renter_by_id d k of None \<Rightarrow> 0
      | Some r \<Rightarrow> rn_balance (if rn_id r = i then r\<lparr>rn_balance := rn_balance r + a\<rparr> else r))"
    by (rule balance_update_rows) (simp_all add: credit_balance_def)
  moreover have "renter_by_id d i \<noteq> None" using i by (auto simp: renter_by_id_def sql_get_None)
  moreover have "renter_by_id d k = Some r \<Longrightarrow> rn_id r = k" for r unfolding renter_by_id_def by (auto dest: sql_get_Some)
  ultimately show ?thesis by (cases "renter_by_id d k") (auto simp: balance_of_def)
qed

lemma balance_debit:
  assumes "has_key rn_id (renters d)" "debit_balance i a now d = Some d1"
  shows "balance_of d1 k = balance_of d k - (if k = i then a else 0)" and "a \<le> balance_of d i"
proof -
  let ?P = "\<lambda>r. rn_id r = i \<and> rn_balance r \<ge> a"
  have one: "length (filter ?P (renters d)) = 1" and d1: "renters d1 = sql_update ?P
      (\<lambda>r. r\<lparr>rn_balance := rn_balance r - a, rn_updated_at := Some now\<rparr>) (renters d)"
    using assms(2) by (auto simp: debit_balance_def Let_def sql_changes_def split: if_splits)
  then obtain r where "filter ?P (renters d) = [r]" by (auto simp: length_Suc_conv)
  then have "r \<in> set (filter ?P (renters d))" by (simp only: list.set_intros)
  then have "r \<in> set (renters d)" "?P r" by simp_all
  then have r: "renter_by_id d i = Some r" "?P r"
    using sql_get_key [OF assms(1)] by (auto simp: renter_by_id_def)
  show "a \<le> balance_of d i" using r by (simp add: balance_of_def)
  have "balance_of d1 k = (case renter_by_id d k of None \<Rightarrow> 0
      | Some x \<Rightarrow> rn_balance (if ?P x then x\<lparr>rn_balance := rn_balance x - a, rn_updated_at := Some now\<rparr> else x))"
    by (rule balance_update_rows [OF d1]) simp
  moreover have "renter_by_id d k = Some x \<Longrightarrow> rn_id x = k" for x unfolding renter_by_id_def by (auto dest: sql_get_Some)
  ultimately show "balance_of d1 k = balance_of d k - (if k = i then a else 0)"
    using r by (cases "renter_by_id d k"; cases "k = i") (auto simp: balance_of_def)
qed

end
