(* ===== verification/Pods.thy ===== *)
theory Pods
  imports Wallet
begin

text \<open>
  Launching an interactive GPU pod: \<open>backend/src/routes/pods.js\<close> up to and including
  \<open>POST /api/pods\<close>, with the credit policy of \<open>backend/src/services/podAccessPolicy.js\<close> and
  the refund of \<open>backend/src/services/burstLaunchRefund.js\<close>.

  The request is a record of the body's fields; a number of the body is a \<open>js_num\<close> (\<open>None\<close> when
  it is absent or not a number). What the handler takes from outside, the clock, the random job id
  and secrets, the random draws of the port picker, the ports \<open>ss\<close> lists, whether the insert and
  the spawn succeed, is the record \<open>launch_env\<close>.
\<close>

section \<open>Prices\<close>

definition PROVIDER_EARN_SHARE :: rat where "PROVIDER_EARN_SHARE = 3 / 4"
definition INTERACTIVE_POD_RATE :: int where "INTERACTIVE_POD_RATE = 2"

text \<open>
  \<open>Number(provider?.cost_per_gpu_second_halala)\<close>: without a provider row it is NaN, but a NULL
  column is the number 0, which is finite and not negative.
\<close>

definition resolvePodRate :: "provider_row option \<Rightarrow> rat" where
  "resolvePodRate p =
     (let default_rate = fl_div (of_int INTERACTIVE_POD_RATE) 60
      in case p of None \<Rightarrow> default_rate
       | Some r \<Rightarrow> (case pv_rate r of None \<Rightarrow> 0 | Some x \<Rightarrow> if 0 \<le> x then x else default_rate))"

definition resolvePodGpuCount :: "provider_row option \<Rightarrow> int" where
  "resolvePodGpuCount p =
     (case p of None \<Rightarrow> 1
      | Some r \<Rightarrow> (case pv_gpu_count r of None \<Rightarrow> 1 | Some n \<Rightarrow> if 1 \<le> n then min n 64 else 1))"

definition computePodQuoteHalala :: "int \<Rightarrow> rat \<Rightarrow> int \<Rightarrow> int" where
  "computePodQuoteHalala secs rate gpus = max 0 \<lceil>fl_mul (fl_mul (of_int secs) rate) (of_int gpus)\<rceil>"

record stop_settlement =
  ss_elapsed :: int
  ss_actual :: int
  ss_earned :: int
  ss_fee :: int
  ss_refund :: int

definition elapsed_seconds :: "int \<Rightarrow> int \<Rightarrow> rat" where
  "elapsed_seconds started now = max 0 (fl_div (of_int (now - started)) 1000)"

definition computePodStopSettlement :: "int option \<Rightarrow> int \<Rightarrow> int \<Rightarrow> rat \<Rightarrow> int \<Rightarrow> stop_settlement" where
  "computePodStopSettlement cost started now rate gpus =
     (let prepaid = max 0 (or0 cost);
          elapsed = elapsed_seconds started now;
          raw = \<lceil>fl_mul (fl_mul elapsed rate) (of_int gpus)\<rceil>;
          actual = min prepaid (max 0 raw);
          earned = \<lfloor>fl_mul (of_int actual) PROVIDER_EARN_SHARE\<rfloor>
      in \<lparr>ss_elapsed = js_round elapsed, ss_actual = actual, ss_earned = earned,
          ss_fee = actual - earned, ss_refund = prepaid - actual\<rparr>)"

section \<open>Validation\<close>

definition DEFAULT_POD_IMAGE :: string where "DEFAULT_POD_IMAGE = ''dcp-compute:pytorch''"

definition ALIASES :: "(string \<times> string) list" where
  "ALIASES = [(''pytorch'', ''dcp-compute:pytorch''), (''lora'', ''dcp-compute:lora''),
     (''vllm'', ''dcp-compute:vllm''), (''cuda'', ''dcp-compute:cuda''), (''ubuntu'', ''dcp-compute:ubuntu'')]"

definition is_alnum :: "char \<Rightarrow> bool" where
  "is_alnum c = (let n = (of_char c :: nat) in
     (48 \<le> n \<and> n \<le> 57) \<or> (65 \<le> n \<and> n \<le> 90) \<or> (97 \<le> n \<and> n \<le> 122))"

definition IMAGE_REF_RE :: "string \<Rightarrow> bool" where
  "IMAGE_REF_RE s =
     (case s of [] \<Rightarrow> False
      | c # cs \<Rightarrow> is_alnum c \<and> length cs \<le> 255 \<and> list_all (\<lambda>x. is_alnum x \<or> x \<in> set ''._/:@-'') cs)"

definition dcp_image :: "string \<Rightarrow> bool" where
  \<comment> \<open>\<open>/^dcp-compute:[\w.-]+$/\<close>\<close>
  "dcp_image s = (let p = ''dcp-compute:''; t = drop (length p) s
     in take (length p) s = p \<and> t \<noteq> [] \<and> list_all (\<lambda>x. is_alnum x \<or> x \<in> set ''_.-'') t)"

text \<open>The image and whether the daemon must inject SSH; \<open>None\<close> is \<open>INVALID_IMAGE\<close>.\<close>

definition validatePodImage :: "string option \<Rightarrow> (string \<times> bool) option" where
  "validatePodImage raw =
     (case raw of None \<Rightarrow> Some (DEFAULT_POD_IMAGE, False)
      | Some s \<Rightarrow>
        if length s > 256 \<or> \<not> IMAGE_REF_RE s then None
        else case map_of ALIASES s of Some i \<Rightarrow> Some (i, False)
          | None \<Rightarrow> Some (s, \<not> dcp_image s))"

definition WEAK_TOKENS :: "string list" where
  "WEAK_TOKENS = [''dc1jupyter'', [], ''jupyter'', ''password'', ''token'', ''notebook'', ''admin'']"

definition isWeakToken :: "string \<Rightarrow> bool" where
  "isWeakToken t = (t = [] \<or> length (strip t) < 16 \<or> to_lower (strip t) \<in> set WEAK_TOKENS)"

definition toFiniteInt_pods :: "js_num \<Rightarrow> int \<Rightarrow> int option \<Rightarrow> int option" where
  "toFiniteInt_pods v lo hi =
     (case v of None \<Rightarrow> None
      | Some r \<Rightarrow> if of_int \<lfloor>r\<rfloor> \<noteq> r \<or> \<lfloor>r\<rfloor> < lo \<or> (case hi of None \<Rightarrow> False | Some h \<Rightarrow> \<lfloor>r\<rfloor> > h)
                 then None else Some \<lfloor>r\<rfloor>)"

text \<open>A scoped sub-key needs \<open>compute\<close> or \<open>admin\<close>; the master key has no scopes list.\<close>

definition requireComputeScope :: "string list option \<Rightarrow> bool" where
  "requireComputeScope scopes =
     (case scopes of None \<Rightarrow> True | Some ss \<Rightarrow> ''compute'' \<in> set ss \<or> ''admin'' \<in> set ss)"

section \<open>Relay ports of a burst pod\<close>

definition BURST_LOOP_MIN :: int where "BURST_LOOP_MIN = 55000"
definition BURST_LOOP_MAX :: int where "BURST_LOOP_MAX = 55999"
definition BURST_JPUB_MIN :: int where "BURST_JPUB_MIN = 41000"
definition BURST_JPUB_MAX :: int where "BURST_JPUB_MAX = 41999"
definition BURST_SPUB_MIN :: int where "BURST_SPUB_MIN = 42000"
definition BURST_SPUB_MAX :: int where "BURST_SPUB_MAX = 42999"

text \<open>
  200 random draws; \<open>draw n\<close> is the value of the \<open>n\<close>th \<open>Math.random()\<close> of this picker. The
  chosen port joins the used ones.
\<close>

fun draw_port :: "nat \<Rightarrow> int \<Rightarrow> int \<Rightarrow> int list \<Rightarrow> (nat \<Rightarrow> rat) \<Rightarrow> nat \<Rightarrow> int option" where
  "draw_port 0 lo hi used draw n = None"
| "draw_port (Suc k) lo hi used draw n =
     (let p = lo + \<lfloor>fl_mul (draw n) (of_int (hi - lo + 1))\<rfloor>
      in if p \<in> set used then draw_port k lo hi used draw (Suc n) else Some p)"

definition pickFreePort :: "int \<Rightarrow> int \<Rightarrow> int list \<Rightarrow> (nat \<Rightarrow> rat) \<Rightarrow> int option \<times> int list" where
  "pickFreePort lo hi used draw =
     (case draw_port 200 lo hi used draw 0 of
        Some p \<Rightarrow> (Some p, p # used) | None \<Rightarrow> (None, used))"

definition pod_type :: "string \<Rightarrow> bool" where
  "pod_type t = (t = ''interactive_pod'' \<or> t = ''vllm_serve'')"

record burst_ports =
  bp_jloop :: int
  bp_sloop :: int
  bp_jpub :: int
  bp_spub :: int

definition reserved_ports :: "db \<Rightarrow> int list" where
  "reserved_ports d = concat (map (\<lambda>j. List.map_filter (\<lambda>p. case p of Some n \<Rightarrow> if n = 0 then None else Some n | None \<Rightarrow> None)
       [jb_jpub j, jb_spub j])
     (sql_all (\<lambda>j. pod_type (jb_type j) \<and> jb_burst_id j \<noteq> None \<and> jb_status j \<in> {JPulling, JRunning}) (jobs d)))"

definition pickBurstPorts :: "db \<Rightarrow> int list \<Rightarrow> (nat \<Rightarrow> nat \<Rightarrow> rat) \<Rightarrow> burst_ports option" where
  "pickBurstPorts d listening draws =
     (let used0 = listening @ reserved_ports d;
          (jl, used1) = pickFreePort BURST_LOOP_MIN BURST_LOOP_MAX used0 (draws 0);
          (sl, used2) = pickFreePort BURST_LOOP_MIN BURST_LOOP_MAX used1 (draws 1);
          (jp, used3) = pickFreePort BURST_JPUB_MIN BURST_JPUB_MAX used2 (draws 2);
          (sp, used4) = pickFreePort BURST_SPUB_MIN BURST_SPUB_MAX used3 (draws 3)
      in case (jl, sl, jp, sp) of
           (Some a, Some b, Some c, Some e) \<Rightarrow> Some \<lparr>bp_jloop = a, bp_sloop = b, bp_jpub = c, bp_spub = e\<rparr>
         | _ \<Rightarrow> None)"

section \<open>Paid credit (podAccessPolicy.js)\<close>

datatype supply_tier = DcpOwned | ProviderTier | OnDemand

definition toHalala :: "int \<Rightarrow> int" where
  "toHalala v = (if v > 0 then v else 0)"

definition normalizeSupplyTier :: "string option \<Rightarrow> supply_tier option" where
  "normalizeSupplyTier v =
     (case v of None \<Rightarrow> None
      | Some s \<Rightarrow> (let t = to_lower (strip s) in
          if t = ''dcp_owned'' then Some DcpOwned else if t = ''provider'' then Some ProviderTier
          else if t = ''on_demand'' then Some OnDemand else None))"

text \<open>\<open>owned\<close> is the list parsed from \<open>DCP_OWNED_PROVIDER_IDS\<close>.\<close>

definition getProviderSupplyTier :: "int list \<Rightarrow> provider_row \<Rightarrow> supply_tier" where
  "getProviderSupplyTier owned p =
     (if pv_is_burst p then OnDemand
      else case normalizeSupplyTier (pv_supply_tier p) of
        Some t \<Rightarrow> t
      | None \<Rightarrow> if pv_id p \<in> set owned then DcpOwned else ProviderTier)"

definition computePaidAvailableCredit :: "int \<Rightarrow> int \<Rightarrow> int \<Rightarrow> int" where
  "computePaidAvailableCredit bal paid committed =
     min (toHalala bal) (max 0 (toHalala paid - toHalala committed))"

definition paid_part :: "payment_row \<Rightarrow> int" where
  "paid_part p =
     (if py_status p = ''paid'' then py_amount p
      else if py_status p = ''refunded'' then
        (case py_refund_amount p of None \<Rightarrow> 0
         | Some r \<Rightarrow> if py_amount p - r > 0 then py_amount p - r else 0)
      else 0)"

definition getPaidFundingHalala :: "db \<Rightarrow> int \<Rightarrow> int" where
  "getPaidFundingHalala d renter = toHalala (sql_sum (\<lambda>p. py_renter p = renter) paid_part (payments d))"

definition sql_trim :: "string \<Rightarrow> string" where
  "sql_trim s = rev (dropWhile (\<lambda>c. c = CHR '' '') (rev (dropWhile (\<lambda>c. c = CHR '' '') s)))"

definition on_demand_provider :: "provider_row \<Rightarrow> bool" where
  "on_demand_provider p =
     (pv_is_burst p \<or> to_lower (case pv_supply_tier p of None \<Rightarrow> [] | Some s \<Rightarrow> sql_trim s) = ''on_demand'')"

definition committed_part :: "job_row \<Rightarrow> int" where
  "committed_part j =
     (if jb_status j \<in> {JPending, JQueued, JAssigned, JPulling, JRunning} then or0 (jb_cost j)
      else if jb_status j \<in> {JCompleted, JStopped} then or0 (coalesce (jb_actual_cost j) (jb_cost j))
      else 0)"

definition getOnDemandCommittedHalala :: "db \<Rightarrow> int \<Rightarrow> int" where
  "getOnDemandCommittedHalala d renter =
     toHalala (sql_sum (\<lambda>j. jb_renter j = Some renter \<and> jb_type j = ''interactive_pod''
         \<and> (\<exists>p\<in>set (providers d). Some (pv_id p) = jb_provider j \<and> on_demand_provider p))
       committed_part (jobs d))"

definition paid_available :: "db \<Rightarrow> renter_row \<Rightarrow> int" where
  "paid_available d r =
     computePaidAvailableCredit (rn_balance r) (getPaidFundingHalala d (rn_id r))
       (getOnDemandCommittedHalala d (rn_id r))"

text \<open>\<open>Inl\<close> carries the paid credit available and what the launch needs.\<close>

definition evaluatePodLaunchCreditPolicy ::
    "int list \<Rightarrow> db \<Rightarrow> renter_row \<Rightarrow> provider_row \<Rightarrow> int \<Rightarrow> (int \<times> int) + supply_tier" where
  "evaluatePodLaunchCreditPolicy owned d r p quote =
     (let tier = getProviderSupplyTier owned p
      in if tier \<noteq> OnDemand then Inr tier
         else if paid_available d r < toHalala quote then Inl (paid_available d r, toHalala quote)
         else Inr tier)"

section \<open>Choosing the provider\<close>

definition TEN_MINUTES_MS :: int where "TEN_MINUTES_MS = 10 * 60 * 1000"
definition POD_MIN_VRAM_MIB :: int where "POD_MIN_VRAM_MIB = 8 * 1024"

text \<open>The columns the resolving queries select: \<open>supply_tier\<close> is not among them.\<close>

definition selected :: "provider_row \<Rightarrow> provider_row" where
  "selected p = p\<lparr>pv_supply_tier := None\<rparr>"

definition nullif0 :: "int option \<Rightarrow> int option" where
  "nullif0 c = (case c of Some n \<Rightarrow> if n = 0 then None else Some n | None \<Rightarrow> None)"

definition pod_vram_mib :: "provider_row \<Rightarrow> int" where
  "pod_vram_mib p = or0 (coalesce (nullif0 (pv_vram_mib p))
     (coalesce (map_option (\<lambda>g. g * 1024) (nullif0 (pv_vram_gb p)))
       (map_option (\<lambda>g. g * 1024) (nullif0 (pv_ready_vram p)))))"

definition pod_busy :: "db \<Rightarrow> int \<Rightarrow> bool" where
  "pod_busy d p = list_ex (\<lambda>j. jb_provider j = Some p \<and> pod_type (jb_type j)
     \<and> jb_status j \<in> {JQueued, JAssigned, JPulling, JRunning}) (jobs d)"

definition native_capable :: "db \<Rightarrow> int \<Rightarrow> provider_row \<Rightarrow> bool" where
  "native_capable d now p =
     (\<not> pv_is_burst p \<and> pv_status p = ''online'' \<and> \<not> pv_is_paused p
      \<and> (case pv_last_heartbeat p of None \<Rightarrow> False | Some t \<Rightarrow> t \<ge> now - TEN_MINUTES_MS)
      \<and> pod_vram_mib p \<ge> POD_MIN_VRAM_MIB \<and> pv_docker p \<and> pv_cuda p \<and> pv_healthy p
      \<and> \<not> pod_busy d (pv_id p))"

definition active_jobs :: "db \<Rightarrow> int \<Rightarrow> nat" where
  "active_jobs d p = sql_changes (\<lambda>j. jb_provider j = Some p
     \<and> jb_status j \<in> {JAssigned, JPulling, JRunning, JPending, JQueued}) (jobs d)"

datatype resolve_error =
  ProviderNotAvailable | NoProviderAvailable | InvalidGpuType | GpuTypeNotFound
| GpuTypeOutOfStock | InsufficientGpuCapacity

definition resolvePodProvider :: "db \<Rightarrow> int \<Rightarrow> int option \<Rightarrow> resolve_error + provider_row" where
  "resolvePodProvider d now requested =
     (case requested of
        Some i \<Rightarrow>
          (case sql_get (\<lambda>p. pv_id p = i \<and> pv_is_burst p \<and> pv_status p = ''online'' \<and> \<not> pv_is_paused p
                 \<and> pv_approval p = Some ''approved'' \<and> pv_burst_type p \<noteq> None) (providers d) of
             Some b \<Rightarrow> Inr (selected b)
           | None \<Rightarrow>
             (case sql_get (\<lambda>p. pv_id p = i \<and> native_capable d now p) (providers d) of
                None \<Rightarrow> Inl ProviderNotAvailable | Some p \<Rightarrow> Inr (selected p)))
      | None \<Rightarrow>
          (case sort_key (\<lambda>p. active_jobs d (pv_id p))
                 (sort_key (\<lambda>p. - or0 (pv_last_heartbeat p)) (sql_all (native_capable d now) (providers d))) of
             [] \<Rightarrow> Inl NoProviderAvailable
           | p # _ \<Rightarrow> Inr (selected p)))"

definition GPU_TYPE_ALIASES :: "(string \<times> string) list" where
  "GPU_TYPE_ALIASES =
     [(''h100'', ''h100''), (''h200'', ''h200''), (''a100'', ''a100''), (''l40s'', ''l40s''),
      (''5090'', ''rtx 5090''), (''rtx5090'', ''rtx 5090''), (''rtx 5090'', ''rtx 5090''),
      (''4090'', ''rtx 4090''), (''rtx4090'', ''rtx 4090''), (''rtx 4090'', ''rtx 4090''),
      (''rtx pro 6000'', ''rtx pro 6000''), (''rtxpro6000'', ''rtx pro 6000''), (''pro 6000'', ''rtx pro 6000''),
      (''rtx pro 4500'', ''rtx pro 4500''), (''rtxpro4500'', ''rtx pro 4500''), (''pro 4500'', ''rtx pro 4500''),
      (''b200'', ''b200''), (''a100 sxm'', ''a100-sxm4''), (''a100sxm'', ''a100-sxm4''),
      (''a100-sxm4'', ''a100-sxm4''), (''h100 nvl'', ''h100 nvl''), (''h100nvl'', ''h100 nvl''),
      (''nvl'', ''h100 nvl'')]"

definition gpu_candidate :: "provider_row \<Rightarrow> bool" where
  "gpu_candidate p =
     (\<not> pv_is_paused p \<and> pv_approval p = Some ''approved''
      \<and> (case pv_gpu_model p of None \<Rightarrow> False
         | Some g \<Rightarrow> (if pv_is_burst p then pv_burst_type p \<noteq> None
                     else take 6 (map upper_ascii g) = ''NVIDIA'')))"

definition gpu_matches :: "string \<Rightarrow> string \<Rightarrow> provider_row \<Rightarrow> bool" where
  "gpu_matches needle key p =
     (is_substring needle (to_lower (case pv_gpu_model p of None \<Rightarrow> [] | Some g \<Rightarrow> g))
      \<or> to_lower (strip (pv_name p)) = key)"

definition live_pod_status :: "job_status \<Rightarrow> bool" where
  "live_pod_status s = (s \<in> {JQueued, JPending, JAssigned, JProvisioning, JPulling, JRunning})"

definition used_gpus :: "db \<Rightarrow> int \<Rightarrow> int" where
  "used_gpus d p = sql_sum (\<lambda>j. jb_provider j = Some p \<and> pod_type (jb_type j) \<and> live_pod_status (jb_status j))
     (\<lambda>j. case jb_gpu_count j of None \<Rightarrow> 1 | Some n \<Rightarrow> n) (jobs d)"

definition free_gpus :: "db \<Rightarrow> provider_row \<Rightarrow> int" where
  "free_gpus d p =
     (if pv_is_burst p then 2 ^ 53 - 1
      else max 0 (max 1 (case pv_gpu_count p of None \<Rightarrow> 1 | Some n \<Rightarrow> if n = 0 then 1 else n) - used_gpus d (pv_id p)))"

definition resolveGpuType :: "db \<Rightarrow> string \<Rightarrow> int \<Rightarrow> resolve_error + provider_row" where
  "resolveGpuType d raw needed =
     (let key = to_lower (strip raw);
          needle = (case map_of GPU_TYPE_ALIASES key of Some n \<Rightarrow> n | None \<Rightarrow> key);
          matches = filter (gpu_matches needle key) (sql_all gpu_candidate (providers d));
          stocked = filter (\<lambda>p. pv_stock p \<noteq> Some 0 \<and> pv_status p = ''online'') matches
      in if strip raw = [] then Inl InvalidGpuType
         else if matches = [] then Inl GpuTypeNotFound
         else if stocked = [] then Inl GpuTypeOutOfStock
         else case List.find (\<lambda>p. free_gpus d p \<ge> max 1 needed) (sort_key (\<lambda>p. - free_gpus d p) stocked) of
           None \<Rightarrow> Inl InsufficientGpuCapacity
         | Some p \<Rightarrow> Inr (selected p))"

section \<open>The launch request\<close>

record pod_request =
  rq_duration :: js_num
  rq_gpu_count :: js_num
  rq_serve :: bool                  \<comment> \<open>\<open>mode === 'serve'\<close>\<close>
  rq_model :: string                \<comment> \<open>\<open>params.MODEL || body.model || ''\<close>\<close>
  rq_max_len :: js_num
  rq_dtype :: "string option"
  rq_token :: "string option"       \<comment> \<open>\<open>params.NOTEBOOK_TOKEN\<close>\<close>
  rq_image :: "string option"
  rq_provider_id :: "js_num option" \<comment> \<open>\<open>None\<close> when it is null or absent\<close>
  rq_gpu_type :: "string option"

record launch_env =
  le_now :: int
  le_job_id :: string
  le_fresh_token :: string
  le_root_password :: string
  le_owned :: "int list"
  le_max_pods :: int                \<comment> \<open>\<open>MAX_ACTIVE_PODS_PER_RENTER\<close>\<close>
  le_listening :: "int list"
  le_draws :: "nat \<Rightarrow> nat \<Rightarrow> rat"
  le_s3 :: bool                     \<comment> \<open>the workspace store is configured\<close>
  le_insert_ok :: bool
  le_spawn_ok :: bool

datatype launch_error =
  Unauthenticated | PaymentRequiredForPod | PodQuotaExceeded int | ExceedsMaxDuration
| InvalidServeModel | ServeTpUnsupported | WeakNotebookToken | InvalidImage | BadProviderId
| Unresolved resolve_error | ServeRequiresNative | InsufficientFreeGpus int int
| OnDemandNeedsPaidCredit int int | InsufficientCredit int int | BurstPortsExhausted
| BurstLaunchFailed | LaunchFailed

definition MIN_DURATION_MINUTES :: int where "MIN_DURATION_MINUTES = 5"
definition MAX_DURATION_MINUTES :: int where "MAX_DURATION_MINUTES = 48 * 60"
definition DEFAULT_DURATION_MINUTES :: int where "DEFAULT_DURATION_MINUTES = 60"

definition SERVE_MODELS :: "string list" where
  "SERVE_MODELS = [''Qwen/Qwen3-8B'', ''microsoft/Phi-3-mini-4k-instruct'',
     ''deepseek-ai/DeepSeek-R1-Distill-Llama-8B'', ''Qwen/Qwen3-14B'', ''Qwen/Qwen3.8-27B'',
     ''Qwen/Qwen3-32B'', ''Qwen/Qwen3-30B-A3B'']"

text \<open>The anti-abuse gate: a paid top-up or a saved card, unless the renter is exempt.\<close>

definition payment_gate :: "db \<Rightarrow> renter_row \<Rightarrow> bool" where
  "payment_gate d r =
     (rn_pods_exempt r \<or> list_ex (\<lambda>p. py_renter p = rn_id r \<and> py_status p = ''paid'') (payments d)
      \<or> truthy_str (rn_card_last4 r))"

definition pod_cap :: "int \<Rightarrow> renter_row \<Rightarrow> int" where
  "pod_cap max_pods r = (case rn_max_pods r of None \<Rightarrow> max_pods | Some n \<Rightarrow> if 1 \<le> n then n else max_pods)"

definition active_pods :: "db \<Rightarrow> int \<Rightarrow> nat" where
  "active_pods d renter = sql_changes (\<lambda>j. jb_renter j = Some renter \<and> pod_type (jb_type j)
     \<and> jb_status j \<in> {JPending, JQueued, JAssigned, JPulling, JRunning}) (jobs d)"

record pod_order =
  od_minutes :: int
  od_gpus :: int
  od_serve :: bool
  od_model :: string
  od_max_len :: int
  od_dtype :: string
  od_token :: string
  od_image :: string
  od_bootstrap :: bool
  od_provider :: "int option"

definition or_default :: "int option \<Rightarrow> int \<Rightarrow> int" where
  \<comment> \<open>\<open>x || d\<close>\<close>
  "or_default x d = (case x of None \<Rightarrow> d | Some n \<Rightarrow> if n = 0 then d else n)"

definition over_cap :: "js_num \<Rightarrow> bool" where
  "over_cap v = (case v of None \<Rightarrow> False | Some r \<Rightarrow> r > of_int MAX_DURATION_MINUTES)"

definition order_provider :: "js_num option \<Rightarrow> int option option" where
  \<comment> \<open>\<open>None\<close> is the 400 answer\<close>
  "order_provider v = (case v of None \<Rightarrow> Some None
     | Some x \<Rightarrow> (case toFiniteInt_pods x 1 None of None \<Rightarrow> None | Some i \<Rightarrow> Some (Some i)))"

definition read_request :: "launch_env \<Rightarrow> pod_request \<Rightarrow> launch_error + pod_order" where
  "read_request env rq =
     (let minutes = or_default (toFiniteInt_pods (rq_duration rq) MIN_DURATION_MINUTES (Some MAX_DURATION_MINUTES))
                      DEFAULT_DURATION_MINUTES;
          gpus = or_default (toFiniteInt_pods (rq_gpu_count rq) 1 (Some 8)) 1;
          model = strip (rq_model rq);
          len = or_default (toFiniteInt_pods (rq_max_len rq) 512 (Some 131072)) 32768;
          dtype = (case rq_dtype rq of Some t \<Rightarrow> if t \<in> {''float16'', ''bfloat16'', ''float32''} then t else ''float16''
                   | None \<Rightarrow> ''float16'');
          token = (if truthy_str (rq_token rq) then strip (the (rq_token rq)) else le_fresh_token env)
      in if over_cap (rq_duration rq) then Inl ExceedsMaxDuration
         else if rq_serve rq \<and> model \<notin> set SERVE_MODELS then Inl InvalidServeModel
         else if rq_serve rq \<and> gpus \<notin> {1, 2, 4} then Inl ServeTpUnsupported
         else if (case rq_token rq of None \<Rightarrow> False | Some t \<Rightarrow> isWeakToken t) then Inl WeakNotebookToken
         else case validatePodImage (rq_image rq) of
           None \<Rightarrow> Inl InvalidImage
         | Some (img, boot) \<Rightarrow>
             (case order_provider (rq_provider_id rq) of
                None \<Rightarrow> Inl BadProviderId
              | Some pid \<Rightarrow> Inr \<lparr>od_minutes = minutes, od_gpus = gpus, od_serve = rq_serve rq,
                  od_model = model, od_max_len = len, od_dtype = dtype, od_token = token,
                  od_image = img, od_bootstrap = boot, od_provider = pid\<rparr>))"

definition choose_provider :: "db \<Rightarrow> int \<Rightarrow> pod_request \<Rightarrow> pod_order \<Rightarrow> resolve_error + provider_row" where
  "choose_provider d now rq od =
     (case rq_gpu_type rq of
        Some t \<Rightarrow> if strip t \<noteq> [] then resolveGpuType d t (od_gpus od) else resolvePodProvider d now (od_provider od)
      | None \<Rightarrow> resolvePodProvider d now (od_provider od))"

section \<open>GPU allocation\<close>

text \<open>\<open>gpu_indices\<close> is a comma separated list; \<open>parseInt\<close> reads the leading digits of each part.\<close>

fun split_comma :: "string \<Rightarrow> string list" where
  "split_comma [] = [[]]"
| "split_comma (c # cs) =
     (if c = CHR '','' then [] # split_comma cs
      else case split_comma cs of [] \<Rightarrow> [[c]] | p # ps \<Rightarrow> (c # p) # ps)"

definition parseInt10 :: "string \<Rightarrow> int option" where
  "parseInt10 s =
     (let t = strip s; neg = (take 1 t = ''-''); u = (if take 1 t \<in> {''-'', ''+''} then drop 1 t else t);
          ds = takeWhile is_digit u
      in if ds = [] then None else Some (if neg then - digits_value ds else digits_value ds))"

definition parse_indices :: "string \<Rightarrow> int list" where
  "parse_indices s = List.map_filter parseInt10 (split_comma s)"

fun join_comma :: "string list \<Rightarrow> string" where
  "join_comma [] = []"
| "join_comma [s] = s"
| "join_comma (s # t # ss) = s @ CHR '','' # join_comma (t # ss)"

definition print_indices :: "int list \<Rightarrow> string" where
  "print_indices ns = join_comma (map dec ns)"

definition holds_gpu :: "int \<Rightarrow> job_row \<Rightarrow> bool" where
  "holds_gpu p j = (jb_provider j = Some p \<and> pod_type (jb_type j) \<and> live_pod_status (jb_status j)
     \<and> truthy_str (jb_gpu_indices j))"

definition used_indices :: "db \<Rightarrow> int \<Rightarrow> int list" where
  "used_indices d p = concat (map (\<lambda>j. parse_indices (the (jb_gpu_indices j))) (sql_all (holds_gpu p) (jobs d)))"

definition free_indices :: "db \<Rightarrow> int \<Rightarrow> int \<Rightarrow> int list" where
  "free_indices d p ngpu = filter (\<lambda>i. i \<notin> set (used_indices d p)) (map int [0..<nat ngpu])"

text \<open>How many GPUs the pod gets and, on a native node with several, which.\<close>

definition allocate_gpus :: "db \<Rightarrow> provider_row \<Rightarrow> pod_order \<Rightarrow> launch_error + (int \<times> int list option)" where
  "allocate_gpus d p od =
     (let ngpu = max 1 (resolvePodGpuCount (Some p));
          n = (if pv_is_burst p then 1 else min (od_gpus od) ngpu);
          free = free_indices d (pv_id p) ngpu
      in if \<not> pv_is_burst p \<and> ngpu > 1 then
           (if int (length free) < n then Inl (InsufficientFreeGpus (int (length free)) n)
            else Inr (n, Some (take (nat n) free)))
         else Inr (n, None))"

section \<open>Charging and inserting\<close>

definition activeVolumeForRenter :: "db \<Rightarrow> int \<Rightarrow> volume_row option" where
  "activeVolumeForRenter d i =
     (case sort_key (\<lambda>v. - vo_id v) (sql_all (\<lambda>v. vo_renter v = i \<and> vo_status v = VActive) (volumes d)) of
        [] \<Rightarrow> None | v # _ \<Rightarrow> Some v)"

definition build_spec :: "launch_env \<Rightarrow> db \<Rightarrow> int \<Rightarrow> pod_order \<Rightarrow> int \<Rightarrow> int list option \<Rightarrow> pod_spec" where
  "build_spec env d renter od gpus idx =
     (let dev = map_option (\<lambda>ns. ''device='' @ print_indices ns) idx
      in if od_serve od then ServeSpec (od_model od) (od_max_len od) (od_dtype od) gpus (od_minutes od) dev
         else NotebookSpec (od_image od) (od_token od) (le_root_password env) (od_minutes od) (od_bootstrap od) dev
           (Some (''dcp-ws-r'' @ dec renter))
           (if le_s3 env then map_option vo_bucket (activeVolumeForRenter d renter) else None))"

definition pod_row :: "launch_env \<Rightarrow> db \<Rightarrow> int \<Rightarrow> provider_row \<Rightarrow> pod_order \<Rightarrow> int \<Rightarrow> int list option \<Rightarrow> int
    \<Rightarrow> burst_ports option \<Rightarrow> job_row" where
  "pod_row env d renter p od gpus idx quote ports =
     (let secs = od_minutes od * 60;
          base = blank_job\<lparr>jb_id := next_rowid jb_id (jobs d), jb_job_id := le_job_id env, jb_provider := Some (pv_id p),
            jb_renter := Some renter, jb_spec := Some (build_spec env d renter od gpus idx),
            jb_duration_minutes := Some (od_minutes od), jb_max_seconds := Some secs, jb_cost := Some quote,
            jb_submitted_at := Some (le_now env), jb_created_at := Some (le_now env), jb_gpu_count := Some gpus\<rparr>
      in case ports of
           Some b \<Rightarrow> base\<lparr>jb_type := ''interactive_pod'', jb_status := JPulling,
             jb_timeout_at := Some (le_now env + secs * 1000), jb_jpub := Some (bp_jpub b), jb_spub := Some (bp_spub b)\<rparr>
         | None \<Rightarrow> base\<lparr>jb_type := (if od_serve od then ''vllm_serve'' else ''interactive_pod''), jb_status := JQueued,
             jb_gpu_indices := map_option print_indices idx\<rparr>)"

text \<open>\<open>burstLaunchRefund.js\<close>: fail a burst job that never ran and give the pre-debit back, once.\<close>

definition failBurstJobAndRefund :: "db \<Rightarrow> string \<Rightarrow> int \<Rightarrow> int \<Rightarrow> string \<Rightarrow> int \<Rightarrow> db \<times> bool" where
  "failBurstJobAndRefund d job quote renter reason now =
     (let P = (\<lambda>j. jb_job_id j = job \<and> jb_refunded_at j = None \<and> jb_status j \<in> {JPulling, JQueued, JAssigned});
          f = (\<lambda>j. j\<lparr>jb_status := JFailed, jb_error := Some reason, jb_completed_at := Some now,
                     jb_refunded_at := Some now\<rparr>);
          d1 = d\<lparr>jobs := sql_update P f (jobs d)\<rparr>;
          won = (sql_changes P (jobs d) = 1)
      in (if won \<and> quote > 0 then credit_balance renter quote d1 else d1, won))"

text \<open>A spawn error refunds through it and answers 503; an insert error refunds and answers 500.\<close>

definition insert_pod :: "launch_env \<Rightarrow> db \<Rightarrow> int \<Rightarrow> provider_row \<Rightarrow> pod_order \<Rightarrow> int \<Rightarrow> int list option \<Rightarrow> int
    \<Rightarrow> db \<times> (launch_error + job_row)" where
  "insert_pod env d renter p od gpus idx quote =
     (let refund = (\<lambda>x. if quote > 0 then credit_balance renter quote x else x);
          ports = (if pv_is_burst p then pickBurstPorts d (le_listening env) (le_draws env) else None);
          job = pod_row env d renter p od gpus idx quote ports
      in if pv_is_burst p \<and> ports = None then (refund d, Inl BurstPortsExhausted)
         else if \<not> le_insert_ok env \<or> le_job_id env \<in> set (map jb_job_id (jobs d)) then (refund d, Inl LaunchFailed)
         else let d1 = d\<lparr>jobs := sql_insert job (jobs d)\<rparr>
              in if pv_is_burst p \<and> \<not> le_spawn_ok env
                 then (fst (failBurstJobAndRefund d1 (le_job_id env) quote renter ''Burst launch failed to start'' (le_now env)),
                       Inl BurstLaunchFailed)
                 else (d1, Inr job))"

definition charge_and_insert :: "launch_env \<Rightarrow> db \<Rightarrow> renter_row \<Rightarrow> provider_row \<Rightarrow> pod_order \<Rightarrow> int \<Rightarrow> int list option
    \<Rightarrow> db \<times> (launch_error + job_row)" where
  "charge_and_insert env d r p od gpus idx =
     (let quote = computePodQuoteHalala (od_minutes od * 60) (resolvePodRate (Some p)) gpus
      in case evaluatePodLaunchCreditPolicy (le_owned env) d r p quote of
           Inl (have, need) \<Rightarrow> (d, Inl (OnDemandNeedsPaidCredit have need))
         | Inr _ \<Rightarrow>
           if quote > 0 then
             (case debit_balance (rn_id r) quote (le_now env) d of
                None \<Rightarrow> (d, Inl (InsufficientCredit (max 0 (balance_of d (rn_id r))) quote))
              | Some d1 \<Rightarrow> insert_pod env d1 (rn_id r) p od gpus idx quote)
           else insert_pod env d (rn_id r) p od gpus idx quote)"

text \<open>\<open>POST /api/pods\<close>, for the authenticated renter \<open>renter\<close>.\<close>

definition launchPod :: "launch_env \<Rightarrow> db \<Rightarrow> int \<Rightarrow> pod_request \<Rightarrow> db \<times> (launch_error + job_row)" where
  "launchPod env d renter rq =
     (case sql_get (\<lambda>r. rn_id r = renter \<and> rn_status r = ''active'') (renters d) of
        None \<Rightarrow> (d, Inl Unauthenticated)
      | Some r \<Rightarrow>
        if \<not> payment_gate d r then (d, Inl PaymentRequiredForPod)
        else if int (active_pods d renter) \<ge> pod_cap (le_max_pods env) r
        then (d, Inl (PodQuotaExceeded (pod_cap (le_max_pods env) r)))
        else case read_request env rq of Inl e \<Rightarrow> (d, Inl e)
          | Inr od \<Rightarrow>
            (case choose_provider d (le_now env) rq od of Inl e \<Rightarrow> (d, Inl (Unresolved e))
             | Inr p \<Rightarrow>
               if od_serve od \<and> pv_is_burst p then (d, Inl ServeRequiresNative)
               else case allocate_gpus d p od of Inl e \<Rightarrow> (d, Inl e)
                 | Inr (gpus, idx) \<Rightarrow> charge_and_insert env d r p od gpus idx))"

section \<open>What is printed is read back\<close>

lemma digits_no_trim: "list_all is_digit s \<Longrightarrow> strip s = s"
proof -
  assume d: "list_all is_digit s"
  have w: "\<not> is_digit c" if "c \<in> {CHR '' '', CHR 0x09, CHR 0x0A, CHR 0x0B, CHR 0x0C, CHR 0x0D}" for c
    using that by (auto simp: is_digit_def)
  have "dropWhile (\<lambda>c. c \<in> {CHR '' '', CHR 0x09, CHR 0x0A, CHR 0x0B, CHR 0x0C, CHR 0x0D}) t = t" if "list_all is_digit t" for t
    using that w by (cases t) auto
  then show ?thesis using d unfolding strip_def Let_def by (simp add: list_all_iff)
qed

lemma parseInt10_dec: "parseInt10 (dec (int n)) = Some (int n)"
proof -
  note d = dec_nat_digits [of n]
  have e: "dec (int n) = dec_nat n" by (simp add: dec_def)
  obtain c cs where c: "dec_nat n = c # cs" using d by (cases "dec_nat n") auto
  then have "is_digit c" using d by simp
  then have "c \<noteq> CHR ''-''" "c \<noteq> CHR ''+''" by (auto simp: is_digit_def)
  moreover have t: "takeWhile is_digit (c # cs) = c # cs"
    using d unfolding c by (simp add: takeWhile_eq_all_conv list_all_iff)
  ultimately show ?thesis unfolding e using d digits_no_trim [of "dec_nat n"]
    unfolding c parseInt10_def Let_def by (simp del: takeWhile.simps add: t)
qed

lemma split_comma_none: "CHR '','' \<notin> set s \<Longrightarrow> split_comma s = [s]"
  by (induction s) auto

lemma split_comma_app: "CHR '','' \<notin> set s \<Longrightarrow> split_comma (s @ CHR '','' # t) = s # split_comma t"
  by (induction s) auto

lemma split_join: "ss \<noteq> [] \<Longrightarrow> \<forall>s\<in>set ss. CHR '','' \<notin> set s \<Longrightarrow> split_comma (join_comma ss) = ss"
  by (induction ss rule: join_comma.induct) (auto simp: split_comma_none split_comma_app)

lemma dec_no_comma: "CHR '','' \<notin> set (dec (int n))"
proof -
  have "list_all is_digit (dec (int n))" using dec_nat_digits [of n] by (simp add: dec_def)
  moreover have "\<not> is_digit (CHR '','')" by (simp add: is_digit_def)
  ultimately show ?thesis by (auto simp: list_all_iff)
qed

lemma print_parse: "parse_indices (print_indices (map int ns)) = map int ns"
proof (cases ns)
  case Nil
  then show ?thesis by (simp add: parse_indices_def print_indices_def List.map_filter_def parseInt10_def strip_def Let_def)
next
  case (Cons m ms)
  have "split_comma (join_comma (map dec (map int ns))) = map dec (map int ns)"
    by (rule split_join) (use Cons dec_no_comma in auto)
  then have "parse_indices (print_indices (map int ns)) = List.map_filter parseInt10 (map dec (map int ns))"
    by (simp add: parse_indices_def print_indices_def)
  also have "\<dots> = map int ns" by (induction ns) (simp_all add: List.map_filter_simps parseInt10_dec)
  finally show ?thesis .
qed

end
