(* ===== verification/PodLife.thy ===== *)
theory PodLife
  imports Pods
begin

text \<open>
  What happens to a pod after its launch: the daemon claims it
  (\<open>backend/src/routes/providers.js\<close>), reports its endpoint, and the timeout enforcer completes
  or fails it (\<open>backend/src/routes/jobs.js\<close>); the renter extends or stops it
  (\<open>backend/src/routes/pods.js\<close>); the settlement sweep of \<open>backend/src/services/jobSweep.js\<close>
  completes or cancels what nobody stopped. Three of these settle a running pod on their own
  copies of the arithmetic.
\<close>

section \<open>Looking a pod up\<close>

text \<open>
  The path parameter is compared with the text \<open>job_id\<close> and with the integer \<open>id\<close>: \<open>ref_id\<close> is
  the number SQLite reads in it, if it reads one.
\<close>

record job_ref =
  ref_text :: string
  ref_id :: "int option"

definition refers :: "job_ref \<Rightarrow> job_row \<Rightarrow> bool" where
  "refers i j = (jb_job_id j = ref_text i \<or> Some (jb_id j) = ref_id i)"

definition renter_pod :: "db \<Rightarrow> int \<Rightarrow> job_ref \<Rightarrow> job_row option" where
  "renter_pod d renter i = sql_get (\<lambda>j. refers i j \<and> pod_type (jb_type j) \<and> jb_renter j = Some renter) (jobs d)"

section \<open>Money and escrow of a settlement\<close>

definition pay_pod_provider :: "int option \<Rightarrow> int \<Rightarrow> db \<Rightarrow> db" where
  "pay_pod_provider p earned d =
     (if earned > 0 then d\<lparr>providers := sql_update (\<lambda>r. Some (pv_id r) = p)
         (\<lambda>r. r\<lparr>pv_total_earnings := fl_add (pv_total_earnings r) (fl_div (of_int earned) 100),
                pv_claimable := pv_claimable r + earned,
                pv_total_jobs := pv_total_jobs r + 1, pv_current_job := None\<rparr>) (providers d)\<rparr>
      else d)"

definition settle_renter :: "int option \<Rightarrow> int \<Rightarrow> int \<Rightarrow> db \<Rightarrow> db" where
  "settle_renter i refund spent d =
     d\<lparr>renters := sql_update (\<lambda>r. Some (rn_id r) = i)
         (\<lambda>r. r\<lparr>rn_balance := rn_balance r + refund, rn_total_spent := rn_total_spent r + spent,
                rn_total_jobs := rn_total_jobs r + 1\<rparr>) (renters d)\<rparr>"

definition refund_renter :: "int option \<Rightarrow> int \<Rightarrow> db \<Rightarrow> db" where
  "refund_renter i amount d =
     d\<lparr>renters := sql_update (\<lambda>r. Some (rn_id r) = i) (\<lambda>r. r\<lparr>rn_balance := rn_balance r + amount\<rparr>) (renters d)\<rparr>"

definition release_escrow :: "string \<Rightarrow> escrow_status \<Rightarrow> int \<Rightarrow> db \<Rightarrow> db" where
  "release_escrow job st now d =
     d\<lparr>escrows := sql_update (\<lambda>e. eh_job_id e = job \<and> eh_status e \<in> {EHeld, ELocked})
         (\<lambda>e. e\<lparr>eh_status := st, eh_resolved_at := Some now\<rparr>) (escrows d)\<rparr>"

definition set_job :: "(job_row \<Rightarrow> bool) \<Rightarrow> (job_row \<Rightarrow> job_row) \<Rightarrow> db \<Rightarrow> db" where
  "set_job P f d = d\<lparr>jobs := sql_update P f (jobs d)\<rparr>"

definition terminal :: "job_status \<Rightarrow> bool" where
  "terminal s = (s \<in> {JCompleted, JFailed, JStopped, JCancelled})"

text \<open>\<open>Date.parse(started_at || submitted_at || now) || nowMs\<close>.\<close>

definition started_ms :: "job_row \<Rightarrow> int \<Rightarrow> int" where
  "started_ms j now =
     (let t = or0 (coalesce (jb_started_at j) (coalesce (jb_submitted_at j) (Some now)))
      in if t = 0 then now else t)"

definition settled :: "job_status \<Rightarrow> int \<Rightarrow> int \<Rightarrow> stop_settlement \<Rightarrow> job_row \<Rightarrow> job_row" where
  "settled st now secs s j =
     j\<lparr>jb_status := st, jb_completed_at := Some now, jb_duration_seconds := Some secs,
       jb_actual_cost := Some (ss_actual s), jb_earned := Some (ss_earned s), jb_fee := Some (ss_fee s)\<rparr>"

section \<open>Stopping (pods.js)\<close>

definition pod_gpus :: "job_row \<Rightarrow> provider_row option \<Rightarrow> int" where
  "pod_gpus j p = or_default (jb_gpu_count j) (resolvePodGpuCount p)"

definition provider_of :: "db \<Rightarrow> job_row \<Rightarrow> provider_row option" where
  "provider_of d j = sql_get (\<lambda>p. Some (pv_id p) = jb_provider j) (providers d)"

record stop_result =
  sr_idempotent :: bool
  sr_status :: job_status
  sr_charged :: int
  sr_refunded :: int
  sr_seconds :: int

definition stop_running :: "db \<Rightarrow> job_row \<Rightarrow> int \<Rightarrow> db \<times> stop_result" where
  "stop_running d j now =
     (let p = provider_of d j;
          s = computePodStopSettlement (jb_cost j) (started_ms j now) now (resolvePodRate p) (pod_gpus j p);
          d1 = set_job (\<lambda>x. jb_id x = jb_id j \<and> jb_status x = JRunning) (settled JStopped now (ss_elapsed s) s) d;
          d2 = pay_pod_provider (jb_provider j) (ss_earned s) d1;
          d3 = settle_renter (jb_renter j) (ss_refund s) (ss_actual s) d2;
          d4 = release_escrow (jb_job_id j) (if ss_earned s > 0 then EReleasedProvider else EReleasedRenter) now d3
      in (d4, \<lparr>sr_idempotent = False, sr_status = JStopped, sr_charged = ss_actual s,
               sr_refunded = ss_refund s, sr_seconds = ss_elapsed s\<rparr>))"

definition cancel_waiting :: "db \<Rightarrow> job_row \<Rightarrow> int \<Rightarrow> db \<times> stop_result" where
  "cancel_waiting d j now =
     (let prepaid = max 0 (or0 (jb_cost j));
          P = (\<lambda>x. jb_id x = jb_id j \<and> \<not> terminal (jb_status x) \<and> jb_refunded_at x = None);
          won = (sql_changes P (jobs d) = 1);
          d1 = set_job P (\<lambda>x. x\<lparr>jb_status := JCancelled, jb_completed_at := Some now, jb_refunded_at := Some now\<rparr>) d;
          d2 = (if prepaid > 0 \<and> won then refund_renter (jb_renter j) prepaid d1 else d1);
          d3 = (if won then release_escrow (jb_job_id j) EReleasedRenter now d2 else d2)
      in (d3, \<lparr>sr_idempotent = False, sr_status = JCancelled, sr_charged = 0,
               sr_refunded = (if won then prepaid else 0), sr_seconds = 0\<rparr>))"

definition stopPodCore :: "db \<Rightarrow> job_row \<Rightarrow> int \<Rightarrow> db \<times> stop_result" where
  "stopPodCore d j now =
     (if terminal (jb_status j) then
        (d, \<lparr>sr_idempotent = True, sr_status = jb_status j, sr_charged = 0, sr_refunded = 0, sr_seconds = 0\<rparr>)
      else if jb_status j = JRunning then stop_running d j now
      else cancel_waiting d j now)"

text \<open>\<open>DELETE /api/pods/:id\<close>; \<open>None\<close> is the 404 answer.\<close>

definition stopPod :: "db \<Rightarrow> int \<Rightarrow> job_ref \<Rightarrow> int \<Rightarrow> db \<times> stop_result option" where
  "stopPod d renter i now =
     (case renter_pod d renter i of None \<Rightarrow> (d, None)
      | Some j \<Rightarrow> (case stopPodCore d j now of (d', r) \<Rightarrow> (d', Some r)))"

section \<open>Extending (pods.js)\<close>

datatype extend_error = NotRunning job_status | ExceedsMax int | ExtendBalance int int | InvalidExtend | PodNotFound

definition current_seconds :: "job_row \<Rightarrow> int" where
  "current_seconds j = max 0 (or_default (jb_max_seconds j) (or0 (jb_duration_minutes j) * 60))"

definition push_deadline :: "job_row \<Rightarrow> int \<Rightarrow> int \<Rightarrow> int \<Rightarrow> db \<Rightarrow> db" where
  "push_deadline j newSeconds quote now d =
     (let d1 = set_job (\<lambda>x. jb_id x = jb_id j)
            (\<lambda>x. x\<lparr>jb_max_seconds := Some newSeconds, jb_duration_minutes := Some (js_round (fl_div (of_int newSeconds) 60)),
                   jb_cost := Some (or0 (jb_cost x) + quote)\<rparr>) d;
          d2 = set_job (\<lambda>x. jb_id x = jb_id j)
            (\<lambda>x. x\<lparr>jb_timeout_at := Some (sql_datetime (or0 (coalesce (jb_started_at x) (Some now)) + newSeconds * 1000))\<rparr>) d1
      in if quote > 0 then
           d2\<lparr>escrows := sql_update (\<lambda>e. eh_job_id e = jb_job_id j \<and> eh_status e \<in> {EHeld, ELocked})
             (\<lambda>e. e\<lparr>eh_amount := eh_amount e + quote\<rparr>) (escrows d2)\<rparr>
         else d2)"

definition debit_pod :: "int option \<Rightarrow> int \<Rightarrow> int \<Rightarrow> db \<Rightarrow> db option" where
  "debit_pod i amount now d =
     (if amount > 0 then (case i of None \<Rightarrow> None | Some r \<Rightarrow> debit_balance r amount now d) else Some d)"

text \<open>The charge for the added minutes, or the refusal.\<close>

definition extendPodCore :: "db \<Rightarrow> job_row \<Rightarrow> int \<Rightarrow> int \<Rightarrow> db \<times> (extend_error + int)" where
  "extendPodCore d j addMinutes now =
     (let cur = current_seconds j; add = addMinutes * 60; p = provider_of d j;
          quote = computePodQuoteHalala add (resolvePodRate p) (pod_gpus j p);
          have = max 0 (case jb_renter j of None \<Rightarrow> 0 | Some r \<Rightarrow> balance_of d r)
      in if jb_status j \<noteq> JRunning then (d, Inl (NotRunning (jb_status j)))
         else if cur + add > MAX_DURATION_MINUTES * 60
         then (d, Inl (ExceedsMax (max 0 (MAX_DURATION_MINUTES * 60 - cur) div 60)))
         else case debit_pod (jb_renter j) quote now d of
             None \<Rightarrow> (d, Inl (ExtendBalance have quote))
           | Some d1 \<Rightarrow> (push_deadline j (cur + add) quote now d1, Inr quote))"

definition extendPod :: "db \<Rightarrow> int \<Rightarrow> job_ref \<Rightarrow> js_num \<Rightarrow> int \<Rightarrow> db \<times> (extend_error + int)" where
  "extendPod d renter i minutes now =
     (case toFiniteInt_pods minutes MIN_DURATION_MINUTES (Some MAX_DURATION_MINUTES) of
        None \<Rightarrow> (d, Inl InvalidExtend)
      | Some m \<Rightarrow> (case renter_pod d renter i of None \<Rightarrow> (d, Inl PodNotFound)
          | Some j \<Rightarrow> extendPodCore d j m now))"

section \<open>Claim and endpoint reports\<close>

text \<open>
  The claim of one admitted candidate in \<open>buildNextPendingJob\<close>: a pinned job keeps its
  provider, and the guard makes the second of two polls lose.
\<close>

definition claim_job :: "int \<Rightarrow> int \<Rightarrow> int \<Rightarrow> db \<Rightarrow> db \<times> bool" where
  "claim_job provider job now d =
     (let P = (\<lambda>j. jb_id j = job \<and> jb_status j \<in> {JPending, JQueued} \<and> jb_picked_up_at j = None
             \<and> (jb_provider j = Some provider \<or> jb_provider j = None));
          f = (\<lambda>j. j\<lparr>jb_provider := Some provider, jb_assigned_at := coalesce (jb_assigned_at j) (Some now),
                 jb_picked_up_at := Some now, jb_status := JRunning,
                 jb_started_at := coalesce (jb_started_at j) (Some now),
                 jb_timeout_at := Some (sql_datetime (now + or0 (coalesce (jb_max_seconds j) (Some 600)) * 1000))\<rparr>)
      in (set_job P f d, sql_changes P (jobs d) = 1))"

definition unreserved :: "char \<Rightarrow> bool" where
  "unreserved c = (is_alnum c \<or> c \<in> set ''-_.!~*'' \<or> c = CHR 0x27 \<or> c \<in> set ''()'')"

definition hex_digit :: "nat \<Rightarrow> char" where
  "hex_digit n = (if n < 10 then char_of (48 + n) else char_of (55 + n))"

definition encodeURIComponent :: "string \<Rightarrow> string" where
  \<comment> \<open>a string is its list of UTF-8 bytes\<close>
  "encodeURIComponent s = concat (map (\<lambda>c. if unreserved c then [c]
     else [CHR ''%'', hex_digit (of_char c div 16), hex_digit (of_char c mod 16)]) s)"

fun digits_then :: "string \<Rightarrow> string \<Rightarrow> string option" where
  \<comment> \<open>\<open>\d+\<close> followed by the first character of the rest, which is consumed\<close>
  "digits_then stop s =
     (let ds = takeWhile is_digit s; r = drop (length ds) s
      in if ds = [] \<or> take 1 r \<noteq> stop then None else Some (drop 1 r))"

definition is_mesh_ip :: "string \<Rightarrow> bool" where
  \<comment> \<open>\<open>/^10\.[89]\.\d+\.\d+$/\<close>\<close>
  "is_mesh_ip s =
     ((take 5 s = ''10.8.'' \<or> take 5 s = ''10.9.'')
      \<and> (case digits_then ''.'' (drop 5 s) of None \<Rightarrow> False
         | Some r \<Rightarrow> r \<noteq> [] \<and> list_all is_digit r))"

record pod_report =
  rp_jport :: js_num
  rp_sport :: js_num
  rp_mesh :: string
  rp_relay :: "(js_num \<times> js_num) option"  \<comment> \<open>what \<open>pod-relay.sh\<close> returns; \<open>None\<close> when it throws\<close>

definition port :: "js_num \<Rightarrow> int option" where
  "port v = toFiniteInt_pods v 1 (Some 65535)"

definition spec_token :: "job_row \<Rightarrow> string" where
  "spec_token j = (case jb_spec j of Some (NotebookSpec _ t _ _ _ _ _ _) \<Rightarrow> t | _ \<Rightarrow> [])"

definition pod_live :: "pod_report \<Rightarrow> int \<Rightarrow> int \<Rightarrow> string \<Rightarrow> int \<Rightarrow> job_row \<Rightarrow> job_row" where
  "pod_live rp jpub spub token now j =
     j\<lparr>jb_host_port := port (rp_jport rp), jb_ssh_port := port (rp_sport rp), jb_mesh_ip := Some (rp_mesh rp),
       jb_jpub := Some jpub, jb_spub := Some spub,
       jb_access_url := Some (''https://api.dcp.sa:'' @ dec jpub @ ''/?token='' @ encodeURIComponent token),
       jb_ssh_command := Some (''ssh -p '' @ dec spub @ '' root@api.dcp.sa''),
       jb_status := JRunning, jb_phase := Some ''serving'', jb_phase_at := Some now,
       jb_started_at := (if jb_access_url j = None then Some now else jb_started_at j),
       jb_timeout_at := (if jb_access_url j = None
          then Some (sql_datetime (now + or0 (coalesce (jb_max_seconds j) (Some 600)) * 1000)) else jb_timeout_at j)\<rparr>"

text \<open>The interactive-pod branch of \<open>POST /api/jobs/:id/endpoint-ready\<close>, for the provider of the key.\<close>

definition endpoint_ready :: "db \<Rightarrow> int \<Rightarrow> job_ref \<Rightarrow> pod_report \<Rightarrow> int \<Rightarrow> db \<times> bool" where
  "endpoint_ready d provider i rp now =
     (case sql_get (\<lambda>j. refers i j \<and> jb_provider j = Some provider) (jobs d) of
        None \<Rightarrow> (d, False)
      | Some j \<Rightarrow>
        if jb_type j \<noteq> ''interactive_pod'' then (d, False)
        else if port (rp_jport rp) = None \<or> port (rp_sport rp) = None then (d, False)
        else if \<not> is_mesh_ip (rp_mesh rp) then (d, False)
        else case rp_relay rp of None \<Rightarrow> (d, False)
          | Some (jp, sp) \<Rightarrow>
            (case (port jp, port sp) of
               (Some jpub, Some spub) \<Rightarrow>
                 (set_job (\<lambda>x. jb_id x = jb_id j) (pod_live rp jpub spub (spec_token j) now) d, True)
             | _ \<Rightarrow> (d, False)))"

section \<open>Timeouts (jobs.js)\<close>

text \<open>The next queued job of a provider: pricing class, then priority, then age.\<close>

definition class_rank :: "job_row \<Rightarrow> int" where
  "class_rank j =
     (case jb_class j of None \<Rightarrow> 1
      | Some c \<Rightarrow> if c = ''priority'' then 0 else if c = ''economy'' then 2 else 1)"

definition created_key :: "job_row \<Rightarrow> int" where
  \<comment> \<open>NULL sorts first\<close>
  "created_key j = (case jb_created_at j of None \<Rightarrow> - 1 | Some t \<Rightarrow> max 0 t)"

definition next_queued :: "db \<Rightarrow> int option \<Rightarrow> job_row option" where
  "next_queued d p =
     (case sort_key class_rank (sort_key (\<lambda>j. - jb_priority j) (sort_key created_key
         (sql_all (\<lambda>j. p \<noteq> None \<and> jb_provider j = p \<and> jb_status j = JQueued) (jobs d)))) of
        [] \<Rightarrow> None | j # _ \<Rightarrow> Some j)"

definition promoteNextQueuedJob :: "int option \<Rightarrow> int \<Rightarrow> db \<Rightarrow> db" where
  "promoteNextQueuedJob p now d =
     (case next_queued d p of None \<Rightarrow> d
      | Some n \<Rightarrow> set_job (\<lambda>j. jb_id j = jb_id n)
          (\<lambda>j. j\<lparr>jb_status := JPending, jb_timeout_at := Some (now + or_default (jb_max_seconds n) 1800 * 1000)\<rparr>) d)"

definition timed_out :: "int \<Rightarrow> job_row \<Rightarrow> bool" where
  "timed_out now j = (jb_status j \<in> {JRunning, JAssigned, JPulling}
     \<and> (case jb_timeout_at j of None \<Rightarrow> False | Some t \<Rightarrow> sql_datetime t < sql_datetime now))"

text \<open>A running pod completes: the settlement is computed on the provider's GPU count.\<close>

definition complete_pod :: "job_row \<Rightarrow> int \<Rightarrow> db \<Rightarrow> db" where
  "complete_pod j now d =
     (let p = provider_of d j;
          s = computePodStopSettlement (jb_cost j) (started_ms j now) now (resolvePodRate p) (resolvePodGpuCount p);
          P = (\<lambda>x. jb_id x = jb_id j \<and> jb_status x = JRunning);
          d1 = set_job P (\<lambda>x. (settled JCompleted now (ss_elapsed s) s x)\<lparr>jb_error := Some ''Pod reached its scheduled duration''\<rparr>) d
      in if sql_changes P (jobs d) = 1 then
           release_escrow (jb_job_id j) EReleasedProvider now
             (settle_renter (jb_renter j) (ss_refund s) (ss_actual s) (pay_pod_provider (jb_provider j) (ss_earned s) d1))
         else d1)"

definition TIMEOUT_MESSAGE :: string where
  \<comment> \<open>the dash is U+2014\<close>
  "TIMEOUT_MESSAGE = ''Job timed out '' @ [CHR 0xE2, CHR 0x80, CHR 0x94] @ '' provider may be offline or model too large''"

text \<open>Any other timed-out job fails and is refunded its cost.\<close>

definition fail_timed_out :: "job_row \<Rightarrow> int \<Rightarrow> db \<Rightarrow> db" where
  "fail_timed_out j now d =
     (let d1 = set_job (\<lambda>x. jb_id x = jb_id j)
            (\<lambda>x. x\<lparr>jb_status := JFailed, jb_error := Some TIMEOUT_MESSAGE, jb_completed_at := Some now\<rparr>) d;
          d2 = (if jb_renter j \<noteq> None \<and> or0 (jb_cost j) > 0
                then set_job (\<lambda>x. jb_id x = jb_id j) (\<lambda>x. x\<lparr>jb_refunded_at := Some now\<rparr>)
                       (refund_renter (jb_renter j) (or0 (jb_cost j)) d1)
                else d1)
      in release_escrow (jb_job_id j) EReleasedRenter now d2)"

definition enforce_one :: "int \<Rightarrow> job_row \<Rightarrow> db \<Rightarrow> db" where
  "enforce_one now j d =
     promoteNextQueuedJob (jb_provider j) now
       (if jb_type j = ''interactive_pod'' \<and> jb_status j = JRunning then complete_pod j now d
        else fail_timed_out j now d)"

definition enforceJobTimeouts :: "int \<Rightarrow> db \<Rightarrow> db" where
  "enforceJobTimeouts now d = fold (enforce_one now) (sql_all (timed_out now) (jobs d)) d"

section \<open>The settlement sweep (jobSweep.js)\<close>

definition POD_DEADLINE_GRACE_SECONDS :: int where "POD_DEADLINE_GRACE_SECONDS = 300"
definition POD_QUEUED_STALE_MINUTES :: int where "POD_QUEUED_STALE_MINUTES = 25"

definition pod_expired :: "int \<Rightarrow> job_row \<Rightarrow> bool" where
  "pod_expired now j =
     (jb_type j = ''interactive_pod'' \<and> jb_status j = JRunning \<and> or0 (jb_max_seconds j) > 0
      \<and> (case jb_started_at j of None \<Rightarrow> False
         | Some t \<Rightarrow> sql_datetime (t + (or0 (jb_max_seconds j) + POD_DEADLINE_GRACE_SECONDS) * 1000) \<le> sql_datetime now))"

definition full_settlement :: "job_row \<Rightarrow> stop_settlement" where
  "full_settlement j =
     (let prepaid = max 0 (or0 (jb_cost j)); earned = \<lfloor>fl_mul (of_int prepaid) PROVIDER_EARN_SHARE\<rfloor>
      in \<lparr>ss_elapsed = or0 (jb_max_seconds j), ss_actual = prepaid, ss_earned = earned,
          ss_fee = prepaid - earned, ss_refund = 0\<rparr>)"

definition settle_expired :: "int \<Rightarrow> job_row \<Rightarrow> db \<Rightarrow> db" where
  "settle_expired now j d =
     (let s = full_settlement j; P = (\<lambda>x. jb_id x = jb_id j \<and> jb_status x = JRunning);
          d1 = set_job P (\<lambda>x. (settled JCompleted now 0 s x)\<lparr>jb_duration_seconds := jb_max_seconds x\<rparr>) d
      in if sql_changes P (jobs d) \<noteq> 1 then d1
         else settle_renter (jb_renter j) 0 (ss_actual s) (pay_pod_provider (jb_provider j) (ss_earned s) d1))"

definition pod_stale :: "int \<Rightarrow> job_row \<Rightarrow> bool" where
  "pod_stale now j =
     (jb_type j = ''interactive_pod'' \<and> jb_status j \<in> {JPending, JQueued}
      \<and> jb_host_port j = None \<and> jb_access_url j = None
      \<and> (case coalesce (jb_submitted_at j) (jb_created_at j) of None \<Rightarrow> False
         | Some t \<Rightarrow> sql_datetime t \<le> sql_datetime (now - POD_QUEUED_STALE_MINUTES * 60 * 1000)))"

definition cancel_stale :: "int \<Rightarrow> job_row \<Rightarrow> db \<Rightarrow> db" where
  "cancel_stale now j d =
     (let P = (\<lambda>x. jb_id x = jb_id j \<and> jb_status x \<in> {JPending, JQueued}); prepaid = max 0 (or0 (jb_cost j));
          d1 = set_job P (\<lambda>x. x\<lparr>jb_status := JCancelled, jb_completed_at := Some now, jb_refunded_at := Some now\<rparr>) d
      in if sql_changes P (jobs d) = 1 \<and> prepaid > 0 \<and> jb_refunded_at j = None
         then refund_renter (jb_renter j) prepaid d1 else d1)"

definition settleExpiredPods :: "int \<Rightarrow> db \<Rightarrow> db" where
  "settleExpiredPods now d =
     (let d1 = fold (settle_expired now) (take 20 (sql_all (pod_expired now) (jobs d))) d
      in fold (cancel_stale now) (take 20 (sql_all (pod_stale now) (jobs d1))) d1)"

end
