(* ===== verification/PodBooks.thy ===== *)
theory PodBooks
  imports PodLife
begin

text \<open>
  The books of the pod lifecycle: what a launch takes is held by the job until it is settled or
  given back. The events of the lifecycle are composed here, and the invariants proved over
  every sequence of them.
\<close>

section \<open>What a job holds\<close>

definition hold :: "job_row \<Rightarrow> int" where
  "hold j = (if jb_status j \<in> {JStopped, JCompleted} then or0 (jb_fee j)
             else if jb_status j \<in> {JFailed, JCancelled} then 0 else or0 (jb_cost j))"

definition pod_books :: "db \<Rightarrow> int" where
  "pod_books d = total_balance d + total_claimable d + sum_list (map hold (jobs d))"

text \<open>A job that is not terminal is paid for by a renter of the table and has not been refunded.\<close>

definition job_ok :: "int set \<Rightarrow> int set \<Rightarrow> job_row \<Rightarrow> bool" where
  "job_ok R P j = (terminal (jb_status j) \<or>
     (0 \<le> or0 (jb_cost j) \<and> jb_refunded_at j = None
      \<and> (0 < or0 (jb_cost j) \<or> pod_type (jb_type j) \<longrightarrow> (\<exists>i\<in>R. jb_renter j = Some i))
      \<and> (pod_type (jb_type j) \<longrightarrow> (\<exists>i\<in>P. jb_provider j = Some i))))"

definition pods_ok :: "db \<Rightarrow> bool" where
  "pods_ok d = (has_key rn_id (renters d) \<and> has_key pv_id (providers d) \<and> has_key jb_id (jobs d)
     \<and> (\<forall>j\<in>set (jobs d). job_ok (rn_id ` set (renters d)) (pv_id ` set (providers d)) j))"

lemma pods_okD:
  assumes "pods_ok d"
  shows "has_key rn_id (renters d)" "has_key pv_id (providers d)" "has_key jb_id (jobs d)"
    and "j \<in> set (jobs d) \<Longrightarrow> job_ok (rn_id ` set (renters d)) (pv_id ` set (providers d)) j"
  using assms by (auto simp: pods_ok_def)

lemma job_ok_live:
  assumes "job_ok R P j" "\<not> terminal (jb_status j)"
  shows "0 \<le> or0 (jb_cost j)" "jb_refunded_at j = None"
    and "0 < or0 (jb_cost j) \<Longrightarrow> \<exists>i\<in>R. jb_renter j = Some i"
    and "pod_type (jb_type j) \<Longrightarrow> \<exists>i\<in>R. jb_renter j = Some i"
    and "pod_type (jb_type j) \<Longrightarrow> \<exists>i\<in>P. jb_provider j = Some i"
  using assms by (auto simp: job_ok_def)

lemma job_ok_terminal: "terminal (jb_status j) \<Longrightarrow> job_ok R P j"
  by (simp add: job_ok_def)

section \<open>The frame of each write\<close>

lemma frames [simp]:
  "renters (set_job P f d) = renters d" "providers (set_job P f d) = providers d"
  "jobs (refund_renter i a d) = jobs d" "providers (refund_renter i a d) = providers d"
  "jobs (settle_renter i a b d) = jobs d" "providers (settle_renter i a b d) = providers d"
  "jobs (pay_pod_provider p e d) = jobs d" "renters (pay_pod_provider p e d) = renters d"
  "jobs (release_escrow k st now d) = jobs d" "renters (release_escrow k st now d) = renters d"
  "providers (release_escrow k st now d) = providers d"
  "jobs (credit_balance m a d) = jobs d" "providers (credit_balance m a d) = providers d"
  "jobs (set_job P f d) = sql_update P f (jobs d)"
  by (simp_all add: set_job_def refund_renter_def settle_renter_def pay_pod_provider_def release_escrow_def
      credit_balance_def)

lemma ids_kept [simp]:
  "rn_id ` set (renters (refund_renter i a d)) = rn_id ` set (renters d)"
  "rn_id ` set (renters (settle_renter i a b d)) = rn_id ` set (renters d)"
  "rn_id ` set (renters (credit_balance k a d)) = rn_id ` set (renters d)"
  "pv_id ` set (providers (pay_pod_provider p e d)) = pv_id ` set (providers d)"
  "has_key rn_id (renters (refund_renter i a d)) = has_key rn_id (renters d)"
  "has_key rn_id (renters (settle_renter i a b d)) = has_key rn_id (renters d)"
  "has_key rn_id (renters (credit_balance k a d)) = has_key rn_id (renters d)"
  "has_key pv_id (providers (pay_pod_provider p e d)) = has_key pv_id (providers d)"
  by (simp_all add: refund_renter_def settle_renter_def pay_pod_provider_def credit_balance_def keyed)

lemma pods_ok_money [simp]:
  "pods_ok (refund_renter i a d) = pods_ok d" "pods_ok (settle_renter i a b d) = pods_ok d"
  "pods_ok (pay_pod_provider p e d) = pods_ok d" "pods_ok (release_escrow k st now d) = pods_ok d"
  "pods_ok (credit_balance j a d) = pods_ok d"
  by (simp_all add: pods_ok_def)

lemma pods_ok_set_job:
  assumes "pods_ok d" "\<And>x. jb_id (f x) = jb_id x"
    and "\<And>x. x \<in> set (jobs d) \<Longrightarrow> P x \<Longrightarrow> job_ok (rn_id ` set (renters d)) (pv_id ` set (providers d)) (f x)"
  shows "pods_ok (set_job P f d)"
  using assms by (auto simp: pods_ok_def has_key_update set_sql_update)

section \<open>What each write does to the books\<close>

lemma books_set_job:
  assumes "has_key jb_id (jobs d)" "j \<in> set (jobs d)" "P j"
  shows "pod_books (set_job (\<lambda>x. jb_id x = jb_id j \<and> P x) f d) = pod_books d + hold (f j) - hold j"
  using sum_list_update_key [where g = hold and f = f and P = P, OF assms] by (simp add: pod_books_def total_balance_def total_claimable_def)

lemma books_set_job0:
  assumes "has_key jb_id (jobs d)" "j \<in> set (jobs d)"
  shows "pod_books (set_job (\<lambda>x. jb_id x = jb_id j) f d) = pod_books d + hold (f j) - hold j"
  using books_set_job [OF assms, of "\<lambda>_. True" f] by simp

lemma balance_by_key:
  assumes "has_key rn_id (renters d)" "i \<in> rn_id ` set (renters d)" "\<And>r. rn_balance (f r) = rn_balance r + a"
  shows "sum_list (map rn_balance (sql_update (\<lambda>r. Some (rn_id r) = Some i) f (renters d)))
     = sum_list (map rn_balance (renters d)) + a"
  using assms sum_list_update_key0 [of rn_id "renters d" _ rn_balance f] by auto

lemma books_refund:
  assumes "has_key rn_id (renters d)" "i \<in> rn_id ` set (renters d)"
  shows "pod_books (refund_renter (Some i) a d) = pod_books d + a"
    and "pod_books (settle_renter (Some i) a b d) = pod_books d + a"
    and "pod_books (credit_balance i a d) = pod_books d + a"
  using balance_by_key [OF assms] unfolding pod_books_def total_balance_def total_claimable_def
  by (simp_all add: refund_renter_def settle_renter_def credit_balance_def)

lemma books_pay:
  assumes "has_key pv_id (providers d)" "i \<in> pv_id ` set (providers d)" "0 \<le> e"
  shows "pod_books (pay_pod_provider (Some i) e d) = pod_books d + e"
proof -
  from assms obtain p where "p \<in> set (providers d)" "i = pv_id p" by auto
  then show ?thesis using assms(1,3) sum_list_update_key0 [of pv_id "providers d" p pv_claimable]
    by (auto simp: pod_books_def total_balance_def total_claimable_def pay_pod_provider_def)
qed

lemma books_escrow [simp]: "pod_books (release_escrow k st now d) = pod_books d"
  by (simp add: pod_books_def total_balance_def total_claimable_def)

section \<open>Settlement arithmetic\<close>

lemma share_bounds:
  assumes "0 \<le> a"
  shows "0 \<le> \<lfloor>fl_mul (of_int a) PROVIDER_EARN_SHARE\<rfloor>" "\<lfloor>fl_mul (of_int a) PROVIDER_EARN_SHARE\<rfloor> \<le> a"
proof -
  let ?x = "of_int a * PROVIDER_EARN_SHARE :: rat"
  have x: "0 \<le> ?x" using assms by (simp add: PROVIDER_EARN_SHARE_def)
  then have "0 \<le> fl ?x" by (rule fl_nonneg)
  then show "0 \<le> \<lfloor>fl_mul (of_int a) PROVIDER_EARN_SHARE\<rfloor>" by (simp add: fl_mul_def)
  have "\<bar>?x\<bar> = ?x" using x by (rule abs_of_nonneg)
  moreover have "?x / 2 ^ 53 \<le> ?x / 4" using x by (intro divide_left_mono) simp_all
  ultimately have "\<bar>?x\<bar> / 2 ^ 53 \<le> ?x / 4" by (simp only:)
  then have "fl ?x \<le> ?x + ?x / 4" using fl_error [of ?x] by linarith
  also have "\<dots> \<le> of_int a" using assms by (simp add: PROVIDER_EARN_SHARE_def)
  finally have "fl ?x \<le> of_int a" .
  then have "\<lfloor>fl ?x\<rfloor> \<le> a" by linarith
  then show "\<lfloor>fl_mul (of_int a) PROVIDER_EARN_SHARE\<rfloor> \<le> a" by (simp add: fl_mul_def)
qed

lemma settlement_parts:
  fixes s :: stop_settlement
  assumes "s = computePodStopSettlement cost t now rate gpus"
  shows "ss_actual s + ss_refund s = max 0 (or0 cost)" "ss_earned s + ss_fee s = ss_actual s"
    and "0 \<le> ss_actual s" "0 \<le> ss_refund s" "0 \<le> ss_earned s" "0 \<le> ss_fee s"
proof -
  have a: "ss_earned s = \<lfloor>fl_mul (of_int (ss_actual s)) PROVIDER_EARN_SHARE\<rfloor>" "ss_fee s = ss_actual s - ss_earned s"
    using assms by (simp_all add: computePodStopSettlement_def Let_def)
  show "ss_actual s + ss_refund s = max 0 (or0 cost)" and n: "0 \<le> ss_actual s" and "0 \<le> ss_refund s"
    using assms by (simp_all add: computePodStopSettlement_def Let_def)
  show "0 \<le> ss_earned s" "0 \<le> ss_fee s" "ss_earned s + ss_fee s = ss_actual s"
    using share_bounds [OF n] a by simp_all
qed

lemma full_settlement_parts:
  "ss_actual (full_settlement j) = max 0 (or0 (jb_cost j))" "0 \<le> ss_earned (full_settlement j)"
  "ss_earned (full_settlement j) + ss_fee (full_settlement j) = ss_actual (full_settlement j)"
  using share_bounds(1) [of "max 0 (or0 (jb_cost j))"] by (simp_all add: full_settlement_def Let_def)

section \<open>One job at a time\<close>

text \<open>
  A settlement that flips a running pod, pays the provider and the renter what it says, keeps
  the books; so does giving the cost of a waiting job back.
\<close>

lemma books_settle:
  assumes ok: "pods_ok d" and j: "j \<in> set (jobs d)" "jb_status j = JRunning" "pod_type (jb_type j)"
    and s: "ss_actual s + ss_refund s = or0 (jb_cost j)" "ss_earned s + ss_fee s = ss_actual s" "0 \<le> ss_earned s"
    and f: "\<And>x. jb_id (f x) = jb_id x" "jb_status (f j) \<in> {JStopped, JCompleted}" "jb_fee (f j) = Some (ss_fee s)"
    and d': "d' = settle_renter (jb_renter j) (ss_refund s) (ss_actual s) (pay_pod_provider (jb_provider j) (ss_earned s)
       (set_job (\<lambda>x. jb_id x = jb_id j \<and> jb_status x = JRunning) f d))"
  shows "pods_ok d' \<and> pod_books d' = pod_books d"
proof -
  note k = pods_okD [OF ok]
  have live: "\<not> terminal (jb_status j)" using j(2) by (simp add: terminal_def)
  obtain i p where ip: "jb_renter j = Some i" "i \<in> rn_id ` set (renters d)" "jb_provider j = Some p" "p \<in> pv_id ` set (providers d)"
    using job_ok_live(4,5) [OF k(4) [OF j(1)] live j(3)] by auto
  have h: "hold j = or0 (jb_cost j)" using j(2) by (simp add: hold_def)
  have h': "hold (f j) = ss_fee s" using f by (auto simp: hold_def)
  have b: "pod_books d' = pod_books d"
    unfolding d' ip using ip s(3) k(1,2)
    by (subst books_refund(2); simp?) (subst books_pay; simp add: books_set_job [where P = "\<lambda>x. jb_status x = JRunning", OF k(3) j(1) j(2)] h h' s(1,2) [symmetric])
  have "job_ok R P (f x)" if "x \<in> set (jobs d)" "jb_id x = jb_id j \<and> jb_status x = JRunning" for R P x
  proof -
    have "x = j" using has_key_eq [OF k(3)] that j(1) by blast
    then show ?thesis using f(2) by (auto simp: job_ok_def terminal_def)
  qed
  then show ?thesis using b pods_ok_set_job [OF ok f(1)] by (simp add: d')
qed

lemma books_give_back:
  assumes ok: "pods_ok d" and j: "j \<in> set (jobs d)" "\<not> terminal (jb_status j)" "P j"
    and f: "\<And>x. jb_id (f x) = jb_id x" "jb_status (f j) \<in> {JFailed, JCancelled}"
    and d': "d' = set_job (\<lambda>x. jb_id x = jb_id j \<and> P x) f d"
  shows "pods_ok d' \<and> pod_books (refund_renter (jb_renter j) (or0 (jb_cost j)) d') = pod_books d
     \<and> (or0 (jb_cost j) = 0 \<longrightarrow> pod_books d' = pod_books d)"
proof -
  note k = pods_okD [OF ok] and l = job_ok_live [OF pods_okD(4) [OF ok j(1)] j(2)]
  have b: "pod_books d' = pod_books d - or0 (jb_cost j)"
    using books_set_job [where P = P, OF k(3) j(1) j(3), of f] j(2) f(2) by (auto simp: d' hold_def terminal_def)
  have z: "pod_books d' = pod_books d" if "or0 (jb_cost j) = 0" using b that by simp
  have g: "pod_books (refund_renter (jb_renter j) (or0 (jb_cost j)) d') = pod_books d"
  proof (cases "0 < or0 (jb_cost j)")
    case True
    then obtain i where "jb_renter j = Some i" "i \<in> rn_id ` set (renters d)" using l(3) by auto
    then show ?thesis using books_refund(1) [of d' i] k(1) b by (simp add: d')
  next
    case False
    then have c: "or0 (jb_cost j) = 0" using l(1) by simp
    have "sum_list (map rn_balance (sql_update Q (\<lambda>r. r\<lparr>rn_balance := rn_balance r + 0\<rparr>) rs)) = sum_list (map rn_balance rs)" for Q rs
      by (simp add: sum_list_update)
    then have "pod_books (refund_renter (jb_renter j) (or0 (jb_cost j)) d') = pod_books d'"
      by (simp add: c pod_books_def total_balance_def total_claimable_def refund_renter_def)
    then show ?thesis using z [OF c] by simp
  qed
  have "job_ok R Q (f x)" if "x \<in> set (jobs d)" "jb_id x = jb_id j \<and> P x" for R Q x
  proof -
    have "x = j" using has_key_eq [OF k(3)] that j(1) by blast
    then show ?thesis using f(2) by (auto simp: job_ok_def terminal_def)
  qed
  then show ?thesis using z g pods_ok_set_job [OF ok f(1)] by (simp add: d')
qed

section \<open>What every step keeps\<close>

text \<open>
  The books, the rows already terminal, and, for a provider \<open>p\<close>, the indices its live pods
  hold: no index becomes shared.
\<close>

definition keeps :: "int \<Rightarrow> db \<Rightarrow> db \<Rightarrow> bool" where
  "keeps p d d' = (pods_ok d' \<and> pod_books d' = pod_books d
     \<and> (\<forall>r\<in>set (jobs d). terminal (jb_status r) \<longrightarrow> r \<in> set (jobs d'))
     \<and> (distinct (used_indices d p) \<longrightarrow> distinct (used_indices d' p)))"

lemma keeps_refl: "pods_ok d \<Longrightarrow> keeps p d d"
  by (simp add: keeps_def)

lemma keeps_trans: "keeps p d1 d2 \<Longrightarrow> keeps p d2 d3 \<Longrightarrow> keeps p d1 d3"
  by (auto simp: keeps_def)

lemma keeps_ok: "keeps p d d' \<Longrightarrow> pods_ok d'"
  by (simp add: keeps_def)

lemma used_cong: "jobs d' = jobs d \<Longrightarrow> used_indices d' p = used_indices d p"
  by (simp add: used_indices_def)

lemma used_rows:
  assumes "\<And>x. x \<in> set js \<Longrightarrow> P x \<Longrightarrow> holds_gpu p (f x) \<Longrightarrow> holds_gpu p x \<and> jb_gpu_indices (f x) = jb_gpu_indices x"
  shows "set (concat (map (\<lambda>j. parse_indices (the (jb_gpu_indices j))) (filter (holds_gpu p) (sql_update P f js))))
       \<subseteq> set (concat (map (\<lambda>j. parse_indices (the (jb_gpu_indices j))) (filter (holds_gpu p) js)))
     \<and> (distinct (concat (map (\<lambda>j. parse_indices (the (jb_gpu_indices j))) (filter (holds_gpu p) js))) \<longrightarrow>
       distinct (concat (map (\<lambda>j. parse_indices (the (jb_gpu_indices j))) (filter (holds_gpu p) (sql_update P f js)))))"
  using assms
proof (induction js)
  case Nil
  then show ?case by simp
next
  case (Cons a js)
  have t: "holds_gpu p a \<and> jb_gpu_indices (f a) = jb_gpu_indices a" if "P a" "holds_gpu p (f a)"
    using Cons.prems that by simp
  have "set (concat (map (\<lambda>j. parse_indices (the (jb_gpu_indices j))) (filter (holds_gpu p) (sql_update P f js))))
       \<subseteq> set (concat (map (\<lambda>j. parse_indices (the (jb_gpu_indices j))) (filter (holds_gpu p) js)))
     \<and> (distinct (concat (map (\<lambda>j. parse_indices (the (jb_gpu_indices j))) (filter (holds_gpu p) js))) \<longrightarrow>
       distinct (concat (map (\<lambda>j. parse_indices (the (jb_gpu_indices j))) (filter (holds_gpu p) (sql_update P f js)))))"
    using Cons by simp
  then show ?case using t by (cases "P a"; cases "holds_gpu p a"; cases "holds_gpu p (f a)") auto
qed

lemma used_set_job:
  assumes "\<And>x. x \<in> set (jobs d) \<Longrightarrow> P x \<Longrightarrow> holds_gpu p (f x) \<Longrightarrow> holds_gpu p x \<and> jb_gpu_indices (f x) = jb_gpu_indices x"
  shows "distinct (used_indices d p) \<Longrightarrow> distinct (used_indices (set_job P f d) p)"
  using used_rows [of "jobs d" P p f] assms unfolding used_indices_def sql_all_def by auto

lemma kept_row: "\<not> P r \<Longrightarrow> r \<in> set rows \<Longrightarrow> r \<in> set (sql_update P f rows)"
  by (force simp: set_sql_update)

lemma fold_keeps:
  assumes step: "\<And>j d. pods_ok d \<Longrightarrow> j \<in> set (jobs d) \<Longrightarrow> Q j \<Longrightarrow> keeps p d (f j d)"
    and other: "\<And>j k d. pods_ok d \<Longrightarrow> j \<in> set (jobs d) \<Longrightarrow> Q j \<Longrightarrow> k \<in> set (jobs d) \<Longrightarrow> Q k \<Longrightarrow> jb_id k \<noteq> jb_id j
        \<Longrightarrow> k \<in> set (jobs (f j d))"
  shows "pods_ok d \<Longrightarrow> distinct (map jb_id js) \<Longrightarrow> \<forall>j\<in>set js. j \<in> set (jobs d) \<and> Q j \<Longrightarrow> keeps p d (fold f js d)"
proof (induction js arbitrary: d)
  case Nil
  then show ?case by (simp add: keeps_refl)
next
  case (Cons a js)
  then have k: "keeps p d (f a d)" by (intro step) simp_all
  have "keeps p (f a d) (fold f js (f a d))"
  proof (rule Cons.IH)
    show "pods_ok (f a d)" using k by (rule keeps_ok)
    show "distinct (map jb_id js)" using Cons.prems by simp
    show "\<forall>j\<in>set js. j \<in> set (jobs (f a d)) \<and> Q j"
    proof
      fix j assume j: "j \<in> set js"
      then have "jb_id j \<noteq> jb_id a" using Cons.prems(2) by (force simp: image_iff)
      with j Cons.prems other [of d a j] show "j \<in> set (jobs (f a d)) \<and> Q j" by simp
    qed
  qed
  with k show ?case by (simp add: keeps_trans)
qed

lemma distinct_ids_filter: "has_key jb_id js \<Longrightarrow> distinct (map jb_id (filter Q js))"
  by (simp add: has_key_def distinct_map_filter)

lemma distinct_ids_take: "has_key jb_id js \<Longrightarrow> distinct (map jb_id (take n (filter Q js)))"
  using distinct_ids_filter [of js Q] by (metis distinct_take take_map)

section \<open>Settlements and refunds keep the books\<close>

lemma not_holding: "terminal (jb_status j) \<Longrightarrow> \<not> holds_gpu p j"
  by (auto simp: holds_gpu_def live_pod_status_def terminal_def)

lemma keeps_set_job_terminal:
  assumes ok: "pods_ok d'" and books: "pod_books d' = pod_books d"
    and js: "jobs d' = sql_update P f (jobs d)"
    and P: "\<And>x. x \<in> set (jobs d) \<Longrightarrow> P x \<Longrightarrow> \<not> terminal (jb_status x)" and f: "\<And>x. terminal (jb_status (f x))"
  shows "keeps p d d'"
proof -
  have u: "used_indices d' p = used_indices (set_job P f d) p" by (rule used_cong) (simp add: js)
  have h: "holds_gpu p (f x) \<Longrightarrow> holds_gpu p x \<and> jb_gpu_indices (f x) = jb_gpu_indices x" for x
    using not_holding [OF f] by simp
  show ?thesis unfolding keeps_def u using ok books P used_set_job [of d P p f] h
    by (auto simp: js intro: kept_row)
qed

lemma stop_running_keeps:
  assumes "pods_ok d" "j \<in> set (jobs d)" "jb_status j = JRunning" "pod_type (jb_type j)"
  shows "keeps p d (fst (stop_running d j now))"
proof -
  let ?p = "provider_of d j"
  define s where "s = computePodStopSettlement (jb_cost j) (started_ms j now) now (resolvePodRate ?p) (pod_gpus j ?p)"
  note parts = settlement_parts [OF s_def]
  have c: "0 \<le> or0 (jb_cost j)"
    using job_ok_live(1) [OF pods_okD(4) [OF assms(1,2)]] assms(3) by (simp add: terminal_def)
  define d3 where "d3 = settle_renter (jb_renter j) (ss_refund s) (ss_actual s) (pay_pod_provider (jb_provider j) (ss_earned s)
       (set_job (\<lambda>x. jb_id x = jb_id j \<and> jb_status x = JRunning) (settled JStopped now (ss_elapsed s) s) d))"
  have b: "pods_ok d3 \<and> pod_books d3 = pod_books d"
    by (rule books_settle [OF assms, where s = s]) (use parts c in \<open>auto simp: settled_def d3_def\<close>)
  have e: "fst (stop_running d j now) = release_escrow (jb_job_id j) (if ss_earned s > 0 then EReleasedProvider else EReleasedRenter) now d3"
    by (simp add: stop_running_def Let_def s_def d3_def)
  show ?thesis unfolding e
    by (rule keeps_set_job_terminal [where P = "\<lambda>x. jb_id x = jb_id j \<and> jb_status x = JRunning" and f = "settled JStopped now (ss_elapsed s) s"])
      (use b in \<open>auto simp: d3_def settled_def terminal_def\<close>)
qed

lemma cancel_waiting_keeps:
  assumes "pods_ok d" "j \<in> set (jobs d)" "\<not> terminal (jb_status j)"
  shows "keeps p d (fst (cancel_waiting d j now))"
proof -
  let ?P = "\<lambda>x. \<not> terminal (jb_status x) \<and> jb_refunded_at x = None"
  let ?f = "\<lambda>x. x\<lparr>jb_status := JCancelled, jb_completed_at := Some now, jb_refunded_at := Some now\<rparr>"
  define d1 where "d1 = set_job (\<lambda>x. jb_id x = jb_id j \<and> ?P x) ?f d"
  note l = job_ok_live [OF pods_okD(4) [OF assms(1,2)] assms(3)]
  have P: "?P j" using assms(3) l(2) by simp
  have won: "sql_changes (\<lambda>x. jb_id x = jb_id j \<and> ?P x) (jobs d) = 1"
    by (rule sql_changes_key [where P = ?P, OF pods_okD(3) [OF assms(1)] assms(2) P])
  have b: "pods_ok d1 \<and> pod_books (refund_renter (jb_renter j) (or0 (jb_cost j)) d1) = pod_books d
     \<and> (or0 (jb_cost j) = 0 \<longrightarrow> pod_books d1 = pod_books d)"
    by (rule books_give_back [where P = ?P and f = ?f, OF assms P]) (simp_all add: d1_def)
  have e: "fst (cancel_waiting d j now) = release_escrow (jb_job_id j) EReleasedRenter now
      (if or0 (jb_cost j) > 0 then refund_renter (jb_renter j) (or0 (jb_cost j)) d1 else d1)"
    using l(1) won by (simp add: cancel_waiting_def Let_def d1_def)
  show ?thesis unfolding e
    by (rule keeps_set_job_terminal [where P = "\<lambda>x. jb_id x = jb_id j \<and> ?P x" and f = ?f])
      (use b l(1) in \<open>auto simp: d1_def terminal_def\<close>)
qed

lemma stopPodCore_keeps:
  assumes "pods_ok d" "j \<in> set (jobs d)" "pod_type (jb_type j)"
  shows "keeps p d (fst (stopPodCore d j now))"
  using assms by (auto simp: stopPodCore_def keeps_refl stop_running_keeps cancel_waiting_keeps)

lemma renter_pod_Some: "renter_pod d renter i = Some j \<Longrightarrow> j \<in> set (jobs d) \<and> refers i j \<and> pod_type (jb_type j) \<and> jb_renter j = Some renter"
  unfolding renter_pod_def by (auto dest: sql_get_Some)

lemma stopPod_keeps: "pods_ok d \<Longrightarrow> keeps p d (fst (stopPod d renter i now))"
  using renter_pod_Some stopPodCore_keeps
  by (auto simp: stopPod_def keeps_refl split: option.splits prod.splits) (metis fst_conv)

lemma complete_pod_keeps:
  assumes "pods_ok d" "j \<in> set (jobs d)" "jb_status j = JRunning" "pod_type (jb_type j)"
  shows "keeps p d (complete_pod j now d)"
proof -
  let ?p = "provider_of d j"
  define s where "s = computePodStopSettlement (jb_cost j) (started_ms j now) now (resolvePodRate ?p) (resolvePodGpuCount ?p)"
  define f where "f = (\<lambda>x. (settled JCompleted now (ss_elapsed s) s x)\<lparr>jb_error := Some ''Pod reached its scheduled duration''\<rparr>)"
  note parts = settlement_parts [OF s_def]
  have c: "0 \<le> or0 (jb_cost j)"
    using job_ok_live(1) [OF pods_okD(4) [OF assms(1,2)]] assms(3) by (simp add: terminal_def)
  have won: "sql_changes (\<lambda>x. jb_id x = jb_id j \<and> jb_status x = JRunning) (jobs d) = 1"
    by (rule sql_changes_key [where P = "\<lambda>x. jb_status x = JRunning", OF pods_okD(3) [OF assms(1)] assms(2,3)])
  define d3 where "d3 = settle_renter (jb_renter j) (ss_refund s) (ss_actual s) (pay_pod_provider (jb_provider j) (ss_earned s)
       (set_job (\<lambda>x. jb_id x = jb_id j \<and> jb_status x = JRunning) f d))"
  have b: "pods_ok d3 \<and> pod_books d3 = pod_books d"
    by (rule books_settle [OF assms, where s = s]) (use parts c in \<open>auto simp: settled_def d3_def f_def\<close>)
  have e: "complete_pod j now d = release_escrow (jb_job_id j) EReleasedProvider now d3"
    using won by (simp add: complete_pod_def Let_def s_def f_def d3_def)
  show ?thesis unfolding e
    by (rule keeps_set_job_terminal [where P = "\<lambda>x. jb_id x = jb_id j \<and> jb_status x = JRunning" and f = f])
      (use b in \<open>auto simp: d3_def f_def settled_def terminal_def\<close>)
qed

lemma settle_expired_keeps:
  assumes "pods_ok d" "j \<in> set (jobs d)" "jb_status j = JRunning" "pod_type (jb_type j)"
  shows "keeps p d (settle_expired now j d)"
proof -
  define s where "s = full_settlement j"
  define f where "f = (\<lambda>x. (settled JCompleted now 0 s x)\<lparr>jb_duration_seconds := jb_max_seconds x\<rparr>)"
  have c: "0 \<le> or0 (jb_cost j)"
    using job_ok_live(1) [OF pods_okD(4) [OF assms(1,2)]] assms(3) by (simp add: terminal_def)
  have won: "sql_changes (\<lambda>x. jb_id x = jb_id j \<and> jb_status x = JRunning) (jobs d) = 1"
    by (rule sql_changes_key [where P = "\<lambda>x. jb_status x = JRunning", OF pods_okD(3) [OF assms(1)] assms(2,3)])
  have r: "ss_refund s = 0" by (simp add: s_def full_settlement_def Let_def)
  have e: "settle_expired now j d = settle_renter (jb_renter j) (ss_refund s) (ss_actual s) (pay_pod_provider (jb_provider j) (ss_earned s)
       (set_job (\<lambda>x. jb_id x = jb_id j \<and> jb_status x = JRunning) f d))"
    using won r by (simp add: settle_expired_def Let_def s_def f_def)
  have b: "pods_ok (settle_expired now j d) \<and> pod_books (settle_expired now j d) = pod_books d"
    by (rule books_settle [OF assms, where s = s])
      (use full_settlement_parts [of j] c r e in \<open>auto simp: settled_def f_def s_def\<close>)
  show ?thesis
    by (rule keeps_set_job_terminal [where P = "\<lambda>x. jb_id x = jb_id j \<and> jb_status x = JRunning" and f = f])
      (use b in \<open>auto simp: e f_def settled_def terminal_def\<close>)
qed

lemma cancel_stale_keeps:
  assumes "pods_ok d" "j \<in> set (jobs d)" "jb_status j \<in> {JPending, JQueued}"
  shows "keeps p d (cancel_stale now j d)"
proof -
  let ?P = "\<lambda>x. jb_status x \<in> {JPending, JQueued}"
  let ?f = "\<lambda>x. x\<lparr>jb_status := JCancelled, jb_completed_at := Some now, jb_refunded_at := Some now\<rparr>"
  define d1 where "d1 = set_job (\<lambda>x. jb_id x = jb_id j \<and> ?P x) ?f d"
  have live: "\<not> terminal (jb_status j)" using assms(3) by (auto simp: terminal_def)
  note l = job_ok_live [OF pods_okD(4) [OF assms(1,2)] live]
  have won: "sql_changes (\<lambda>x. jb_id x = jb_id j \<and> ?P x) (jobs d) = 1"
    by (rule sql_changes_key [where P = ?P, OF pods_okD(3) [OF assms(1)] assms(2,3)])
  have b: "pods_ok d1 \<and> pod_books (refund_renter (jb_renter j) (or0 (jb_cost j)) d1) = pod_books d
     \<and> (or0 (jb_cost j) = 0 \<longrightarrow> pod_books d1 = pod_books d)"
    by (rule books_give_back [where P = ?P and f = ?f, OF assms(1,2) live assms(3)]) (simp_all add: d1_def)
  have e: "cancel_stale now j d = (if or0 (jb_cost j) > 0 then refund_renter (jb_renter j) (or0 (jb_cost j)) d1 else d1)"
    using l(1,2) won by (simp add: cancel_stale_def Let_def d1_def)
  show ?thesis unfolding e
    by (rule keeps_set_job_terminal [where P = "\<lambda>x. jb_id x = jb_id j \<and> ?P x" and f = ?f])
      (use b l(1) in \<open>auto simp: d1_def terminal_def\<close>)
qed

lemma fail_timed_out_keeps:
  assumes "pods_ok d" "j \<in> set (jobs d)" "\<not> terminal (jb_status j)"
  shows "keeps p d (fail_timed_out j now d)"
proof -
  let ?f = "\<lambda>x. x\<lparr>jb_status := JFailed, jb_error := Some TIMEOUT_MESSAGE, jb_completed_at := Some now\<rparr>"
  let ?g = "\<lambda>x. x\<lparr>jb_refunded_at := Some now\<rparr>"
  let ?Q = "\<lambda>x. jb_id x = jb_id j"
  note l = job_ok_live [OF pods_okD(4) [OF assms(1,2)] assms(3)] and k = pods_okD(3) [OF assms(1)]
  define d1 where "d1 = set_job (\<lambda>x. ?Q x \<and> True) ?f d"
  have b: "pods_ok d1 \<and> pod_books (refund_renter (jb_renter j) (or0 (jb_cost j)) d1) = pod_books d
     \<and> (or0 (jb_cost j) = 0 \<longrightarrow> pod_books d1 = pod_books d)"
    by (rule books_give_back [where P = "\<lambda>_. True" and f = ?f, OF assms TrueI]) (simp_all add: d1_def)
  have same: "\<not> terminal (jb_status x)" if "x \<in> set (jobs d)" "jb_id x = jb_id j" for x
    using has_key_eq [OF k that(1) assms(2) that(2)] assms(3) by simp
  show ?thesis
  proof (cases "or0 (jb_cost j) > 0")
    case True
    then have r: "jb_renter j \<noteq> None" using l(3) by auto
    define d2 where "d2 = refund_renter (jb_renter j) (or0 (jb_cost j)) d1"
    have fj: "?f j \<in> set (jobs d2)" using assms(2) by (force simp: d2_def d1_def set_sql_update)
    have ok2: "pods_ok d2" and b2: "pod_books d2 = pod_books d" using b by (simp_all add: d2_def)
    have "pod_books (set_job (\<lambda>x. jb_id x = jb_id (?f j)) ?g d2) = pod_books d2 + hold (?g (?f j)) - hold (?f j)"
      by (rule books_set_job0 [OF pods_okD(3) [OF ok2] fj])
    then have bb: "pod_books (set_job ?Q ?g d2) = pod_books d" using b2 by (simp add: hold_def)
    have "pods_ok (set_job ?Q ?g d2)"
    proof (rule pods_ok_set_job [OF ok2])
      fix x assume x: "x \<in> set (jobs d2)" "?Q x"
      then have "x = ?f j" using has_key_eq [OF pods_okD(3) [OF ok2] x(1) fj] by simp
      then show "job_ok (rn_id ` set (renters d2)) (pv_id ` set (providers d2)) (?g x)"
        by (simp add: job_ok_def terminal_def)
    qed simp
    moreover have "sql_update ?Q ?g (sql_update ?Q ?f xs) = sql_update ?Q (\<lambda>x. ?g (?f x)) xs" for xs
      by (induction xs) simp_all
    ultimately show ?thesis using True r bb
      by (intro keeps_set_job_terminal [where P = ?Q and f = "\<lambda>x. ?g (?f x)"])
        (simp_all add: fail_timed_out_def Let_def d2_def d1_def same, simp_all add: terminal_def)
  next
    case False
    then have "or0 (jb_cost j) = 0" using l(1) by simp
    then show ?thesis using b
      by (intro keeps_set_job_terminal [where P = ?Q and f = ?f])
        (simp_all add: fail_timed_out_def Let_def d1_def same, simp_all add: terminal_def)
  qed
qed

text \<open>A change that keeps a live job live, its cost and what it holds.\<close>

lemma keeps_set_job_live:
  assumes ok: "pods_ok d" and id: "\<And>x. jb_id (f x) = jb_id x"
    and f: "\<And>x. x \<in> set (jobs d) \<Longrightarrow> P x \<Longrightarrow> \<not> terminal (jb_status x) \<and> \<not> terminal (jb_status (f x))
        \<and> jb_cost (f x) = jb_cost x \<and> jb_renter (f x) = jb_renter x \<and> jb_refunded_at (f x) = jb_refunded_at x
        \<and> jb_type (f x) = jb_type x
        \<and> (pod_type (jb_type x) \<longrightarrow> jb_provider (f x) = jb_provider x \<and> jb_gpu_indices (f x) = jb_gpu_indices x
           \<and> (live_pod_status (jb_status (f x)) \<longrightarrow> live_pod_status (jb_status x)))"
  shows "keeps p d (set_job P f d)"
proof -
  have h: "hold (f x) = hold x" if "x \<in> set (jobs d)" "P x" for x
    using f [OF that] by (auto simp: hold_def terminal_def)
  have "map hold (sql_update P f (jobs d)) = map hold (jobs d)" using h by (auto simp: sql_update_def)
  then have "pod_books (set_job P f d) = pod_books d"
    by (simp add: pod_books_def total_balance_def total_claimable_def)
  moreover have "pods_ok (set_job P f d)"
  proof (rule pods_ok_set_job [OF ok id])
    fix x assume x: "x \<in> set (jobs d)" "P x"
    show "job_ok (rn_id ` set (renters d)) (pv_id ` set (providers d)) (f x)"
      using pods_okD(4) [OF ok x(1)] f [OF x] by (auto simp: job_ok_def)
  qed
  moreover have "holds_gpu p x \<and> jb_gpu_indices (f x) = jb_gpu_indices x"
    if "x \<in> set (jobs d)" "P x" "holds_gpu p (f x)" for x
    using f [OF that(1,2)] that(3) by (auto simp: holds_gpu_def)
  ultimately show ?thesis unfolding keeps_def
    using used_set_job [of d P p f] f by (auto intro: kept_row)
qed

lemma promote_keeps: "pods_ok d \<Longrightarrow> keeps p d (promoteNextQueuedJob q now d)"
proof -
  assume ok: "pods_ok d"
  show ?thesis
  proof (cases "next_queued d q")
    case (Some n)
    let ?xs = "sql_all (\<lambda>j. q \<noteq> None \<and> jb_provider j = q \<and> jb_status j = JQueued) (jobs d)"
    obtain ns where "sort_key class_rank (sort_key (\<lambda>j. - jb_priority j) (sort_key created_key ?xs)) = n # ns"
      using Some unfolding next_queued_def by (auto split: list.splits)
    then have "n \<in> set (sort_key class_rank (sort_key (\<lambda>j. - jb_priority j) (sort_key created_key ?xs)))"
      by (simp only:) simp
    then have n: "n \<in> set (jobs d)" "jb_status n = JQueued" by (simp_all add: sql_all_def)
    have same: "x = n" if "x \<in> set (jobs d)" "jb_id x = jb_id n" for x
      using has_key_eq [OF pods_okD(3) [OF ok] that(1) n(1) that(2)] .
    show ?thesis using Some n
      by (auto simp: promoteNextQueuedJob_def terminal_def live_pod_status_def dest!: same intro!: keeps_set_job_live [OF ok])
  qed (simp add: promoteNextQueuedJob_def ok keeps_refl)
qed

lemma claim_job_keeps: "pods_ok d \<Longrightarrow> keeps p d (fst (claim_job q job now d))"
proof -
  assume ok: "pods_ok d"
  have "\<not> pod_type (jb_type x)" if "x \<in> set (jobs d)" "jb_provider x = None" "jb_status x \<in> {JPending, JQueued}" for x
    using job_ok_live(5) [OF pods_okD(4) [OF ok that(1)]] that by (auto simp: terminal_def)
  then show ?thesis unfolding claim_job_def Let_def fst_conv
    by (intro keeps_set_job_live [OF ok]) (auto simp: terminal_def live_pod_status_def)
qed

lemma debit_balance_Some:
  assumes "debit_balance i a now d = Some d1"
  shows "pod_books d1 = pod_books d - a" "jobs d1 = jobs d" "providers d1 = providers d" "escrows d1 = escrows d"
    and "rn_id ` set (renters d1) = rn_id ` set (renters d)" "pods_ok d1 = pods_ok d" "i \<in> rn_id ` set (renters d)"
proof -
  let ?P = "\<lambda>r. rn_id r = i \<and> rn_balance r \<ge> a"
  let ?f = "\<lambda>r. r\<lparr>rn_balance := rn_balance r - a, rn_updated_at := Some now\<rparr>"
  have one: "length (filter ?P (renters d)) = 1" and d1: "d1 = d\<lparr>renters := sql_update ?P ?f (renters d)\<rparr>"
    using assms by (auto simp: debit_balance_def Let_def sql_changes_def split: if_splits)
  obtain r where r: "filter ?P (renters d) = [r]" using one by (auto simp: length_Suc_conv)
  then have "r \<in> set (renters d) \<and> rn_id r = i" using filter_set [of ?P "renters d"] by auto
  then show "i \<in> rn_id ` set (renters d)" by auto
  show "pod_books d1 = pod_books d - a"
    by (simp add: d1 pod_books_def total_balance_def total_claimable_def sum_list_update r)
  show "jobs d1 = jobs d" "providers d1 = providers d" "escrows d1 = escrows d"
    and ids: "rn_id ` set (renters d1) = rn_id ` set (renters d)" by (simp_all add: d1 keyed)
  have "has_key rn_id (renters d1) = has_key rn_id (renters d)" by (simp add: d1 keyed)
  then show "pods_ok d1 = pods_ok d" using ids by (simp add: pods_ok_def d1)
qed

lemma debit_pod_Some:
  assumes "debit_pod i a now d = Some d1" "0 \<le> a"
  shows "pod_books d1 = pod_books d - a" "jobs d1 = jobs d" "pods_ok d1 = pods_ok d"
  using assms debit_balance_Some by (auto simp: debit_pod_def split: if_splits option.splits)

lemma quote_nonneg [simp]: "0 \<le> computePodQuoteHalala secs rate gpus"
  by (simp add: computePodQuoteHalala_def)

lemma push_deadline_keeps:
  assumes ok: "pods_ok d" and j: "j \<in> set (jobs d)" "jb_status j = JRunning" "pod_type (jb_type j)" and q: "0 \<le> quote"
  shows "pods_ok (push_deadline j secs quote now d)" "pod_books (push_deadline j secs quote now d) = pod_books d + quote"
    "\<forall>r\<in>set (jobs d). terminal (jb_status r) \<longrightarrow> r \<in> set (jobs (push_deadline j secs quote now d))"
    "distinct (used_indices d p) \<Longrightarrow> distinct (used_indices (push_deadline j secs quote now d) p)"
proof -
  let ?f = "\<lambda>x. x\<lparr>jb_max_seconds := Some secs, jb_duration_minutes := Some (js_round (fl_div (of_int secs) 60)),
      jb_cost := Some (or0 (jb_cost x) + quote),
      jb_timeout_at := Some (sql_datetime (or0 (coalesce (jb_started_at x) (Some now)) + secs * 1000))\<rparr>"
  let ?Q = "\<lambda>x. jb_id x = jb_id j"
  have c: "sql_update ?Q g (sql_update ?Q h xs) = sql_update ?Q (\<lambda>x. g (h x)) xs"
    if "\<And>x. jb_id (h x) = jb_id x" for g h xs using that by (induction xs) simp_all
  have js: "jobs (push_deadline j secs quote now d) = jobs (set_job ?Q ?f d)"
    by (simp add: push_deadline_def Let_def c)
  have rest: "renters (push_deadline j secs quote now d) = renters d" "providers (push_deadline j secs quote now d) = providers d"
    by (simp_all add: push_deadline_def Let_def)
  have same: "x = j" if "x \<in> set (jobs d)" "jb_id x = jb_id j" for x
    using has_key_eq [OF pods_okD(3) [OF ok] that(1) j(1) that(2)] .
  have "pods_ok (set_job ?Q ?f d)"
  proof (rule pods_ok_set_job [OF ok])
    fix x assume x: "x \<in> set (jobs d)" "?Q x"
    then have "job_ok (rn_id ` set (renters d)) (pv_id ` set (providers d)) j" "x = j" using pods_okD(4) [OF ok j(1)] same by auto
    then show "job_ok (rn_id ` set (renters d)) (pv_id ` set (providers d)) (?f x)"
      using j(2,3) q by (auto simp: job_ok_def terminal_def)
  qed simp
  then show "pods_ok (push_deadline j secs quote now d)" using js rest by (simp add: pods_ok_def)
  have "pod_books (set_job ?Q ?f d) = pod_books d + quote"
    using books_set_job0 [OF pods_okD(3) [OF ok] j(1), of ?f] j(2) by (simp add: hold_def)
  then show "pod_books (push_deadline j secs quote now d) = pod_books d + quote"
    using js rest by (simp add: pod_books_def total_balance_def total_claimable_def)
  show "\<forall>r\<in>set (jobs d). terminal (jb_status r) \<longrightarrow> r \<in> set (jobs (push_deadline j secs quote now d))"
  proof (intro ballI impI)
    fix r assume "r \<in> set (jobs d)" "terminal (jb_status r)"
    moreover from this have "jb_id r \<noteq> jb_id j" using same [of r] j(2) by (auto simp: terminal_def)
    ultimately show "r \<in> set (jobs (push_deadline j secs quote now d))" unfolding js by (simp add: kept_row)
  qed
  have h: "holds_gpu p (?f x) \<Longrightarrow> holds_gpu p x \<and> jb_gpu_indices (?f x) = jb_gpu_indices x" for x
    by (simp add: holds_gpu_def)
  show "distinct (used_indices d p) \<Longrightarrow> distinct (used_indices (push_deadline j secs quote now d) p)"
    using used_set_job [of d ?Q p ?f] h used_cong [OF js] by auto
qed

lemma extendPod_keeps:
  assumes ok: "pods_ok d"
  shows "keeps p d (fst (extendPod d renter i minutes now))"
proof -
  have core: "keeps p d (fst (extendPodCore d j m now))" if j: "j \<in> set (jobs d)" "pod_type (jb_type j)" for j m
  proof -
    define quote where "quote = computePodQuoteHalala (m * 60) (resolvePodRate (provider_of d j)) (pod_gpus j (provider_of d j))"
    have q: "0 \<le> quote" by (simp add: quote_def)
    show ?thesis
    proof (cases "jb_status j = JRunning")
      case True
      have "keeps p d (push_deadline j s quote now d1)" if "debit_pod (jb_renter j) quote now d = Some d1" for d1 s
      proof -
        note b = debit_pod_Some [OF that q]
        have "pods_ok d1" "j \<in> set (jobs d1)" using b ok j(1) by simp_all
        note pd = push_deadline_keeps [OF this True j(2) q]
        show ?thesis using pd(1-3) pd(4) [where p = p] b used_cong [OF b(2)] by (auto simp: keeps_def)
      qed
      then show ?thesis
        by (auto simp: extendPodCore_def Let_def quote_def [symmetric] keeps_refl ok split: option.splits)
    qed (simp add: extendPodCore_def Let_def keeps_refl ok)
  qed
  show ?thesis using renter_pod_Some core
    by (auto simp: extendPod_def keeps_refl ok split: option.splits)
qed

text \<open>An endpoint report is harmless when the pod it names is still live.\<close>

definition reported_job :: "db \<Rightarrow> int \<Rightarrow> job_ref \<Rightarrow> job_row option" where
  "reported_job d provider i = sql_get (\<lambda>j. refers i j \<and> jb_provider j = Some provider) (jobs d)"

definition report_live :: "db \<Rightarrow> int \<Rightarrow> job_ref \<Rightarrow> bool" where
  "report_live d provider i =
     (case reported_job d provider i of None \<Rightarrow> True | Some j \<Rightarrow> live_pod_status (jb_status j))"

lemma endpoint_ready_keeps:
  assumes ok: "pods_ok d" and live: "report_live d provider i"
  shows "keeps p d (fst (endpoint_ready d provider i rp now))"
proof (cases "reported_job d provider i")
  case None
  then show ?thesis by (simp add: endpoint_ready_def reported_job_def keeps_refl ok)
next
  case (Some j)
  then have j: "j \<in> set (jobs d)" using sql_get_Some unfolding reported_job_def by fastforce
  have l: "live_pod_status (jb_status j)" using live Some by (simp add: report_live_def)
  have same: "x = j" if "x \<in> set (jobs d)" "jb_id x = jb_id j" for x
    using has_key_eq [OF pods_okD(3) [OF ok] that(1) j that(2)] .
  have "keeps p d (set_job (\<lambda>x. jb_id x = jb_id j) (pod_live rp a b t now) d)" for a b t
  proof (rule keeps_set_job_live [OF ok], goal_cases)
    case (2 x)
    then have "x = j" by (simp add: same)
    then show ?case using l by (auto simp: pod_live_def terminal_def live_pod_status_def)
  qed (simp add: pod_live_def)
  then show ?thesis using Some
    by (auto simp: endpoint_ready_def reported_job_def keeps_refl ok split: option.splits prod.splits)
qed

section \<open>The two sweeps\<close>

lemma set_job_other: "k \<in> set (jobs d) \<Longrightarrow> jb_id k \<noteq> i \<Longrightarrow> k \<in> set (sql_update (\<lambda>x. jb_id x = i \<and> P x) f (jobs d))"
  by (rule kept_row) simp

lemma promote_other:
  assumes "pods_ok d" "k \<in> set (jobs d)" "jb_status k \<noteq> JQueued"
  shows "k \<in> set (jobs (promoteNextQueuedJob q now d))"
proof (cases "next_queued d q")
  case (Some n)
  let ?xs = "sql_all (\<lambda>j. q \<noteq> None \<and> jb_provider j = q \<and> jb_status j = JQueued) (jobs d)"
  obtain ns where "sort_key class_rank (sort_key (\<lambda>j. - jb_priority j) (sort_key created_key ?xs)) = n # ns"
    using Some unfolding next_queued_def by (auto split: list.splits)
  then have "n \<in> set (sort_key class_rank (sort_key (\<lambda>j. - jb_priority j) (sort_key created_key ?xs)))"
    by (simp only:) simp
  then have "n \<in> set (jobs d)" "jb_status n = JQueued" by (simp_all add: sql_all_def)
  then have "jb_id k \<noteq> jb_id n" using has_key_eq [OF pods_okD(3) [OF assms(1)] assms(2)] assms(3) by auto
  then show ?thesis using Some assms(2) by (simp add: promoteNextQueuedJob_def kept_row)
qed (simp add: promoteNextQueuedJob_def assms)

lemma settle_body_keeps:
  assumes "pods_ok d" "j \<in> set (jobs d)" "timed_out now j"
  shows "keeps p d (if jb_type j = ''interactive_pod'' \<and> jb_status j = JRunning then complete_pod j now d
           else fail_timed_out j now d)"
  using assms complete_pod_keeps [of d j p now] fail_timed_out_keeps [of d j p now]
  by (auto simp: timed_out_def terminal_def pod_type_def)

lemma enforce_one_keeps:
  assumes "pods_ok d" "j \<in> set (jobs d)" "timed_out now j"
  shows "keeps p d (enforce_one now j d)"
  unfolding enforce_one_def
  by (rule keeps_trans [OF settle_body_keeps [OF assms] promote_keeps [OF keeps_ok [OF settle_body_keeps [OF assms]]]])

lemma enforce_one_other:
  assumes "pods_ok d" "j \<in> set (jobs d)" "timed_out now j" "k \<in> set (jobs d)" "timed_out now k" "jb_id k \<noteq> jb_id j"
  shows "k \<in> set (jobs (enforce_one now j d))"
proof -
  let ?d = "if jb_type j = ''interactive_pod'' \<and> jb_status j = JRunning then complete_pod j now d else fail_timed_out j now d"
  have "k \<in> set (jobs ?d)" using assms(4,6)
    by (auto simp: complete_pod_def fail_timed_out_def Let_def set_job_other intro!: kept_row)
  then show ?thesis unfolding enforce_one_def
    by (rule promote_other [OF keeps_ok [OF settle_body_keeps [OF assms(1-3)]]]) (use assms(5) in \<open>auto simp: timed_out_def\<close>)
qed

lemma enforceJobTimeouts_keeps: "pods_ok d \<Longrightarrow> keeps p d (enforceJobTimeouts now d)"
  unfolding enforceJobTimeouts_def sql_all_def
  by (rule fold_keeps [where Q = "timed_out now"])
    (auto simp: enforce_one_keeps enforce_one_other pods_okD distinct_ids_filter)

lemma sweep_other:
  assumes "k \<in> set (jobs d)" "jb_id k \<noteq> jb_id j"
  shows "k \<in> set (jobs (settle_expired now j d))" "k \<in> set (jobs (cancel_stale now j d))"
  using assms by (simp_all add: settle_expired_def cancel_stale_def Let_def set_job_other)

lemma settleExpiredPods_keeps:
  assumes ok: "pods_ok d"
  shows "keeps p d (settleExpiredPods now d)"
proof -
  define d1 where "d1 = fold (settle_expired now) (take 20 (sql_all (pod_expired now) (jobs d))) d"
  have k1: "keeps p d d1" unfolding d1_def sql_all_def
  proof (rule fold_keeps [where Q = "pod_expired now"])
    show "distinct (map jb_id (take 20 (filter (pod_expired now) (jobs d))))"
      by (rule distinct_ids_take [OF pods_okD(3) [OF ok]])
  qed (auto simp: pod_expired_def pod_type_def ok dest: in_set_takeD intro: settle_expired_keeps sweep_other)
  have ok1: "pods_ok d1" by (rule keeps_ok [OF k1])
  have "keeps p d1 (fold (cancel_stale now) (take 20 (sql_all (pod_stale now) (jobs d1))) d1)" unfolding sql_all_def
  proof (rule fold_keeps [where Q = "pod_stale now"])
    show "distinct (map jb_id (take 20 (filter (pod_stale now) (jobs d1))))"
      by (rule distinct_ids_take [OF pods_okD(3) [OF ok1]])
  qed (auto simp: pod_stale_def ok1 dest: in_set_takeD intro: cancel_stale_keeps sweep_other)
  then show ?thesis using k1 by (simp add: settleExpiredPods_def Let_def d1_def keeps_trans)
qed

section \<open>Launching\<close>

lemma sort_key_first_in: "sort_key f xs = y # ys \<Longrightarrow> y \<in> set xs"
  using set_sort [of f xs] by (metis list.set_intros(1))

lemma choose_provider_in: "choose_provider d now rq od = Inr p \<Longrightarrow> pv_id p \<in> pv_id ` set (providers d)"
proof -
  have r: "pv_id p \<in> pv_id ` set (providers d)" if "resolvePodProvider d now req = Inr p" for req
    using that unfolding resolvePodProvider_def
    by (auto simp: selected_def sql_all_def split: option.splits list.splits dest!: sql_get_Some sort_key_first_in)
  have t: "pv_id p \<in> pv_id ` set (providers d)" if "resolveGpuType d raw n = Inr p" for raw n
    using that unfolding resolveGpuType_def Let_def
    by (auto simp: selected_def sql_all_def split: if_splits option.splits dest!: sql_get_Some [unfolded sql_get_def])
  show "choose_provider d now rq od = Inr p \<Longrightarrow> pv_id p \<in> pv_id ` set (providers d)"
    using r t by (auto simp: choose_provider_def split: option.splits if_splits)
qed

text \<open>The indices handed out are free and printed so that they are read back.\<close>

lemma allocate_free:
  assumes "allocate_gpus d p od = Inr (n, Some ns)"
  shows "distinct ns" "set ns \<inter> set (used_indices d (pv_id p)) = {}" "parse_indices (print_indices ns) = ns"
    "\<not> pv_is_burst p" "length ns = nat n" "\<forall>i\<in>set ns. 0 \<le> i \<and> i < resolvePodGpuCount (Some p)"
proof -
  define fr where "fr = free_indices d (pv_id p) (max 1 (resolvePodGpuCount (Some p)))"
  have ns: "ns = take (nat n) fr" and b: "\<not> pv_is_burst p" and len: "n \<le> int (length fr)"
    and g: "resolvePodGpuCount (Some p) > 1"
    using assms by (auto simp: allocate_gpus_def Let_def fr_def split: if_splits)
  have fr: "distinct fr" "set fr \<inter> set (used_indices d (pv_id p)) = {}" "\<forall>i\<in>set fr. 0 \<le> i \<and> i < resolvePodGpuCount (Some p)"
    using g by (auto simp: fr_def free_indices_def distinct_map)
  show "distinct ns" using fr(1) by (simp add: ns)
  show "set ns \<inter> set (used_indices d (pv_id p)) = {}" "\<forall>i\<in>set ns. 0 \<le> i \<and> i < resolvePodGpuCount (Some p)"
    using fr(2,3) by (auto simp: ns dest: in_set_takeD)
  show "\<not> pv_is_burst p" by (rule b)
  show "length ns = nat n" using len by (simp add: ns)
  have "map (int \<circ> nat) ns = ns" by (rule map_idI) (use fr(3) in \<open>auto simp: ns dest: in_set_takeD\<close>)
  then have "ns = map int (map nat ns)" by simp
  then show "parse_indices (print_indices ns) = ns" using print_parse [of "map nat ns"] by simp
qed

lemma pod_row_facts [simp]:
  "jb_id (pod_row env d r p od n idx q b) = next_rowid jb_id (jobs d)"
  "jb_job_id (pod_row env d r p od n idx q b) = le_job_id env"
  "jb_renter (pod_row env d r p od n idx q b) = Some r" "jb_provider (pod_row env d r p od n idx q b) = Some (pv_id p)"
  "jb_cost (pod_row env d r p od n idx q b) = Some q" "jb_refunded_at (pod_row env d r p od n idx q b) = None"
  "jb_gpu_indices (pod_row env d r p od n idx q b) = (if b = None then map_option print_indices idx else None)"
  "jb_status (pod_row env d r p od n idx q b) = (if b = None then JQueued else JPulling)"
  "pod_type (jb_type (pod_row env d r p od n idx q b))"
  by (auto simp: pod_row_def Let_def blank_job_def pod_type_def split: option.splits)

lemma failBurst_keeps:
  assumes ok: "pods_ok d" and key: "\<And>x. x \<in> set (jobs d) \<Longrightarrow> jb_job_id x = job \<Longrightarrow> x = j"
    and j: "j \<in> set (jobs d)" "jb_job_id j = job"
    and live: "jb_status j = JPulling" and q: "jb_cost j = Some quote" and r: "jb_renter j = Some renter"
  shows "keeps p d (fst (failBurstJobAndRefund d job quote renter why now))"
proof -
  let ?P = "\<lambda>x. jb_refunded_at x = None \<and> jb_status x \<in> {JPulling, JQueued, JAssigned}"
  let ?f = "\<lambda>x. x\<lparr>jb_status := JFailed, jb_error := Some why, jb_completed_at := Some now, jb_refunded_at := Some now\<rparr>"
  have nt: "\<not> terminal (jb_status j)" using live by (simp add: terminal_def)
  note l = job_ok_live [OF pods_okD(4) [OF ok j(1)] nt]
  have P: "?P j" using l(2) live by simp
  have same: "(jb_job_id x = job) = (jb_id x = jb_id j)" if "x \<in> set (jobs d)" for x
    using key [OF that] has_key_eq [OF pods_okD(3) [OF ok] that j(1)] j(2) by metis
  define d1 where "d1 = set_job (\<lambda>x. jb_id x = jb_id j \<and> ?P x) ?f d"
  have u: "sql_update (\<lambda>x. jb_job_id x = job \<and> ?P x) ?f (jobs d) = sql_update (\<lambda>x. jb_id x = jb_id j \<and> ?P x) ?f (jobs d)"
    using same unfolding sql_update_def by (intro map_cong) auto
  have c: "sql_changes (\<lambda>x. jb_job_id x = job \<and> ?P x) (jobs d) = 1"
  proof -
    have "filter (\<lambda>x. jb_job_id x = job \<and> ?P x) (jobs d) = filter (\<lambda>x. jb_id x = jb_id j \<and> ?P x) (jobs d)"
      by (rule filter_cong) (simp_all add: same)
    then show ?thesis
      using sql_changes_key [where P = ?P, OF pods_okD(3) [OF ok] j(1) P] by (simp only: sql_changes_def)
  qed
  have b: "pods_ok d1 \<and> pod_books (refund_renter (jb_renter j) (or0 (jb_cost j)) d1) = pod_books d
     \<and> (or0 (jb_cost j) = 0 \<longrightarrow> pod_books d1 = pod_books d)"
    by (rule books_give_back [where P = ?P and f = ?f, OF ok j(1) nt P]) (simp_all add: d1_def)
  have cb: "credit_balance renter quote d1 = refund_renter (jb_renter j) (or0 (jb_cost j)) d1"
    by (simp add: credit_balance_def refund_renter_def r q)
  have e: "fst (failBurstJobAndRefund d job quote renter why now)
      = (if quote > 0 then refund_renter (jb_renter j) (or0 (jb_cost j)) d1 else d1)"
    using c u cb by (simp add: failBurstJobAndRefund_def Let_def d1_def set_job_def)
  show ?thesis unfolding e
    by (rule keeps_set_job_terminal [where P = "\<lambda>x. jb_id x = jb_id j \<and> ?P x" and f = ?f])
      (use b l(1) q in \<open>auto simp: d1_def terminal_def\<close>)
qed

text \<open>A row of a live, paid pod appended to the table.\<close>

lemma insert_keeps:
  assumes ok: "pods_ok d" and row: "jb_id j \<notin> jb_id ` set (jobs d)" "jb_status j \<in> {JQueued, JPulling}"
    "jb_cost j = Some quote" "0 \<le> quote" "jb_refunded_at j = None" "jb_renter j = Some r" "r \<in> rn_id ` set (renters d)"
    "jb_provider j = Some q" "q \<in> pv_id ` set (providers d)"
    and gpus: "q = p \<Longrightarrow> truthy_str (jb_gpu_indices j) \<Longrightarrow>
      distinct (parse_indices (the (jb_gpu_indices j))) \<and> set (parse_indices (the (jb_gpu_indices j))) \<inter> set (used_indices d p) = {}"
  shows "pods_ok (d\<lparr>jobs := sql_insert j (jobs d)\<rparr>)" "pod_books (d\<lparr>jobs := sql_insert j (jobs d)\<rparr>) = pod_books d + quote"
    "distinct (used_indices d p) \<Longrightarrow> distinct (used_indices (d\<lparr>jobs := sql_insert j (jobs d)\<rparr>) p)"
proof -
  show "pods_ok (d\<lparr>jobs := sql_insert j (jobs d)\<rparr>)"
    using ok row by (auto simp: pods_ok_def has_key_insert job_ok_def terminal_def sql_insert_def has_key_def)
  show "pod_books (d\<lparr>jobs := sql_insert j (jobs d)\<rparr>) = pod_books d + quote"
    using row(2,3) by (auto simp: pod_books_def total_balance_def total_claimable_def sql_insert_def hold_def)
  have "holds_gpu p j \<Longrightarrow> q = p \<and> truthy_str (jb_gpu_indices j)" using row(8) by (simp add: holds_gpu_def)
  then show "distinct (used_indices d p) \<Longrightarrow> distinct (used_indices (d\<lparr>jobs := sql_insert j (jobs d)\<rparr>) p)"
    using gpus by (auto simp: used_indices_def sql_all_def sql_insert_def)
qed

lemma insert_pod_keeps:
  assumes ok: "pods_ok d" and r: "r \<in> rn_id ` set (renters d)" and p: "pv_id q \<in> pv_id ` set (providers d)"
    and quote: "0 \<le> quote" and idx: "idx = None \<or> (\<exists>ns. idx = Some ns \<and> distinct ns
       \<and> set ns \<inter> set (used_indices d (pv_id q)) = {} \<and> parse_indices (print_indices ns) = ns)"
    and res: "insert_pod env d r q od n idx quote = (d', res)"
  shows "pods_ok d'" "pod_books d' = pod_books d + quote"
    "\<forall>x\<in>set (jobs d). terminal (jb_status x) \<longrightarrow> x \<in> set (jobs d')"
    "distinct (used_indices d p) \<Longrightarrow> distinct (used_indices d' p)"
proof -
  define b where "b = (if pv_is_burst q then pickBurstPorts d (le_listening env) (le_draws env) else None)"
  define j where "j = pod_row env d r q od n idx quote b"
  define d1 where "d1 = d\<lparr>jobs := sql_insert j (jobs d)\<rparr>"
  have new: "jb_id j \<notin> jb_id ` set (jobs d)" by (simp add: j_def next_rowid_fresh)
  have g: "distinct (parse_indices (the (jb_gpu_indices j))) \<and> set (parse_indices (the (jb_gpu_indices j))) \<inter> set (used_indices d p) = {}"
    if "pv_id q = p" "truthy_str (jb_gpu_indices j)" using that idx by (auto simp: j_def split: if_splits)
  note ins = insert_keeps [where p = p and q = "pv_id q" and r = r and quote = quote and j = j, OF ok new, folded d1_def]
  have i1: "pods_ok d1" "pod_books d1 = pod_books d + quote" "distinct (used_indices d p) \<Longrightarrow> distinct (used_indices d1 p)"
    using ins r p quote g by (auto simp: j_def)
  have i2: "\<forall>x\<in>set (jobs d). terminal (jb_status x) \<longrightarrow> x \<in> set (jobs d1)" by (auto simp: d1_def sql_insert_def)
  have refund: "pod_books (if quote > 0 then credit_balance r quote d else d) = pod_books d + quote"
    "pods_ok (if quote > 0 then credit_balance r quote d else d)" "jobs (if quote > 0 then credit_balance r quote d else d) = jobs d"
    using books_refund(3) [OF pods_okD(1) [OF ok] r] quote ok by auto
  have "(pods_ok d' \<and> pod_books d' = pod_books d + quote) \<and> (\<forall>x\<in>set (jobs d). terminal (jb_status x) \<longrightarrow> x \<in> set (jobs d'))
     \<and> (distinct (used_indices d p) \<longrightarrow> distinct (used_indices d' p))"
  proof (cases "pv_is_burst q \<and> b = None \<or> \<not> le_insert_ok env \<or> le_job_id env \<in> set (map jb_job_id (jobs d))")
    case True
    then have "d' = (if quote > 0 then credit_balance r quote d else d)"
      using res by (auto simp: insert_pod_def Let_def b_def split: if_splits)
    then show ?thesis using refund used_cong [OF refund(3)] by simp
  next
    case False
    then have id: "x \<in> set (jobs d) \<Longrightarrow> jb_job_id x \<noteq> le_job_id env" for x by force
    show ?thesis
    proof (cases "pv_is_burst q \<and> \<not> le_spawn_ok env")
      case True
      have e: "d' = fst (failBurstJobAndRefund d1 (le_job_id env) quote r ''Burst launch failed to start'' (le_now env))"
        using res False True by (auto simp: insert_pod_def Let_def b_def j_def d1_def split: if_splits)
      have "keeps p d1 d'" unfolding e
        by (rule failBurst_keeps [where j = j]) (use i1 id False True in \<open>auto simp: d1_def sql_insert_def j_def\<close>)
      then show ?thesis using i1 i2 by (auto simp: keeps_def)
    next
      case ok: False
      have "d' = d1" using res False ok by (auto simp: insert_pod_def Let_def b_def j_def d1_def split: if_splits)
      then show ?thesis using i1 i2 by simp
    qed
  qed
  then show "pods_ok d'" "pod_books d' = pod_books d + quote"
    "\<forall>x\<in>set (jobs d). terminal (jb_status x) \<longrightarrow> x \<in> set (jobs d')"
    "distinct (used_indices d p) \<Longrightarrow> distinct (used_indices d' p)" by auto
qed

lemma launchPod_keeps:
  assumes ok: "pods_ok d"
  shows "keeps p d (fst (launchPod env d renter rq))"
proof -
  have charge: "keeps p d (fst (charge_and_insert env d r q od n idx))"
    if r: "r \<in> set (renters d)" and q: "pv_id q \<in> pv_id ` set (providers d)" and a: "allocate_gpus d q od = Inr (n, idx)"
    for r q od n idx
  proof -
    define quote where "quote = computePodQuoteHalala (od_minutes od * 60) (resolvePodRate (Some q)) n"
    have idx: "idx = None \<or> (\<exists>ns. idx = Some ns \<and> distinct ns
       \<and> set ns \<inter> set (used_indices d (pv_id q)) = {} \<and> parse_indices (print_indices ns) = ns)"
      using a allocate_free [of d q od n] by (cases idx) auto
    have z: "quote = 0 \<Longrightarrow> keeps p d (fst (insert_pod env d (rn_id r) q od n idx quote))"
      using insert_pod_keeps [OF ok _ q _ idx, of "rn_id r" quote env od n] r
      by (cases "insert_pod env d (rn_id r) q od n idx quote") (auto simp: keeps_def)
    have s: "keeps p d (fst (insert_pod env d1 (rn_id r) q od n idx quote))"
      if "debit_balance (rn_id r) quote (le_now env) d = Some d1" for d1
    proof -
      note b = debit_balance_Some [OF that]
      have u: "used_indices d1 k = used_indices d k" for k by (rule used_cong) (rule b)
      obtain d' res where e: "insert_pod env d1 (rn_id r) q od n idx quote = (d', res)" by fastforce
      have idx1: "idx = None \<or> (\<exists>ns. idx = Some ns \<and> distinct ns
       \<and> set ns \<inter> set (used_indices d1 (pv_id q)) = {} \<and> parse_indices (print_indices ns) = ns)" using idx u by simp
      note ins = insert_pod_keeps [OF _ _ _ _ idx1 e]
      show ?thesis using ins b ok q e u by (simp add: keeps_def quote_def)
    qed
    show ?thesis using z s quote_nonneg [of "od_minutes od * 60" "resolvePodRate (Some q)" n]
      by (auto simp: charge_and_insert_def Let_def quote_def [symmetric] keeps_refl ok split: sum.splits option.splits)
  qed
  show ?thesis unfolding launchPod_def
    using charge choose_provider_in
    by (auto simp: keeps_refl ok split: option.splits sum.splits prod.splits dest!: sql_get_Some)
qed

section \<open>Sequences of events\<close>

datatype pod_event =
  PLaunch launch_env int pod_request
| PClaim int int int
| PReport int job_ref pod_report int
| PExtend int job_ref js_num int
| PStop int job_ref int
| PTimeouts int
| PSweep int

fun pod_step :: "db \<Rightarrow> pod_event \<Rightarrow> db" where
  "pod_step d (PLaunch env renter rq) = fst (launchPod env d renter rq)"
| "pod_step d (PClaim provider job now) = fst (claim_job provider job now d)"
| "pod_step d (PReport provider i rp now) = fst (endpoint_ready d provider i rp now)"
| "pod_step d (PExtend renter i minutes now) = fst (extendPod d renter i minutes now)"
| "pod_step d (PStop renter i now) = fst (stopPod d renter i now)"
| "pod_step d (PTimeouts now) = enforceJobTimeouts now d"
| "pod_step d (PSweep now) = settleExpiredPods now d"

text \<open>
  The route that takes endpoint reports does not look at the job's status. The invariants hold
  of runs in which every report names a pod that is still live.
\<close>

fun report_ok :: "db \<Rightarrow> pod_event \<Rightarrow> bool" where
  "report_ok d (PReport provider i rp now) = report_live d provider i"
| "report_ok d _ = True"

fun reports_live :: "db \<Rightarrow> pod_event list \<Rightarrow> bool" where
  "reports_live d [] = True"
| "reports_live d (e # es) = (report_ok d e \<and> reports_live (pod_step d e) es)"

definition live_step :: "db \<Rightarrow> pod_event \<Rightarrow> db" where
  "live_step d e = (if report_ok d e then pod_step d e else d)"

lemma live_steps: "reports_live d es \<Longrightarrow> foldl pod_step d es = foldl live_step d es"
  by (induction es arbitrary: d) (simp_all add: live_step_def)

lemma live_step_keeps: "pods_ok d \<Longrightarrow> keeps p d (live_step d e)"
  by (cases e) (auto simp: live_step_def keeps_refl launchPod_keeps claim_job_keeps endpoint_ready_keeps extendPod_keeps
      stopPod_keeps enforceJobTimeouts_keeps settleExpiredPods_keeps)

definition job_by_id :: "db \<Rightarrow> int \<Rightarrow> job_row option" where
  "job_by_id d i = sql_get (\<lambda>j. jb_id j = i) (jobs d)"

lemma job_by_id_iff: "has_key jb_id (jobs d) \<Longrightarrow> job_by_id d i = Some j \<longleftrightarrow> j \<in> set (jobs d) \<and> jb_id j = i"
  unfolding job_by_id_def by (auto dest: sql_get_Some sql_get_key)

interpretation pods_money: conserved live_step pod_books pods_ok "\<lambda>_ _. 0"
  using live_step_keeps by unfold_locales (auto simp: keeps_def)

interpretation pods_rows: lifecycle live_step job_by_id "\<lambda>j. terminal (jb_status j)" pods_ok
proof
  fix d k j e
  assume a: "pods_ok d" "job_by_id d k = Some j" "terminal (jb_status j)"
  note l = live_step_keeps [OF a(1), of 0 e]
  show "job_by_id (live_step d e) k = Some j"
    using a l pods_okD(3) [OF a(1)] pods_okD(3) [OF keeps_ok [OF l]] by (simp add: job_by_id_iff keeps_def)
qed (rule keeps_ok [OF live_step_keeps])

interpretation pods_devices: preserved live_step "\<lambda>d. pods_ok d \<and> (\<forall>p. distinct (used_indices d p))"
proof
  fix d e assume "pods_ok d \<and> (\<forall>p. distinct (used_indices d p))"
  then have "keeps p d (live_step d e)" "distinct (used_indices d p)" for p by (simp_all add: live_step_keeps)
  then show "pods_ok (live_step d e) \<and> (\<forall>p. distinct (used_indices (live_step d e) p))" by (simp add: keeps_def)
qed

section \<open>A deadline reached\<close>

lemma resolvePodRate_nonneg: "0 \<le> resolvePodRate p"
  by (auto simp: resolvePodRate_def Let_def INTERACTIVE_POD_RATE_def fl_div_def fl_nonneg split: option.splits)

lemma elapsed_ge:
  assumes "0 \<le> secs" "secs \<le> 2 ^ 53" "t + secs * 1000 \<le> now"
  shows "of_int secs \<le> elapsed_seconds t now"
proof -
  have "(of_int (secs * 1000) :: rat) \<le> of_int (now - t)" using assms by (simp only: of_int_le_iff)
  then have "(of_int secs :: rat) \<le> of_int (now - t) / 1000" by simp
  then have "fl (of_int secs) \<le> fl (of_int (now - t) / 1000)" using assms(1) by (intro fl_mono) simp_all
  then show ?thesis using assms by (simp add: elapsed_seconds_def fl_div_def fl_of_int)
qed

lemma full_quote:
  assumes "0 \<le> secs" "secs \<le> 2 ^ 53" "t + secs * 1000 \<le> now" "0 \<le> rate" "0 \<le> g" "g \<le> g'"
  shows "ss_actual (computePodStopSettlement (Some (computePodQuoteHalala secs rate g)) t now rate g')
       = computePodQuoteHalala secs rate g"
proof -
  have e: "(of_int secs :: rat) \<le> elapsed_seconds t now" by (rule elapsed_ge) (use assms in auto)
  have s: "0 \<le> (of_int secs :: rat)" using assms(1) by simp
  have a: "fl (of_int secs * rate) \<le> fl (elapsed_seconds t now * rate)"
    using s e assms(4) by (intro fl_mono mult_right_mono mult_nonneg_nonneg) auto
  have z: "0 \<le> fl (of_int secs * rate)" using s assms(4) by (simp add: fl_nonneg)
  have "fl (fl (of_int secs * rate) * of_int g) \<le> fl (fl (elapsed_seconds t now * rate) * of_int g')"
  proof (rule fl_mono)
    show "0 \<le> fl (of_int secs * rate) * of_int g" using z assms(5) by simp
    show "fl (of_int secs * rate) * of_int g \<le> fl (elapsed_seconds t now * rate) * of_int g'"
      by (rule mult_mono [OF a]) (use a z assms(5,6) in auto)
  qed
  then have "\<lceil>fl (fl (of_int secs * rate) * of_int g)\<rceil> \<le> \<lceil>fl (fl (elapsed_seconds t now * rate) * of_int g')\<rceil>"
    by (rule ceiling_mono)
  then show ?thesis by (simp add: computePodStopSettlement_def computePodQuoteHalala_def fl_mul_def Let_def)
qed

section \<open>What the pod lifecycle promises\<close>

definition demo_pod :: job_row where
  "demo_pod = blank_job\<lparr>jb_id := 1, jb_job_id := ''pod-1'', jb_provider := Some 7, jb_renter := Some 1,
     jb_type := ''interactive_pod'', jb_status := JQueued, jb_cost := Some 100, jb_submitted_at := Some 1\<rparr>"

definition demo_pods :: db where "demo_pods = demo_db\<lparr>jobs := [demo_pod]\<rparr>"

definition demo_ref :: job_ref where "demo_ref = \<lparr>ref_text = ''pod-1'', ref_id = None\<rparr>"

definition demo_report :: pod_report where
  "demo_report = \<lparr>rp_jport = Some 8888, rp_sport = Some 2222, rp_mesh = ''10.8.0.5'', rp_relay = Some (Some 41001, Some 42001)\<rparr>"

lemma demo_pods_ok [simp]: "pods_ok demo_pods"
  by (simp add: pods_ok_def demo_pods_def demo_defs has_key_def job_ok_def demo_pod_def blank_job_def)

lemma demo_pods_tables [simp]:
  "renters demo_pods = [demo_renter]" "providers demo_pods = [demo_provider]" "jobs demo_pods = [demo_pod]"
  by (simp_all add: demo_pods_def)

lemma demo_pods_books: "pod_books demo_pods = 1100"
  by (simp add: pod_books_def total_balance_def total_claimable_def demo_renter_def demo_provider_def hold_def demo_pod_def)

text \<open>
  C15: Money is conserved through the life of pods. What renters hold, what providers may claim,
  what live jobs hold and what the platform kept as fees add up to the same sum after any sequence
  of launches, claims, endpoint reports, extensions, stops, timeouts and settlement sweeps, in any
  interleaving, as long as every endpoint report names a pod that is still live.
\<close>

theorem pods_conserve:
  assumes "pods_ok d" and "reports_live d es"
  shows "pod_books (foldl pod_step d es) = pod_books d"
  unfolding live_steps [OF assms(2)] by (rule pods_money.amount_kept [OF assms(1)])

theorem pods_conserve_witness:
  "pod_books (foldl pod_step demo_pods [PClaim 7 1 5000, PExtend 1 demo_ref (Some 5) 6000, PStop 1 demo_ref 9000, PTimeouts 9000]) = 1100"
  using pods_conserve [OF demo_pods_ok, of "[PClaim 7 1 5000, PExtend 1 demo_ref (Some 5) 6000, PStop 1 demo_ref 9000, PTimeouts 9000]"]
  by (simp add: demo_pods_books)

text \<open>
  A pod is settled once. When a job has completed, failed, been stopped or cancelled, its row,
  charge, earnings, fee and refund mark included, is what it is for ever: no later launch, claim,
  live report, extension, stop, timeout or sweep touches it.
\<close>

theorem pod_settled_final:
  assumes "pods_ok d" and "reports_live d es" and "job_by_id d i = Some j" and "terminal (jb_status j)"
  shows "job_by_id (foldl pod_step d es) i = Some j"
  unfolding live_steps [OF assms(2)] by (rule pods_rows.final_forever [OF assms(1,3,4)])

theorem pod_settled_final_witness:
  "map_option jb_status (job_by_id (foldl pod_step (demo_pods\<lparr>jobs := [demo_pod\<lparr>jb_status := JStopped\<rparr>]\<rparr>) [PStop 1 demo_ref 9, PSweep 99]) 1)
     = Some JStopped"
proof -
  let ?d = "demo_pods\<lparr>jobs := [demo_pod\<lparr>jb_status := JStopped\<rparr>]\<rparr>"
  have "pods_ok ?d" by (simp add: pods_ok_def demo_defs has_key_def job_ok_def terminal_def)
  moreover have "job_by_id ?d 1 = Some (demo_pod\<lparr>jb_status := JStopped\<rparr>)"
    by (simp add: job_by_id_def sql_get_def demo_pod_def)
  ultimately have "job_by_id (foldl pod_step ?d [PStop 1 demo_ref 9, PSweep 99]) 1 = Some (demo_pod\<lparr>jb_status := JStopped\<rparr>)"
    by (intro pod_settled_final) (simp_all add: terminal_def)
  then show ?thesis by simp
qed





section \<open>A late report\<close>

lemma balance_by_id:
  assumes "\<And>r. rn_id (f r) = rn_id r" "\<And>r. rn_balance (f r) = rn_balance r + a" "i \<in> rn_id ` set (renters d)"
    and "renters d' = sql_update (\<lambda>r. Some (rn_id r) = Some i) f (renters d)"
  shows "balance_of d' i = balance_of d i + a"
proof -
  have "renter_by_id d' i = map_option (\<lambda>r. if rn_id r = i then f r else r) (renter_by_id d i)"
    using assms(1) unfolding renter_by_id_def assms(4) by (subst sql_get_update) auto
  moreover obtain r where "renter_by_id d i = Some r" "rn_id r = i"
    using assms(3) sql_get_None [of "\<lambda>r. rn_id r = i" "renters d"] sql_get_Some unfolding renter_by_id_def by fastforce
  ultimately show ?thesis using assms(2) by (simp add: balance_of_def)
qed

lemma key_set_job: "(\<And>x. jb_job_id (f x) = jb_job_id x) \<Longrightarrow> has_key jb_job_id (sql_update P f js) = has_key jb_job_id js"
  by (simp add: has_key_update)

lemma cancel_queued:
  assumes ok: "pods_ok d" "has_key jb_job_id (jobs d)" and j: "j \<in> set (jobs d)" "pod_type (jb_type j)"
    "jb_status j = JQueued" "jb_cost j = Some c" "0 < c" "jb_renter j = Some r"
    and i: "i = \<lparr>ref_text = jb_job_id j, ref_id = None\<rparr>"
  obtains d1 where "fst (stopPod d r i now) = d1" "balance_of d1 r = balance_of d r + c" "has_key jb_job_id (jobs d1)"
    "j\<lparr>jb_status := JCancelled, jb_completed_at := Some now, jb_refunded_at := Some now\<rparr> \<in> set (jobs d1)"
    "has_key jb_id (jobs d1)" "rn_id ` set (renters d1) = rn_id ` set (renters d)"
proof -
  let ?P = "\<lambda>x. \<not> terminal (jb_status x) \<and> jb_refunded_at x = None"
  let ?f = "\<lambda>x. x\<lparr>jb_status := JCancelled, jb_completed_at := Some now, jb_refunded_at := Some now\<rparr>"
  note k = pods_okD [OF ok(1)]
  have nt: "\<not> terminal (jb_status j)" using j(3) by (simp add: terminal_def)
  note l = job_ok_live [OF k(4) [OF j(1)] nt]
  have r: "r \<in> rn_id ` set (renters d)" using l(4) j(2,6) by auto
  have P: "?P j" using nt l(2) by simp
  have "renter_pod d r i = Some j"
    using sql_get_keyP [where P = "\<lambda>x. pod_type (jb_type x) \<and> jb_renter x = Some r", OF ok(2) j(1)] j
    by (simp add: renter_pod_def refers_def i)
  moreover have "sql_changes (\<lambda>x. jb_id x = jb_id j \<and> ?P x) (jobs d) = 1"
    by (rule sql_changes_key [where P = ?P, OF k(3) j(1) P])
  ultimately have e: "fst (stopPod d r i now) = release_escrow (jb_job_id j) EReleasedRenter now
     (refund_renter (Some r) c (set_job (\<lambda>x. jb_id x = jb_id j \<and> ?P x) ?f d))" (is "_ = ?d1")
    using j nt by (simp add: stopPod_def stopPodCore_def cancel_waiting_def Let_def split: prod.splits)
  show ?thesis
  proof (rule that [OF e])
    show "balance_of ?d1 r = balance_of d r + c"
      by (rule balance_by_id [OF _ _ r, where f = "\<lambda>x. x\<lparr>rn_balance := rn_balance x + c\<rparr>"])
        (simp_all add: release_escrow_def refund_renter_def)
    show "has_key jb_job_id (jobs ?d1)" "has_key jb_id (jobs ?d1)" "rn_id ` set (renters ?d1) = rn_id ` set (renters d)"
      using ok(2) k(3) by (simp_all add: keyed)
    show "?f j \<in> set (jobs ?d1)" using P j(1) by (force simp: set_sql_update)
  qed
qed

text \<open>
  A late endpoint report mints money. The renter stops a pod that is still queued and gets its
  cost back; the daemon then reports the endpoint, which puts the cancelled job back to running
  whatever its status; when the renter stops it again, the cost is paid back a second time.
\<close>

theorem late_report_mints:
  assumes ok: "pods_ok d" "has_key jb_job_id (jobs d)" and j: "j \<in> set (jobs d)" "jb_type j = ''interactive_pod''"
    "jb_status j = JQueued" "jb_cost j = Some c" "0 < c" "jb_renter j = Some r" "jb_provider j = Some p" "jb_access_url j = None"
    and i: "i = \<lparr>ref_text = jb_job_id j, ref_id = None\<rparr>"
    and rp: "port (rp_jport rp) \<noteq> None" "port (rp_sport rp) \<noteq> None" "is_mesh_ip (rp_mesh rp)"
      "rp_relay rp = Some (x, y)" "port x = Some a" "port y = Some b"
  shows "balance_of (foldl pod_step d [PStop r i now, PReport p i rp now, PStop r i now]) r = balance_of d r + 2 * c"
proof -
  obtain d1 where d1: "fst (stopPod d r i now) = d1" "balance_of d1 r = balance_of d r + c" "has_key jb_job_id (jobs d1)"
    "j\<lparr>jb_status := JCancelled, jb_completed_at := Some now, jb_refunded_at := Some now\<rparr> \<in> set (jobs d1)"
    "has_key jb_id (jobs d1)" "rn_id ` set (renters d1) = rn_id ` set (renters d)"
    by (rule cancel_queued [OF ok j(1) _ j(3-6) i]) (use j(2) in \<open>auto simp: pod_type_def\<close>)
  define j1 where "j1 = j\<lparr>jb_status := JCancelled, jb_completed_at := Some now, jb_refunded_at := Some now\<rparr>"
  define j2 where "j2 = pod_live rp a b (spec_token j1) now j1"
  define d2 where "d2 = set_job (\<lambda>x. jb_id x = jb_id j1) (pod_live rp a b (spec_token j1) now) d1"
  have j1: "j1 \<in> set (jobs d1)" using d1(4) by (simp add: j1_def)
  have "sql_get (\<lambda>x. refers i x \<and> jb_provider x = Some p) (jobs d1) = Some j1"
    using sql_get_keyP [where P = "\<lambda>x. jb_provider x = Some p", OF d1(3) j1] j by (simp add: refers_def i j1_def)
  then have d2: "fst (endpoint_ready d1 p i rp now) = d2"
    using rp j by (auto simp: endpoint_ready_def d2_def j1_def)
  have j2: "j2 \<in> set (jobs d2)" using j1 by (force simp: d2_def j2_def set_sql_update)
  have f2: "jb_status j2 = JRunning" "jb_cost j2 = Some c" "jb_started_at j2 = Some now" "jb_renter j2 = Some r"
    "pod_type (jb_type j2)" "jb_job_id j2 = jb_job_id j"
    using j by (simp_all add: j2_def j1_def pod_live_def pod_type_def)
  have k2: "has_key jb_job_id (jobs d2)" using d1(3) by (simp add: d2_def keyed pod_live_def)
  have rp2: "renter_pod d2 r i = Some j2"
    using sql_get_keyP [where P = "\<lambda>x. pod_type (jb_type x) \<and> jb_renter x = Some r", OF k2 j2] f2
    by (simp add: renter_pod_def refers_def i)
  have s: "ss_refund (computePodStopSettlement (Some c) (started_ms j2 now) now rate g) = c" for rate g
    using j(5) f2 by (simp add: computePodStopSettlement_def Let_def started_ms_def elapsed_seconds_def fl_div_def fl_mul_def)
  have s0: "ss_actual (computePodStopSettlement (Some c) (started_ms j2 now) now rate g) = 0" for rate g
    using j(5) f2 by (simp add: computePodStopSettlement_def Let_def started_ms_def elapsed_seconds_def fl_div_def fl_mul_def)
  have ren: "renters (fst (stopPod d2 r i now)) = sql_update (\<lambda>x. Some (rn_id x) = Some r)
      (\<lambda>x. x\<lparr>rn_balance := rn_balance x + c, rn_total_spent := rn_total_spent x + 0, rn_total_jobs := rn_total_jobs x + 1\<rparr>) (renters d2)"
    using rp2 f2 s s0
    by (simp add: stopPod_def stopPodCore_def stop_running_def terminal_def Let_def settle_renter_def split: prod.splits)
  have "r \<in> rn_id ` set (renters d2)"
    using job_ok_live(4) [OF pods_okD(4) [OF ok(1) j(1)]] j d1(6) by (auto simp: terminal_def pod_type_def d2_def)
  then have "balance_of (fst (stopPod d2 r i now)) r = balance_of d2 r + c"
    by (rule balance_by_id [OF _ _ _ ren, rotated -1]) simp_all
  moreover have "balance_of d2 r = balance_of d1 r" by (simp add: balance_of_def renter_by_id_def d2_def)
  ultimately show ?thesis using d1 d2 by simp
qed

theorem late_report_mints_witness:
  "balance_of (foldl pod_step demo_pods [PStop 1 demo_ref 9000, PReport 7 demo_ref demo_report 9000, PStop 1 demo_ref 9000]) 1 = 1200"
proof -
  have m: "is_mesh_ip ''10.8.0.5''" by code_simp
  have p: "port (Some 8888) = Some 8888" "port (Some 2222) = Some 2222" "port (Some 41001) = Some 41001" "port (Some 42001) = Some 42001"
    by (simp_all add: port_def toFiniteInt_pods_def)
  have "balance_of (foldl pod_step demo_pods [PStop 1 demo_ref 9000, PReport 7 demo_ref demo_report 9000, PStop 1 demo_ref 9000]) 1
     = balance_of demo_pods 1 + 2 * 100"
    by (rule late_report_mints [where j = demo_pod and x = "Some 41001" and y = "Some 42001" and a = 41001 and b = 42001])
      (simp_all add: demo_report_def m p demo_pod_def blank_job_def has_key_def demo_ref_def)
  moreover have "balance_of demo_pods 1 = 1000"
    by (simp add: balance_of_def renter_by_id_def sql_get_def demo_renter_def)
  ultimately show ?thesis by simp
qed

section \<open>What a launch takes\<close>

lemma balance_jobs [simp]: "balance_of (d\<lparr>jobs := x\<rparr>) i = balance_of d i" "balance_of (set_job P f d) i = balance_of d i"
  by (simp_all add: balance_of_def renter_by_id_def)

lemma active_insert:
  "active_pods (d\<lparr>jobs := sql_insert j (jobs d)\<rparr>) renter = active_pods d renter
     + (if jb_renter j = Some renter \<and> pod_type (jb_type j) \<and> jb_status j \<in> {JPending, JQueued, JAssigned, JPulling, JRunning} then 1 else 0)"
  by (simp add: active_pods_def sql_changes_def sql_insert_def)

lemma active_cong: "jobs d' = jobs d \<Longrightarrow> active_pods d' renter = active_pods d renter"
  by (simp add: active_pods_def)

lemma insert_pod_result:
  assumes ren: "renter \<in> rn_id ` set (renters d)" and q: "0 \<le> quote"
    and res: "insert_pod env d renter p od n idx quote = (d', res)"
  shows "case res of
      Inl e \<Rightarrow> (\<forall>k. balance_of d' k = balance_of d k + (if k = renter then quote else 0)) \<and> active_pods d' renter = active_pods d renter
    | Inr j \<Rightarrow> (\<forall>k. balance_of d' k = balance_of d k) \<and> active_pods d' renter = active_pods d renter + 1
        \<and> j \<in> set (jobs d') \<and> jb_cost j = Some quote \<and> jb_renter j = Some renter"
proof -
  define b where "b = (if pv_is_burst p then pickBurstPorts d (le_listening env) (le_draws env) else None)"
  define j where "j = pod_row env d renter p od n idx quote b"
  define d1 where "d1 = d\<lparr>jobs := sql_insert j (jobs d)\<rparr>"
  have refund: "balance_of (if quote > 0 then credit_balance renter quote d else d) k = balance_of d k + (if k = renter then quote else 0)" for k
    using balance_credit [OF ren, of quote k] q by auto
  show ?thesis
  proof (cases "pv_is_burst p \<and> b = None \<or> \<not> le_insert_ok env \<or> le_job_id env \<in> set (map jb_job_id (jobs d))")
    case True
    then have "d' = (if quote > 0 then credit_balance renter quote d else d) \<and> (\<exists>e. res = Inl e)"
      using res by (auto simp: insert_pod_def Let_def b_def split: if_splits)
    moreover have "active_pods (if quote > 0 then credit_balance renter quote d else d) renter = active_pods d renter"
      by (rule active_cong) simp
    ultimately show ?thesis using refund by auto
  next
    case False
    then have id: "x \<in> set (jobs d) \<Longrightarrow> jb_job_id x \<noteq> le_job_id env" for x by force
    have j: "jb_job_id j = le_job_id env" "jb_refunded_at j = None" "jb_renter j = Some renter" "pod_type (jb_type j)"
      "jb_cost j = Some quote" by (simp_all add: j_def)
    show ?thesis
    proof (cases "pv_is_burst p \<and> \<not> le_spawn_ok env")
      case True
      let ?P = "\<lambda>x. jb_job_id x = le_job_id env \<and> jb_refunded_at x = None \<and> jb_status x \<in> {JPulling, JQueued, JAssigned}"
      have e: "d' = fst (failBurstJobAndRefund d1 (le_job_id env) quote renter ''Burst launch failed to start'' (le_now env))"
        "\<exists>e. res = Inl e" using res False True by (auto simp: insert_pod_def Let_def b_def j_def d1_def split: if_splits)
      have "b \<noteq> None" using False True by simp
      then have st: "jb_status j = JPulling" by (simp add: j_def)
      have none: "filter ?P (jobs d) = []" using id by (auto simp: filter_empty_conv)
      have c: "sql_changes ?P (jobs d1) = 1" using j st none by (simp add: d1_def sql_changes_def sql_insert_def)
      define f :: "job_row \<Rightarrow> job_row" where "f = (\<lambda>x. x\<lparr>jb_status := JFailed, jb_error := Some ''Burst launch failed to start'',
          jb_completed_at := Some (le_now env), jb_refunded_at := Some (le_now env)\<rparr>)"
      have js: "sql_update ?P f (jobs d1) = jobs d @ [f j]"
        using id j st by (auto simp: d1_def sql_insert_def sql_update_def f_def intro!: map_idI)
      have d': "d' = (if quote > 0 then credit_balance renter quote (d1\<lparr>jobs := jobs d @ [f j]\<rparr>) else d1\<lparr>jobs := jobs d @ [f j]\<rparr>)"
        unfolding e(1) using c js by (simp add: failBurstJobAndRefund_def Let_def f_def)
      have "active_pods d' renter = active_pods d renter" unfolding d' by (simp add: active_pods_def sql_changes_def f_def)
      moreover have "balance_of d' k = balance_of d k + (if k = renter then quote else 0)" for k
        unfolding d' using balance_credit [of renter "d1\<lparr>jobs := jobs d @ [f j]\<rparr>" quote k] ren q by (auto simp: d1_def)
      ultimately show ?thesis using e(2) by auto
    next
      case ok: False
      have "d' = d1" "res = Inr j" using res False ok by (auto simp: insert_pod_def Let_def b_def j_def d1_def split: if_splits)
      moreover have "jb_status j \<in> {JPending, JQueued, JAssigned, JPulling, JRunning}" by (simp add: j_def)
      ultimately show ?thesis using j unfolding d1_def by (simp add: active_insert) (simp add: sql_insert_def)
    qed
  qed
qed

lemma charge_result:
  assumes key: "has_key rn_id (renters d)" and r: "r \<in> set (renters d)"
    and res: "charge_and_insert env d r p od n idx = (d', res)"
  shows "case res of
      Inl e \<Rightarrow> (\<forall>k. balance_of d' k = balance_of d k) \<and> active_pods d' (rn_id r) = active_pods d (rn_id r)
    | Inr j \<Rightarrow> balance_of d' (rn_id r) = balance_of d (rn_id r) - or0 (jb_cost j)
        \<and> jb_cost j = Some (computePodQuoteHalala (od_minutes od * 60) (resolvePodRate (Some p)) n)
        \<and> (0 < or0 (jb_cost j) \<longrightarrow> or0 (jb_cost j) \<le> balance_of d (rn_id r))
        \<and> active_pods d' (rn_id r) = active_pods d (rn_id r) + 1 \<and> j \<in> set (jobs d') \<and> jb_renter j = Some (rn_id r)"
proof -
  define quote where "quote = computePodQuoteHalala (od_minutes od * 60) (resolvePodRate (Some p)) n"
  have q: "0 \<le> quote" by (simp add: quote_def)
  have ren: "rn_id r \<in> rn_id ` set (renters d)" using r by simp
  consider (stop) e where "d' = d" "res = Inl e"
    | (free) "quote = 0" "insert_pod env d (rn_id r) p od n idx quote = (d', res)"
    | (paid) d1 where "debit_balance (rn_id r) quote (le_now env) d = Some d1" "0 < quote"
        "insert_pod env d1 (rn_id r) p od n idx quote = (d', res)"
    using res q by (auto simp: charge_and_insert_def Let_def quote_def [symmetric] split: sum.splits option.splits if_splits)
  then show ?thesis
  proof cases
    case free
    with insert_pod_result [OF ren q free(2)] show ?thesis by (auto simp: quote_def [symmetric] split: sum.splits)
  next
    case paid
    note b = balance_debit [OF key paid(1)] and s = debit_balance_Some [OF paid(1)]
    have "rn_id r \<in> rn_id ` set (renters d1)" using s(5) ren by simp
    from insert_pod_result [OF this q paid(3)] b active_cong [OF s(2)] paid(2)
    show ?thesis by (auto simp: quote_def [symmetric] split: sum.splits)
  qed simp
qed

text \<open>
  C18: A launch charges exactly its quote and respects the quota. When it succeeds, the renter had
  passed the payment gate, the balance went down by the quote that the new pod row holds and is not
  overdrawn, and the renter's active pods are within the cap. When it is refused or fails at any
  point, insert and spawn errors after the debit included, every balance is what it was and no pod
  became active.
\<close>

theorem launch_accounts:
  assumes key: "has_key rn_id (renters d)"
    and r: "sql_get (\<lambda>r. rn_id r = renter \<and> rn_status r = ''active'') (renters d) = Some r"
    and res: "launchPod env d renter rq = (d', res)"
  shows "case res of
      Inl e \<Rightarrow> (\<forall>k. balance_of d' k = balance_of d k) \<and> active_pods d' renter = active_pods d renter
    | Inr j \<Rightarrow> payment_gate d r \<and> j \<in> set (jobs d') \<and> jb_renter j = Some renter \<and> 0 \<le> or0 (jb_cost j)
        \<and> balance_of d' renter = balance_of d renter - or0 (jb_cost j)
        \<and> (0 < or0 (jb_cost j) \<longrightarrow> 0 \<le> balance_of d' renter)
        \<and> int (active_pods d' renter) \<le> pod_cap (le_max_pods env) r"
proof -
  have rr: "r \<in> set (renters d)" "rn_id r = renter" using sql_get_Some [OF r] by simp_all
  consider (stop) e where "d' = d" "res = Inl e"
    | (go) p od n idx where "charge_and_insert env d r p od n idx = (d', res)" "payment_gate d r"
        "int (active_pods d renter) < pod_cap (le_max_pods env) r"
    using res by (auto simp: launchPod_def r split: if_splits sum.splits prod.splits)
  then show ?thesis
  proof cases
    case go
    from charge_result [OF key rr(1) go(1)] go(2,3) show ?thesis
      by (auto simp: rr(2) split: sum.splits)
  qed simp
qed

definition demo_env :: launch_env where
  "demo_env = \<lparr>le_now = 1000, le_job_id = ''pod-9'', le_fresh_token = ''t'', le_root_password = ''p'', le_owned = [],
     le_max_pods = 2, le_listening = [], le_draws = (\<lambda>_ _. 0), le_s3 = False, le_insert_ok = True, le_spawn_ok = True\<rparr>"

definition demo_request :: pod_request where
  "demo_request = \<lparr>rq_duration = Some 60, rq_gpu_count = None, rq_serve = False, rq_model = [], rq_max_len = None,
     rq_dtype = None, rq_token = None, rq_image = None, rq_provider_id = Some (Some 7), rq_gpu_type = None\<rparr>"

definition demo_launch :: db where
  "demo_launch = demo_db\<lparr>renters := [demo_renter\<lparr>rn_pods_exempt := True\<rparr>], providers := [demo_provider\<lparr>pv_rate := Some (1 / 4)\<rparr>]\<rparr>"

lemma demo_quote: "computePodQuoteHalala 3600 (1 / 4) 1 = 900"
  by code_simp

lemma demo_order: "read_request demo_env demo_request = Inr \<lparr>od_minutes = 60, od_gpus = 1, od_serve = False, od_model = [],
    od_max_len = 32768, od_dtype = ''float16'', od_token = ''t'', od_image = ''dcp-compute:pytorch'', od_bootstrap = False,
    od_provider = Some 7\<rparr>"
  by (simp add: read_request_def Let_def demo_request_def demo_env_def over_cap_def toFiniteInt_pods_def or_default_def
      MIN_DURATION_MINUTES_def MAX_DURATION_MINUTES_def DEFAULT_DURATION_MINUTES_def validatePodImage_def
      DEFAULT_POD_IMAGE_def order_provider_def strip_def)

theorem launch_accounts_witness:
  "\<exists>j. snd (launchPod demo_env demo_launch 1 demo_request) = Inr j
     \<and> balance_of (fst (launchPod demo_env demo_launch 1 demo_request)) 1 = 100"
proof -
  let ?r = "demo_renter\<lparr>rn_pods_exempt := True\<rparr>"
  have r: "sql_get (\<lambda>r. rn_id r = 1 \<and> rn_status r = ''active'') (renters demo_launch) = Some ?r"
    by (simp add: demo_launch_def sql_get_def demo_renter_def)
  have k: "has_key rn_id (renters demo_launch)" by (simp add: demo_launch_def has_key_def)
  obtain d' res where l: "launchPod demo_env demo_launch 1 demo_request = (d', res)" by fastforce
  have "payment_gate demo_launch ?r" by (simp add: payment_gate_def)
  moreover have "active_pods demo_launch 1 = 0" "pod_cap (le_max_pods demo_env) ?r = 2"
    by (simp_all add: active_pods_def sql_changes_def demo_launch_def pod_cap_def demo_renter_def demo_env_def)
  ultimately have l2: "launchPod demo_env demo_launch 1 demo_request =
      charge_and_insert demo_env demo_launch ?r (selected (demo_provider\<lparr>pv_rate := Some (1 / 4)\<rparr>))
        \<lparr>od_minutes = 60, od_gpus = 1, od_serve = False, od_model = [],
    od_max_len = 32768, od_dtype = ''float16'', od_token = ''t'', od_image = ''dcp-compute:pytorch'', od_bootstrap = False,
    od_provider = Some 7\<rparr> 1 None"
    using r demo_order
    by (simp add: launchPod_def choose_provider_def demo_request_def resolvePodProvider_def demo_launch_def
        sql_get_def demo_provider_def native_capable_def demo_env_def TEN_MINUTES_MS_def POD_MIN_VRAM_MIB_def pod_vram_mib_def
        nullif0_def pod_busy_def allocate_gpus_def Let_def selected_def resolvePodGpuCount_def)
  have ok: "\<exists>j. res = Inr j \<and> or0 (jb_cost j) = 900"
    using l unfolding l2 by (simp add: charge_and_insert_def Let_def selected_def demo_provider_def resolvePodRate_def demo_quote
        evaluatePodLaunchCreditPolicy_def getProviderSupplyTier_def normalizeSupplyTier_def demo_env_def demo_launch_def
        debit_balance_def sql_changes_def demo_renter_def insert_pod_def pod_row_def blank_job_def split: prod.splits if_splits)
     auto
  have "balance_of demo_launch 1 = 1000" by (simp add: balance_of_def renter_by_id_def sql_get_def demo_launch_def demo_renter_def)
  with launch_accounts [OF k r l] ok l show ?thesis by auto
qed

text \<open>
  C19: The GPU list of a pod survives the database. The comma separated text the launch stores in
  \<open>gpu_indices\<close> is read back by the allocator as exactly the indices that were assigned.
\<close>

theorem indices_roundtrip: "parse_indices (print_indices (map int ns)) = map int ns"
  by (rule print_parse)

end
