(* ===== verification/Volumes.thy ===== *)
theory Volumes
  imports Wallet
begin

text \<open>
  Rented volumes: \<open>backend/src/routes/volumes.js\<close>, with the bucket names of
  \<open>backend/src/lib/volume-store.js\<close> and the monthly billing sweep of
  \<open>backend/src/services/jobSweep.js\<close>. Whether the object store provisions a bucket and whether
  the rental row can be written are arguments.
\<close>

section \<open>Prices and the pool\<close>

definition VOLUME_SIZES_GB :: "int list" where "VOLUME_SIZES_GB = [10, 20, 30]"
definition SAR_PER_USD :: rat where "SAR_PER_USD = 15 / 4"
definition USD_PER_GB_MONTH :: rat where "USD_PER_GB_MONTH = fl (1 / 20)"
definition HALALA_PER_GB_MONTH :: rat where "HALALA_PER_GB_MONTH = fl_mul (fl_mul USD_PER_GB_MONTH SAR_PER_USD) 100"
definition POOL_CEILING_GB :: int where "POOL_CEILING_GB = 100"
definition PERIOD_DAYS :: int where "PERIOD_DAYS = 30"

definition monthlyHalala :: "int \<Rightarrow> int" where
  "monthlyHalala size_gb = js_round (fl_mul (of_int size_gb) HALALA_PER_GB_MONTH)"

definition activePoolGb :: "db \<Rightarrow> int" where
  "activePoolGb d = sql_sum (\<lambda>v. vo_status v = VActive) vo_size_gb (volumes d)"

definition bucketFor :: "int \<Rightarrow> string" where
  "bucketFor renter = ''dcp-vol-r'' @ dec renter"

section \<open>Renting and releasing\<close>

datatype rent_error =
  InvalidSize | AlreadyRented | PoolFull int | InsufficientFunds int int | ProvisionFailed | RentPersistFailed

definition refund_at :: "int \<Rightarrow> int \<Rightarrow> int \<Rightarrow> db \<Rightarrow> db" where
  "refund_at i amount now d =
     d\<lparr>renters := sql_update (\<lambda>r. rn_id r = i)
         (\<lambda>r. r\<lparr>rn_balance := rn_balance r + amount, rn_updated_at := Some now\<rparr>) (renters d)\<rparr>"

definition persist_rental :: "int \<Rightarrow> int \<Rightarrow> int \<Rightarrow> int \<Rightarrow> db \<Rightarrow> db" where
  "persist_rental renter size_gb price now d =
     (let bucket = bucketFor renter; pend = now + PERIOD_DAYS * 86400000
      in case sql_get (\<lambda>v. vo_bucket v = bucket) (volumes d) of
           Some prior \<Rightarrow> d\<lparr>volumes := sql_update (\<lambda>v. vo_id v = vo_id prior)
             (\<lambda>v. v\<lparr>vo_size_gb := size_gb, vo_status := VActive, vo_price := price, vo_rented_at := now,
                    vo_period_start := now, vo_period_end := pend, vo_last_billed := Some now,
                    vo_released_at := None\<rparr>) (volumes d)\<rparr>
         | None \<Rightarrow> d\<lparr>volumes := sql_insert
             \<lparr>vo_id = next_rowid vo_id (volumes d), vo_renter = renter, vo_size_gb = size_gb, vo_bucket = bucket,
              vo_status = VActive, vo_price = price, vo_rented_at = now, vo_period_start = now,
              vo_period_end = pend, vo_last_billed = Some now, vo_released_at = None\<rparr> (volumes d)\<rparr>)"

definition rentVolume :: "db \<Rightarrow> int \<Rightarrow> js_num \<Rightarrow> int \<Rightarrow> bool \<Rightarrow> bool \<Rightarrow> db \<times> (rent_error + int)" where
  "rentVolume d renter gbs now provision_ok persist_ok =
     (case List.find (\<lambda>s. gbs = Some (of_int s)) VOLUME_SIZES_GB of
        None \<Rightarrow> (d, Inl InvalidSize)
      | Some gb \<Rightarrow>
        if sql_get (\<lambda>v. vo_renter v = renter \<and> vo_status v = VActive) (volumes d) \<noteq> None then (d, Inl AlreadyRented)
        else if activePoolGb d + gb > POOL_CEILING_GB then (d, Inl (PoolFull (max 0 (POOL_CEILING_GB - activePoolGb d))))
        else let price = monthlyHalala gb
             in case debit_balance renter price now d of
                  None \<Rightarrow> (d, Inl (InsufficientFunds (max 0 (balance_of d renter)) price))
                | Some d1 \<Rightarrow>
                  if \<not> provision_ok then (refund_at renter price now d1, Inl ProvisionFailed)
                  else if \<not> persist_ok then (refund_at renter price now d1, Inl RentPersistFailed)
                  else (persist_rental renter gb price now d1, Inr price))"

definition releaseVolume :: "db \<Rightarrow> int \<Rightarrow> int \<Rightarrow> db \<times> bool" where
  "releaseVolume d renter now =
     (case sql_get (\<lambda>v. vo_renter v = renter \<and> vo_status v = VActive) (volumes d) of
        None \<Rightarrow> (d, False)
      | Some v \<Rightarrow> (d\<lparr>volumes := sql_update (\<lambda>x. vo_id x = vo_id v)
          (\<lambda>x. x\<lparr>vo_status := VReleased, vo_released_at := Some now\<rparr>) (volumes d)\<rparr>, True))"

section \<open>The monthly sweep (jobSweep.js)\<close>

definition VOLUME_SUSPEND_GRACE_DAYS :: rat where "VOLUME_SUSPEND_GRACE_DAYS = 7"

text \<open>\<open>julianday\<close> is a binary64 number of days; the difference of two of them is rounded again.\<close>

definition julianday :: "int \<Rightarrow> rat" where
  "julianday t = fl_div (of_int (t + 210866760000000)) 86400000"

definition lapsed_days :: "int \<Rightarrow> volume_row \<Rightarrow> rat" where
  "lapsed_days now v = fl_add (julianday now) (- julianday (vo_period_end v))"

definition volume_due :: "int \<Rightarrow> volume_row \<Rightarrow> bool" where
  "volume_due now v = (vo_status v \<in> {VActive, VSuspended} \<and> sql_datetime (vo_period_end v) \<le> sql_datetime now)"

definition set_volume :: "(volume_row \<Rightarrow> bool) \<Rightarrow> (volume_row \<Rightarrow> volume_row) \<Rightarrow> db \<Rightarrow> db" where
  "set_volume P f d = d\<lparr>volumes := sql_update P f (volumes d)\<rparr>"

definition renewed :: "int \<Rightarrow> volume_row \<Rightarrow> volume_row" where
  "renewed now v = v\<lparr>vo_status := VActive, vo_period_start := vo_period_end v,
     vo_period_end := sql_datetime (vo_period_end v) + 30 * day_ms, vo_last_billed := Some now\<rparr>"

definition bill_one :: "int \<Rightarrow> volume_row \<Rightarrow> db \<Rightarrow> db" where
  "bill_one now v d =
     (let price = max 0 (vo_price v)
      in if vo_status v = VSuspended \<and> lapsed_days now v \<ge> VOLUME_SUSPEND_GRACE_DAYS then
           set_volume (\<lambda>x. vo_id x = vo_id v \<and> vo_status x = VSuspended)
             (\<lambda>x. x\<lparr>vo_status := VReleased, vo_released_at := Some now\<rparr>) d
         else case (if price > 0 then debit_balance (vo_renter v) price now d else Some d) of
           Some d1 \<Rightarrow> set_volume (\<lambda>x. vo_id x = vo_id v) (renewed now) d1
         | None \<Rightarrow>
           if vo_status v = VActive
           then set_volume (\<lambda>x. vo_id x = vo_id v \<and> vo_status x = VActive) (\<lambda>x. x\<lparr>vo_status := VSuspended\<rparr>) d
           else d)"

definition billRenterVolumes :: "int \<Rightarrow> db \<Rightarrow> db" where
  "billRenterVolumes now d = fold (bill_one now) (take 50 (sql_all (volume_due now) (volumes d))) d"

section \<open>The table of volumes\<close>

definition active_gb :: "volume_row \<Rightarrow> int" where
  "active_gb v = (if vo_status v = VActive then vo_size_gb v else 0)"

lemma pool_sum: "activePoolGb d = sum_list (map active_gb (volumes d))"
  by (simp add: activePoolGb_def sql_sum_def sum_list_filter_mono active_gb_def [abs_def])

text \<open>One row per bucket, the bucket of its renter.\<close>

definition volumes_ok :: "db \<Rightarrow> bool" where
  "volumes_ok d = (has_key rn_id (renters d) \<and> has_key vo_id (volumes d) \<and> has_key vo_bucket (volumes d)
     \<and> (\<forall>v\<in>set (volumes d). vo_bucket v = bucketFor (vo_renter v)) \<and> (\<forall>r\<in>set (renters d). 0 \<le> rn_balance r))"

lemma bucket_inj: "bucketFor a = bucketFor b \<Longrightarrow> a = b"
  by (rule dec_inj) (simp add: bucketFor_def)

lemma one_row:
  "volumes_ok d \<Longrightarrow> v \<in> set (volumes d) \<Longrightarrow> w \<in> set (volumes d) \<Longrightarrow> vo_renter v = vo_renter w \<Longrightarrow> v = w"
  unfolding volumes_ok_def by (metis has_key_eq)

definition active_volumes :: "db \<Rightarrow> int \<Rightarrow> volume_row list" where
  "active_volumes d renter = sql_all (\<lambda>v. vo_renter v = renter \<and> vo_status v = VActive) (volumes d)"

lemma active_at_most_one:
  assumes "volumes_ok d"
  shows "length (active_volumes d renter) \<le> 1"
proof -
  have k: "distinct (volumes d)" using assms by (simp add: volumes_ok_def has_key_def distinct_map)
  have dist: "distinct (active_volumes d renter)" unfolding active_volumes_def sql_all_def by (rule distinct_filter [OF k])
  have same: "v = w" if "v \<in> set (active_volumes d renter)" "w \<in> set (active_volumes d renter)" for v w
    using one_row [OF assms, of v w] that by (simp add: active_volumes_def sql_all_def)
  show ?thesis
  proof (cases "active_volumes d renter")
    case (Cons v vs)
    note c = \<open>active_volumes d renter = v # vs\<close>
    show ?thesis
    proof (cases vs)
      case (Cons w ws)
      have "v = w" by (rule same) (simp_all add: c Cons)
      with c Cons dist show ?thesis by simp
    qed (simp add: c)
  qed simp
qed

lemma debit_frame [simp]:
  "debit_balance i a now d = Some d1 \<Longrightarrow> volumes d1 = volumes d"
  by (auto simp: debit_balance_def Let_def split: if_splits)

lemma debit_solvent:
  assumes "debit_balance i a now d = Some d1" "has_key rn_id (renters d)" "\<forall>r\<in>set (renters d). 0 \<le> rn_balance r"
  shows "has_key rn_id (renters d1)" "\<forall>r\<in>set (renters d1). 0 \<le> rn_balance r" "i \<in> rn_id ` set (renters d1)"
proof -
  let ?P = "\<lambda>r. rn_id r = i \<and> rn_balance r \<ge> a"
  let ?f = "\<lambda>r. r\<lparr>rn_balance := rn_balance r - a, rn_updated_at := Some now\<rparr>"
  have d1: "renters d1 = sql_update ?P ?f (renters d)" "sql_changes ?P (renters d) = 1"
    using assms(1) by (auto simp: debit_balance_def Let_def split: if_splits)
  show "has_key rn_id (renters d1)" using assms(2) by (simp add: d1 keyed)
  show "\<forall>r\<in>set (renters d1). 0 \<le> rn_balance r" using assms(3) by (auto simp: d1 set_sql_update)
  have "i \<in> rn_id ` set (renters d)" using d1(2) sql_changes_0 [of ?P "renters d"] by fastforce
  then show "i \<in> rn_id ` set (renters d1)" by (simp add: d1 keyed)
qed

lemma balance_refund_at:
  "i \<in> rn_id ` set (renters d) \<Longrightarrow> balance_of (refund_at i a now d) k = balance_of d k + (if k = i then a else 0)"
proof -
  assume i: "i \<in> rn_id ` set (renters d)"
  have "balance_of (refund_at i a now d) k = (case renter_by_id d k of None \<Rightarrow> 0
      | Some r \<Rightarrow> rn_balance (if rn_id r = i then r\<lparr>rn_balance := rn_balance r + a, rn_updated_at := Some now\<rparr> else r))"
    by (rule balance_update_rows) (simp_all add: refund_at_def)
  moreover have "renter_by_id d i \<noteq> None" using i by (auto simp: renter_by_id_def sql_get_None)
  moreover have "renter_by_id d k = Some r \<Longrightarrow> rn_id r = k" for r unfolding renter_by_id_def by (auto dest: sql_get_Some)
  ultimately show ?thesis by (cases "renter_by_id d k") (auto simp: balance_of_def)
qed

lemma monthly_prices: "monthlyHalala 10 = 188" "monthlyHalala 20 = 375" "monthlyHalala 30 = 563"
  by code_simp+

lemma rentable_sizes:
  "List.find (\<lambda>s. gbs = Some (of_int s)) VOLUME_SIZES_GB = Some gb \<Longrightarrow>
     gb \<in> {10, 20, 30} \<and> gbs = Some (of_int gb) \<and> 0 < monthlyHalala gb"
  by (auto simp: VOLUME_SIZES_GB_def monthly_prices split: if_splits)

text \<open>Writing the rental, for a renter who has no active volume.\<close>

lemma persist_row:
  assumes ok: "volumes_ok d" and none: "\<forall>v\<in>set (volumes d). \<not> (vo_renter v = renter \<and> vo_status v = VActive)"
  shows "volumes_ok (persist_rental renter gb price now d)"
    and "activePoolGb (persist_rental renter gb price now d) = activePoolGb d + gb"
    and "\<exists>v\<in>set (volumes (persist_rental renter gb price now d)). vo_renter v = renter \<and> vo_status v = VActive
       \<and> vo_size_gb v = gb \<and> vo_price v = price \<and> vo_period_end v = now + PERIOD_DAYS * 86400000"
    and "renters (persist_rental renter gb price now d) = renters d"
proof -
  let ?b = "bucketFor renter"
  let ?f = "\<lambda>v. v\<lparr>vo_size_gb := gb, vo_status := VActive, vo_price := price, vo_rented_at := now,
    vo_period_start := now, vo_period_end := now + PERIOD_DAYS * 86400000, vo_last_billed := Some now, vo_released_at := None\<rparr>"
  have "volumes_ok (persist_rental renter gb price now d)
    \<and> activePoolGb (persist_rental renter gb price now d) = activePoolGb d + gb
    \<and> (\<exists>v\<in>set (volumes (persist_rental renter gb price now d)). vo_renter v = renter \<and> vo_status v = VActive
       \<and> vo_size_gb v = gb \<and> vo_price v = price \<and> vo_period_end v = now + PERIOD_DAYS * 86400000)"
  proof (cases "sql_get (\<lambda>v. vo_bucket v = ?b) (volumes d)")
    case (Some prior)
    then have p: "prior \<in> set (volumes d)" "vo_bucket prior = ?b" using sql_get_Some by fastforce+
    then have pr: "vo_renter prior = renter" using ok bucket_inj by (auto simp: volumes_ok_def)
    have g: "active_gb prior = 0" using none p(1) pr by (simp add: active_gb_def)
    have e: "persist_rental renter gb price now d = d\<lparr>volumes := sql_update (\<lambda>v. vo_id v = vo_id prior) ?f (volumes d)\<rparr>"
      using Some by (simp add: persist_rental_def Let_def)
    have k: "has_key vo_id (volumes d)" using ok by (simp add: volumes_ok_def)
    have "volumes_ok (persist_rental renter gb price now d)"
      using ok by (auto simp: volumes_ok_def e has_key_update set_sql_update)
    moreover have "activePoolGb (persist_rental renter gb price now d) = activePoolGb d + gb"
      unfolding pool_sum e using sum_list_update_key0 [OF k p(1), of active_gb ?f] g by (simp add: active_gb_def)
    moreover have "?f prior \<in> set (volumes (persist_rental renter gb price now d))"
      using p(1) by (force simp: e set_sql_update)
    ultimately show ?thesis using pr by (intro conjI bexI [of _ "?f prior"]) auto
  next
    case None
    define v where "v = \<lparr>vo_id = next_rowid vo_id (volumes d), vo_renter = renter, vo_size_gb = gb, vo_bucket = ?b,
        vo_status = VActive, vo_price = price, vo_rented_at = now, vo_period_start = now,
        vo_period_end = now + PERIOD_DAYS * 86400000, vo_last_billed = Some now, vo_released_at = None\<rparr>"
    have e: "persist_rental renter gb price now d = d\<lparr>volumes := sql_insert v (volumes d)\<rparr>"
      using None by (simp add: persist_rental_def Let_def v_def)
    have "?b \<notin> vo_bucket ` set (volumes d)" using None by (auto simp: sql_get_None)
    then have "volumes_ok (persist_rental renter gb price now d)"
      using ok next_rowid_fresh [of vo_id "volumes d"]
      by (auto simp: volumes_ok_def e has_key_def sql_insert_def v_def)
    then show ?thesis by (auto simp: e pool_sum sql_insert_def v_def active_gb_def)
  qed
  then show "volumes_ok (persist_rental renter gb price now d)"
    and "activePoolGb (persist_rental renter gb price now d) = activePoolGb d + gb"
    and "\<exists>v\<in>set (volumes (persist_rental renter gb price now d)). vo_renter v = renter \<and> vo_status v = VActive
       \<and> vo_size_gb v = gb \<and> vo_price v = price \<and> vo_period_end v = now + PERIOD_DAYS * 86400000" by blast+
  show "renters (persist_rental renter gb price now d) = renters d"
    by (simp add: persist_rental_def Let_def split: option.splits)
qed

lemma volumes_ok_money:
  "volumes d' = volumes d \<Longrightarrow> has_key rn_id (renters d') \<Longrightarrow> \<forall>r\<in>set (renters d'). 0 \<le> rn_balance r \<Longrightarrow> volumes_ok d
     \<Longrightarrow> volumes_ok d'"
  by (simp add: volumes_ok_def)

lemma refund_at_solvent:
  assumes "0 \<le> a" "has_key rn_id (renters d)" "\<forall>r\<in>set (renters d). 0 \<le> rn_balance r"
  shows "has_key rn_id (renters (refund_at i a now d))" "\<forall>r\<in>set (renters (refund_at i a now d)). 0 \<le> rn_balance r"
    "volumes (refund_at i a now d) = volumes d"
  using assms by (auto simp: refund_at_def keyed set_sql_update)

lemma pool_cong: "volumes d' = volumes d \<Longrightarrow> activePoolGb d' = activePoolGb d"
  by (simp add: activePoolGb_def)

section \<open>Each operation keeps the table sound\<close>

lemma rent_cases:
  assumes ok: "volumes_ok d" and res: "rentVolume d renter gbs now pk ps = (d', res)"
  shows "volumes_ok d' \<and> (case res of
      Inl e \<Rightarrow> volumes d' = volumes d \<and> (\<forall>k. balance_of d' k = balance_of d k)
    | Inr price \<Rightarrow> \<exists>gb. gbs = Some (of_int gb) \<and> price = monthlyHalala gb \<and> gb \<in> {10, 20, 30}
        \<and> balance_of d' renter = balance_of d renter - price \<and> 0 \<le> balance_of d' renter
        \<and> activePoolGb d' = activePoolGb d + gb \<and> activePoolGb d' \<le> POOL_CEILING_GB
        \<and> (\<exists>v\<in>set (volumes d'). vo_renter v = renter \<and> vo_status v = VActive \<and> vo_size_gb v = gb
             \<and> vo_price v = price \<and> vo_period_end v = now + PERIOD_DAYS * 86400000))"
proof -
  consider (stop) e where "d' = d" "res = Inl e"
    | (paid) gb d1 where "List.find (\<lambda>s. gbs = Some (of_int s)) VOLUME_SIZES_GB = Some gb"
        "sql_get (\<lambda>v. vo_renter v = renter \<and> vo_status v = VActive) (volumes d) = None"
        "activePoolGb d + gb \<le> POOL_CEILING_GB" "debit_balance renter (monthlyHalala gb) now d = Some d1"
        "(d', res) = (if \<not> pk then (refund_at renter (monthlyHalala gb) now d1, Inl ProvisionFailed)
           else if \<not> ps then (refund_at renter (monthlyHalala gb) now d1, Inl RentPersistFailed)
           else (persist_rental renter gb (monthlyHalala gb) now d1, Inr (monthlyHalala gb)))"
    using res by (auto simp: rentVolume_def Let_def not_less split: option.splits if_splits)
  then show ?thesis
  proof cases
    case paid
    note gb = rentable_sizes [OF paid(1)]
    have keys: "has_key rn_id (renters d)" "\<forall>r\<in>set (renters d). 0 \<le> rn_balance r" using ok by (simp_all add: volumes_ok_def)
    note b = balance_debit [OF keys(1) paid(4)] and s = debit_solvent [OF paid(4) keys] and v = debit_frame [OF paid(4)]
    have ok1: "volumes_ok d1" by (rule volumes_ok_money [OF v s(1,2) ok])
    have none: "\<forall>v\<in>set (volumes d1). \<not> (vo_renter v = renter \<and> vo_status v = VActive)"
      using paid(2) by (simp add: v sql_get_None)
    show ?thesis
    proof (cases "pk \<and> ps")
      case True
      note w = persist_row [OF ok1 none, of gb "monthlyHalala gb" now]
      have "balance_of d' k = balance_of d1 k" for k
        using paid(5) True w(4) by (simp add: balance_of_def renter_by_id_def)
      then show ?thesis using paid(3,5) True w gb b pool_cong [OF v] by auto
    next
      case False
      then have "d' = refund_at renter (monthlyHalala gb) now d1" "\<exists>e. res = Inl e" using paid(5) by (auto split: if_splits)
      moreover have "0 \<le> monthlyHalala gb" using gb by simp
      then have "volumes_ok (refund_at renter (monthlyHalala gb) now d1)"
        by (intro volumes_ok_money [OF _ _ _ ok1] refund_at_solvent s(1,2))
      moreover have "volumes (refund_at renter (monthlyHalala gb) now d1) = volumes d" by (simp add: refund_at_def v)
      ultimately show ?thesis using balance_refund_at [OF s(3)] b(1) by auto
    qed
  qed (use ok in simp)
qed

lemma volumes_ok_set:
  assumes "volumes_ok d" "\<And>x. vo_id (f x) = vo_id x" "\<And>x. vo_bucket (f x) = vo_bucket x" "\<And>x. vo_renter (f x) = vo_renter x"
  shows "volumes_ok (set_volume P f d)"
  using assms by (auto simp: volumes_ok_def set_volume_def has_key_update set_sql_update)

lemma release_ok: "volumes_ok d \<Longrightarrow> volumes_ok (fst (releaseVolume d renter now))"
  using volumes_ok_set [of d "\<lambda>x. x\<lparr>vo_status := VReleased, vo_released_at := Some now\<rparr>"]
  by (auto simp: releaseVolume_def set_volume_def split: option.splits)

lemma bill_one_ok: "volumes_ok d \<Longrightarrow> volumes_ok (bill_one now v d)"
proof -
  assume ok: "volumes_ok d"
  have paid: "volumes_ok d1" if "debit_balance i a now d = Some d1" for i a d1
  proof -
    have k: "has_key rn_id (renters d)" "\<forall>r\<in>set (renters d). 0 \<le> rn_balance r" using ok by (simp_all add: volumes_ok_def)
    show ?thesis by (rule volumes_ok_money [OF debit_frame [OF that] debit_solvent(1,2) [OF that k] ok])
  qed
  have s: "volumes_ok (set_volume P (\<lambda>x. x\<lparr>vo_status := st\<rparr>) d)"
    "volumes_ok (set_volume P (\<lambda>x. x\<lparr>vo_status := st, vo_released_at := t\<rparr>) d)"
    "volumes_ok d1 \<Longrightarrow> volumes_ok (set_volume P (renewed now) d1)" for P st t d1
    using ok by (auto intro!: volumes_ok_set simp: renewed_def)
  show ?thesis unfolding bill_one_def Let_def
    using ok s paid by (simp split: option.splits)
qed

lemma bill_ok: "volumes_ok d \<Longrightarrow> volumes_ok (billRenterVolumes now d)"
proof -
  have "volumes_ok d \<Longrightarrow> volumes_ok (fold (bill_one now) vs d)" for vs d
    by (induction vs arbitrary: d) (simp_all add: bill_one_ok)
  then show "volumes_ok d \<Longrightarrow> volumes_ok (billRenterVolumes now d)" by (simp add: billRenterVolumes_def)
qed

datatype volume_event = VRent int js_num int bool bool | VRelease int int | VBill int

fun volume_step :: "db \<Rightarrow> volume_event \<Rightarrow> db" where
  "volume_step d (VRent renter gbs now pk ps) = fst (rentVolume d renter gbs now pk ps)"
| "volume_step d (VRelease renter now) = fst (releaseVolume d renter now)"
| "volume_step d (VBill now) = billRenterVolumes now d"

lemma rent_ok: "volumes_ok d \<Longrightarrow> volumes_ok (fst (rentVolume d renter gbs now pk ps))"
  using rent_cases [of d renter gbs now pk ps] by (cases "rentVolume d renter gbs now pk ps") simp

interpretation volume_table: preserved volume_step volumes_ok
proof
  show "volumes_ok d \<Longrightarrow> volumes_ok (volume_step d e)" for d e
    by (cases e) (simp_all add: release_ok bill_ok rent_ok)
qed

section \<open>What volumes promise\<close>

text \<open>
  A rental is paid for and fits the pool, or nothing happened. On success the renter has been
  charged exactly the monthly price of the size, without going below zero, holds an active volume of
  that size paid for 30 days, and the pool is within its 100 GB. On any refusal, and when the store
  or the database fails after the debit, no volume changed and every balance is what it was.
\<close>

theorem rent_outcome:
  assumes "volumes_ok d" and "rentVolume d renter gbs now provision_ok persist_ok = (d', res)"
  shows "case res of
      Inl e \<Rightarrow> volumes d' = volumes d \<and> (\<forall>k. balance_of d' k = balance_of d k)
    | Inr price \<Rightarrow> \<exists>gb. gbs = Some (of_int gb) \<and> price = monthlyHalala gb \<and> gb \<in> {10, 20, 30}
        \<and> balance_of d' renter = balance_of d renter - price \<and> 0 \<le> balance_of d' renter
        \<and> activePoolGb d' = activePoolGb d + gb \<and> activePoolGb d' \<le> POOL_CEILING_GB
        \<and> (\<exists>v\<in>set (volumes d'). vo_renter v = renter \<and> vo_status v = VActive \<and> vo_size_gb v = gb
             \<and> vo_price v = price \<and> vo_period_end v = now + PERIOD_DAYS * 86400000)"
  using rent_cases [OF assms] by (rule conjunct2)

lemma demo_volumes_ok [simp]: "volumes_ok demo_db"
  by (simp add: volumes_ok_def has_key_def demo_renter_def)

lemma demo_debit: "0 \<le> p \<Longrightarrow> p \<le> 1000 \<Longrightarrow> debit_balance 1 p now demo_db \<noteq> None"
  by (simp add: debit_balance_def Let_def sql_changes_def demo_renter_def)

theorem rent_outcome_witness:
  "\<exists>price. snd (rentVolume demo_db 1 (Some 10) 1000 True True) = Inr price
     \<and> balance_of (fst (rentVolume demo_db 1 (Some 10) 1000 True True)) 1 = 812"
proof -
  obtain d' res where r: "rentVolume demo_db 1 (Some 10) 1000 True True = (d', res)" by fastforce
  have "\<exists>price. res = Inr price" using r demo_debit [of 188 1000]
    by (auto simp: rentVolume_def VOLUME_SIZES_GB_def sql_get_def activePoolGb_def sql_sum_def POOL_CEILING_GB_def monthly_prices)
  then obtain price where p: "res = Inr price" by blast
  from rent_outcome [OF demo_volumes_ok r] have "balance_of d' 1 = 812"
    by (auto simp: p monthly_prices)
  then show ?thesis using r p by simp
qed

text \<open>
  C20: Volumes stay sound. From a sound table, any sequence of rentals, releases and billing sweeps
  leaves every renter with at most one active volume and no renter with a negative balance.
\<close>

theorem volumes_sound:
  assumes "volumes_ok d"
  shows "length (active_volumes (foldl volume_step d es) renter) \<le> 1
     \<and> (\<forall>r\<in>set (renters (foldl volume_step d es)). 0 \<le> rn_balance r)"
  using active_at_most_one volume_table.inv_run_all [OF assms, of es] by (auto simp: volumes_ok_def)

theorem volumes_sound_witness:
  "length (active_volumes (foldl volume_step demo_db [VRent 1 (Some 10) 1000 True True, VBill 9999999999, VRelease 1 99999999999]) 1) \<le> 1"
  by (rule volumes_sound [OF demo_volumes_ok, THEN conjunct1])

definition full_pool :: db where
  "full_pool = demo_db\<lparr>volumes := map (\<lambda>(i, r, gb, st, e).
     \<lparr>vo_id = i, vo_renter = r, vo_size_gb = gb, vo_bucket = bucketFor r, vo_status = st, vo_price = 375, vo_rented_at = 0,
      vo_period_start = 0, vo_period_end = e, vo_last_billed = None, vo_released_at = None\<rparr>)
     [(1, 2, 30, VActive, 99999000), (2, 3, 30, VActive, 99999000), (3, 4, 30, VActive, 99999000), (4, 5, 10, VActive, 99999000),
      (5, 1, 20, VSuspended, 1000)]\<rparr>"

text \<open>
  The sweep can overfill the pool. When a suspended volume is the one that is due, its grace has
  not run out and its renter can pay, the sweep charges and reactivates it whatever the pool holds:
  the active pool grows by its size, past the ceiling that every rental respects.
\<close>

theorem sweep_overfills_pool:
  assumes ok: "volumes_ok d" and due: "sql_all (volume_due now) (volumes d) = [v]" and v: "vo_status v = VSuspended"
    and grace: "lapsed_days now v < VOLUME_SUSPEND_GRACE_DAYS" and paid: "0 < vo_price v" "vo_price v \<le> balance_of d (vo_renter v)"
  shows "activePoolGb (billRenterVolumes now d) = activePoolGb d + vo_size_gb v
     \<and> balance_of (billRenterVolumes now d) (vo_renter v) = balance_of d (vo_renter v) - vo_price v"
proof -
  have k: "has_key rn_id (renters d)" "has_key vo_id (volumes d)" using ok by (simp_all add: volumes_ok_def)
  have "v \<in> set (sql_all (volume_due now) (volumes d))" by (simp add: due)
  then have mem: "v \<in> set (volumes d)" by (simp add: sql_all_def)
  have "renter_by_id d (vo_renter v) \<noteq> None" using paid by (auto simp: balance_of_def split: option.splits)
  then obtain r where r: "renter_by_id d (vo_renter v) = Some r" by blast
  then have rr: "r \<in> set (renters d)" "rn_id r = vo_renter v" "vo_price v \<le> rn_balance r"
    using sql_get_Some [OF r [unfolded renter_by_id_def]] r paid by (simp_all add: balance_of_def)
  have "sql_changes (\<lambda>x. rn_id x = vo_renter v \<and> rn_balance x \<ge> vo_price v) (renters d) = 1"
    using sql_changes_key [where P = "\<lambda>x. rn_balance x \<ge> vo_price v", OF k(1) rr(1,3)] by (simp add: rr(2))
  then obtain d1 where d1: "debit_balance (vo_renter v) (vo_price v) now d = Some d1" by (simp add: debit_balance_def Let_def)
  have e: "billRenterVolumes now d = set_volume (\<lambda>x. vo_id x = vo_id v) (renewed now) d1"
    using v grace paid d1 by (simp add: billRenterVolumes_def due bill_one_def Let_def)
  have "activePoolGb (billRenterVolumes now d) = activePoolGb d + vo_size_gb v"
    unfolding pool_sum e using sum_list_update_key0 [OF k(2) mem, of active_gb "renewed now"] debit_frame [OF d1] v
    by (simp add: set_volume_def active_gb_def renewed_def)
  moreover have "balance_of (billRenterVolumes now d) (vo_renter v) = balance_of d1 (vo_renter v)"
    by (simp add: e set_volume_def balance_of_def renter_by_id_def)
  ultimately show ?thesis using balance_debit(1) [OF k(1) d1] by simp
qed

theorem sweep_overfills_pool_witness:
  "activePoolGb full_pool = POOL_CEILING_GB \<and> activePoolGb (billRenterVolumes 86400000 full_pool) = 120"
proof -
  have b: "bucketFor 1 = ''dcp-vol-r1''" "bucketFor 2 = ''dcp-vol-r2''" "bucketFor 3 = ''dcp-vol-r3''" "bucketFor 4 = ''dcp-vol-r4''"
    "bucketFor 5 = ''dcp-vol-r5''" by code_simp+
  define v where "v = \<lparr>vo_id = 5, vo_renter = 1, vo_size_gb = 20, vo_bucket = bucketFor 1, vo_status = VSuspended, vo_price = 375,
     vo_rented_at = 0, vo_period_start = 0, vo_period_end = 1000, vo_last_billed = None, vo_released_at = None\<rparr>"
  have ok: "volumes_ok full_pool"
    by (simp add: volumes_ok_def has_key_def full_pool_def demo_renter_def b)
  have due: "sql_all (volume_due 86400000) (volumes full_pool) = [v]"
    by (simp add: sql_all_def volume_due_def full_pool_def sql_datetime_def v_def)
  have g: "lapsed_days 86400000 v < VOLUME_SUSPEND_GRACE_DAYS"
  proof -
    have "fl_add (julianday 86400000) (- julianday 1000) < 7" by code_simp
    then show ?thesis by (simp add: lapsed_days_def v_def VOLUME_SUSPEND_GRACE_DAYS_def)
  qed
  have p: "activePoolGb full_pool = 100" by (simp add: activePoolGb_def sql_sum_def full_pool_def)
  have "balance_of full_pool 1 = 1000" by (simp add: balance_of_def renter_by_id_def sql_get_def full_pool_def demo_renter_def)
  with sweep_overfills_pool [OF ok due _ g] p show ?thesis by (simp add: v_def POOL_CEILING_GB_def)
qed

end
