(* ===== verification/JobScheduler.thy ===== *)
theory JobScheduler
  imports Schema Contracts Samples
begin

text \<open>
  \<open>backend/src/services/jobScheduler.js\<close>: eligibility, score and ranking of the providers for a
  job, and the greedy batch assignment. Scores are computed in binary64 as the code does; the clock
  is an argument. The specification at the end says what the best provider is without computing a
  ranking.
\<close>

section \<open>Matching\<close>

definition HEARTBEAT_ONLINE_THRESHOLD_S :: rat where "HEARTBEAT_ONLINE_THRESHOLD_S = 120"
definition HEARTBEAT_DEGRADED_THRESHOLD_S :: rat where "HEARTBEAT_DEGRADED_THRESHOLD_S = 600"

definition GPU_COMPATIBILITY :: "(string \<times> string list) list" where
  "GPU_COMPATIBILITY =
     [(''A100'', [''A100'', ''H100'', ''L40S'', ''RTX4090'']),
      (''H100'', [''H100'', ''A100'', ''L40S'', ''RTX4090'']),
      (''L40S'', [''L40S'', ''A100'', ''H100'', ''RTX4090'']),
      (''RTX4090'', [''RTX4090'', ''A100'', ''H100'', ''L40S'']),
      (''RTX4080'', [''RTX4080'', ''A100'', ''H100'', ''L40S'', ''RTX4090'']),
      (''RTX3090'', [''RTX3090'', ''A100'', ''H100'', ''L40S'', ''RTX4090'', ''RTX4080''])]"

datatype live_status = Online | Degraded | Offline

definition computeProviderStatus :: "int option \<Rightarrow> int \<Rightarrow> live_status" where
  "computeProviderStatus heartbeat now =
     (case heartbeat of None \<Rightarrow> Offline
      | Some t \<Rightarrow> (let age = fl_div (of_int (now - t)) 1000
          in if age < HEARTBEAT_ONLINE_THRESHOLD_S then Online
             else if age < HEARTBEAT_DEGRADED_THRESHOLD_S then Degraded else Offline))"

definition normalizeGpuModel :: "string option \<Rightarrow> string option" where
  "normalizeGpuModel g = (if truthy_str g then Some (strip (map upper_ascii (the g))) else None)"

record gpu_match =
  gm_matched :: bool
  gm_exact :: bool

definition matchGpuType :: "string option \<Rightarrow> string option \<Rightarrow> gpu_match" where
  "matchGpuType wanted has =
     (if \<not> truthy_str wanted then \<lparr>gm_matched = True, gm_exact = True\<rparr>
      else let w = the (normalizeGpuModel wanted); g = normalizeGpuModel has
           in if \<not> truthy_str g then \<lparr>gm_matched = False, gm_exact = False\<rparr>
              else if w = the g then \<lparr>gm_matched = True, gm_exact = True\<rparr>
              else case map_of GPU_COMPATIBILITY w of
                Some ms \<Rightarrow> if the g \<in> set ms then \<lparr>gm_matched = True, gm_exact = False\<rparr>
                           else \<lparr>gm_matched = False, gm_exact = False\<rparr>
              | None \<Rightarrow> \<lparr>gm_matched = False, gm_exact = False\<rparr>)"

definition matchMemoryRequirement :: "rat \<Rightarrow> rat \<Rightarrow> bool" where
  "matchMemoryRequirement need have = (max 0 have \<ge> max 0 need)"

record job_req =
  jr_min_vram :: rat
  jr_gpu :: "string option"
  jr_class :: string

definition provider_vram :: "provider_row \<Rightarrow> rat" where
  "provider_vram p = (case pv_vram_mib p of
       Some m \<Rightarrow> if m \<noteq> 0 then fl_div (of_int m) 1024 else of_int (or0 (pv_vram_gb p))
     | None \<Rightarrow> of_int (or0 (pv_vram_gb p)))"

section \<open>Scores\<close>

text \<open>
  The four parts of a score that are whole numbers, and the two that are not. The query of
  \<open>findMatchingProviders\<close> does not select \<open>model_preload_status\<close>: the row scored is \<open>scored_row\<close>.
\<close>

definition status_score :: "live_status \<Rightarrow> rat" where
  "status_score s = (case s of Online \<Rightarrow> 3000 | Degraded \<Rightarrow> 1500 | Offline \<Rightarrow> 0)"

definition vram_score :: "rat \<Rightarrow> rat \<Rightarrow> rat" where
  "vram_score have need = (let headroom = fl_add have (- need)
     in if headroom > 4 then 1500 else if headroom > 0 then 1200 else 1000)"

definition uptime_score :: "provider_row \<Rightarrow> rat" where
  "uptime_score p = fl_mul (fl_div (max 0 (case pv_uptime p of None \<Rightarrow> 0 | Some u \<Rightarrow> u)) 100) 1500"

definition class_score :: "job_req \<Rightarrow> provider_row \<Rightarrow> rat" where
  "class_score q p = (if to_lower (jr_class q) = ''priority''
       \<and> to_lower (case pv_preload p of None \<Rightarrow> [] | Some s \<Rightarrow> s) = ''ready'' then 500 else 0)"

definition price_score :: "provider_row \<Rightarrow> rat \<Rightarrow> rat" where
  "price_score p global =
     (let price = (case pv_price p of Some n \<Rightarrow> of_int n | None \<Rightarrow> global);
          norm = max 1 (min 100 price)
      in fl_mul (fl_div (fl_add 100 (- norm)) 99) 1000)"

definition scoreProvider :: "int \<Rightarrow> provider_row \<Rightarrow> job_req \<Rightarrow> rat \<Rightarrow> int" where
  "scoreProvider now p q global =
     (let st = computeProviderStatus (pv_last_heartbeat p) now; gpu = matchGpuType (jr_gpu q) (pv_gpu_model p);
          vram = provider_vram p
      in if st = Offline then 0 else if \<not> gm_matched gpu then 0
         else if \<not> matchMemoryRequirement (jr_min_vram q) vram then 0
         else js_round (fl_add (fl_add (fl_add (fl_add (fl_add (status_score st) (if gm_exact gpu then 2000 else 1500))
                (vram_score vram (jr_min_vram q))) (uptime_score p)) (class_score q p)) (price_score p global)))"

section \<open>Ranking\<close>

definition scored_row :: "provider_row \<Rightarrow> provider_row" where
  "scored_row p = p\<lparr>pv_preload := None\<rparr>"

definition candidate :: "provider_row \<Rightarrow> bool" where
  "candidate p = (\<not> pv_is_paused p \<and> pv_status p \<notin> {''offline'', ''banned'', ''suspended'', ''paused''})"

record provider_match =
  pm_provider :: provider_row
  pm_score :: int
  pm_price :: rat

definition effective_price :: "provider_row \<Rightarrow> rat \<Rightarrow> rat" where
  \<comment> \<open>\<open>price_per_min_halala || globalRateHalala\<close>\<close>
  "effective_price p global = (case pv_price p of Some n \<Rightarrow> if n \<noteq> 0 then of_int n else global | None \<Rightarrow> global)"

definition findMatchingProviders :: "int \<Rightarrow> db \<Rightarrow> job_req \<Rightarrow> rat \<Rightarrow> provider_match list" where
  "findMatchingProviders now d q global =
     sort_key (\<lambda>m. - pm_score m) (List.map_filter (\<lambda>p.
        let s = scoreProvider now p q global
        in if s \<le> 0 then None
           else Some \<lparr>pm_provider = p, pm_score = s, pm_price = effective_price p global\<rparr>)
       (map scored_row (sql_all candidate (providers d))))"

definition findBestProvider :: "int \<Rightarrow> db \<Rightarrow> job_req \<Rightarrow> rat \<Rightarrow> provider_match option" where
  "findBestProvider now d q global =
     (case findMatchingProviders now d q global of [] \<Rightarrow> None | m # _ \<Rightarrow> Some m)"

definition findBestProviderJobRouter :: "int \<Rightarrow> db \<Rightarrow> job_req \<Rightarrow> rat \<Rightarrow> (provider_row \<times> rat) option" where
  "findBestProviderJobRouter now d q global =
     map_option (\<lambda>m. (pm_provider m, pm_price m)) (findBestProvider now d q global)"

section \<open>Batches\<close>

datatype assignment = Assigned provider_match | NoMatchingProviders | NoAvailableCapacity

text \<open>\<open>used\<close> are the providers with a job of this batch.\<close>

fun schedule_loop :: "int \<Rightarrow> db \<Rightarrow> rat \<Rightarrow> int list \<Rightarrow> job_req list \<Rightarrow> assignment list" where
  "schedule_loop now d global used [] = []"
| "schedule_loop now d global used (q # qs) =
     (case findMatchingProviders now d q global of
        [] \<Rightarrow> NoMatchingProviders # schedule_loop now d global used qs
      | ms \<Rightarrow> (case List.find (\<lambda>m. pv_id (pm_provider m) \<notin> set used) ms of
          Some m \<Rightarrow> Assigned m # schedule_loop now d global (pv_id (pm_provider m) # used) qs
        | None \<Rightarrow> NoAvailableCapacity # schedule_loop now d global used qs))"

definition scheduleMultipleJobs :: "int \<Rightarrow> db \<Rightarrow> job_req list \<Rightarrow> rat \<Rightarrow> assignment list" where
  "scheduleMultipleJobs now d qs global = schedule_loop now d global [] qs"

section \<open>Specification\<close>

text \<open>
  A provider may take a job when it is not paused or marked out of service, its heartbeat is less
  than ten minutes old, its GPU is the wanted one or a compatible one, and it has the memory. Its
  merit is the score.
\<close>

definition eligible :: "int \<Rightarrow> job_req \<Rightarrow> provider_row \<Rightarrow> bool" where
  "eligible now q p =
     (candidate p \<and> computeProviderStatus (pv_last_heartbeat p) now \<noteq> Offline
      \<and> gm_matched (matchGpuType (jr_gpu q) (pv_gpu_model p)) \<and> matchMemoryRequirement (jr_min_vram q) (provider_vram p))"

definition best_spec :: "int \<Rightarrow> db \<Rightarrow> job_req \<Rightarrow> rat \<Rightarrow> provider_match option \<Rightarrow> bool" where
  "best_spec now d q global r =
     (case r of
        None \<Rightarrow> \<forall>p\<in>set (providers d). \<not> eligible now q p
      | Some m \<Rightarrow> \<exists>p\<in>set (providers d). eligible now q p \<and> pm_provider m = scored_row p
          \<and> pm_score m = scoreProvider now (scored_row p) q global
          \<and> (\<forall>p'\<in>set (providers d). eligible now q p' \<longrightarrow> scoreProvider now (scored_row p') q global \<le> pm_score m))"

lemma fl_add_nonneg: "0 \<le> a \<Longrightarrow> 0 \<le> b \<Longrightarrow> 0 \<le> fl_add a b"
  by (simp add: fl_add_def fl_nonneg)

lemma fl_add_ge: "0 \<le> b \<Longrightarrow> 0 \<le> k \<Longrightarrow> k \<le> 2 ^ 53 \<Longrightarrow> of_int k \<le> a \<Longrightarrow> of_int k \<le> fl_add a b"
proof -
  assume a: "0 \<le> b" "0 \<le> k" "k \<le> 2 ^ 53" "of_int k \<le> a"
  have "fl (of_int k) \<le> fl (a + b)" using a by (intro fl_mono) simp_all
  then show ?thesis using a by (simp add: fl_of_int fl_add_def)
qed

lemma parts_nonneg:
  "0 \<le> uptime_score p" "0 \<le> class_score q p" "0 \<le> price_score p global" "0 \<le> vram_score a b"
  by (simp_all add: uptime_score_def class_score_def price_score_def vram_score_def Let_def fl_ops fl_nonneg split: option.splits)

text \<open>An eligible provider scores at least 1500, any other 0.\<close>

lemma score_positive:
  assumes "candidate p"
  shows "eligible now q p \<longleftrightarrow> 0 < scoreProvider now p q global"
proof (cases "eligible now q p")
  case True
  let ?st = "computeProviderStatus (pv_last_heartbeat p) now" and ?g = "matchGpuType (jr_gpu q) (pv_gpu_model p)"
  have "of_int 1500 \<le> status_score ?st" using True by (auto simp: eligible_def status_score_def split: live_status.splits)
  then have "of_int 1500 \<le> fl_add (fl_add (fl_add (fl_add (fl_add (status_score ?st) (if gm_exact ?g then 2000 else 1500))
      (vram_score (provider_vram p) (jr_min_vram q))) (uptime_score p)) (class_score q p)) (price_score p global)"
    by (intro fl_add_ge parts_nonneg) simp_all
  then have "1500 \<le> js_round (fl_add (fl_add (fl_add (fl_add (fl_add (status_score ?st) (if gm_exact ?g then 2000 else 1500))
      (vram_score (provider_vram p) (jr_min_vram q))) (uptime_score p)) (class_score q p)) (price_score p global))"
    by (simp add: js_round_def le_floor_iff)
  then show ?thesis using True by (simp add: scoreProvider_def Let_def eligible_def)
next
  case False
  then show ?thesis using assms by (auto simp: scoreProvider_def Let_def eligible_def)
qed

lemma scored_row_simps [simp]:
  "candidate (scored_row p) = candidate p" "eligible now q (scored_row p) = eligible now q p" "pv_id (scored_row p) = pv_id p"
  by (cases "pv_vram_mib p"; simp add: scored_row_def candidate_def eligible_def provider_vram_def)+

lemma in_matches:
  "m \<in> set (findMatchingProviders now d q global) \<longleftrightarrow>
     (\<exists>p\<in>set (providers d). eligible now q p \<and> m = \<lparr>pm_provider = scored_row p,
        pm_score = scoreProvider now (scored_row p) q global, pm_price = effective_price (scored_row p) global\<rparr>)"
proof -
  have e: "eligible now q p \<longleftrightarrow> candidate p \<and> 0 < scoreProvider now (scored_row p) q global" for p
  proof (cases "candidate p")
    case True
    with score_positive [of "scored_row p" now q global] show ?thesis by simp
  qed (simp add: eligible_def)
  show ?thesis unfolding e
    by (auto simp: findMatchingProviders_def List.map_filter_def sql_all_def Let_def not_le split: if_splits)
qed

lemma best_provider_meets_spec: "best_spec now d q global (findBestProvider now d q global)"
proof (cases "findMatchingProviders now d q global")
  case Nil
  then have "\<forall>p\<in>set (providers d). \<not> eligible now q p" using in_matches [of _ now d q global] by fastforce
  then show ?thesis using Nil by (simp add: findBestProvider_def best_spec_def)
next
  case (Cons m ms)
  then have m: "m \<in> set (findMatchingProviders now d q global)" by simp
  have "sorted (map (\<lambda>m. - pm_score m) (m # ms))"
    using sorted_sort_key unfolding Cons [symmetric] findMatchingProviders_def by blast
  then have top: "pm_score n \<le> pm_score m" if "n \<in> set (findMatchingProviders now d q global)" for n
    using that Cons by auto
  have "scoreProvider now (scored_row p) q global \<le> pm_score m" if "p \<in> set (providers d)" "eligible now q p" for p
    using top in_matches [of _ now d q global] that by fastforce
  then show ?thesis using m Cons unfolding in_matches by (auto simp: findBestProvider_def best_spec_def)
qed

section \<open>No provider twice in a batch\<close>

definition assigned_ids :: "assignment list \<Rightarrow> int list" where
  "assigned_ids as = List.map_filter (\<lambda>a. case a of Assigned m \<Rightarrow> Some (pv_id (pm_provider m)) | _ \<Rightarrow> None) as"

lemma assigned_ids_simps [simp]:
  "assigned_ids [] = []" "assigned_ids (Assigned m # as) = pv_id (pm_provider m) # assigned_ids as"
  "assigned_ids (NoMatchingProviders # as) = assigned_ids as" "assigned_ids (NoAvailableCapacity # as) = assigned_ids as"
  by (simp_all add: assigned_ids_def List.map_filter_simps)

lemma schedule_loop_distinct:
  "distinct (assigned_ids (schedule_loop now d global used qs))
   \<and> set (assigned_ids (schedule_loop now d global used qs)) \<inter> set used = {}"
proof (induction qs arbitrary: used)
  case (Cons q qs)
  show ?case
  proof (cases "List.find (\<lambda>m. pv_id (pm_provider m) \<notin> set used) (findMatchingProviders now d q global)")
    case None
    then show ?thesis using Cons [of used] by (auto split: list.splits)
  next
    case (Some m)
    then have "pv_id (pm_provider m) \<notin> set used" using sql_get_Some [unfolded sql_get_def] by fastforce
    then show ?thesis using Cons [of "pv_id (pm_provider m) # used"] Some by (auto split: list.splits)
  qed
qed simp

lemma batch_distinct: "distinct (assigned_ids (scheduleMultipleJobs now d qs global))"
  using schedule_loop_distinct [of now d global "[]" qs] by (simp add: scheduleMultipleJobs_def)

section \<open>What the scheduler promises\<close>

text \<open>
  C21: The scheduler implements its specification. The provider it returns for a job is one that may
  take it, with its score, and no provider that may take it scores more; when it returns none, no
  provider may take the job. The score is the rounded binary64 sum, the ranking a stable sort.
\<close>

theorem best_provider_refines_spec: "best_spec now d q global (findBestProvider now d q global)"
  by (rule best_provider_meets_spec)

end
