(* ===== verification/JobQueue.thy ===== *)
theory JobQueue
  imports JobScheduler
begin

text \<open>
  \<open>backend/src/services/jobQueue.js\<close>: assigning a job to the best provider, the in-memory retry
  queue with its ten minute limit, and the events providers post. The queue is a JavaScript Map:
  an association list in insertion order, where setting an existing key keeps its place.
\<close>

section \<open>State and operations\<close>

definition RETRY_INTERVAL_MS :: int where "RETRY_INTERVAL_MS = 30000"
definition MAX_WAIT_MS :: int where "MAX_WAIT_MS = 10 * 60 * 1000"

record queue_entry =
  qe_job :: string
  qe_at :: int                     \<comment> \<open>\<open>enqueuedAt\<close>\<close>
  qe_attempts :: nat
  qe_req :: job_req

record queue_state =
  qs_db :: db
  qs_queue :: "queue_entry list"

definition update_job :: "string \<Rightarrow> (job_row \<Rightarrow> job_row) \<Rightarrow> db \<Rightarrow> db" where
  "update_job job f d = d\<lparr>jobs := sql_update (\<lambda>j. jb_job_id j = job) f (jobs d)\<rparr>"

definition job_of :: "db \<Rightarrow> string \<Rightarrow> job_row option" where
  "job_of d job = sql_get (\<lambda>j. jb_job_id j = job) (jobs d)"

datatype assign_result = NotAssigned | AlreadyAssigned provider_match | NowAssigned provider_match

definition tryAssign :: "int \<Rightarrow> string \<Rightarrow> job_req \<Rightarrow> db \<Rightarrow> db \<times> assign_result" where
  "tryAssign now job q d =
     (case findBestProvider now d q 10 of
        None \<Rightarrow> (d, NotAssigned)
      | Some m \<Rightarrow>
        (case job_of d job of
           Some j \<Rightarrow>
             (case jb_provider j of
                Some p \<Rightarrow> if p \<noteq> 0 then (d, AlreadyAssigned m)
                   else (update_job job (\<lambda>j. j\<lparr>jb_provider := Some (pv_id (pm_provider m)), jb_status := JPending, jb_updated_at := Some now\<rparr>) d, NowAssigned m)
              | None \<Rightarrow> (update_job job (\<lambda>j. j\<lparr>jb_provider := Some (pv_id (pm_provider m)), jb_status := JPending, jb_updated_at := Some now\<rparr>) d, NowAssigned m))
         | None \<Rightarrow> (update_job job (\<lambda>j. j\<lparr>jb_provider := Some (pv_id (pm_provider m)), jb_status := JPending, jb_updated_at := Some now\<rparr>) d, NowAssigned m)))"

fun map_set :: "queue_entry \<Rightarrow> queue_entry list \<Rightarrow> queue_entry list" where
  "map_set e [] = [e]"
| "map_set e (x # xs) = (if qe_job x = qe_job e then e # xs else x # map_set e xs)"

definition map_delete :: "string \<Rightarrow> queue_entry list \<Rightarrow> queue_entry list" where
  "map_delete job q = filter (\<lambda>e. qe_job e \<noteq> job) q"

definition enqueueJob :: "int \<Rightarrow> string \<Rightarrow> job_req \<Rightarrow> queue_state \<Rightarrow> queue_state \<times> bool" where
  "enqueueJob now job q s =
     (case tryAssign now job q (qs_db s) of
        (d, NotAssigned) \<Rightarrow>
          (s\<lparr>qs_db := update_job job (\<lambda>j. j\<lparr>jb_status := JQueued, jb_updated_at := Some now\<rparr>) d,
             qs_queue := map_set \<lparr>qe_job = job, qe_at = now, qe_attempts = 1, qe_req = q\<rparr> (qs_queue s)\<rparr>, False)
      | (d, _) \<Rightarrow> (s\<lparr>qs_db := d\<rparr>, True))"

definition EXPIRED_NOTE :: string where
  "EXPIRED_NOTE = ''no provider available after 10 minutes; job timed out''"

text \<open>
  One pass over the Map: the entries that stay, in order. Deleting the current key during the
  iteration does not disturb it.
\<close>

fun retry_loop :: "int \<Rightarrow> queue_entry list \<Rightarrow> db \<Rightarrow> db \<times> queue_entry list" where
  "retry_loop now [] d = (d, [])"
| "retry_loop now (e # es) d =
     (if now - qe_at e \<ge> MAX_WAIT_MS then
        retry_loop now es (update_job (qe_job e)
          (\<lambda>j. j\<lparr>jb_status := JFailed, jb_notes := Some EXPIRED_NOTE, jb_updated_at := Some now\<rparr>) d)
      else case tryAssign now (qe_job e) (qe_req e) d of
          (d1, NotAssigned) \<Rightarrow> (case retry_loop now es d1 of (d2, q) \<Rightarrow> (d2, e\<lparr>qe_attempts := qe_attempts e + 1\<rparr> # q))
        | (d1, _) \<Rightarrow> retry_loop now es d1)"

definition processRetryQueue :: "int \<Rightarrow> queue_state \<Rightarrow> queue_state" where
  "processRetryQueue now s = (case retry_loop now (qs_queue s) (qs_db s) of (d, q) \<Rightarrow> s\<lparr>qs_db := d, qs_queue := q\<rparr>)"

section \<open>Provider events\<close>

definition EVENT_STATUS_MAP :: "(string \<times> job_status) list" where
  "EVENT_STATUS_MAP =
     [(''job_started'', JRunning), (''job_running'', JRunning), (''job_done'', JCompleted),
      (''job_completed'', JCompleted), (''container_exit'', JCompleted), (''job_failed'', JFailed),
      (''error_report'', JFailed)]"

datatype event_result =
  MissingEvent | Unrecognized string | MissingJobId | JobNotFound | SkippedTerminal job_status | StatusUpdated job_status

text \<open>The event's \<open>provider_id\<close> is read and not used. \<open>msg\<close> is \<open>payload.error\<close> when it is a string.\<close>

definition handleProviderEvent ::
    "int \<Rightarrow> string option \<Rightarrow> string option \<Rightarrow> int option \<Rightarrow> string option \<Rightarrow> queue_state \<Rightarrow> queue_state \<times> event_result" where
  "handleProviderEvent now event job provider msg s =
     (if \<not> truthy_str event then (s, MissingEvent)
      else case map_of EVENT_STATUS_MAP (to_lower (the event)) of None \<Rightarrow> (s, Unrecognized (the event))
      | Some st \<Rightarrow>
        if \<not> truthy_str job then (s, MissingJobId)
        else case job_of (qs_db s) (the job) of None \<Rightarrow> (s, JobNotFound)
        | Some j \<Rightarrow>
          if jb_status j \<in> {JFailed, JCompleted} \<and> st \<notin> {JFailed, JCompleted} then (s, SkippedTerminal (jb_status j))
          else (s\<lparr>qs_db := update_job (the job) (\<lambda>x. x\<lparr>jb_status := st, jb_updated_at := Some now,
                    jb_completed_at := (if st = JCompleted then Some now else jb_completed_at x),
                    jb_started_at := (if st = JRunning then Some now else jb_started_at x),
                    jb_notes := coalesce msg (jb_notes x)\<rparr>) (qs_db s),
                  qs_queue := map_delete (the job) (qs_queue s)\<rparr>, StatusUpdated st))"

section \<open>Runs\<close>

text \<open>
  The outside world, heartbeats, new jobs, stops, is any change of the database.
\<close>

datatype queue_event =
  QEnqueue int string job_req
| QTick int
| QProvider int "string option" "string option" "int option" "string option"
| QWorld "db \<Rightarrow> db"

fun queue_step :: "queue_state \<Rightarrow> queue_event \<Rightarrow> queue_state" where
  "queue_step s (QEnqueue now job q) = fst (enqueueJob now job q s)"
| "queue_step s (QTick now) = processRetryQueue now s"
| "queue_step s (QProvider now event job provider msg) = fst (handleProviderEvent now event job provider msg s)"
| "queue_step s (QWorld f) = s\<lparr>qs_db := f (qs_db s)\<rparr>"

text \<open>A job that waits, and the enqueues of it that a tick at \<open>now\<close> finds too old.\<close>

definition waiting :: "queue_state \<Rightarrow> string \<Rightarrow> bool" where
  "waiting s job = (job \<in> set (map qe_job (qs_queue s)))"

fun expired_by :: "int \<Rightarrow> string \<Rightarrow> queue_event \<Rightarrow> bool" where
  "expired_by now job (QEnqueue t j _) = (j \<noteq> job \<or> t + MAX_WAIT_MS \<le> now)"
| "expired_by now job _ = True"

section \<open>One pass\<close>

lemma job_of_update:
  assumes "\<And>j. jb_job_id (f j) = jb_job_id j"
  shows "job_of (update_job k f d) job = map_option (\<lambda>j. if job = k then f j else j) (job_of d job)"
proof -
  have "job_of (update_job k f d) job = map_option (\<lambda>j. if jb_job_id j = k then f j else j) (job_of d job)"
    unfolding job_of_def update_job_def by (simp, rule sql_get_update) (simp add: assms)
  moreover have "job_of d job = Some j \<Longrightarrow> jb_job_id j = job" for j unfolding job_of_def by (auto dest: sql_get_Some)
  ultimately show ?thesis by (cases "job_of d job") auto
qed

lemma tryAssign_other: "k \<noteq> job \<Longrightarrow> job_of (fst (tryAssign now k q d)) job = job_of d job"
  by (simp add: tryAssign_def job_of_update option.map_ident split: option.splits)

lemma retry_other: "job \<notin> set (map qe_job q) \<Longrightarrow> job_of (fst (retry_loop now q d)) job = job_of d job"
proof (induction now q d rule: retry_loop.induct)
  case (2 now e es d)
  show ?case
  proof (cases "now - qe_at e \<ge> MAX_WAIT_MS")
    case True
    with 2 show ?thesis by (simp add: job_of_update option.map_ident)
  next
    case False
    obtain d1 r where t: "tryAssign now (qe_job e) (qe_req e) d = (d1, r)" by fastforce
    have "qe_job e \<noteq> job" using "2.prems" by auto
    then have "job_of d1 job = job_of d job" using tryAssign_other [of "qe_job e" job now "qe_req e" d] t by simp
    moreover obtain d2 q2 where "retry_loop now es d1 = (d2, q2)" by fastforce
    ultimately show ?thesis using 2 False t by (cases r) simp_all
  qed
qed simp

lemma retry_stays:
  "e \<in> set (snd (retry_loop now q d)) \<Longrightarrow>
     \<exists>e0\<in>set q. qe_job e = qe_job e0 \<and> qe_at e = qe_at e0 \<and> now - qe_at e0 < MAX_WAIT_MS"
proof (induction now q d rule: retry_loop.induct)
  case (2 now x es d)
  show ?case
  proof (cases "now - qe_at x \<ge> MAX_WAIT_MS")
    case True
    with 2 show ?thesis by auto
  next
    case False
    obtain d1 r where t: "tryAssign now (qe_job x) (qe_req x) d = (d1, r)" by fastforce
    show ?thesis using 2 False t by (cases r) (auto split: prod.splits)
  qed
qed simp

lemma retry_distinct:
  "distinct (map qe_job q) \<Longrightarrow> distinct (map qe_job (snd (retry_loop now q d)))"
proof (induction now q d rule: retry_loop.induct)
  case (2 now x es d)
  show ?case
  proof (cases "now - qe_at x \<ge> MAX_WAIT_MS")
    case True
    with 2 show ?thesis by simp
  next
    case False
    obtain d1 r where t: "tryAssign now (qe_job x) (qe_req x) d = (d1, r)" by fastforce
    have "qe_job x \<notin> qe_job ` set (snd (retry_loop now es d1))"
      using "2.prems" retry_stays [of _ now es d1] by fastforce
    with 2 False t show ?thesis by (cases r) (auto split: prod.splits)
  qed
qed simp

text \<open>What a pass does to a waiting job's row: it does not look at the row's status.\<close>

lemma retry_expires:
  assumes "distinct (map qe_job q)" "e \<in> set q" "now - qe_at e \<ge> MAX_WAIT_MS" "job_of d (qe_job e) = Some j"
  shows "job_of (fst (retry_loop now q d)) (qe_job e)
    = Some (j\<lparr>jb_status := JFailed, jb_notes := Some EXPIRED_NOTE, jb_updated_at := Some now\<rparr>)"
  using assms
proof (induction now q d rule: retry_loop.induct)
  case (2 now x es d)
  show ?case
  proof (cases "x = e")
    case True
    with "2.prems" show ?thesis by (auto simp: retry_other job_of_update)
  next
    case False
    with "2.prems" have ne: "qe_job x \<noteq> qe_job e" and e: "e \<in> set es" "distinct (map qe_job es)" by force+
    obtain d1 r where t: "tryAssign now (qe_job x) (qe_req x) d = (d1, r)" by fastforce
    have "job_of d1 (qe_job e) = Some j" using tryAssign_other [OF ne, of now "qe_req x" d] t "2.prems" by simp
    with 2 False ne e t show ?thesis by (cases r) (auto simp: job_of_update split: prod.splits)
  qed
qed simp

lemma best_provider_cong: "providers d' = providers d \<Longrightarrow> findBestProvider now d' q g = findBestProvider now d q g"
  by (simp add: findBestProvider_def findMatchingProviders_def)

lemma tryAssign_providers: "providers (fst (tryAssign now k q d)) = providers d"
  by (simp add: tryAssign_def update_job_def split: option.splits)

text \<open>A cancelled, even a completed job that still waits is assigned and set back to pending.\<close>

lemma retry_revives:
  assumes "distinct (map qe_job q)" "e \<in> set q" "now - qe_at e < MAX_WAIT_MS" "job_of d (qe_job e) = Some j"
    "jb_provider j = None" "findBestProvider now d (qe_req e) 10 = Some m"
  shows "job_of (fst (retry_loop now q d)) (qe_job e)
    = Some (j\<lparr>jb_provider := Some (pv_id (pm_provider m)), jb_status := JPending, jb_updated_at := Some now\<rparr>)"
  using assms
proof (induction now q d rule: retry_loop.induct)
  case (2 now x es d)
  obtain d1 r where t: "tryAssign now (qe_job x) (qe_req x) d = (d1, r)" by fastforce
  show ?case
  proof (cases "x = e")
    case True
    then have new: "job_of d1 (qe_job e) = Some (j\<lparr>jb_provider := Some (pv_id (pm_provider m)), jb_status := JPending, jb_updated_at := Some now\<rparr>)"
      and r: "r = NowAssigned m" using t "2.prems" by (auto simp: tryAssign_def job_of_update)
    have "qe_job e \<notin> set (map qe_job es)" using "2.prems"(1) True by simp
    from retry_other [OF this, of now d1] show ?thesis using new r t True "2.prems"(3) by simp
  next
    case False
    with "2.prems" have ne: "qe_job x \<noteq> qe_job e" and e: "e \<in> set es" "distinct (map qe_job es)" by force+
    show ?thesis
    proof (cases "now - qe_at x \<ge> MAX_WAIT_MS")
      case True
      let ?d1 = "update_job (qe_job x) (\<lambda>j. j\<lparr>jb_status := JFailed, jb_notes := Some EXPIRED_NOTE, jb_updated_at := Some now\<rparr>) d"
      have "findBestProvider now ?d1 (qe_req e) 10 = Some m" "job_of ?d1 (qe_job e) = Some j"
        using best_provider_cong [of ?d1 d now "qe_req e" 10] "2.prems" ne by (simp_all add: update_job_def job_of_update [unfolded update_job_def])
      then show ?thesis using 2(1) [OF True e(2,1)] "2.prems" True by simp
    next
      case young: False
      have p: "findBestProvider now d1 (qe_req e) 10 = Some m" "job_of d1 (qe_job e) = Some j"
        using best_provider_cong [of d1 d] tryAssign_providers [of now "qe_job x" "qe_req x" d] tryAssign_other [OF ne, of now "qe_req x" d]
          t "2.prems" by simp_all
      obtain d2 q2 where "retry_loop now es d1 = (d2, q2)" by fastforce
      then show ?thesis using 2(2-) young e p t "2.prems" by (cases r) auto
    qed
  qed
qed simp

section \<open>The queue over time\<close>

definition queue_ok :: "int \<Rightarrow> string \<Rightarrow> queue_state \<Rightarrow> bool" where
  "queue_ok now job s = (distinct (map qe_job (qs_queue s))
     \<and> (\<forall>e\<in>set (qs_queue s). qe_job e = job \<longrightarrow> qe_at e + MAX_WAIT_MS \<le> now))"

lemma map_set_keys: "distinct (map qe_job q) \<Longrightarrow> distinct (map qe_job (map_set e q))
   \<and> set (map_set e q) \<subseteq> insert e (set q)
   \<and> qe_job ` set (map_set e q) = insert (qe_job e) (qe_job ` set q)"
  by (induction q) auto

lemma queue_ok_step: "queue_ok now job s \<Longrightarrow> expired_by now job ev \<Longrightarrow> queue_ok now job (queue_step s ev)"
proof (cases ev)
  case (QEnqueue t k q)
  assume a: "queue_ok now job s" "expired_by now job ev"
  obtain d r where t: "tryAssign t k q (qs_db s) = (d, r)" by fastforce
  let ?e = "\<lparr>qe_job = k, qe_at = t, qe_attempts = 1, qe_req = q\<rparr>"
  have "distinct (map qe_job (map_set ?e (qs_queue s)))" and sub: "set (map_set ?e (qs_queue s)) \<subseteq> insert ?e (set (qs_queue s))"
    using map_set_keys [of "qs_queue s" ?e] a(1) by (simp_all add: queue_ok_def)
  moreover have "qe_at x + MAX_WAIT_MS \<le> now" if x: "x \<in> set (map_set ?e (qs_queue s))" "qe_job x = job" for x
    using subsetD [OF sub x(1)] x(2) a QEnqueue by (auto simp: queue_ok_def)
  ultimately have "queue_ok now job (s\<lparr>qs_db := d2, qs_queue := map_set ?e (qs_queue s)\<rparr>)" for d2
    unfolding queue_ok_def by simp
  moreover have "queue_ok now job (s\<lparr>qs_db := d2\<rparr>)" for d2 using a(1) by (simp add: queue_ok_def)
  ultimately show ?thesis using t QEnqueue by (cases r) (simp_all add: enqueueJob_def)
next
  case (QTick t)
  assume a: "queue_ok now job s"
  obtain d q where t: "retry_loop t (qs_queue s) (qs_db s) = (d, q)" by fastforce
  have "distinct (map qe_job q)" using retry_distinct [of "qs_queue s" t "qs_db s"] a t by (simp add: queue_ok_def)
  moreover have "\<forall>e\<in>set q. qe_job e = job \<longrightarrow> qe_at e + MAX_WAIT_MS \<le> now"
    using retry_stays [of _ t "qs_queue s" "qs_db s"] a t by (fastforce simp: queue_ok_def)
  ultimately show ?thesis using t QTick by (simp add: processRetryQueue_def queue_ok_def)
next
  case (QProvider t event k p msg)
  assume a: "queue_ok now job s"
  have "queue_ok now job (s\<lparr>qs_db := d, qs_queue := map_delete x (qs_queue s)\<rparr>)" for d x
    using a by (auto simp: queue_ok_def map_delete_def distinct_map_filter)
  with a QProvider show ?thesis by (auto simp: handleProviderEvent_def split: option.splits)
qed (auto simp: queue_ok_def)

lemma queue_ok_run: "queue_ok now job s \<Longrightarrow> list_all (expired_by now job) es \<Longrightarrow> queue_ok now job (foldl queue_step s es)"
  by (induction es arbitrary: s) (auto intro: queue_ok_step)

text \<open>
  C22: The retry queue keeps its promise that no job waits for ever. Start with an empty queue, let
  jobs be enqueued, ticks run, provider events arrive and anything else change the database, in
  any order; a tick ten minutes or more after the last time a job was enqueued leaves it out of the
  queue, and a job that was still waiting then is failed.
\<close>

theorem no_job_waits_forever:
  assumes "list_all (expired_by now job) es" "s = foldl queue_step \<lparr>qs_db = d, qs_queue = []\<rparr> es"
  shows "\<not> waiting (queue_step s (QTick now)) job
    \<and> (waiting s job \<and> job_of (qs_db s) job \<noteq> None \<longrightarrow>
         map_option jb_status (job_of (qs_db (queue_step s (QTick now))) job) = Some JFailed)"
proof (intro conjI impI)
  have ok: "queue_ok now job s" unfolding assms(2) by (rule queue_ok_run [OF _ assms(1)]) (simp add: queue_ok_def)
  obtain d' q where t: "retry_loop now (qs_queue s) (qs_db s) = (d', q)" by fastforce
  show "\<not> waiting (queue_step s (QTick now)) job"
    using retry_stays [of _ now "qs_queue s" "qs_db s"] ok t
    by (fastforce simp: waiting_def processRetryQueue_def queue_ok_def)
  assume w: "waiting s job \<and> job_of (qs_db s) job \<noteq> None"
  then obtain e j where e: "e \<in> set (qs_queue s)" "qe_job e = job" "job_of (qs_db s) job = Some j" by (auto simp: waiting_def)
  then show "map_option jb_status (job_of (qs_db (queue_step s (QTick now))) job) = Some JFailed"
    using retry_expires [of "qs_queue s" e now "qs_db s" j] ok t
    by (auto simp: queue_ok_def processRetryQueue_def)
qed

definition queue_request :: job_req where
  "queue_request = \<lparr>jr_min_vram = 24, jr_gpu = None, jr_class = ''standard''\<rparr>"

definition demo_waiting :: queue_state where
  "demo_waiting = foldl queue_step \<lparr>qs_db = demo_db\<lparr>providers := [], jobs := [demo_job]\<rparr>, qs_queue = []\<rparr>
     [QEnqueue 0 ''job-1'' queue_request, QTick 30000]"

theorem no_job_waits_forever_witness:
  "waiting demo_waiting ''job-1'' \<and> \<not> waiting (queue_step demo_waiting (QTick 600000)) ''job-1''
   \<and> map_option jb_status (job_of (qs_db (queue_step demo_waiting (QTick 600000))) ''job-1'') = Some JFailed"
proof -
  have "tryAssign now k q d = (d, NotAssigned)" if "providers d = []" for now k q d
    using that by (simp add: tryAssign_def findBestProvider_def findMatchingProviders_def sql_all_def List.map_filter_def)
  then have w: "waiting demo_waiting ''job-1'' \<and> job_of (qs_db demo_waiting) ''job-1'' \<noteq> None"
    by (simp add: demo_waiting_def enqueueJob_def processRetryQueue_def MAX_WAIT_MS_def waiting_def job_of_update
        update_job_def job_of_def sql_get_def sql_update_def)
  with no_job_waits_forever [of 600000 "''job-1''" "[QEnqueue 0 ''job-1'' queue_request, QTick 30000]" demo_waiting
      "demo_db\<lparr>providers := [], jobs := [demo_job]\<rparr>"]
  show ?thesis by (simp add: demo_waiting_def MAX_WAIT_MS_def)
qed

end
