(* ===== verification/JobHolds.thy ===== *)
theory JobHolds
  imports JobQueue Wallet
begin

text \<open>
  \<open>backend/src/services/jobDispatchService.js\<close>: a job's estimated cost is held, not taken, when it
  is dispatched; completion debits the actual cost and closes the hold, failure frees it. The
  queue's state is threaded through \<open>dispatch\<close>, since it hands the job on to \<open>enqueueJob\<close>.
\<close>

section \<open>Operations\<close>

definition held :: "db \<Rightarrow> int \<Rightarrow> int" where
  "held d renter = sql_sum (\<lambda>h. hd_renter h = renter \<and> hd_status h = HHeld) hd_amount (holds d)"

record available =
  av_balance :: int
  av_reserved :: int
  av_available :: int

definition getAvailableBalance :: "db \<Rightarrow> int \<Rightarrow> available option" where
  "getAvailableBalance d renter =
     (case renter_by_id d renter of None \<Rightarrow> None
      | Some r \<Rightarrow> Some \<lparr>av_balance = rn_balance r, av_reserved = held d renter, av_available = rn_balance r - held d renter\<rparr>)"

datatype dispatch_result =
  InvalidCost | RenterNotFound | InsufficientCredits int int | HoldConflict | Dispatched bool string

text \<open>
  \<open>uuid\<close> is the random id of a new hold. \<open>job_id\<close> is UNIQUE in \<open>credit_holds\<close>: a job that has a
  closed hold, or another renter's, makes the insert throw.
\<close>

definition place_hold :: "int \<Rightarrow> string \<Rightarrow> int \<Rightarrow> string \<Rightarrow> int \<Rightarrow> db \<Rightarrow> (db \<times> string) option" where
  "place_hold now uuid renter job est d =
     (case sql_get (\<lambda>h. hd_job h = job \<and> hd_renter h = renter \<and> hd_status h = HHeld) (holds d) of
        Some h \<Rightarrow> Some (d, hd_id h)
      | None \<Rightarrow>
          if list_ex (\<lambda>h. hd_job h = job \<or> hd_id h = uuid) (holds d) then None
          else Some (d\<lparr>holds := sql_insert \<lparr>hd_id = uuid, hd_renter = renter, hd_job = job, hd_amount = est,
                 hd_status = HHeld, hd_actual = None, hd_created_at = now, hd_resolved_at = None\<rparr> (holds d)\<rparr>, uuid))"

definition dispatch ::
    "int \<Rightarrow> string \<Rightarrow> int \<Rightarrow> string \<Rightarrow> int \<Rightarrow> job_req \<Rightarrow> queue_state \<Rightarrow> queue_state \<times> dispatch_result" where
  "dispatch now uuid renter job est q s =
     (if est < 0 then (s, InvalidCost)
      else case getAvailableBalance (qs_db s) renter of None \<Rightarrow> (s, RenterNotFound)
      | Some a \<Rightarrow>
        if av_available a < est then (s, InsufficientCredits (av_available a) (est - av_available a))
        else case place_hold now uuid renter job est (qs_db s) of None \<Rightarrow> (s, HoldConflict)
        | Some (d, i) \<Rightarrow> (case enqueueJob now job q (s\<lparr>qs_db := d\<rparr>) of (s', assigned) \<Rightarrow> (s', Dispatched assigned i)))"

record hold_outcome =
  ho_settled :: bool
  ho_actual :: int
  ho_refunded :: int

definition close_hold :: "string \<Rightarrow> hold_status \<Rightarrow> int \<Rightarrow> int \<Rightarrow> db \<Rightarrow> db" where
  "close_hold i st actual now d =
     d\<lparr>holds := sql_update (\<lambda>h. hd_id h = i)
         (\<lambda>h. h\<lparr>hd_status := st, hd_actual := Some actual, hd_resolved_at := Some now\<rparr>) (holds d)\<rparr>"

definition completeJob :: "int \<Rightarrow> string \<Rightarrow> int \<Rightarrow> db \<Rightarrow> db \<times> hold_outcome" where
  "completeJob now job actual d =
     (case sql_get (\<lambda>h. hd_job h = job \<and> hd_status h = HHeld) (holds d) of
        None \<Rightarrow> (d, \<lparr>ho_settled = False, ho_actual = actual, ho_refunded = 0\<rparr>)
      | Some h \<Rightarrow>
        (let cost = max 0 actual;
             d1 = (if cost > 0 then
                 d\<lparr>renters := sql_update (\<lambda>r. rn_id r = hd_renter h)
                     (\<lambda>r. r\<lparr>rn_balance := rn_balance r - cost, rn_updated_at := Some now\<rparr>) (renters d)\<rparr> else d)
         in (close_hold (hd_id h) HSettled cost now d1,
             \<lparr>ho_settled = True, ho_actual = cost, ho_refunded = max 0 (hd_amount h - cost)\<rparr>)))"

definition failJob :: "int \<Rightarrow> string \<Rightarrow> db \<Rightarrow> db \<times> hold_outcome" where
  "failJob now job d =
     (case sql_get (\<lambda>h. hd_job h = job \<and> hd_status h = HHeld) (holds d) of
        None \<Rightarrow> (d, \<lparr>ho_settled = False, ho_actual = 0, ho_refunded = 0\<rparr>)
      | Some h \<Rightarrow> (close_hold (hd_id h) HReleased 0 now d, \<lparr>ho_settled = True, ho_actual = 0, ho_refunded = hd_amount h\<rparr>))"

definition getHold :: "db \<Rightarrow> string \<Rightarrow> hold_row option" where
  "getHold d job = sql_get (\<lambda>h. hd_job h = job) (holds d)"

section \<open>Runs\<close>

datatype hold_event =
  HDispatch int string int string int job_req
| HTick int
| HComplete int string int
| HFail int string

fun hold_step :: "queue_state \<Rightarrow> hold_event \<Rightarrow> queue_state" where
  "hold_step s (HDispatch now uuid renter job est q) = fst (dispatch now uuid renter job est q s)"
| "hold_step s (HTick now) = processRetryQueue now s"
| "hold_step s (HComplete now job actual) = s\<lparr>qs_db := fst (completeJob now job actual (qs_db s))\<rparr>"
| "hold_step s (HFail now job) = s\<lparr>qs_db := fst (failJob now job (qs_db s))\<rparr>"

text \<open>No completion asks for more than the job's hold: the service does not check it.\<close>

fun within_hold :: "queue_state \<Rightarrow> hold_event \<Rightarrow> bool" where
  "within_hold s (HComplete now job actual) =
     (case sql_get (\<lambda>h. hd_job h = job \<and> hd_status h = HHeld) (holds (qs_db s)) of
        None \<Rightarrow> True | Some h \<Rightarrow> actual \<le> hd_amount h)"
| "within_hold s _ = True"

fun all_within :: "queue_state \<Rightarrow> hold_event list \<Rightarrow> bool" where
  "all_within s [] = True"
| "all_within s (e # es) = (within_hold s e \<and> all_within (hold_step s e) es)"

definition checked_step :: "queue_state \<Rightarrow> hold_event \<Rightarrow> queue_state" where
  "checked_step s e = (if within_hold s e then hold_step s e else s)"

text \<open>What a renter has promised is covered by what the renter has.\<close>

definition holds_ok :: "db \<Rightarrow> bool" where
  "holds_ok d = (has_key rn_id (renters d) \<and> has_key hd_id (holds d)
     \<and> (\<forall>h\<in>set (holds d). 0 \<le> hd_amount h)
     \<and> (\<forall>r\<in>set (renters d). held d (rn_id r) \<le> rn_balance r))"

section \<open>The queue leaves the books alone\<close>

lemma update_job_tables [simp]:
  "renters (update_job k f d) = renters d" "holds (update_job k f d) = holds d" "providers (update_job k f d) = providers d"
  by (simp_all add: update_job_def)

lemma tryAssign_tables [simp]:
  "renters (fst (tryAssign now k q d)) = renters d" "holds (fst (tryAssign now k q d)) = holds d"
  by (simp_all add: tryAssign_def split: option.splits)

lemma enqueue_tables [simp]:
  "renters (qs_db (fst (enqueueJob now k q s))) = renters (qs_db s)"
  "holds (qs_db (fst (enqueueJob now k q s))) = holds (qs_db s)"
proof -
  obtain d r where t: "tryAssign now k q (qs_db s) = (d, r)" by fastforce
  with tryAssign_tables [of now k q "qs_db s"] show "renters (qs_db (fst (enqueueJob now k q s))) = renters (qs_db s)"
    "holds (qs_db (fst (enqueueJob now k q s))) = holds (qs_db s)"
    by (cases r; simp add: enqueueJob_def)+
qed

lemma retry_tables:
  "renters (fst (retry_loop now q d)) = renters d \<and> holds (fst (retry_loop now q d)) = holds d"
proof (induction now q d rule: retry_loop.induct)
  case (2 now e es d)
  obtain d1 r where t: "tryAssign now (qe_job e) (qe_req e) d = (d1, r)" by fastforce
  obtain d2 q2 where "retry_loop now es d1 = (d2, q2)" by fastforce
  with 2 t tryAssign_tables [of now "qe_job e" "qe_req e" d] show ?case by (cases r) auto
qed simp

lemma tick_tables [simp]:
  "renters (qs_db (processRetryQueue now s)) = renters (qs_db s)" "holds (qs_db (processRetryQueue now s)) = holds (qs_db s)"
  using retry_tables [of now "qs_queue s" "qs_db s"]
  by (cases "retry_loop now (qs_queue s) (qs_db s)"; simp add: processRetryQueue_def)+

lemma holds_ok_cong: "renters d' = renters d \<Longrightarrow> holds d' = holds d \<Longrightarrow> holds_ok d' = holds_ok d"
  by (simp add: holds_ok_def held_def)

section \<open>Holds stay covered\<close>

lemma sql_sum_update:
  "has_key key rows \<Longrightarrow> r \<in> set rows \<Longrightarrow> sql_sum P g (sql_update (\<lambda>x. key x = key r) f rows)
     = sql_sum P g rows - (if P r then g r else 0) + (if P (f r) then g (f r) else 0)"
  using sum_list_update_key0 [of key rows r "\<lambda>x. if P x then g x else 0" f]
  by (simp add: sql_sum_def sum_list_filter_mono)

lemma held_close:
  assumes "has_key hd_id (holds d)" "h \<in> set (holds d)" "hd_status h = HHeld" "st \<noteq> HHeld"
  shows "held (close_hold (hd_id h) st a now d) i = held d i - (if i = hd_renter h then hd_amount h else 0)"
  using sql_sum_update [OF assms(1,2), of "\<lambda>h. hd_renter h = i \<and> hd_status h = HHeld" hd_amount
      "\<lambda>h. h\<lparr>hd_status := st, hd_actual := Some a, hd_resolved_at := Some now\<rparr>"] assms(3,4)
  by (simp add: held_def close_hold_def)

lemma close_tables [simp]: "renters (close_hold i st a now d) = renters d"
  by (simp add: close_hold_def)

lemma close_ok_parts:
  "has_key hd_id (holds d) \<Longrightarrow> has_key hd_id (holds (close_hold i st a now d))"
  "\<forall>h\<in>set (holds d). 0 \<le> hd_amount h \<Longrightarrow> \<forall>h\<in>set (holds (close_hold i st a now d)). 0 \<le> hd_amount h"
  by (auto simp: close_hold_def has_key_update set_sql_update)

lemma failJob_ok: "holds_ok d \<Longrightarrow> holds_ok (fst (failJob now job d))"
proof (cases "sql_get (\<lambda>h. hd_job h = job \<and> hd_status h = HHeld) (holds d)")
  case (Some h)
  assume ok: "holds_ok d"
  from sql_get_Some [OF Some] have h: "h \<in> set (holds d)" "hd_status h = HHeld" by simp_all
  have "0 \<le> hd_amount h" using ok h by (simp add: holds_ok_def)
  then have "held (close_hold (hd_id h) HReleased 0 now d) i \<le> held d i" for i
    using held_close [OF _ h, of HReleased 0 now i] ok by (simp add: holds_ok_def)
  then have "\<forall>r\<in>set (renters d). held (close_hold (hd_id h) HReleased 0 now d) (rn_id r) \<le> rn_balance r"
    using ok unfolding holds_ok_def by (meson order_trans)
  then show ?thesis using ok Some close_ok_parts [of d] unfolding holds_ok_def failJob_def by simp
qed (simp add: failJob_def)

lemma completeJob_ok:
  assumes ok: "holds_ok d"
    and w: "\<And>h. sql_get (\<lambda>h. hd_job h = job \<and> hd_status h = HHeld) (holds d) = Some h \<Longrightarrow> actual \<le> hd_amount h"
  shows "holds_ok (fst (completeJob now job actual d))"
proof (cases "sql_get (\<lambda>h. hd_job h = job \<and> hd_status h = HHeld) (holds d)")
  case None
  then show ?thesis using ok by (simp add: completeJob_def)
next
  case (Some h)
  from sql_get_Some [OF Some] have h: "h \<in> set (holds d)" "hd_status h = HHeld" by simp_all
  have c: "0 \<le> hd_amount h" "max 0 actual \<le> hd_amount h" using ok h w [OF Some] by (simp_all add: holds_ok_def)
  let ?R = "if max 0 actual > 0 then sql_update (\<lambda>r. rn_id r = hd_renter h)
      (\<lambda>r. r\<lparr>rn_balance := rn_balance r - max 0 actual, rn_updated_at := Some now\<rparr>) (renters d) else renters d"
  let ?d1 = "d\<lparr>renters := ?R\<rparr>"
  have d: "fst (completeJob now job actual d) = close_hold (hd_id h) HSettled (max 0 actual) now ?d1"
    using Some by (simp add: completeJob_def Let_def)
  have heldle: "held (close_hold (hd_id h) HSettled (max 0 actual) now ?d1) i
      = held d i - (if i = hd_renter h then hd_amount h else 0)" for i
    using held_close [of ?d1 h HSettled "max 0 actual" now i] h ok by (simp add: holds_ok_def held_def)
  have "held d (rn_id r) - (if rn_id r = hd_renter h then hd_amount h else 0) \<le> rn_balance r" if "r \<in> set ?R" for r
    using that ok c by (force simp: holds_ok_def set_sql_update split: if_splits)
  moreover have "has_key rn_id ?R" using ok by (simp add: holds_ok_def has_key_update)
  ultimately show ?thesis unfolding d using ok close_ok_parts [of ?d1] heldle by (simp add: holds_ok_def)
qed

lemma place_hold_ok:
  assumes "holds_ok d" "place_hold now uuid renter job est d = Some (d', i)" "0 \<le> est"
    and "renter_by_id d renter = Some r" "est \<le> rn_balance r - held d renter"
  shows "holds_ok d' \<and> renters d' = renters d"
proof (cases "sql_get (\<lambda>h. hd_job h = job \<and> hd_renter h = renter \<and> hd_status h = HHeld) (holds d)")
  case (Some h)
  then show ?thesis using assms by (simp add: place_hold_def)
next
  case None
  let ?h = "\<lparr>hd_id = uuid, hd_renter = renter, hd_job = job, hd_amount = est, hd_status = HHeld, hd_actual = None,
      hd_created_at = now, hd_resolved_at = None\<rparr>"
  have d': "d' = d\<lparr>holds := sql_insert ?h (holds d)\<rparr>" and new: "uuid \<notin> set (map hd_id (holds d))"
    using assms(2) None by (auto simp: place_hold_def list_ex_iff split: if_splits)
  have held: "held d' k = held d k + (if k = renter then est else 0)" for k
    by (simp add: d' held_def sql_sum_def sql_insert_def)
  have r: "r \<in> set (renters d)" "rn_id r = renter"
    using assms(4) unfolding renter_by_id_def by (auto dest: sql_get_Some)
  have "held d' (rn_id x) \<le> rn_balance x" if x: "x \<in> set (renters d)" for x
  proof (cases "rn_id x = renter")
    case True
    then have "x = r" using has_key_eq [of rn_id "renters d" x r] assms(1) r x by (simp add: holds_ok_def)
    then show ?thesis using assms(5) held r by simp
  next
    case False
    then show ?thesis using assms(1) x held by (simp add: holds_ok_def)
  qed
  moreover have "has_key hd_id (holds d')" using assms(1) new by (simp add: d' holds_ok_def has_key_insert)
  ultimately show ?thesis using assms(1,3) by (auto simp: holds_ok_def d' sql_insert_def)
qed

lemma dispatch_ok: "holds_ok (qs_db s) \<Longrightarrow> holds_ok (qs_db (fst (dispatch now uuid renter job est q s)))"
proof -
  assume ok: "holds_ok (qs_db s)"
  show ?thesis
  proof (cases "est < 0 \<or> renter_by_id (qs_db s) renter = None")
    case True
    then show ?thesis using ok by (auto simp: dispatch_def getAvailableBalance_def)
  next
    case False
    then obtain r where r: "renter_by_id (qs_db s) renter = Some r" and e: "0 \<le> est" by auto
    show ?thesis
    proof (cases "rn_balance r - held (qs_db s) renter < est")
      case True
      then show ?thesis using ok r e by (simp add: dispatch_def getAvailableBalance_def)
    next
      case av: False
      show ?thesis
      proof (cases "place_hold now uuid renter job est (qs_db s)")
        case None
        then show ?thesis using ok r e av by (simp add: dispatch_def getAvailableBalance_def)
      next
        case (Some x)
        then obtain d i where p: "place_hold now uuid renter job est (qs_db s) = Some (d, i)" by (cases x) auto
        have "holds_ok d" using place_hold_ok [OF ok p e r] av by simp
        moreover have "holds_ok (qs_db (fst (enqueueJob now job q (s\<lparr>qs_db := d\<rparr>)))) = holds_ok d"
          by (rule holds_ok_cong) simp_all
        ultimately show ?thesis using r e av p by (cases "enqueueJob now job q (s\<lparr>qs_db := d\<rparr>)") (simp add: dispatch_def getAvailableBalance_def)
      qed
    qed
  qed
qed

interpretation job_holds: preserved checked_step "\<lambda>s. holds_ok (qs_db s)"
proof
  fix s :: queue_state and e assume ok: "holds_ok (qs_db s)"
  show "holds_ok (qs_db (checked_step s e))"
  proof (cases e)
    case (HTick now)
    moreover have "holds_ok (qs_db (processRetryQueue now s)) = holds_ok (qs_db s)" by (rule holds_ok_cong) simp_all
    ultimately show ?thesis using ok by (simp add: checked_step_def)
  next
    case (HComplete now job actual)
    then show ?thesis using ok completeJob_ok [OF ok, of job actual now] by (auto simp: checked_step_def split: option.splits)
  qed (use ok dispatch_ok failJob_ok in \<open>simp_all add: checked_step_def\<close>)
qed

lemma checked_run: "all_within s es \<Longrightarrow> foldl hold_step s es = foldl checked_step s es"
  by (induction es arbitrary: s) (simp_all add: checked_step_def)

section \<open>What the holds promise\<close>

text \<open>
  C23: No renter promises more than the renter has. Starting from books in which every renter's
  open holds are covered by the balance, dispatches, retry ticks, completions and failures in any
  order leave them covered, provided no completion asks for more than its job's hold. The service
  does not enforce that proviso: it is what its callers must do.
\<close>

theorem holds_stay_covered:
  assumes "holds_ok (qs_db s)" "all_within s es"
    and "renter_by_id (qs_db (foldl hold_step s es)) i = Some r"
  shows "held (qs_db (foldl hold_step s es)) i \<le> rn_balance r"
proof -
  have "holds_ok (qs_db (foldl hold_step s es))"
    unfolding checked_run [OF assms(2)] by (rule job_holds.inv_run_all [OF assms(1)])
  moreover have "r \<in> set (renters (qs_db (foldl hold_step s es)))" "rn_id r = i"
    using assms(3) unfolding renter_by_id_def by (auto dest: sql_get_Some)
  ultimately show ?thesis by (auto simp: holds_ok_def)
qed

definition demo_queue :: queue_state where
  "demo_queue = \<lparr>qs_db = demo_db\<lparr>providers := [], jobs := [demo_job]\<rparr>, qs_queue = []\<rparr>"

definition demo_holds :: "hold_event list" where
  "demo_holds = [HDispatch 0 ''u'' 1 ''job-1'' 90 queue_request, HTick 30000, HComplete 60000 ''job-1'' 60]"

lemma no_providers: "providers d = [] \<Longrightarrow> tryAssign now k q d = (d, NotAssigned)"
  by (simp add: tryAssign_def findBestProvider_def findMatchingProviders_def sql_all_def List.map_filter_def)

lemma demo_holds_run:
  "all_within demo_queue demo_holds" "balance_of (qs_db (foldl hold_step demo_queue demo_holds)) 1 = 940"
  by (simp_all add: demo_holds_def demo_queue_def dispatch_def getAvailableBalance_def place_hold_def enqueueJob_def
      no_providers processRetryQueue_def MAX_WAIT_MS_def completeJob_def close_hold_def held_def renter_by_id_def balance_of_def
      sql_get_def sql_sum_def sql_insert_def sql_update_def demo_renter_def Let_def)

theorem holds_stay_covered_witness:
  "all_within demo_queue demo_holds \<and> balance_of (qs_db (foldl hold_step demo_queue demo_holds)) 1 = 940
   \<and> held (qs_db (foldl hold_step demo_queue demo_holds)) 1 \<le> 940"
proof -
  let ?d = "qs_db (foldl hold_step demo_queue demo_holds)"
  obtain r where r: "renter_by_id ?d 1 = Some r" "rn_balance r = 940"
    using demo_holds_run(2) unfolding balance_of_def by (auto split: option.splits)
  have "holds_ok (qs_db demo_queue)"
    by (simp add: demo_queue_def holds_ok_def held_def sql_sum_def has_key_def demo_renter_def)
  from holds_stay_covered [OF this demo_holds_run(1) r(1)] show ?thesis using r demo_holds_run by simp
qed

end
