(* ===== verification/Pricing.thy ===== *)
theory Pricing
  imports Prelude
begin

text \<open>
  \<open>backend/src/services/pricingService.js\<close> with its table \<open>backend/src/config/pricing.js\<close>: what a job
  costs by GPU model or, without one, by job type. All products and quotients are binary64. The
  exchange rate is the default of the environment variable.
\<close>

section \<open>Tables\<close>

definition SAR_USD_RATE :: rat where "SAR_USD_RATE = 15 / 4"

record gpu_rate =
  gr_models :: "string list"
  gr_per_hour_usd :: rat
  gr_per_second_usd :: rat

text \<open>The rates are the binary64 values of the literals.\<close>

definition GPU_RATE_TABLE :: "gpu_rate list" where
  "GPU_RATE_TABLE =
     [\<lparr>gr_models = [''h200''], gr_per_hour_usd = fl 2.45, gr_per_second_usd = fl 0.000681\<rparr>,
      \<lparr>gr_models = [''h100''], gr_per_hour_usd = fl 1.89, gr_per_second_usd = fl 0.000525\<rparr>,
      \<lparr>gr_models = [''a100''], gr_per_hour_usd = fl 1.2, gr_per_second_usd = fl 0.000333\<rparr>,
      \<lparr>gr_models = [''rtx 4090'', ''rtx4090'', ''geforce rtx 4090''], gr_per_hour_usd = fl 0.267,
       gr_per_second_usd = fl 0.0000742\<rparr>,
      \<lparr>gr_models = [''rtx 4080'', ''rtx4080'', ''geforce rtx 4080''], gr_per_hour_usd = fl 0.178,
       gr_per_second_usd = fl 0.0000494\<rparr>,
      \<lparr>gr_models = [''rtx 3090'', ''rtx3090'', ''geforce rtx 3090''], gr_per_hour_usd = fl 0.134,
       gr_per_second_usd = fl 0.0000372\<rparr>,
      \<lparr>gr_models = [''rtx 3080'', ''rtx3080'', ''geforce rtx 3080''], gr_per_hour_usd = fl 0.089,
       gr_per_second_usd = fl 0.0000247\<rparr>]"

definition default_rate :: gpu_rate where
  "default_rate = \<lparr>gr_models = [''default''], gr_per_hour_usd = fl 0.089, gr_per_second_usd = fl 0.0000247\<rparr>"

definition PRICING_CLASS_MULTIPLIERS :: "(string \<times> rat) list" where
  "PRICING_CLASS_MULTIPLIERS = [(''priority'', fl 1.2), (''standard'', 1), (''economy'', fl 0.9)]"

definition JOB_TYPE_RATES :: "(string \<times> int) list" where
  "JOB_TYPE_RATES =
     [(''llm-inference'', 9), (''llm_inference'', 9), (''training'', 7), (''rendering'', 10),
      (''image_generation'', 10), (''vllm_serve'', 9), (''rag-pipeline'', 15), (''custom_container'', 7),
      (''interactive_pod'', 2), (''default'', 6)]"

definition STORAGE_RATE :: rat where "STORAGE_RATE = 50"
definition BANDWIDTH_RATE :: rat where "BANDWIDTH_RATE = 10"

section \<open>Rates\<close>

definition resolveGpuRate :: "string option \<Rightarrow> gpu_rate" where
  "resolveGpuRate g =
     (if \<not> truthy_str g then default_rate
      else let l = strip (to_lower (the g))
           in case List.find (\<lambda>e. list_ex (\<lambda>p. is_substring p l) (gr_models e)) GPU_RATE_TABLE of
                None \<Rightarrow> default_rate | Some e \<Rightarrow> e)"

record rate_view =
  rv_per_hour_sar :: rat
  rv_per_min_halala :: int

definition getRate :: "string option \<Rightarrow> rate_view" where
  "getRate g =
     (let e = resolveGpuRate g; sar = fl (to_fixed 4 (fl_mul (gr_per_hour_usd e) SAR_USD_RATE))
      in \<lparr>rv_per_hour_sar = sar, rv_per_min_halala = \<lceil>fl_div (fl_mul sar 100) 60\<rceil>\<rparr>)"

definition normalizePricingClass :: "string option \<Rightarrow> string" where
  "normalizePricingClass v =
     (let n = to_lower (strip (case v of None \<Rightarrow> [] | Some s \<Rightarrow> s))
      in if n \<in> {''priority'', ''standard'', ''economy''} then n else ''standard'')"

definition multiplier :: "string \<Rightarrow> rat" where
  "multiplier c = (case map_of PRICING_CLASS_MULTIPLIERS c of None \<Rightarrow> 1 | Some m \<Rightarrow> m)"

definition base_rate :: "string \<Rightarrow> int" where
  "base_rate ty = (case map_of JOB_TYPE_RATES ty of Some r \<Rightarrow> r | None \<Rightarrow> 6)"

section \<open>Costs\<close>

definition gpu_cost :: "string option \<Rightarrow> rat \<Rightarrow> string \<Rightarrow> int" where
  "gpu_cost g secs cls =
     \<lceil>fl_mul (fl_mul (fl_mul (fl_mul (gr_per_second_usd (resolveGpuRate g)) secs) SAR_USD_RATE) 100) (multiplier cls)\<rceil>"

definition type_cost :: "string \<Rightarrow> rat \<Rightarrow> string \<Rightarrow> int" where
  "type_cost ty secs cls = \<lceil>fl_mul (fl_mul (of_int (base_rate ty)) (fl_div secs 60)) (multiplier cls)\<rceil>"

text \<open>The \<open>estimated_halala\<close> of an estimate.\<close>

definition estimateCost :: "string option \<Rightarrow> rat \<Rightarrow> string \<Rightarrow> string \<Rightarrow> int" where
  "estimateCost g secs cls ty = (if truthy_str g then gpu_cost g secs cls else type_cost ty secs cls)"

definition calculateCostHalala :: "string option \<Rightarrow> rat \<Rightarrow> string \<Rightarrow> string \<Rightarrow> int" where
  "calculateCostHalala g minutes cls ty = estimateCost g (fl_mul minutes 60) cls ty"

record three_cost =
  tc_compute :: int
  tc_storage :: int
  tc_bandwidth :: int
  tc_total :: int

definition estimateThreeComponentCost :: "string option \<Rightarrow> rat \<Rightarrow> int \<Rightarrow> int \<Rightarrow> string \<Rightarrow> string \<Rightarrow> three_cost" where
  "estimateThreeComponentCost g secs gbs bytes cls ty =
     (let compute = (if truthy_str g then gpu_cost g secs cls else type_cost ty secs cls);
          storage = \<lceil>fl_mul (fl_div (of_int gbs) (30 * 24 * 3600)) STORAGE_RATE\<rceil>;
          bandwidth = \<lceil>fl_mul (fl_div (of_int bytes) (1024 * 1024 * 1024)) BANDWIDTH_RATE\<rceil>
      in \<lparr>tc_compute = compute, tc_storage = storage, tc_bandwidth = bandwidth, tc_total = compute + storage + bandwidth\<rparr>)"

definition calculateThreeComponentCost :: "string option \<Rightarrow> rat \<Rightarrow> int \<Rightarrow> int \<Rightarrow> string \<Rightarrow> string \<Rightarrow> int" where
  "calculateThreeComponentCost g secs gbs bytes cls ty = tc_total (estimateThreeComponentCost g secs gbs bytes cls ty)"

section \<open>What a cost is\<close>

lemma multiplier_cases: "multiplier c = fl 1.2 \<or> multiplier c = 1 \<or> multiplier c = fl 0.9"
  by (auto simp: multiplier_def PRICING_CLASS_MULTIPLIERS_def split: option.splits if_splits)

lemma multiplier_nonneg: "0 \<le> multiplier c"
  using multiplier_cases [of c] fl_nonneg [of "1.2"] fl_nonneg [of "0.9"] by auto

lemma base_rate_bounds: "2 \<le> base_rate ty \<and> base_rate ty \<le> 15"
  by (auto simp: base_rate_def JOB_TYPE_RATES_def split: option.splits if_splits)

lemma fl_mul_nonneg: "0 \<le> a \<Longrightarrow> 0 \<le> b \<Longrightarrow> 0 \<le> fl_mul a b"
  by (simp add: fl_mul_def fl_nonneg)

lemma fl_mul_mono:
  assumes "0 \<le> c" "0 \<le> a" "a \<le> b"
  shows "fl_mul c a \<le> fl_mul c b" "fl_mul a c \<le> fl_mul b c"
  unfolding fl_mul_def using assms by (auto intro!: fl_mono mult_left_mono mult_right_mono)

lemma rate_nonneg: "0 \<le> gr_per_second_usd (resolveGpuRate g)"
proof -
  have "0 \<le> gr_per_second_usd e" if "e \<in> insert default_rate (set GPU_RATE_TABLE)" for e
    using that by (auto simp: GPU_RATE_TABLE_def default_rate_def fl_nonneg)
  moreover have "resolveGpuRate g \<in> insert default_rate (set GPU_RATE_TABLE)"
    by (auto simp: resolveGpuRate_def Let_def split: option.splits dest: sql_get_Some [unfolded sql_get_def])
  ultimately show ?thesis by blast
qed

lemma type_cost_nonneg: "0 \<le> secs \<Longrightarrow> 0 \<le> type_cost ty secs cls"
proof -
  assume "0 \<le> secs"
  then have "0 \<le> fl_mul (fl_mul (of_int (base_rate ty)) (fl_div secs 60)) (multiplier cls)"
    using base_rate_bounds [of ty] by (intro fl_mul_nonneg multiplier_nonneg) (simp_all add: fl_div_def fl_nonneg)
  then show ?thesis by (simp add: type_cost_def)
qed

lemma gpu_cost_nonneg: "0 \<le> secs \<Longrightarrow> 0 \<le> gpu_cost g secs cls"
proof -
  assume "0 \<le> secs"
  then have "0 \<le> fl_mul (fl_mul (fl_mul (fl_mul (gr_per_second_usd (resolveGpuRate g)) secs) SAR_USD_RATE) 100) (multiplier cls)"
    by (intro fl_mul_nonneg multiplier_nonneg rate_nonneg) (simp_all add: SAR_USD_RATE_def)
  then show ?thesis by (simp add: gpu_cost_def)
qed

lemma estimate_nonneg: "0 \<le> secs \<Longrightarrow> 0 \<le> estimateCost g secs cls ty"
  by (simp add: estimateCost_def type_cost_nonneg gpu_cost_nonneg)

text \<open>Longer never costs less, rounding included.\<close>

lemma type_cost_mono: "0 \<le> a \<Longrightarrow> a \<le> b \<Longrightarrow> type_cost ty a cls \<le> type_cost ty b cls"
proof -
  assume ab: "0 \<le> a" "a \<le> b"
  have d: "0 \<le> fl_div a 60" "fl_div a 60 \<le> fl_div b 60" unfolding fl_div_def using ab by (auto intro!: fl_mono fl_nonneg)
  have "fl_mul (fl_mul (of_int (base_rate ty)) (fl_div a 60)) (multiplier cls)
      \<le> fl_mul (fl_mul (of_int (base_rate ty)) (fl_div b 60)) (multiplier cls)"
    using base_rate_bounds [of ty] d by (intro fl_mul_mono multiplier_nonneg fl_mul_nonneg) simp_all
  then show ?thesis by (simp add: type_cost_def ceiling_mono)
qed

text \<open>The standard price of whole minutes by job type is exact.\<close>

lemma type_cost_minutes:
  assumes "0 \<le> m" "m \<le> 10 ^ 9"
  shows "type_cost ty (of_int (60 * m)) ''standard'' = base_rate ty * m"
proof -
  have d: "fl_div (of_int (60 * m)) 60 = of_int m" using assms by (simp add: fl_div_def fl_of_int)
  have "0 \<le> base_rate ty * m" "base_rate ty * m \<le> 15 * 10 ^ 9"
    using assms base_rate_bounds [of ty] by (auto intro: mult_mono [of _ 15 m "10 ^ 9", simplified])
  then have "fl_mul (of_int (base_rate ty)) (of_int m) = of_int (base_rate ty * m)"
    unfolding fl_mul_def of_int_mult [symmetric] by (intro fl_of_int) simp
  moreover have "multiplier ''standard'' = 1" by (simp add: multiplier_def PRICING_CLASS_MULTIPLIERS_def)
  ultimately show ?thesis unfolding type_cost_def d
    using \<open>0 \<le> base_rate ty * m\<close> \<open>base_rate ty * m \<le> 15 * 10 ^ 9\<close> by (simp add: fl_mul_def fl_of_int flip: of_int_mult)
qed

lemma three_cost_nonneg:
  assumes "0 \<le> secs" "0 \<le> gbs" "0 \<le> bytes"
  shows "0 \<le> tc_total (estimateThreeComponentCost g secs gbs bytes cls ty)"
proof -
  have "0 \<le> \<lceil>fl_mul (fl_div (of_int n) k) r\<rceil>" if "0 \<le> n" "0 \<le> k" "0 \<le> r" for n :: int and k r
    using fl_mul_nonneg [of "fl_div (of_int n) k" r] that by (simp add: fl_div_def fl_nonneg)
  from this [of gbs "30 * 24 * 3600" STORAGE_RATE] this [of bytes "1024 * 1024 * 1024" BANDWIDTH_RATE] show ?thesis
    using assms type_cost_nonneg [of secs ty cls] gpu_cost_nonneg [of secs g cls]
    by (simp add: estimateThreeComponentCost_def Let_def STORAGE_RATE_def BANDWIDTH_RATE_def)
qed

end
