(* ===== verification/JobRoutes.thy ===== *)
theory JobRoutes
  imports JobHolds PodBooks Pricing
begin

text \<open>
  The job lifecycle of \<open>backend/src/routes/jobs.js\<close>: submission against the balance, the daemon's
  poll, its result report, completion, failure and cancellation, and the second pair of routes
  (\<open>POST /api/jobs\<close>, \<open>PATCH\<close>) that works with credit holds. A request is the record of the fields
  its handler reads, after the shape checks of the schema; the ids its keys resolve to are the
  record \<open>caller\<close>. Mails, webhooks, lifecycle events and the on-chain escrow change no table
  modelled here. \<open>jobs\<close> has no \<open>gpu_model\<close> column, so the meter of a finished job always prices by
  job type. Durations are whole minutes.
\<close>

section \<open>Requests\<close>

record caller =
  ca_admin :: bool
  ca_provider :: "int option"
  ca_renter :: "int option"

definition by_provider :: "caller \<Rightarrow> job_row \<Rightarrow> bool" where
  "by_provider c j = (ca_admin c \<or> (ca_provider c \<noteq> None \<and> ca_provider c = jb_provider j))"

definition by_renter :: "caller \<Rightarrow> job_row \<Rightarrow> bool" where
  "by_renter c j = (ca_admin c \<or> (ca_renter c \<noteq> None \<and> ca_renter c = jb_renter j))"

definition find_job :: "db \<Rightarrow> job_ref \<Rightarrow> job_row option" where
  "find_job d i = sql_get (refers i) (jobs d)"

definition toFiniteNumber :: "js_num \<Rightarrow> rat \<Rightarrow> rat option \<Rightarrow> rat option" where
  "toFiniteNumber v lo hi =
     (case v of None \<Rightarrow> None
      | Some x \<Rightarrow> if x < lo \<or> (case hi of None \<Rightarrow> False | Some h \<Rightarrow> x > h) then None else Some x)"

definition toFiniteInt :: "js_num \<Rightarrow> rat \<Rightarrow> rat option \<Rightarrow> int option" where
  "toFiniteInt v lo hi =
     (case toFiniteNumber v lo hi of None \<Rightarrow> None | Some x \<Rightarrow> if of_int \<lfloor>x\<rfloor> = x then Some \<lfloor>x\<rfloor> else None)"

datatype route_answer =
  NoJob | Forbidden | WrongState job_status | BadDuration int | Crashed
| Retried int int | Settled int int int | Refunded int | Done

section \<open>Meter and split\<close>

definition elapsed_meter :: "job_row \<Rightarrow> int \<Rightarrow> int" where
  "elapsed_meter j now =
     (case coalesce (jb_started_at j) (jb_submitted_at j) of
        Some t \<Rightarrow> max 1 \<lceil>fl_div (of_int (now - t)) 1000\<rceil>
      | None \<Rightarrow> or_default (jb_duration_minutes j) 1 * 60)"

definition meter :: "job_row \<Rightarrow> rat \<Rightarrow> int \<Rightarrow> int \<Rightarrow> three_cost" where
  "meter j secs gbs bytes = estimateThreeComponentCost None secs gbs bytes (normalizePricingClass (jb_class j)) (jb_type j)"

record bill_split =
  bs_provider :: int
  bs_fee :: int

definition splitBilling :: "int \<Rightarrow> bill_split" where
  "splitBilling total_cost =
     (let dc1 = \<lfloor>fl_div (of_int (total_cost * 25)) 100\<rfloor> in \<lparr>bs_provider = total_cost - dc1, bs_fee = dc1\<rparr>)"

text \<open>The billing columns of a settled job.\<close>

definition billed :: "job_status \<Rightarrow> int \<Rightarrow> int \<Rightarrow> rat \<Rightarrow> three_cost \<Rightarrow> job_row \<Rightarrow> job_row" where
  "billed st now minutes secs c j =
     (let t = max 0 (tc_total c); s = splitBilling t
      in j\<lparr>jb_status := st, jb_completed_at := Some now, jb_actual_minutes := Some minutes,
           jb_actual_cost := Some t, jb_earned := Some (bs_provider s), jb_fee := Some (bs_fee s),
           jb_gpu_seconds := secs, jb_compute := tc_compute c, jb_storage := tc_storage c, jb_bandwidth := tc_bandwidth c\<rparr>)"

definition credit_earnings :: "bool \<Rightarrow> int option \<Rightarrow> int \<Rightarrow> db \<Rightarrow> db" where
  \<comment> \<open>the statements crediting \<open>earned\<close>; only \<open>/result\<close> also keeps \<open>total_earnings_halala\<close>\<close>
  "credit_earnings with_total p earned d =
     d\<lparr>providers := sql_update (\<lambda>r. Some (pv_id r) = p)
         (\<lambda>r. r\<lparr>pv_total_earnings := fl_add (pv_total_earnings r) (fl_div (of_int earned) 100),
                pv_total_halala := (if with_total then Some (or0 (pv_total_halala r) + earned) else pv_total_halala r),
                pv_total_jobs := pv_total_jobs r + 1, pv_claimable := pv_claimable r + earned\<rparr>) (providers d)\<rparr>"

definition refund_job :: "job_row \<Rightarrow> int \<Rightarrow> db \<Rightarrow> db" where
  "refund_job j now d =
     set_job (\<lambda>x. jb_id x = jb_id j) (\<lambda>x. x\<lparr>jb_refunded_at := Some now\<rparr>) (refund_renter (jb_renter j) (or0 (jb_cost j)) d)"

definition refundable :: "job_row \<Rightarrow> bool" where
  "refundable j = (jb_renter j \<noteq> None \<and> jb_renter j \<noteq> Some 0 \<and> or0 (jb_cost j) > 0)"

section \<open>The daemon\<close>

definition pending_first :: "job_row \<Rightarrow> int" where
  "pending_first j = (if jb_status j = JPending then 0 else 1)"

definition next_job :: "db \<Rightarrow> int \<Rightarrow> job_row option" where
  "next_job d p =
     (case sort_key pending_first (sort_key class_rank (sort_key (\<lambda>j. - jb_priority j) (sort_key created_key
         (sql_all (\<lambda>j. jb_provider j = Some p \<and> jb_status j \<in> {JPending, JQueued}
            \<and> (jb_spec j \<noteq> None \<or> jb_task j \<noteq> None) \<and> jb_picked_up_at j = None) (jobs d))))) of
        [] \<Rightarrow> None | j # _ \<Rightarrow> Some j)"

definition lock_escrow :: "string \<Rightarrow> db \<Rightarrow> db" where
  "lock_escrow job d =
     d\<lparr>escrows := sql_update (\<lambda>e. eh_job_id e = job \<and> eh_status e = EHeld) (\<lambda>e. e\<lparr>eh_status := ELocked\<rparr>) (escrows d)\<rparr>"

definition fetchAndAssignNextJob :: "int \<Rightarrow> int \<Rightarrow> db \<Rightarrow> db \<times> job_row option" where
  "fetchAndAssignNextJob p now d =
     (case next_job d p of None \<Rightarrow> (d, None)
      | Some j \<Rightarrow>
        let d' = lock_escrow (jb_job_id j) (set_job (\<lambda>x. jb_id x = jb_id j)
              (\<lambda>x. x\<lparr>jb_status := JAssigned, jb_assigned_at := Some now, jb_picked_up_at := Some now,
                     jb_timeout_at := Some (now + or_default (jb_max_seconds j) 1800 * 1000)\<rparr>) d)
        in (d', sql_get (\<lambda>x. jb_id x = jb_id j) (jobs d')))"

record job_result =
  re_result :: "string option"
  re_error :: "string option"
  re_transient :: bool
  re_duration :: "js_num option"       \<comment> \<open>\<open>None\<close> for null or absent\<close>
  re_gpu_seconds :: "js_num option"
  re_storage :: "js_num option"
  re_bandwidth :: "js_num option"

definition max_job_seconds :: "job_row \<Rightarrow> int" where
  "max_job_seconds j = max (or_default (jb_max_seconds j) 3600) 60"

definition result_seconds :: "job_row \<Rightarrow> job_result \<Rightarrow> rat option" where
  \<comment> \<open>\<open>gpuSeconds\<close>: the reported GPU seconds have no upper bound\<close>
  "result_seconds j r =
     (case re_gpu_seconds r of
        Some v \<Rightarrow> Some (max 0 (case toFiniteNumber v 0 None of None \<Rightarrow> 0 | Some x \<Rightarrow> x))
      | None \<Rightarrow> (case re_duration r of None \<Rightarrow> None
          | Some v \<Rightarrow> toFiniteNumber v 0 (Some (of_int (max_job_seconds j)))))"

definition at_least0 :: "js_num option \<Rightarrow> int" where
  "at_least0 v = (case v of None \<Rightarrow> 0 | Some n \<Rightarrow> max 0 (or0 (toFiniteInt n 0 None)))"

definition retry_limit :: "job_row \<Rightarrow> int" where
  "retry_limit j = or_default (jb_max_retries j) 2"

definition retry_wanted :: "job_row \<Rightarrow> job_result \<Rightarrow> bool" where
  "retry_wanted j r = (\<not> truthy_str (re_result r) \<and> truthy_str (re_error r) \<and> re_transient r
     \<and> or0 (jb_retry_count j) + 1 \<le> retry_limit j)"

definition retry_job :: "job_row \<Rightarrow> string \<Rightarrow> int \<Rightarrow> db \<Rightarrow> db" where
  "retry_job j err now d =
     set_job (\<lambda>x. jb_id x = jb_id j)
       (\<lambda>x. x\<lparr>jb_status := JPending, jb_retry_count := Some (or0 (jb_retry_count j) + 1), jb_picked_up_at := None,
              jb_assigned_at := None, jb_timeout_at := Some (now + or_default (jb_max_seconds j) 1800 * 1000),
              jb_error := Some (''[retry '' @ dec (or0 (jb_retry_count j) + 1) @ ''/'' @ dec (retry_limit j) @ ''] '' @ err),
              jb_updated_at := Some now, jb_retry_reason := Some ''execution_failed''\<rparr>) d"

text \<open>
  Settling a report. \<open>actualMinutes\<close> is not declared in the handler: with neither GPU seconds nor a
  duration the statement's argument list throws, and nothing has been written.
\<close>

definition settle_result :: "job_row \<Rightarrow> job_result \<Rightarrow> int \<Rightarrow> db \<Rightarrow> db \<times> route_answer" where
  "settle_result j r now d =
     (case result_seconds j r of None \<Rightarrow> (d, Crashed)
      | Some secs \<Rightarrow>
        let c = meter j secs (at_least0 (re_storage r)) (at_least0 (re_bandwidth r));
            t = max 0 (tc_total c); s = splitBilling t; ok = truthy_str (re_result r);
            d1 = set_job (\<lambda>x. jb_id x = jb_id j)
                   (\<lambda>x. (billed (if ok then JCompleted else JFailed) now \<lceil>fl_div secs 60\<rceil> secs c x)
                          \<lparr>jb_result := re_result r, jb_error := (if truthy_str (re_error r) then re_error r else None)\<rparr>) d;
            d2 = (if ok then release_escrow (jb_job_id j) EReleasedProvider now (credit_earnings True (jb_provider j) (bs_provider s) d1)
                  else let d3 = release_escrow (jb_job_id j) EReleasedRenter now d1
                       in if refundable j \<and> jb_refunded_at j = None then refund_job j now d3 else d3)
        in (promoteNextQueuedJob (jb_provider j) now d2, Settled t (bs_provider s) (bs_fee s)))"

definition postResult :: "caller \<Rightarrow> job_ref \<Rightarrow> job_result \<Rightarrow> int \<Rightarrow> db \<Rightarrow> db \<times> route_answer" where
  "postResult c i r now d =
     (case find_job d i of None \<Rightarrow> (d, NoJob)
      | Some j \<Rightarrow>
        if \<not> by_provider c j then (d, Forbidden)
        else if jb_status j \<notin> {JRunning, JAssigned, JPulling} then (d, WrongState (jb_status j))
        else if (case re_duration r of None \<Rightarrow> False | Some v \<Rightarrow> toFiniteNumber v 0 (Some (of_int (max_job_seconds j))) = None)
        then (d, BadDuration (max_job_seconds j))
        else if retry_wanted j r then (retry_job j (the (re_error r)) now d, Retried (or0 (jb_retry_count j) + 1) (retry_limit j))
        else settle_result j r now d)"

section \<open>Completion, failure, cancellation\<close>

definition postComplete :: "caller \<Rightarrow> job_ref \<Rightarrow> int \<Rightarrow> db \<Rightarrow> db \<times> route_answer" where
  "postComplete c i now d =
     (case find_job d i of None \<Rightarrow> (d, NoJob)
      | Some j \<Rightarrow>
        if jb_status j \<noteq> JRunning then (d, WrongState (jb_status j))
        else if \<not> by_renter c j then (d, Forbidden)
        else let secs = elapsed_meter j now; k = meter j (of_int secs) 0 0;
                 t = max 0 (tc_total k); s = splitBilling t;
                 d1 = set_job (\<lambda>x. jb_id x = jb_id j) (billed JCompleted now \<lceil>fl_div (of_int secs) 60\<rceil> (of_int secs) k) d;
                 d2 = credit_earnings False (jb_provider j) (bs_provider s) d1
             in (release_escrow (jb_job_id j) EReleasedProvider now d2, Settled t (bs_provider s) (bs_fee s)))"

definition postFail :: "caller \<Rightarrow> job_ref \<Rightarrow> string option \<Rightarrow> js_num option \<Rightarrow> int \<Rightarrow> db \<Rightarrow> db \<times> route_answer" where
  "postFail c i err duration now d =
     (case find_job d i of None \<Rightarrow> (d, NoJob)
      | Some j \<Rightarrow>
        if \<not> by_provider c j then (d, Forbidden)
        else if jb_status j \<notin> {JRunning, JAssigned, JPulling, JPending} then (d, WrongState (jb_status j))
        else let secs = (case duration of None \<Rightarrow> None | Some v \<Rightarrow> toFiniteNumber v 0 (Some 86400))
             in if duration \<noteq> None \<and> secs = None then (d, BadDuration 86400)
                else let d1 = set_job (\<lambda>x. jb_id x = jb_id j)
                           (\<lambda>x. x\<lparr>jb_status := JFailed, jb_error := Some (if truthy_str err then the err else ''Job failed''),
                                  jb_completed_at := Some now,
                                  jb_actual_minutes := Some (case secs of Some v \<Rightarrow> \<lceil>fl_div v 60\<rceil>
                                     | None \<Rightarrow> or_default (jb_duration_minutes j) 1)\<rparr>) d;
                         d2 = release_escrow (jb_job_id j) EReleasedRenter now d1;
                         d3 = (if refundable j \<and> jb_refunded_at j = None then refund_job j now d2 else d2)
                     in (promoteNextQueuedJob (jb_provider j) now d3, Refunded (or0 (jb_cost j))))"

definition postCancel :: "caller \<Rightarrow> job_ref \<Rightarrow> int \<Rightarrow> db \<Rightarrow> db \<times> route_answer" where
  "postCancel c i now d =
     (case find_job d i of None \<Rightarrow> (d, NoJob)
      | Some j \<Rightarrow>
        if \<not> by_renter c j then (d, Forbidden)
        else if jb_status j \<in> {JCompleted, JCancelled} then (d, WrongState (jb_status j))
        else let d1 = set_job (\<lambda>x. jb_id x = jb_id j) (\<lambda>x. x\<lparr>jb_status := JCancelled, jb_completed_at := Some now\<rparr>) d;
                 d2 = (if refundable j then refund_job j now d1 else d1);
                 d3 = release_escrow (jb_job_id j) EReleasedRenter now d2
             in (promoteNextQueuedJob (jb_provider j) now d3, Done))"

text \<open>
  \<open>PATCH /complete\<close>: the argument of the call that would settle the hold, \<open>actualCostHalala\<close>, is
  not declared, so the handler throws after the job and the provider have been written.
\<close>

definition patchComplete :: "caller \<Rightarrow> job_ref \<Rightarrow> int \<Rightarrow> db \<Rightarrow> db \<times> route_answer" where
  "patchComplete c i now d =
     (case find_job d i of None \<Rightarrow> (d, NoJob)
      | Some j \<Rightarrow>
        if \<not> by_provider c j then (d, Forbidden)
        else if jb_status j \<in> {JCompleted, JCancelled} then (d, WrongState (jb_status j))
        else let secs = elapsed_meter j now; k = meter j (of_int secs) 0 0; s = splitBilling (max 0 (tc_total k));
                 d1 = set_job (\<lambda>x. jb_id x = jb_id j) (billed JCompleted now \<lceil>fl_div (of_int secs) 60\<rceil> (of_int secs) k) d;
                 d2 = (if jb_provider j \<noteq> None \<and> jb_provider j \<noteq> Some 0
                       then credit_earnings False (jb_provider j) (bs_provider s) d1 else d1)
             in (d2, Crashed))"

definition patchFail :: "caller \<Rightarrow> job_ref \<Rightarrow> string option \<Rightarrow> int \<Rightarrow> db \<Rightarrow> db \<times> route_answer" where
  "patchFail c i reason now d =
     (case find_job d i of None \<Rightarrow> (d, NoJob)
      | Some j \<Rightarrow>
        if \<not> by_provider c j then (d, Forbidden)
        else if jb_status j \<in> {JCompleted, JCancelled, JFailed} then (d, WrongState (jb_status j))
        else (fst (failJob now (jb_job_id j) (set_job (\<lambda>x. jb_id x = jb_id j)
               (\<lambda>x. x\<lparr>jb_status := JFailed, jb_completed_at := Some now,
                      jb_notes := Some (if truthy_str reason then the reason else ''provider_reported_failure'')\<rparr>) d)), Done))"

section \<open>Submission\<close>

text \<open>
  \<open>POST /submit\<close> from the choice of the provider on; the checks of the body's shape come before and
  write nothing. \<open>su_vram\<close>, \<open>su_gpu\<close> are the two keys of \<open>gpu_requirements\<close>; \<open>su_job\<close> is the new
  random job id.
\<close>

record submit_req =
  su_job :: string
  su_type :: string
  su_minutes :: int
  su_provider :: "int option"
  su_vram :: js_num
  su_gpu :: "string option"
  su_class :: string
  su_prewarm :: bool
  su_timeout :: js_num
  su_priority :: int
  su_model :: string
  su_container :: string
  su_task :: string

datatype submit_error =
  NoSuchProvider | ProviderOffline | SubmitCrash | TooLittleVram rat rat | ZeroBalance
| DailyQuota int | MonthlyQuota int | BalanceShort int int

definition fresh_heartbeat :: "provider_row \<Rightarrow> int \<Rightarrow> bool" where
  "fresh_heartbeat p now = (case pv_last_heartbeat p of None \<Rightarrow> False | Some t \<Rightarrow> fl_div (of_int (now - t)) 1000 \<le> 600)"

definition choose_route :: "db \<Rightarrow> int \<Rightarrow> submit_req \<Rightarrow> submit_error + provider_row option" where
  "choose_route d now q =
     (case su_provider q of
        Some i \<Rightarrow>
          (case provider_by_id d i of None \<Rightarrow> Inl NoSuchProvider
           | Some p \<Rightarrow>
             if to_lower (pv_status p) \<in> {''offline'', ''paused'', ''banned'', ''suspended''}
                \<or> \<not> (to_lower (pv_status p) = ''online'' \<or> fresh_heartbeat p now)
             then Inl ProviderOffline else Inr (Some p))
      | None \<Rightarrow>
          (case findBestProviderJobRouter now d
                 \<lparr>jr_min_vram = (case toFiniteNumber (su_vram q) 0 (Some 1024) of None \<Rightarrow> 0 | Some v \<Rightarrow> v),
                  jr_gpu = su_gpu q, jr_class = su_class q\<rparr> (of_int (base_rate (su_type q))) of
             None \<Rightarrow> Inr None
           | Some (p, _) \<Rightarrow> Inr (provider_by_id d (pv_id p))))"

definition provider_busy :: "db \<Rightarrow> provider_row \<Rightarrow> bool" where
  "provider_busy d p = list_ex (\<lambda>j. jb_provider j = Some (pv_id p) \<and> jb_status j \<in> {JRunning, JPending}) (jobs d)"

definition lacks_vram :: "submit_req \<Rightarrow> provider_row \<Rightarrow> bool" where
  \<comment> \<open>an unknown or zero size passes\<close>
  "lacks_vram q p =
     (case toFiniteNumber (su_vram q) 0 (Some 1024) of None \<Rightarrow> False
      | Some v \<Rightarrow> v \<noteq> 0 \<and> provider_vram p \<noteq> 0 \<and> provider_vram p < v)"

definition submit_cost :: "submit_req \<Rightarrow> provider_row option \<Rightarrow> int" where
  "submit_cost q p =
     calculateCostHalala
       (case p of None \<Rightarrow> su_gpu q | Some r \<Rightarrow> if truthy_str (pv_gpu_model r) then pv_gpu_model r else su_gpu q)
       (of_int (su_minutes q)) (normalizePricingClass (Some (su_class q))) (su_type q)"

text \<open>Quotas: jobs submitted on the UTC day of \<open>now\<close>, halala quoted or charged in its month.\<close>

definition submitted_ms :: "job_row \<Rightarrow> int option" where
  "submitted_ms j = coalesce (jb_submitted_at j) (jb_created_at j)"

definition jobs_today :: "db \<Rightarrow> int \<Rightarrow> int \<Rightarrow> int" where
  "jobs_today d renter now = int (sql_changes (\<lambda>j. jb_renter j = Some renter
     \<and> (case submitted_ms j of None \<Rightarrow> False | Some t \<Rightarrow> t div day_ms = now div day_ms)) (jobs d))"

definition spent_month :: "db \<Rightarrow> int \<Rightarrow> int \<Rightarrow> int" where
  "spent_month d renter now = sql_sum (\<lambda>j. jb_renter j = Some renter
     \<and> (case submitted_ms j of None \<Rightarrow> False | Some t \<Rightarrow> month_start t = month_start now))
     (\<lambda>j. or0 (coalesce (jb_actual_cost j) (jb_cost j))) (jobs d)"

definition ensure_quota :: "int \<Rightarrow> db \<Rightarrow> db" where
  "ensure_quota renter d =
     d\<lparr>quotas := sql_insert_or_ignore rq_renter \<lparr>rq_renter = renter, rq_daily = 100, rq_monthly = 10000\<rparr> (quotas d)\<rparr>"

definition daily_limit :: "db \<Rightarrow> int \<Rightarrow> int" where
  "daily_limit d renter = or_default (map_option rq_daily (sql_get (\<lambda>x. rq_renter x = renter) (quotas d))) 100"

definition monthly_limit :: "db \<Rightarrow> int \<Rightarrow> int" where
  "monthly_limit d renter = or_default (map_option rq_monthly (sql_get (\<lambda>x. rq_renter x = renter) (quotas d))) 10000"

definition submit_row :: "db \<Rightarrow> int \<Rightarrow> int \<Rightarrow> submit_req \<Rightarrow> provider_row option \<Rightarrow> job_row" where
  "submit_row d now renter q p =
     (let queued = (case p of None \<Rightarrow> True | Some r \<Rightarrow> provider_busy d r);
          timeout = or_default (toFiniteInt (su_timeout q) 60 (Some 3600)) 1800
      in blank_job\<lparr>jb_id := next_rowid jb_id (jobs d), jb_job_id := su_job q, jb_provider := map_option pv_id p,
           jb_renter := Some renter, jb_type := su_type q, jb_model := su_model q,
           jb_status := (if queued then JQueued else JPending), jb_submitted_at := Some now,
           jb_duration_minutes := Some (su_minutes q), jb_cost := Some (submit_cost q p),
           jb_min_vram_gb := su_vram q, jb_gpu_type := su_gpu q, jb_container := Some (su_container q),
           jb_task := Some (su_task q), jb_max_seconds := Some timeout,
           jb_timeout_at := (if queued then None else Some (now + timeout * 1000)), jb_created_at := Some now,
           jb_priority := su_priority q, jb_class := Some (su_class q)\<rparr>)"

definition store_job :: "int \<Rightarrow> int \<Rightarrow> job_row \<Rightarrow> db \<Rightarrow> db option" where
  \<comment> \<open>the transaction: guarded debit, insert, job count; \<open>None\<close> when it rolls back\<close>
  "store_job now renter j d =
     (case debit_balance renter (or0 (jb_cost j)) now d of None \<Rightarrow> None
      | Some d1 \<Rightarrow>
        if list_ex (\<lambda>x. jb_job_id x = jb_job_id j) (jobs d) then None
        else Some (d1\<lparr>jobs := sql_insert j (jobs d1),
               renters := sql_update (\<lambda>r. rn_id r = renter)
                 (\<lambda>r. r\<lparr>rn_total_jobs := rn_total_jobs r + 1, rn_updated_at := Some now\<rparr>) (renters d1)\<rparr>))"

definition hold_escrow :: "job_row \<Rightarrow> db \<Rightarrow> db" where
  "hold_escrow j d =
     (if jb_provider j = None then d
      else d\<lparr>escrows := sql_insert_or_ignore eh_job_id \<lparr>eh_job_id = jb_job_id j, eh_amount = or0 (jb_cost j),
             eh_status = EHeld, eh_resolved_at = None\<rparr> (escrows d)\<rparr>)"

definition submitJob :: "int \<Rightarrow> renter_row \<Rightarrow> submit_req \<Rightarrow> db \<Rightarrow> db \<times> (submit_error + job_row)" where
  "submitJob now rn q d =
     (case choose_route d now q of Inl e \<Rightarrow> (d, Inl e)
      | Inr p \<Rightarrow>
        if su_prewarm q \<and> p \<noteq> None then (d, Inl SubmitCrash) \<comment> \<open>\<open>model\<close> is not declared\<close>
        else if p \<noteq> None \<and> lacks_vram q (the p)
        then (d, Inl (TooLittleVram (the (su_vram q)) (provider_vram (the p))))
        else let cost = submit_cost q p; renter = rn_id rn in
        if rn_balance rn \<le> 0 then (d, Inl ZeroBalance)
        else let d0 = ensure_quota renter d in
        if jobs_today d0 renter now + 1 > daily_limit d0 renter then (d0, Inl (DailyQuota (daily_limit d0 renter)))
        else if spent_month d0 renter now + cost > monthly_limit d0 renter then (d0, Inl (MonthlyQuota (monthly_limit d0 renter)))
        else if rn_balance rn < cost then (d0, Inl (BalanceShort (rn_balance rn) cost))
        else let j = submit_row d0 now renter q p in
        (case store_job now renter j d0 of None \<Rightarrow> (d0, Inl SubmitCrash)
         | Some d1 \<Rightarrow> (hold_escrow j d1, Inr j)))"

section \<open>Submission with a credit hold\<close>

text \<open>
  \<open>POST /api/jobs\<close>: the job row is written before the hold is attempted, and stays when the hold
  is refused. \<open>uuid\<close> is the hold's random id.
\<close>

datatype create_error =
  NoProvidersOnline | CreateBalance int int | CreateCredits int int | CreateCrash

record create_req =
  cr_job :: string
  cr_type :: string
  cr_minutes :: int
  cr_class :: string
  cr_provider :: "int option"
  cr_vram :: js_num
  cr_gpu :: "string option"
  cr_model :: string

definition create_cost :: "create_req \<Rightarrow> int" where
  "create_cost q = calculateCostHalala None (of_int (cr_minutes q)) (normalizePricingClass (Some (cr_class q))) (cr_type q)"

definition create_row :: "db \<Rightarrow> int \<Rightarrow> int \<Rightarrow> create_req \<Rightarrow> job_row" where
  "create_row d now renter q =
     blank_job\<lparr>jb_id := next_rowid jb_id (jobs d), jb_job_id := cr_job q, jb_provider := cr_provider q,
       jb_renter := Some renter, jb_type := cr_type q, jb_model := cr_model q, jb_status := JPending,
       jb_submitted_at := Some now, jb_duration_minutes := Some (cr_minutes q), jb_cost := Some (create_cost q),
       jb_min_vram_gb := cr_vram q, jb_gpu_type := cr_gpu q, jb_created_at := Some now,
       jb_class := Some (normalizePricingClass (Some (cr_class q)))\<rparr>"

definition insert_created :: "int \<Rightarrow> int \<Rightarrow> job_row \<Rightarrow> db \<Rightarrow> db" where
  "insert_created now renter j d =
     d\<lparr>jobs := sql_insert j (jobs d),
       renters := sql_update (\<lambda>r. rn_id r = renter)
         (\<lambda>r. r\<lparr>rn_total_jobs := rn_total_jobs r + 1, rn_updated_at := Some now\<rparr>) (renters d)\<rparr>"

definition createJob ::
    "int \<Rightarrow> string \<Rightarrow> renter_row \<Rightarrow> create_req \<Rightarrow> queue_state \<Rightarrow> queue_state \<times> (create_error + job_row)" where
  "createJob now uuid rn q s =
     (let d = qs_db s; est = create_cost q in
      if \<not> list_ex (\<lambda>p. pv_status p = ''online'') (providers d) then (s, Inl NoProvidersOnline)
      else if rn_balance rn < est then (s, Inl (CreateBalance (rn_balance rn) est))
      else if list_ex (\<lambda>x. jb_job_id x = cr_job q) (jobs d)
           \<or> (case cr_provider q of None \<Rightarrow> False | Some p \<Rightarrow> provider_by_id d p = None) then (s, Inl CreateCrash)
      else let j = create_row d now (rn_id rn) q
           in case dispatch now uuid (rn_id rn) (cr_job q) est
                  \<lparr>jr_min_vram = (case toFiniteNumber (cr_vram q) 0 (Some 1024) of None \<Rightarrow> 0 | Some v \<Rightarrow> v),
                   jr_gpu = cr_gpu q, jr_class = normalizePricingClass (Some (cr_class q))\<rparr>
                  (s\<lparr>qs_db := insert_created now (rn_id rn) j d\<rparr>) of
                (s', Dispatched _ _) \<Rightarrow> (s', Inr j)
              | (s', InsufficientCredits a short) \<Rightarrow> (s', Inl (CreateCredits a short))
              | (s', _) \<Rightarrow> (s', Inl CreateCrash))"

section \<open>Events\<close>

datatype route_event =
  RSubmit int renter_row submit_req
| RPoll int int
| RResult caller job_ref job_result int
| RComplete caller job_ref int
| RFail caller job_ref "string option" "js_num option" int
| RCancel caller job_ref int
| RPatchComplete caller job_ref int
| RPatchFail caller job_ref "string option" int

fun route_step :: "db \<Rightarrow> route_event \<Rightarrow> db" where
  "route_step d (RSubmit now rn q) = fst (submitJob now rn q d)"
| "route_step d (RPoll p now) = fst (fetchAndAssignNextJob p now d)"
| "route_step d (RResult c i r now) = fst (postResult c i r now d)"
| "route_step d (RComplete c i now) = fst (postComplete c i now d)"
| "route_step d (RFail c i err dur now) = fst (postFail c i err dur now d)"
| "route_step d (RCancel c i now) = fst (postCancel c i now d)"
| "route_step d (RPatchComplete c i now) = fst (patchComplete c i now d)"
| "route_step d (RPatchFail c i reason now) = fst (patchFail c i reason now d)"

section \<open>How a row moves\<close>

text \<open>The transitions of \<open>jobs.status\<close> these routes make.\<close>

inductive route_trans :: "job_status \<Rightarrow> job_status \<Rightarrow> bool" where
  promoted: "route_trans JQueued JPending"
| polled: "s \<in> {JPending, JQueued} \<Longrightarrow> route_trans s JAssigned"
| retried: "s \<in> {JRunning, JAssigned, JPulling} \<Longrightarrow> route_trans s JPending"
| completed: "s \<notin> {JCompleted, JCancelled} \<Longrightarrow> route_trans s JCompleted"
| failed: "s \<notin> {JCompleted, JCancelled, JFailed} \<Longrightarrow> route_trans s JFailed"
| cancelled: "s \<notin> {JCompleted, JCancelled} \<Longrightarrow> route_trans s JCancelled"

inductive_cases completed_move: "route_trans JCompleted s"
inductive_cases cancelled_move: "route_trans JCancelled s"

lemma final_moves: "route_trans\<^sup>*\<^sup>* s t \<Longrightarrow> s \<in> {JCompleted, JCancelled} \<Longrightarrow> t = s"
  by (induction rule: rtranclp_induct) (auto elim: completed_move cancelled_move)

definition calm :: "job_row \<Rightarrow> job_row \<Rightarrow> bool" where
  "calm j j' = (jb_id j' = jb_id j \<and> route_trans\<^sup>*\<^sup>* (jb_status j) (jb_status j')
     \<and> jb_retry_count j' = jb_retry_count j \<and> jb_max_retries j' = jb_max_retries j)"

definition moves :: "db \<Rightarrow> db \<Rightarrow> bool" where
  "moves d d' = (has_key jb_id (jobs d) \<longrightarrow>
     has_key jb_id (jobs d') \<and> (\<forall>j\<in>set (jobs d). \<exists>j'\<in>set (jobs d'). calm j j'))"

lemma calm_refl [simp]: "calm j j"
  by (simp add: calm_def)

lemma calm_trans: "calm a b \<Longrightarrow> calm b c \<Longrightarrow> calm a c"
  by (auto simp: calm_def)

lemma moves_frame: "jobs d' = jobs d \<Longrightarrow> moves d d'"
  unfolding moves_def by (simp, blast intro: calm_refl)

lemma moves_trans: "moves d d1 \<Longrightarrow> moves d1 d2 \<Longrightarrow> moves d d2"
  unfolding moves_def using calm_trans by blast

lemma moves_set:
  assumes "\<And>x. x \<in> set (jobs d) \<Longrightarrow> P x \<Longrightarrow> calm x (f x)"  "\<And>x. jb_id (f x) = jb_id x"
  shows "moves d (set_job P f d)"
proof -
  have "\<exists>j'\<in>set (sql_update P f (jobs d)). calm j j'" if "j \<in> set (jobs d)" for j
    using assms(1) [OF that] that by (cases "P j") (auto simp: set_sql_update intro!: bexI [of _ "if P j then f j else j"])
  then show ?thesis by (simp add: moves_def has_key_update assms(2))
qed

lemma moves_row:
  assumes "j \<in> set (jobs d)" "calm j (f j)" "\<And>x. jb_id (f x) = jb_id x"
  shows "moves d (set_job (\<lambda>x. jb_id x = jb_id j) f d)"
proof (cases "has_key jb_id (jobs d)")
  case True
  then show ?thesis using assms has_key_eq [OF True _ assms(1)] by (intro moves_set) auto
qed (simp add: moves_def)

lemma job_frames [simp]:
  "jobs (lock_escrow k d) = jobs d" "jobs (credit_earnings b p e d) = jobs d" "jobs (ensure_quota r d) = jobs d"
  "jobs (hold_escrow j d) = jobs d" "jobs (close_hold i st a now d) = jobs d" "jobs (fst (failJob now k d)) = jobs d"
  "jobs (fst (completeJob now k a d)) = jobs d"
  by (auto simp: lock_escrow_def credit_earnings_def ensure_quota_def hold_escrow_def close_hold_def failJob_def
      completeJob_def Let_def split: option.splits)

lemma moves_then:
  "moves d d1 \<Longrightarrow> moves d (release_escrow k st now d1)" "moves d d1 \<Longrightarrow> moves d (credit_earnings b p e d1)"
  "moves d d1 \<Longrightarrow> moves d (lock_escrow k d1)" "moves d d1 \<Longrightarrow> moves d (fst (failJob now k d1))"
  "moves d d1 \<Longrightarrow> moves d (refund_job j now d1)"
proof -
  have "moves d1 (refund_job j now d1)" unfolding refund_job_def
    by (rule moves_trans [OF moves_frame moves_set]) (simp_all add: calm_def)
  then show "moves d d1 \<Longrightarrow> moves d (refund_job j now d1)" by (rule moves_trans [rotated])
qed (rule moves_trans [OF _ moves_frame]; simp)+

lemma next_queued_row: "next_queued d p = Some n \<Longrightarrow> n \<in> set (jobs d) \<and> jb_status n = JQueued"
proof -
  assume a: "next_queued d p = Some n"
  let ?ys = "sort_key class_rank (sort_key (\<lambda>j. - jb_priority j) (sort_key created_key
      (sql_all (\<lambda>j. p \<noteq> None \<and> jb_provider j = p \<and> jb_status j = JQueued) (jobs d))))"
  have "n \<in> set ?ys" using a unfolding next_queued_def by (cases ?ys) auto
  then show ?thesis by (simp add: sql_all_def)
qed

lemma moves_promote: "moves d (promoteNextQueuedJob p now d)"
proof (cases "next_queued d p")
  case (Some n)
  then show ?thesis using next_queued_row [OF Some]
    by (auto simp: promoteNextQueuedJob_def calm_def intro!: moves_row route_trans.promoted r_into_rtranclp)
qed (simp add: promoteNextQueuedJob_def moves_frame)

lemma moves_then_promote: "moves d d1 \<Longrightarrow> moves d (promoteNextQueuedJob p now d1)"
  by (rule moves_trans [OF _ moves_promote])

lemmas moves_intros = moves_then moves_then_promote

lemma moves_same [simp]: "moves d d"
  by (simp add: moves_frame)

lemma find_job_row: "find_job d i = Some j \<Longrightarrow> j \<in> set (jobs d)"
  unfolding find_job_def by (auto dest: sql_get_Some)

lemma moves_settle: "j \<in> set (jobs d) \<Longrightarrow> jb_status j \<notin> {JCompleted, JCancelled, JFailed} \<Longrightarrow> moves d (fst (settle_result j r now d))"
proof (cases "result_seconds j r")
  case (Some secs)
  assume j: "j \<in> set (jobs d)" "jb_status j \<notin> {JCompleted, JCancelled, JFailed}"
  have m: "moves d (set_job (\<lambda>x. jb_id x = jb_id j) (\<lambda>x. (billed st now m secs c x)
      \<lparr>jb_result := re_result r, jb_error := e\<rparr>) d)" if "st \<in> {JCompleted, JFailed}" for st m c e
    using j that by (intro moves_row) (auto simp: calm_def billed_def Let_def intro!: r_into_rtranclp route_trans.intros)
  show ?thesis using Some by (auto simp: settle_result_def Let_def intro!: moves_intros m)
qed (simp add: settle_result_def moves_frame)

lemma moves_complete: "moves d (fst (postComplete c i now d))"
proof (cases "find_job d i")
  case (Some j)
  show ?thesis
  proof (cases "jb_status j = JRunning \<and> by_renter c j")
    case True
    have "moves d (set_job (\<lambda>x. jb_id x = jb_id j) (billed JCompleted now m secs k) d)" for m secs k
      using True find_job_row [OF Some] by (intro moves_row) (auto simp: calm_def billed_def Let_def intro!: r_into_rtranclp route_trans.intros)
    note m = this
    show ?thesis using Some True by (auto simp: postComplete_def Let_def intro!: moves_intros m)
  qed (use Some in \<open>auto simp: postComplete_def moves_frame\<close>)
qed (simp add: postComplete_def moves_frame)

lemma moves_patchComplete: "moves d (fst (patchComplete c i now d))"
proof (cases "find_job d i")
  case (Some j)
  show ?thesis
  proof (cases "jb_status j \<notin> {JCompleted, JCancelled} \<and> by_provider c j")
    case True
    have "moves d (set_job (\<lambda>x. jb_id x = jb_id j) (billed JCompleted now m secs k) d)" for m secs k
      using True find_job_row [OF Some] by (intro moves_row) (auto simp: calm_def billed_def Let_def intro!: r_into_rtranclp route_trans.intros)
    note m = this
    show ?thesis using Some True by (auto simp: patchComplete_def Let_def intro!: moves_intros m)
  qed (use Some in \<open>auto simp: patchComplete_def moves_frame\<close>)
qed (simp add: patchComplete_def moves_frame)

lemma moves_patchFail: "moves d (fst (patchFail c i reason now d))"
proof (cases "find_job d i")
  case (Some j)
  show ?thesis
  proof (cases "jb_status j \<notin> {JCompleted, JCancelled, JFailed} \<and> by_provider c j")
    case True
    have "moves d (set_job (\<lambda>x. jb_id x = jb_id j) (\<lambda>x. x\<lparr>jb_status := JFailed, jb_completed_at := Some now, jb_notes := n\<rparr>) d)" for n
      using True find_job_row [OF Some] by (intro moves_row) (auto simp: calm_def intro!: r_into_rtranclp route_trans.intros)
    note m = this
    show ?thesis using Some True by (auto simp: patchFail_def Let_def intro!: moves_intros m)
  qed (use Some in \<open>auto simp: patchFail_def moves_frame\<close>)
qed (simp add: patchFail_def moves_frame)

lemma moves_cancel: "moves d (fst (postCancel c i now d))"
proof (cases "find_job d i")
  case (Some j)
  show ?thesis
  proof (cases "jb_status j \<notin> {JCompleted, JCancelled} \<and> by_renter c j")
    case True
    have m: "moves d (set_job (\<lambda>x. jb_id x = jb_id j) (\<lambda>x. x\<lparr>jb_status := JCancelled, jb_completed_at := Some now\<rparr>) d)"
      using True find_job_row [OF Some] by (intro moves_row) (auto simp: calm_def intro!: r_into_rtranclp route_trans.intros)
    show ?thesis using Some True by (auto simp: postCancel_def Let_def intro!: moves_intros m)
  qed (use Some in \<open>auto simp: postCancel_def moves_frame\<close>)
qed (simp add: postCancel_def moves_frame)

lemma moves_fail: "moves d (fst (postFail c i err dur now d))"
proof (cases "find_job d i")
  case (Some j)
  show ?thesis
  proof (cases "jb_status j \<in> {JRunning, JAssigned, JPulling, JPending} \<and> by_provider c j")
    case True
    have m: "moves d (set_job (\<lambda>x. jb_id x = jb_id j) (\<lambda>x. x\<lparr>jb_status := JFailed, jb_error := e, jb_completed_at := Some now,
        jb_actual_minutes := v\<rparr>) d)" for e v
      using True find_job_row [OF Some] by (intro moves_row) (auto simp: calm_def intro!: r_into_rtranclp route_trans.intros)
    show ?thesis using Some True by (auto simp: postFail_def Let_def intro!: moves_intros m)
  qed (use Some in \<open>auto simp: postFail_def moves_frame\<close>)
qed (simp add: postFail_def moves_frame)

lemma next_job_row: "next_job d p = Some j \<Longrightarrow> j \<in> set (jobs d) \<and> jb_status j \<in> {JPending, JQueued}"
proof -
  assume a: "next_job d p = Some j"
  let ?ys = "sort_key pending_first (sort_key class_rank (sort_key (\<lambda>j. - jb_priority j) (sort_key created_key
      (sql_all (\<lambda>j. jb_provider j = Some p \<and> jb_status j \<in> {JPending, JQueued}
         \<and> (jb_spec j \<noteq> None \<or> jb_task j \<noteq> None) \<and> jb_picked_up_at j = None) (jobs d)))))"
  have "j \<in> set ?ys" using a unfolding next_job_def by (cases ?ys) auto
  then show ?thesis by (simp add: sql_all_def)
qed

lemma moves_poll: "moves d (fst (fetchAndAssignNextJob p now d))"
proof (cases "next_job d p")
  case (Some j)
  have "moves d (set_job (\<lambda>x. jb_id x = jb_id j) (\<lambda>x. x\<lparr>jb_status := JAssigned, jb_assigned_at := Some now,
      jb_picked_up_at := Some now, jb_timeout_at := t\<rparr>) d)" for t
    using next_job_row [OF Some] by (intro moves_row) (auto simp: calm_def intro!: r_into_rtranclp route_trans.polled)
  note m = this
  show ?thesis using Some by (auto simp: fetchAndAssignNextJob_def Let_def intro!: moves_intros m)
qed (simp add: fetchAndAssignNextJob_def moves_frame)

section \<open>Every event\<close>

text \<open>The id of the job an event puts back to pending as a transient failure.\<close>

fun retried_of :: "db \<Rightarrow> route_event \<Rightarrow> int option" where
  "retried_of d (RResult c i r now) =
     (case snd (postResult c i r now d) of Retried _ _ \<Rightarrow> map_option jb_id (find_job d i) | _ \<Rightarrow> None)"
| "retried_of d _ = None"

fun retries :: "int \<Rightarrow> db \<Rightarrow> route_event list \<Rightarrow> nat" where
  "retries k d [] = 0"
| "retries k d (e # es) = (if retried_of d e = Some k then 1 else 0) + retries k (route_step d e) es"

lemma settle_answer: "snd (settle_result j r now d) = Retried a b \<Longrightarrow> False"
  by (simp add: settle_result_def Let_def split: option.splits)

lemma result_retry:
  assumes "snd (postResult c i r now d) = Retried a b"
  shows "\<exists>j. find_job d i = Some j \<and> jb_status j \<in> {JRunning, JAssigned, JPulling}
     \<and> or0 (jb_retry_count j) + 1 \<le> retry_limit j \<and> fst (postResult c i r now d) = retry_job j (the (re_error r)) now d"
proof (cases "find_job d i")
  case None
  then show ?thesis using assms by (simp add: postResult_def)
next
  case (Some j)
  have *: "jb_status j \<in> {JRunning, JAssigned, JPulling} \<and> retry_wanted j r \<and> fst (postResult c i r now d) = retry_job j (the (re_error r)) now d"
    using assms Some settle_answer [of j r now d a b] unfolding postResult_def by (simp split: if_splits)
  then have "or0 (jb_retry_count j) + 1 \<le> retry_limit j" by (simp add: retry_wanted_def)
  with * Some show ?thesis by blast
qed

lemma moves_result:
  assumes "\<And>a b. snd (postResult c i r now d) \<noteq> Retried a b"
  shows "moves d (fst (postResult c i r now d))"
proof (cases "find_job d i")
  case (Some j)
  show ?thesis
  proof (cases "retry_wanted j r")
    case True
    then show ?thesis using Some assms [of "or0 (jb_retry_count j) + 1" "retry_limit j"] by (auto simp: postResult_def)
  next
    case False
    then show ?thesis using Some moves_settle [OF find_job_row [OF Some], of r now] by (auto simp: postResult_def)
  qed
qed (simp add: postResult_def)

lemma store_job_Some:
  assumes "store_job now renter j d = Some d1"
  shows "jobs d1 = jobs d @ [j]" "escrows d1 = escrows d" "quotas d1 = quotas d"
proof -
  obtain d0 where b: "debit_balance renter (or0 (jb_cost j)) now d = Some d0"
    using assms by (auto simp: store_job_def split: option.splits)
  have q: "quotas d0 = quotas d" using b by (auto simp: debit_balance_def Let_def split: if_splits)
  show "jobs d1 = jobs d @ [j]" "escrows d1 = escrows d" "quotas d1 = quotas d"
    using assms debit_balance_Some [OF b] q by (auto simp: store_job_def b sql_insert_def split: if_splits)
qed

lemma submit_rows:
  assumes "submitJob now rn q d = (d', res)"
  shows "case res of Inl _ \<Rightarrow> jobs d' = jobs d \<and> renters d' = renters d \<and> escrows d' = escrows d
     | Inr j \<Rightarrow> jobs d' = jobs d @ [j] \<and> j = submit_row d now (rn_id rn) q (projr (choose_route d now q))
         \<and> (\<exists>d1. store_job now (rn_id rn) j (ensure_quota (rn_id rn) d) = Some d1 \<and> d' = hold_escrow j d1)
         \<and> jobs_today (ensure_quota (rn_id rn) d) (rn_id rn) now + 1 \<le> daily_limit (ensure_quota (rn_id rn) d) (rn_id rn)
         \<and> spent_month (ensure_quota (rn_id rn) d) (rn_id rn) now + or0 (jb_cost j) \<le> monthly_limit (ensure_quota (rn_id rn) d) (rn_id rn)"
proof (cases "choose_route d now q")
  case (Inl e)
  then show ?thesis using assms by (auto simp: submitJob_def)
next
  case (Inr p)
  have t: "jobs (ensure_quota i d) = jobs d" "renters (ensure_quota i d) = renters d" "escrows (ensure_quota i d) = escrows d" for i
    by (simp_all add: ensure_quota_def)
  have j: "submit_row (ensure_quota i d) now i q x = submit_row d now i q x" for i x
    unfolding submit_row_def by (cases x) (simp_all add: provider_busy_def ensure_quota_def)
  have c: "or0 (jb_cost (submit_row d now i q x)) = submit_cost q x" for i x by (simp add: submit_row_def Let_def)
  show ?thesis using assms Inr
    by (auto simp: submitJob_def Let_def t j c store_job_Some split: if_splits option.splits)
qed

lemma submit_row_id [simp]: "jb_id (submit_row d now i q p) = next_rowid jb_id (jobs d)"
  by (simp add: submit_row_def Let_def)

lemma moves_insert: "jobs d' = jobs d @ [j] \<Longrightarrow> jb_id j = next_rowid jb_id (jobs d) \<Longrightarrow> moves d d'"
  using next_rowid_fresh [of jb_id "jobs d"] by (force simp: moves_def has_key_def)

lemma moves_submit: "moves d (fst (submitJob now rn q d))"
proof -
  obtain d' res where "submitJob now rn q d = (d', res)" by fastforce
  with submit_rows [OF this] show ?thesis by (cases res) (auto intro: moves_frame moves_insert)
qed

lemma step_calm: "retried_of d e = None \<Longrightarrow> moves d (route_step d e)"
proof (cases e)
  case (RResult c i r now)
  assume "retried_of d e = None"
  then have "snd (postResult c i r now d) \<noteq> Retried a b" for a b
    using RResult result_retry [of c i r now d] by fastforce
  then show ?thesis using RResult by (simp add: moves_result)
qed (simp_all add: moves_submit moves_poll moves_complete moves_fail moves_cancel moves_patchComplete moves_patchFail)

lemma step_retry:
  assumes "retried_of d e = Some k"
  shows "\<exists>j err now. j \<in> set (jobs d) \<and> jb_id j = k \<and> jb_status j \<in> {JRunning, JAssigned, JPulling}
     \<and> or0 (jb_retry_count j) + 1 \<le> retry_limit j \<and> route_step d e = retry_job j err now d"
proof (cases e)
  case (RResult c i r now)
  then obtain a b where "snd (postResult c i r now d) = Retried a b"
    using assms by (auto split: route_answer.splits)
  from result_retry [OF this] obtain j where "find_job d i = Some j" "jb_status j \<in> {JRunning, JAssigned, JPulling}"
    "or0 (jb_retry_count j) + 1 \<le> retry_limit j" "fst (postResult c i r now d) = retry_job j (the (re_error r)) now d" by blast
  then show ?thesis using RResult assms find_job_row by (auto split: route_answer.splits)
qed (use assms in simp_all)

lemma retry_row:
  assumes "has_key jb_id (jobs d)" "j \<in> set (jobs d)"
  shows "has_key jb_id (jobs (retry_job j err now d))"
    and "x \<in> set (jobs d) \<Longrightarrow> jb_id x \<noteq> jb_id j \<Longrightarrow> x \<in> set (jobs (retry_job j err now d))"
    and "\<exists>j'\<in>set (jobs (retry_job j err now d)). jb_id j' = jb_id j \<and> jb_status j' = JPending
      \<and> jb_retry_count j' = Some (or0 (jb_retry_count j) + 1) \<and> jb_max_retries j' = jb_max_retries j"
proof -
  have "\<exists>f. retry_job j err now d = set_job (\<lambda>x. jb_id x = jb_id j) f d \<and> (\<forall>x. jb_id (f x) = jb_id x)
      \<and> jb_status (f j) = JPending \<and> jb_retry_count (f j) = Some (or0 (jb_retry_count j) + 1)
      \<and> jb_max_retries (f j) = jb_max_retries j"
    unfolding retry_job_def by (intro exI conjI, rule refl, simp_all)
  then obtain f where e: "retry_job j err now d = set_job (\<lambda>x. jb_id x = jb_id j) f d" and id: "\<And>x. jb_id (f x) = jb_id x"
    and f: "jb_status (f j) = JPending" "jb_retry_count (f j) = Some (or0 (jb_retry_count j) + 1)" "jb_max_retries (f j) = jb_max_retries j"
    by blast
  show "has_key jb_id (jobs (retry_job j err now d))" using assms(1) by (simp add: e has_key_update id)
  show "x \<in> set (jobs d) \<Longrightarrow> jb_id x \<noteq> jb_id j \<Longrightarrow> x \<in> set (jobs (retry_job j err now d))"
    by (simp add: e kept_row)
  have "f j \<in> set (jobs (retry_job j err now d))" using assms(2) by (simp add: e set_sql_update)
  then show "\<exists>j'\<in>set (jobs (retry_job j err now d)). jb_id j' = jb_id j \<and> jb_status j' = JPending
      \<and> jb_retry_count j' = Some (or0 (jb_retry_count j) + 1) \<and> jb_max_retries j' = jb_max_retries j"
    using f id by blast
qed

text \<open>One event moves one row along the machine.\<close>

lemma step_rows:
  assumes "has_key jb_id (jobs d)" "job_by_id d k = Some j"
  shows "has_key jb_id (jobs (route_step d e))"
    and "\<exists>j'. job_by_id (route_step d e) k = Some j' \<and> route_trans\<^sup>*\<^sup>* (jb_status j) (jb_status j')
      \<and> jb_max_retries j' = jb_max_retries j
      \<and> or0 (jb_retry_count j') = or0 (jb_retry_count j) + (if retried_of d e = Some k then 1 else 0)"
proof -
  have j: "j \<in> set (jobs d)" "jb_id j = k" using assms job_by_id_iff by auto
  let ?R = "\<lambda>j'. j' \<in> set (jobs (route_step d e)) \<and> jb_id j' = k \<and> route_trans\<^sup>*\<^sup>* (jb_status j) (jb_status j')
      \<and> jb_max_retries j' = jb_max_retries j
      \<and> or0 (jb_retry_count j') = or0 (jb_retry_count j) + (if retried_of d e = Some k then 1 else 0)"
  have "has_key jb_id (jobs (route_step d e)) \<and> (\<exists>j'. ?R j')"
  proof (cases "retried_of d e")
    case None
    then show ?thesis using step_calm [OF None] assms(1) j unfolding moves_def calm_def by fastforce
  next
    case (Some i)
    then obtain x err now where x: "x \<in> set (jobs d)" "jb_id x = i" "jb_status x \<in> {JRunning, JAssigned, JPulling}"
      and e: "route_step d e = retry_job x err now d" using step_retry [OF Some] by blast
    note r = retry_row [OF assms(1) x(1), where err = err and now = now]
    show ?thesis
    proof (cases "i = k")
      case True
      then have "x = j" using has_key_eq [OF assms(1) x(1) j(1)] x j by simp
      with r(1,3) x e Some True show ?thesis by (auto intro!: r_into_rtranclp route_trans.retried)
    next
      case False
      with r(1) r(2) [OF j(1)] x j e Some show ?thesis by auto
    qed
  qed
  then show "has_key jb_id (jobs (route_step d e))" "\<exists>j'. job_by_id (route_step d e) k = Some j'
      \<and> route_trans\<^sup>*\<^sup>* (jb_status j) (jb_status j') \<and> jb_max_retries j' = jb_max_retries j
      \<and> or0 (jb_retry_count j') = or0 (jb_retry_count j) + (if retried_of d e = Some k then 1 else 0)"
    using job_by_id_iff by blast+
qed

lemma step_keys: "has_key jb_id (jobs d) \<Longrightarrow> has_key jb_id (jobs (route_step d e))"
proof (cases "retried_of d e")
  case None
  assume "has_key jb_id (jobs d)"
  then show ?thesis using step_calm [OF None] by (simp add: moves_def)
next
  case (Some k)
  assume "has_key jb_id (jobs d)"
  then show ?thesis using step_retry [OF Some] retry_row(1) by metis
qed

interpretation job_routes: lifecycle route_step "\<lambda>d k. map_option jb_status (job_by_id d k)"
    "\<lambda>s. s \<in> {JCompleted, JCancelled}" "\<lambda>d. has_key jb_id (jobs d)"
proof
  fix d k st and e
  assume a: "has_key jb_id (jobs d)" "map_option jb_status (job_by_id d k) = Some st" "st \<in> {JCompleted, JCancelled}"
  then obtain j where j: "job_by_id d k = Some j" "jb_status j = st" by auto
  from step_rows(2) [OF a(1) j(1)] obtain j' where "job_by_id (route_step d e) k = Some j'"
    "route_trans\<^sup>*\<^sup>* (jb_status j) (jb_status j')" by blast
  with final_moves [of "jb_status j" "jb_status j'"] j a(3) show "map_option jb_status (job_by_id (route_step d e) k) = Some st" by simp
qed (rule step_keys)

lemma run_rows:
  "has_key jb_id (jobs d) \<Longrightarrow> job_by_id d k = Some j \<Longrightarrow>
     \<exists>j'. job_by_id (foldl route_step d es) k = Some j' \<and> route_trans\<^sup>*\<^sup>* (jb_status j) (jb_status j')"
proof (induction es arbitrary: d j)
  case (Cons e es)
  from step_rows(2) [OF Cons.prems] obtain j1 where "job_by_id (route_step d e) k = Some j1"
    "route_trans\<^sup>*\<^sup>* (jb_status j) (jb_status j1)" by blast
  with Cons.IH [OF step_keys [OF Cons.prems(1)]] show ?case by fastforce
qed auto

lemma retries_bound:
  "has_key jb_id (jobs d) \<Longrightarrow> job_by_id d k = Some j \<Longrightarrow>
     int (retries k d es) \<le> max 0 (retry_limit j - or0 (jb_retry_count j))"
proof (induction es arbitrary: d j)
  case (Cons e es)
  from step_rows(2) [OF Cons.prems, of e] obtain j1 where j1: "job_by_id (route_step d e) k = Some j1"
    "jb_max_retries j1 = jb_max_retries j"
    "or0 (jb_retry_count j1) = or0 (jb_retry_count j) + (if retried_of d e = Some k then 1 else 0)" by blast
  note ih = Cons.IH [OF step_keys [OF Cons.prems(1)] j1(1)]
  have lim: "retry_limit j1 = retry_limit j" using j1(2) by (simp add: retry_limit_def)
  show ?case
  proof (cases "retried_of d e = Some k")
    case True
    from step_retry [OF this] obtain x where x: "x \<in> set (jobs d)" "jb_id x = k" "or0 (jb_retry_count x) + 1 \<le> retry_limit x" by blast
    then have "x = j" using Cons.prems job_by_id_iff [OF Cons.prems(1)] has_key_eq [OF Cons.prems(1), of x j] by auto
    then show ?thesis using ih j1(3) lim True x(3) by simp
  qed (use ih j1(3) lim in simp)
qed simp

section \<open>Money\<close>

lemma refund_is_credit: "refund_renter (Some i) = credit_balance i"
  by (intro ext) (simp add: refund_renter_def credit_balance_def)

lemma route_frames [simp]:
  "balance_of (credit_earnings b p e d) k = balance_of d k" "balance_of (release_escrow j st now d) k = balance_of d k"
  "balance_of (promoteNextQueuedJob q now d) k = balance_of d k" "balance_of (close_hold i hs a now d) k = balance_of d k"
  "claimable_of (set_job P f d) k = claimable_of d k" "claimable_of (refund_renter r a d) k = claimable_of d k"
  "claimable_of (release_escrow j st now d) k = claimable_of d k" "claimable_of (promoteNextQueuedJob q now d) k = claimable_of d k"
  "renters (credit_earnings b p e d) = renters d" "renters (promoteNextQueuedJob q now d) = renters d"
  "providers (promoteNextQueuedJob q now d) = providers d"
  by (simp_all add: balance_of_def claimable_of_def renter_by_id_def provider_by_id_def credit_earnings_def
      release_escrow_def promoteNextQueuedJob_def set_job_def refund_renter_def close_hold_def split: option.splits)

lemma claimable_credit:
  assumes "p \<in> pv_id ` set (providers d)"
  shows "claimable_of (credit_earnings b (Some p) e d) k = claimable_of d k + (if k = p then e else 0)"
proof -
  let ?f = "\<lambda>r. r\<lparr>pv_total_earnings := fl_add (pv_total_earnings r) (fl_div (of_int e) 100),
      pv_total_halala := (if b then Some (or0 (pv_total_halala r) + e) else pv_total_halala r),
      pv_total_jobs := pv_total_jobs r + 1, pv_claimable := pv_claimable r + e\<rparr>"
  have "provider_by_id (credit_earnings b (Some p) e d) k
      = map_option (\<lambda>r. if Some (pv_id r) = Some p then ?f r else r) (provider_by_id d k)"
    unfolding provider_by_id_def credit_earnings_def by simp (subst sql_get_update; simp)
  moreover have "provider_by_id d p \<noteq> None" using assms by (auto simp: provider_by_id_def sql_get_None)
  moreover have "provider_by_id d k = Some r \<Longrightarrow> pv_id r = k" for r
    unfolding provider_by_id_def by (auto dest: sql_get_Some)
  ultimately show ?thesis by (cases "provider_by_id d k") (auto simp: claimable_of_def)
qed

lemma balance_refund:
  assumes "n \<in> rn_id ` set (renters d)" "jb_renter j = Some n"
  shows "balance_of (refund_job j now d) k = balance_of d k + (if k = n then or0 (jb_cost j) else 0)"
  using balance_credit [OF assms(1)] assms(2) by (simp add: refund_job_def refund_is_credit)

lemma claimable_refund [simp]: "claimable_of (refund_job j now d) k = claimable_of d k"
  by (simp add: refund_job_def)

lemma split_bounds:
  assumes "0 \<le> t" "t \<le> 2 ^ 47"
  shows "bs_provider (splitBilling t) + bs_fee (splitBilling t) = t" "0 \<le> bs_fee (splitBilling t)" "bs_fee (splitBilling t) \<le> t"
proof -
  have "0 \<le> fl_div (of_int (t * 25)) 100" using assms(1) by (simp add: fl_div_def fl_nonneg)
  then show "0 \<le> bs_fee (splitBilling t)" by (simp add: splitBilling_def Let_def)
  have "fl ((of_int (t * 25) :: rat) / 100) \<le> fl (of_int t)" using assms(1) by (intro fl_mono) simp_all
  then have "fl_div (of_int (t * 25)) 100 \<le> of_int t" using assms by (simp add: fl_div_def fl_of_int)
  then show "bs_fee (splitBilling t) \<le> t" by (simp add: splitBilling_def Let_def floor_le_iff)
qed (simp add: splitBilling_def Let_def)

text \<open>The split and the row of a settled report.\<close>

lemma settle_answer_is:
  assumes "postResult c i r now d = (d', Settled t e f)"
  obtains j secs where "find_job d i = Some j" "jb_status j \<in> {JRunning, JAssigned, JPulling}" "by_provider c j"
    "result_seconds j r = Some secs"
    "t = max 0 (tc_total (meter j secs (at_least0 (re_storage r)) (at_least0 (re_bandwidth r))))"
    "e = bs_provider (splitBilling t)" "f = bs_fee (splitBilling t)" "settle_result j r now d = (d', Settled t e f)"
proof (cases "find_job d i")
  case None
  then show ?thesis using assms by (simp add: postResult_def)
next
  case (Some j)
  have "by_provider c j" "jb_status j \<in> {JRunning, JAssigned, JPulling}" and s: "settle_result j r now d = (d', Settled t e f)"
    using assms Some by (auto simp: postResult_def split: if_splits)
  moreover obtain secs where "result_seconds j r = Some secs"
    using s by (auto simp: settle_result_def split: option.splits)
  moreover from s this have "t = max 0 (tc_total (meter j secs (at_least0 (re_storage r)) (at_least0 (re_bandwidth r))))"
    "e = bs_provider (splitBilling t)" "f = bs_fee (splitBilling t)"
    by (auto simp: settle_result_def Let_def)
  ultimately show ?thesis using that Some by blast
qed

section \<open>What the routes promise\<close>


definition demo_run :: job_row where
  "demo_run = demo_job\<lparr>jb_provider := Some 7, jb_status := JRunning, jb_type := ''llm-inference'', jb_started_at := Some 0,
     jb_task := Some ''{}''\<rparr>"

definition demo_running :: db where
  "demo_running = demo_db\<lparr>jobs := [demo_run]\<rparr>"

definition gpu_caller :: caller where
  "gpu_caller = \<lparr>ca_admin = False, ca_provider = Some 7, ca_renter = None\<rparr>"

definition renter_caller :: caller where
  "renter_caller = \<lparr>ca_admin = False, ca_provider = None, ca_renter = Some 1\<rparr>"

definition job_one :: job_ref where
  "job_one = \<lparr>ref_text = ''job-1'', ref_id = None\<rparr>"

definition hiccup :: job_result where
  "hiccup = \<lparr>re_result = None, re_error = Some ''pull'', re_transient = True, re_duration = None, re_gpu_seconds = None,
     re_storage = None, re_bandwidth = None\<rparr>"

lemma demo_running_rows [simp]: "jobs demo_running = [demo_run]" "has_key jb_id [demo_run]"
    "job_by_id demo_running 1 = Some demo_run" "jb_status demo_run = JRunning" "jb_id demo_run = 1"
  by (simp_all add: demo_running_def has_key_def job_by_id_def sql_get_def demo_run_def demo_job_def)


text \<open>
  Transient failures terminate. Whatever else happens to a job, the reports that put it back to
  pending as a transient failure are at most as many as its retries left: \<open>max_retries\<close>, 2 when it
  is NULL or 0, less the retries counted already.
\<close>

theorem transient_retries_end:
  assumes "has_key jb_id (jobs d)" "job_by_id d k = Some j"
  shows "int (retries k d es) \<le> max 0 (retry_limit j - or0 (jb_retry_count j))"
  by (rule retries_bound [OF assms])

definition hiccups :: "route_event list" where
  "hiccups = [RResult gpu_caller job_one hiccup 1000, RPoll 7 2000, RResult gpu_caller job_one hiccup 3000,
     RPoll 7 4000, RResult gpu_caller job_one hiccup 5000]"

theorem transient_retries_end_witness:
  "retries 1 demo_running hiccups = 2 \<and> int (retries 1 demo_running hiccups) \<le> 2"
proof
  show "retries 1 demo_running hiccups = 2" by code_simp
  have "retry_limit demo_run - or0 (jb_retry_count demo_run) = 2"
    by (simp add: retry_limit_def or_default_def demo_run_def demo_job_def blank_job_def)
  then show "int (retries 1 demo_running hiccups) \<le> 2"
    using transient_retries_end [of demo_running 1 demo_run hiccups] by simp
qed

text \<open>
  A settled report pays exactly what the meter says. The provider's share and the platform's fee
  add up to the metered cost; with an output the provider may claim the share and no renter's
  balance moves; without one the renter gets the quoted cost back, if it was not refunded before,
  and no provider is paid. The meter, not the quote, bounds what is paid.
\<close>

theorem result_settles:
  assumes "postResult c i r now d = (d', Settled t e f)" "find_job d i = Some j" "t \<le> 2 ^ 47"
    and "jb_provider j = Some p" "p \<in> pv_id ` set (providers d)" "jb_renter j = Some n" "n \<in> rn_id ` set (renters d)"
  shows "e + f = t \<and> 0 \<le> f \<and> f \<le> t
    \<and> t = max 0 (tc_total (meter j (the (result_seconds j r)) (at_least0 (re_storage r)) (at_least0 (re_bandwidth r))))
    \<and> claimable_of d' k = claimable_of d k + (if truthy_str (re_result r) \<and> k = p then e else 0)
    \<and> balance_of d' k = balance_of d k
        + (if \<not> truthy_str (re_result r) \<and> k = n \<and> refundable j \<and> jb_refunded_at j = None then or0 (jb_cost j) else 0)"
proof -
  obtain j' secs where j': "find_job d i = Some j'" and secs: "result_seconds j' r = Some secs"
    and t: "t = max 0 (tc_total (meter j' secs (at_least0 (re_storage r)) (at_least0 (re_bandwidth r))))"
    and e: "e = bs_provider (splitBilling t)" "f = bs_fee (splitBilling t)" and s: "settle_result j' r now d = (d', Settled t e f)"
    by (rule settle_answer_is [OF assms(1)])
  have [simp]: "j' = j" using j' assms(2) by simp
  have d': "d' = fst (settle_result j r now d)" using s by simp
  have "0 \<le> t" using t by simp
  note b = split_bounds [OF this assms(3)]
  have m: "claimable_of d' k = claimable_of d k + (if truthy_str (re_result r) \<and> k = p then e else 0)"
    unfolding d' using secs e t assms(4,5)
    by (cases "truthy_str (re_result r)") (simp_all add: settle_result_def Let_def claimable_credit)
  have n: "balance_of d' k = balance_of d k
      + (if \<not> truthy_str (re_result r) \<and> k = n \<and> refundable j \<and> jb_refunded_at j = None then or0 (jb_cost j) else 0)"
    unfolding d' using secs assms(6,7)
    by (cases "truthy_str (re_result r)"; cases "refundable j \<and> jb_refunded_at j = None")
      (simp_all add: settle_result_def Let_def balance_refund, auto)
  show ?thesis using b e t secs m n by simp
qed

definition report :: job_result where
  "report = \<lparr>re_result = Some ''ok'', re_error = None, re_transient = False, re_duration = Some (Some 3600),
     re_gpu_seconds = None, re_storage = None, re_bandwidth = None\<rparr>"

text \<open>An hour at 9 halala a minute was quoted 90: the provider still earns three quarters of 540.\<close>

lemma demo_report_answer: "snd (postResult gpu_caller job_one report 1000 (demo_running\<lparr>jobs := [demo_run\<lparr>jb_max_seconds := Some 7200\<rparr>]\<rparr>))
    = Settled 540 405 135"
  by code_simp

theorem result_settles_witness:
  "\<exists>d'. postResult gpu_caller job_one report 1000 (demo_running\<lparr>jobs := [demo_run\<lparr>jb_max_seconds := Some 7200\<rparr>]\<rparr>) = (d', Settled 540 405 135)
     \<and> claimable_of d' 7 = 405 \<and> balance_of d' 1 = 1000"
proof -
  let ?d = "demo_running\<lparr>jobs := [demo_run\<lparr>jb_max_seconds := Some 7200\<rparr>]\<rparr>"
  define d' where "d' = fst (postResult gpu_caller job_one report 1000 ?d)"
  have p: "postResult gpu_caller job_one report 1000 ?d = (d', Settled 540 405 135)"
    using demo_report_answer by (simp add: d'_def prod_eq_iff)
  have f: "find_job ?d job_one = Some (demo_run\<lparr>jb_max_seconds := Some 7200\<rparr>)"
    by (simp add: find_job_def sql_get_def refers_def job_one_def demo_run_def)
  have o: "claimable_of ?d 7 = 0" "balance_of ?d 1 = 1000"
    by (simp_all add: demo_running_def claimable_of_def balance_of_def provider_by_id_def renter_by_id_def sql_get_def
        demo_provider_def demo_renter_def)
  have "truthy_str (re_result report)" by (simp add: report_def)
  then have "claimable_of d' 7 = 405 \<and> balance_of d' 1 = 1000"
    using result_settles [OF p f, of 7 1 7] result_settles [OF p f, of 7 1 1] o
    by (simp add: demo_run_def demo_running_def demo_provider_def demo_renter_def)
  then show ?thesis using p by blast
qed

lemma store_job_money:
  assumes "store_job now i j d = Some d1" "has_key rn_id (renters d)"
  shows "balance_of d1 k = balance_of d k - (if k = i then or0 (jb_cost j) else 0)" "or0 (jb_cost j) \<le> balance_of d i"
proof -
  obtain d0 where b: "debit_balance i (or0 (jb_cost j)) now d = Some d0"
    and d1: "renters d1 = sql_update (\<lambda>r. rn_id r = i) (\<lambda>r. r\<lparr>rn_total_jobs := rn_total_jobs r + 1, rn_updated_at := Some now\<rparr>) (renters d0)"
    using assms(1) by (auto simp: store_job_def split: option.splits if_splits)
  have "balance_of d1 k = balance_of d0 k"
    by (subst balance_update_rows [OF d1]) (auto simp: balance_of_def split: option.splits)
  then show "balance_of d1 k = balance_of d k - (if k = i then or0 (jb_cost j) else 0)" "or0 (jb_cost j) \<le> balance_of d i"
    using balance_debit [OF assms(2) b] by simp_all
qed

lemma quota_counts:
  assumes "jobs d' = jobs d @ [j]" "jb_renter j = Some i" "jb_submitted_at j = Some now" "jb_actual_cost j = None"
  shows "jobs_today d' i now = jobs_today d i now + 1" "spent_month d' i now = spent_month d i now + or0 (jb_cost j)"
  using assms(2-) by (simp_all add: jobs_today_def spent_month_def sql_changes_def sql_sum_def assms(1) submitted_ms_def)

text \<open>
  C26: A submission either charges the quoted cost of the one job it adds, or changes no job, no
  balance and no escrow. An accepted job waits as pending or queued, its renter had the cost, and
  stays within the daily number of jobs and the monthly spend of the quota in force.
\<close>

theorem submit_accounts:
  assumes "has_key rn_id (renters d)" "submitJob now rn q d = (d', res)" "i = rn_id rn" "0 \<le> su_minutes q"
  shows "case res of Inl _ \<Rightarrow> jobs d' = jobs d \<and> renters d' = renters d \<and> escrows d' = escrows d
    | Inr j \<Rightarrow> jobs d' = jobs d @ [j] \<and> jb_status j \<in> {JPending, JQueued} \<and> jb_refunded_at j = None
        \<and> balance_of d' k = balance_of d k - (if k = i then or0 (jb_cost j) else 0)
        \<and> 0 \<le> or0 (jb_cost j) \<and> or0 (jb_cost j) \<le> balance_of d i
        \<and> jobs_today d' i now \<le> daily_limit d' i \<and> spent_month d' i now \<le> monthly_limit d' i"
proof (cases res)
  case (Inl e)
  then show ?thesis using submit_rows [OF assms(2)] by simp
next
  case (Inr j)
  let ?q = "ensure_quota i d"
  obtain d1 where rows: "jobs d' = jobs d @ [j]" and row: "j = submit_row d now i q (projr (choose_route d now q))"
    and s: "store_job now i j ?q = Some d1" and d': "d' = hold_escrow j d1"
    and daily: "jobs_today ?q i now + 1 \<le> daily_limit ?q i" and monthly: "spent_month ?q i now + or0 (jb_cost j) \<le> monthly_limit ?q i"
    using submit_rows [OF assms(2)] Inr assms(3) by auto
  have same: "renters d' = renters d1" "quotas d' = quotas ?q" "renters ?q = renters d" "jobs ?q = jobs d"
    using store_job_Some [OF s] by (simp_all add: d' hold_escrow_def ensure_quota_def)
  have bal: "balance_of d' x = balance_of d1 x" "balance_of ?q x = balance_of d x" for x
    using same by (simp_all add: balance_of_def renter_by_id_def)
  have j: "jb_renter j = Some i" "jb_submitted_at j = Some now" "jb_actual_cost j = None" "jb_refunded_at j = None"
    "jb_status j \<in> {JPending, JQueued}" and c: "or0 (jb_cost j) = submit_cost q (projr (choose_route d now q))"
    by (simp_all add: row submit_row_def Let_def blank_job_def)
  have "0 \<le> fl_mul (of_int (su_minutes q)) 60" using assms(4) by (simp add: fl_mul_nonneg)
  then have cost: "0 \<le> or0 (jb_cost j)" unfolding c submit_cost_def calculateCostHalala_def by (rule estimate_nonneg)
  have lim: "daily_limit d' i = daily_limit ?q i" "monthly_limit d' i = monthly_limit ?q i"
    using same by (simp_all add: daily_limit_def monthly_limit_def)
  have cnt: "jobs_today ?q i now = jobs_today d i now" "spent_month ?q i now = spent_month d i now"
    using same by (simp_all add: jobs_today_def spent_month_def)
  have "has_key rn_id (renters ?q)" using assms(1) same by simp
  note money = store_job_money [OF s this, unfolded bal]
  show ?thesis using Inr rows j cost money bal daily monthly lim cnt quota_counts [OF rows j(1-3)] by simp
qed

definition order :: submit_req where
  "order = \<lparr>su_job = ''job-2'', su_type = ''training'', su_minutes = 60, su_provider = Some 7, su_vram = None, su_gpu = None,
     su_class = ''standard'', su_prewarm = False, su_timeout = None, su_priority = 2, su_model = [], su_container = ''{}'', su_task = ''{}''\<rparr>"

lemma order_result:
  "\<exists>j. snd (submitJob 60000 demo_renter order demo_db) = Inr j \<and> jb_cost j = Some 420"
proof -
  have m: "fl_mul 60 60 = of_int (60 * 60)" using fl_of_int [of 3600] by (simp add: fl_mul_def)
  have ty: "base_rate ''training'' = 7" by code_simp
  have n: "normalizePricingClass (Some ''standard'') = ''standard''" by code_simp
  have cost: "submit_cost order (Some demo_provider) = 420"
    using type_cost_minutes [of 60 "''training''"]
    by (simp add: submit_cost_def order_def demo_provider_def calculateCostHalala_def estimateCost_def m ty n)
  have r: "choose_route demo_db 60000 order = Inr (Some demo_provider)"
  proof -
    have "to_lower ''online'' = ''online''" by code_simp
    then show ?thesis by (simp add: choose_route_def order_def, simp add: demo_provider_def)
  qed
  show ?thesis using r cost
    by (simp add: submitJob_def order_def lacks_vram_def toFiniteNumber_def Let_def ensure_quota_def sql_insert_or_ignore_def
        jobs_today_def spent_month_def sql_changes_def sql_sum_def daily_limit_def monthly_limit_def sql_get_def or_default_def
        store_job_def debit_balance_def submit_row_def demo_renter_def)
qed

theorem submit_accounts_witness:
  "\<exists>d' j. submitJob 60000 demo_renter order demo_db = (d', Inr j) \<and> jb_cost j = Some 420 \<and> balance_of d' 1 = 580
     \<and> spent_month d' 1 60000 \<le> monthly_limit d' 1"
proof -
  obtain d' j where j: "submitJob 60000 demo_renter order demo_db = (d', Inr j)" "jb_cost j = Some 420"
    using order_result by (metis prod.collapse)
  have "has_key rn_id (renters demo_db)" "0 \<le> su_minutes order" by (simp_all add: has_key_def order_def)
  from submit_accounts [OF this(1) j(1) refl this(2), of 1] show ?thesis using j by (auto simp: demo_renter_def)
qed

section \<open>Where they pay too much\<close>

lemma find_by_text: "find_job d \<lparr>ref_text = k, ref_id = None\<rparr> = job_of d k"
proof -
  have "refers \<lparr>ref_text = k, ref_id = None\<rparr> = (\<lambda>j. jb_job_id j = k)" by (rule ext) (simp add: refers_def)
  then show ?thesis by (simp add: find_job_def job_of_def)
qed

lemma job_of_mem: "has_key jb_job_id (jobs d) \<Longrightarrow> j \<in> set (jobs d) \<Longrightarrow> job_of d (jb_job_id j) = Some j"
  using sql_get_key [of jb_job_id "jobs d" j] by (simp add: job_of_def)

lemma promote_stays:
  assumes "has_key jb_id (jobs d)" "k \<in> set (jobs d)" "jb_status k \<noteq> JQueued"
  shows "k \<in> set (jobs (promoteNextQueuedJob q now d))"
proof (cases "next_queued d q")
  case (Some n)
  have "jb_id k \<noteq> jb_id n" using next_queued_row [OF Some] has_key_eq [OF assms(1,2)] assms(3) by auto
  then show ?thesis using Some assms(2) by (simp add: promoteNextQueuedJob_def kept_row)
qed (simp add: promoteNextQueuedJob_def assms)

lemma set_job_row: "j \<in> set (jobs d) \<Longrightarrow> f j \<in> set (jobs (set_job (\<lambda>x. jb_id x = jb_id j) f d))"
  by (simp add: set_sql_update)

lemma promote_keys [simp]:
  "has_key jb_job_id (jobs (promoteNextQueuedJob q now d)) = has_key jb_job_id (jobs d)"
  "has_key jb_id (jobs (promoteNextQueuedJob q now d)) = has_key jb_id (jobs d)"
  by (simp_all add: promoteNextQueuedJob_def has_key_update split: option.split)

text \<open>Failing a job refunds it once.\<close>

lemma fail_refunds:
  assumes "has_key jb_id (jobs d)" "has_key jb_job_id (jobs d)" "j \<in> set (jobs d)" "by_provider c j"
    "jb_status j \<in> {JRunning, JAssigned, JPulling, JPending}" "jb_renter j = Some n" "n \<noteq> 0" "n \<in> rn_id ` set (renters d)"
    "jb_cost j = Some a" "0 < a" "jb_refunded_at j = None"
  shows "\<exists>d1 j1. fst (postFail c \<lparr>ref_text = jb_job_id j, ref_id = None\<rparr> err None now d) = d1 \<and> j1 \<in> set (jobs d1)
     \<and> balance_of d1 n = balance_of d n + a \<and> has_key jb_job_id (jobs d1) \<and> has_key jb_id (jobs d1)
     \<and> n \<in> rn_id ` set (renters d1) \<and> jb_job_id j1 = jb_job_id j \<and> jb_status j1 = JFailed \<and> jb_renter j1 = Some n \<and> jb_cost j1 = Some a"
proof -
  let ?f = "\<lambda>x. x\<lparr>jb_status := JFailed, jb_error := Some (if truthy_str err then the err else ''Job failed''),
      jb_completed_at := Some now, jb_actual_minutes := Some (or_default (jb_duration_minutes j) 1)\<rparr>"
  let ?g = "\<lambda>x. x\<lparr>jb_refunded_at := Some now\<rparr>"
  let ?r = "release_escrow (jb_job_id j) EReleasedRenter now (set_job (\<lambda>x. jb_id x = jb_id j) ?f d)"
  define d1 where "d1 = promoteNextQueuedJob (jb_provider j) now (refund_job j now ?r)"
  have e: "fst (postFail c \<lparr>ref_text = jb_job_id j, ref_id = None\<rparr> err None now d) = d1"
    using assms job_of_mem [OF assms(2,3)] by (auto simp: postFail_def find_by_text refundable_def d1_def Let_def)
  have k: "has_key jb_id (jobs (refund_job j now ?r))" "has_key jb_job_id (jobs (refund_job j now ?r))"
    using assms(1,2) by (simp_all add: refund_job_def has_key_update)
  have "?g (?f j) \<in> set (jobs (refund_job j now ?r))"
    using assms(3) set_job_row [of "?f j" ?r ?g] set_job_row [of j d ?f] by (simp add: refund_job_def)
  then have "?g (?f j) \<in> set (jobs d1)" unfolding d1_def by (rule promote_stays [OF k(1)]) simp
  moreover have "balance_of d1 n = balance_of d n + a"
    using balance_refund [of n ?r j now n] assms by (simp add: d1_def)
  moreover have "n \<in> rn_id ` set (renters d1)" using assms(8) by (simp add: d1_def refund_job_def)
  ultimately show ?thesis using e k assms by (intro exI [of _ d1] exI [of _ "?g (?f j)"]) (simp add: d1_def)
qed

text \<open>
  A cancellation refunds a job again. The daemon fails a running job, which gives the renter the
  cost back; the renter then cancels the failed job, which the route allows, and gets the cost a
  second time: \<open>refunded_at\<close> is not looked at.
\<close>

theorem cancel_refunds_again:
  assumes "has_key jb_id (jobs d)" "has_key jb_job_id (jobs d)" "j \<in> set (jobs d)" "by_provider c j"
    "jb_status j \<in> {JRunning, JAssigned, JPulling, JPending}" "jb_renter j = Some n" "n \<noteq> 0" "n \<in> rn_id ` set (renters d)"
    "jb_cost j = Some a" "0 < a" "jb_refunded_at j = None" "ca_renter r = Some n"
    and i: "i = \<lparr>ref_text = jb_job_id j, ref_id = None\<rparr>"
  shows "balance_of (foldl route_step d [RFail c i err None now, RCancel r i later]) n = balance_of d n + 2 * a"
proof -
  obtain d1 j1 where d1: "fst (postFail c i err None now d) = d1" and j1: "j1 \<in> set (jobs d1)" "jb_job_id j1 = jb_job_id j"
    "jb_status j1 = JFailed" "jb_renter j1 = Some n" "jb_cost j1 = Some a" and b: "balance_of d1 n = balance_of d n + a"
    and k: "has_key jb_job_id (jobs d1)" "n \<in> rn_id ` set (renters d1)"
    using fail_refunds [OF assms(1-11), of err now] i by metis
  have "find_job d1 i = Some j1" using job_of_mem [OF k(1) j1(1)] j1(2) by (simp add: i find_by_text)
  then have "balance_of (fst (postCancel r i later d1)) n = balance_of d1 n + a"
    using assms(7,10,12) j1 balance_refund [of n "set_job (\<lambda>x. jb_id x = jb_id j1) (\<lambda>x. x\<lparr>jb_status := JCancelled,
        jb_completed_at := Some later\<rparr>) d1" j1 later n] k(2)
    by (simp add: postCancel_def by_renter_def refundable_def Let_def)
  with d1 b show ?thesis by simp
qed

theorem cancel_refunds_again_witness:
  "balance_of (foldl route_step demo_running [RFail gpu_caller job_one None None 1000, RCancel renter_caller job_one 2000]) 1 = 1180"
proof -
  have "balance_of (foldl route_step demo_running [RFail gpu_caller job_one None None 1000, RCancel renter_caller job_one 2000]) 1
     = balance_of demo_running 1 + 2 * 90"
    by (rule cancel_refunds_again [where j = demo_run and c = gpu_caller])
      (simp_all add: has_key_def by_provider_def gpu_caller_def renter_caller_def job_one_def demo_run_def demo_running_def demo_renter_def)
  then show ?thesis by (simp add: balance_of_def renter_by_id_def sql_get_def demo_running_def demo_renter_def)
qed

text \<open>
  A job with a credit hold is completed for free. \<open>PATCH /complete\<close> marks the job completed and
  credits the provider with three quarters of the metered cost, then throws: the hold is left as it
  was and the renter is not charged; and since the job is completed, neither \<open>PATCH\<close> route will
  ever settle or release the hold.
\<close>

theorem completed_for_free:
  assumes "has_key jb_id (jobs d)" "has_key jb_job_id (jobs d)" "j \<in> set (jobs d)" "by_provider c j"
    "jb_status j \<notin> {JCompleted, JCancelled}" "jb_provider j = Some p" "p \<noteq> 0" "p \<in> pv_id ` set (providers d)"
    and i: "i = \<lparr>ref_text = jb_job_id j, ref_id = None\<rparr>" and d': "d' = fst (patchComplete c i now d)"
  shows "snd (patchComplete c i now d) = Crashed \<and> holds d' = holds d \<and> balance_of d' k = balance_of d k
    \<and> claimable_of d' p = claimable_of d p
        + bs_provider (splitBilling (max 0 (tc_total (meter j (of_int (elapsed_meter j now)) 0 0))))
    \<and> patchComplete c i later d' = (d', WrongState JCompleted) \<and> patchFail c i reason later d' = (d', WrongState JCompleted)"
proof -
  have f: "find_job d i = Some j" using job_of_mem [OF assms(2,3)] by (simp add: i find_by_text)
  define secs where "secs = elapsed_meter j now"
  define K where "K = meter j (of_int secs) 0 0"
  define e where "e = bs_provider (splitBilling (max 0 (tc_total K)))"
  let ?f = "billed JCompleted now \<lceil>fl_div (of_int secs) 60\<rceil> (of_int secs) K"
  have e': "patchComplete c i now d = (credit_earnings False (Some p) e (set_job (\<lambda>x. jb_id x = jb_id j) ?f d), Crashed)"
    using f assms(4-7) by (simp add: patchComplete_def Let_def secs_def K_def e_def)
  have ids: "jb_job_id (?f x) = jb_job_id x" "jb_provider (?f x) = jb_provider x" "jb_status (?f x) = JCompleted" for x
    by (simp_all add: billed_def Let_def)
  have "?f j \<in> set (jobs d')" using set_job_row [OF assms(3), of ?f] by (simp add: d' e')
  moreover have "has_key jb_job_id (jobs d')" using assms(2) by (simp add: d' e' has_key_update ids)
  ultimately have "find_job d' i = Some (?f j)" using job_of_mem [of d' "?f j"] by (simp add: i find_by_text ids)
  then have "patchComplete c i later d' = (d', WrongState JCompleted)" "patchFail c i reason later d' = (d', WrongState JCompleted)"
    using assms(4) by (simp_all add: patchComplete_def patchFail_def ids by_provider_def)
  moreover have "holds d' = holds d" by (simp add: d' e' credit_earnings_def set_job_def)
  moreover have "claimable_of d' p = claimable_of d p + e" using claimable_credit [of p "set_job (\<lambda>x. jb_id x = jb_id j) ?f d"] assms(8)
    by (simp add: d' e')
  moreover have "balance_of d' k = balance_of d k" by (simp add: d' e')
  ultimately show ?thesis using e' by (simp add: e_def K_def secs_def)
qed

definition demo_held :: db where
  "demo_held = demo_running\<lparr>holds := [\<lparr>hd_id = ''u'', hd_renter = 1, hd_job = ''job-1'', hd_amount = 90, hd_status = HHeld,
     hd_actual = None, hd_created_at = 0, hd_resolved_at = None\<rparr>]\<rparr>"

theorem completed_for_free_witness:
  "\<exists>d'. d' = fst (patchComplete gpu_caller job_one 3600000 demo_held) \<and> held d' 1 = 90 \<and> balance_of d' 1 = 1000
     \<and> claimable_of d' 7 = 405"
proof -
  define d' where "d' = fst (patchComplete gpu_caller job_one 3600000 demo_held)"
  have m: "bs_provider (splitBilling (max 0 (tc_total (meter demo_run (of_int (elapsed_meter demo_run 3600000)) 0 0)))) = 405"
    by code_simp
  have t: "held demo_held 1 = 90" "claimable_of demo_held 7 = 0" "balance_of demo_held 1 = 1000"
    by (simp_all add: demo_held_def demo_running_def held_def sql_sum_def balance_of_def claimable_of_def renter_by_id_def provider_by_id_def sql_get_def
        demo_renter_def demo_provider_def)
  have "snd (patchComplete gpu_caller job_one 3600000 demo_held) = Crashed \<and> holds d' = holds demo_held
    \<and> balance_of d' 1 = balance_of demo_held 1 \<and> claimable_of d' 7 = claimable_of demo_held 7
        + bs_provider (splitBilling (max 0 (tc_total (meter demo_run (of_int (elapsed_meter demo_run 3600000)) 0 0))))
    \<and> patchComplete gpu_caller job_one 0 d' = (d', WrongState JCompleted) \<and> patchFail gpu_caller job_one None 0 d' = (d', WrongState JCompleted)"
    by (rule completed_for_free [where j = demo_run])
      (simp_all add: has_key_def by_provider_def gpu_caller_def job_one_def demo_run_def demo_held_def demo_running_def demo_provider_def d'_def)
  then show ?thesis using m t d'_def by (auto simp: held_def)
qed

lemma assign_row:
  assumes "job_of d k = Some j" "jb_status j = JPending"
  shows "\<exists>j'. job_of (fst (tryAssign now k q d)) k = Some j' \<and> jb_status j' = JPending \<and> jb_renter j' = jb_renter j \<and> jb_cost j' = jb_cost j"
  using assms by (auto simp: tryAssign_def job_of_update split: option.split)

lemma enqueue_row:
  assumes "job_of (qs_db s) k = Some j" "jb_status j = JPending"
  shows "\<exists>j'. job_of (qs_db (fst (enqueueJob now k q s))) k = Some j' \<and> jb_status j' \<in> {JPending, JQueued}
    \<and> jb_renter j' = jb_renter j \<and> jb_cost j' = jb_cost j"
proof -
  obtain d r where t: "tryAssign now k q (qs_db s) = (d, r)" by fastforce
  from assign_row [OF assms, of now q] t obtain j' where "job_of d k = Some j'" "jb_status j' = JPending"
    "jb_renter j' = jb_renter j" "jb_cost j' = jb_cost j" by auto
  then show ?thesis using t by (cases r) (auto simp: enqueueJob_def job_of_update)
qed

text \<open>
  A cancellation pays for what was never taken. \<open>POST /api/jobs\<close> only holds the cost; when the
  renter cancels the job while it waits, the route adds the cost to the balance, and may be repeated
  with a new job: money from nothing.
\<close>

theorem cancel_pays_untaken:
  assumes "createJob now uuid rn q s = (s', Inr j)" "renter_by_id (qs_db s) n = Some rn" "n \<noteq> 0" "0 < create_cost q"
    and "ca_renter r = Some n" and i: "i = \<lparr>ref_text = cr_job q, ref_id = None\<rparr>"
  shows "balance_of (fst (postCancel r i later (qs_db s'))) n = balance_of (qs_db s) n + create_cost q"
proof -
  have rn: "rn_id rn = n" "n \<in> rn_id ` set (renters (qs_db s))"
    using assms(2) unfolding renter_by_id_def by (auto dest: sql_get_Some)
  let ?j = "create_row (qs_db s) now n q"
  let ?d = "insert_created now n ?j (qs_db s)"
  let ?q = "\<lparr>jr_min_vram = (case toFiniteNumber (cr_vram q) 0 (Some 1024) of None \<Rightarrow> 0 | Some v \<Rightarrow> v),
      jr_gpu = cr_gpu q, jr_class = normalizePricingClass (Some (cr_class q))\<rparr>"
  have fresh: "\<forall>x\<in>set (jobs (qs_db s)). jb_job_id x \<noteq> cr_job q"
    using assms(1) by (auto simp: createJob_def Let_def list_ex_iff split: if_splits)
  obtain a h where "dispatch now uuid n (cr_job q) (create_cost q) ?q (s\<lparr>qs_db := ?d\<rparr>) = (s', Dispatched a h)"
    using assms(1) rn by (auto simp: createJob_def Let_def split: if_splits prod.splits dispatch_result.splits)
  then obtain d2 where p: "place_hold now uuid n (cr_job q) (create_cost q) ?d = Some (d2, h)"
    and s': "s' = fst (enqueueJob now (cr_job q) ?q (s\<lparr>qs_db := d2\<rparr>))"
    by (auto simp: dispatch_def split: if_splits option.splits prod.splits)
  have d2: "jobs d2 = jobs ?d" "renters d2 = renters ?d"
    using p by (auto simp: place_hold_def split: option.splits if_splits)
  have "job_of ?d (cr_job q) = Some ?j"
    using fresh unfolding job_of_def insert_created_def
    by (simp add: sql_get_insert sql_get_None [THEN iffD2] create_row_def)
  then have "job_of d2 (cr_job q) = Some ?j" using d2 by (simp add: job_of_def)
  from enqueue_row [of "s\<lparr>qs_db := d2\<rparr>" "cr_job q" ?j now ?q] this obtain j' where j': "job_of (qs_db s') (cr_job q) = Some j'"
    "jb_status j' \<in> {JPending, JQueued}" "jb_renter j' = Some n" "jb_cost j' = Some (create_cost q)"
    by (auto simp: s' create_row_def)
  have ren: "renters (qs_db s') = renters ?d" using d2 by (simp add: s')
  have "balance_of (qs_db s') n = balance_of (qs_db s) n"
    by (subst balance_update_rows [OF ren [unfolded insert_created_def, simplified]])
      (auto simp: balance_of_def split: option.splits)
  moreover have "n \<in> rn_id ` set (renters (qs_db s'))" using rn(2) by (simp add: ren insert_created_def keyed)
  moreover have "find_job (qs_db s') i = Some j'" using j'(1) by (simp add: i find_by_text)
  ultimately show ?thesis using assms(3-5) j'
      balance_refund [of n "set_job (\<lambda>x. jb_id x = jb_id j') (\<lambda>x. x\<lparr>jb_status := JCancelled, jb_completed_at := Some later\<rparr>) (qs_db s')" j' later n]
    by (auto simp: postCancel_def by_renter_def refundable_def Let_def)
qed

definition order_held :: create_req where
  "order_held = \<lparr>cr_job = ''job-3'', cr_type = ''training'', cr_minutes = 60, cr_class = ''standard'', cr_provider = None,
     cr_vram = None, cr_gpu = None, cr_model = []\<rparr>"

lemma order_held_created:
  "\<exists>s' j. createJob 0 ''u'' demo_renter order_held \<lparr>qs_db = demo_db, qs_queue = []\<rparr> = (s', Inr j)"
proof -
  have cost: "create_cost order_held = 420" by code_simp
  have p: "pv_status demo_provider = ''online''" by (simp add: demo_provider_def)
  have r: "renter_by_id (insert_created 0 1 (create_row demo_db 0 1 order_held) demo_db) 1 \<noteq> None"
    by (simp add: insert_created_def renter_by_id_def sql_get_def demo_renter_def)
  then obtain rn where rn: "renter_by_id (insert_created 0 1 (create_row demo_db 0 1 order_held) demo_db) 1 = Some rn" by auto
  have b: "rn_balance rn = 1000" using rn by (auto simp: insert_created_def renter_by_id_def sql_get_def demo_renter_def)
  have h: "holds (insert_created 0 1 j demo_db) = []" for j by (simp add: insert_created_def)
  have id: "rn_id demo_renter = 1" "rn_balance demo_renter = 1000" by (simp_all add: demo_renter_def)
  show ?thesis using p cost rn b h id
    by (simp add: createJob_def Let_def dispatch_def getAvailableBalance_def held_def sql_sum_def place_hold_def sql_get_def
        order_held_def split: prod.split)
qed

theorem cancel_pays_untaken_witness:
  "\<exists>s' j. createJob 0 ''u'' demo_renter order_held \<lparr>qs_db = demo_db, qs_queue = []\<rparr> = (s', Inr j)
     \<and> balance_of (fst (postCancel renter_caller \<lparr>ref_text = ''job-3'', ref_id = None\<rparr> 60000 (qs_db s'))) 1 = 1420"
proof -
  obtain s' j where s': "createJob 0 ''u'' demo_renter order_held \<lparr>qs_db = demo_db, qs_queue = []\<rparr> = (s', Inr j)"
    using order_held_created by blast
  have cost: "create_cost order_held = 420" by code_simp
  have id: "cr_job order_held = ''job-3''" by (simp add: order_held_def)
  have "balance_of (fst (postCancel renter_caller \<lparr>ref_text = ''job-3'', ref_id = None\<rparr> 60000 (qs_db s'))) 1
      = balance_of (qs_db \<lparr>qs_db = demo_db, qs_queue = []\<rparr>) 1 + create_cost order_held"
    by (rule cancel_pays_untaken [OF s']) (simp_all add: cost renter_caller_def id)
  then show ?thesis using s' cost by auto
qed

end
