(* ===== verification/Sweeps.thy ===== *)
theory Sweeps
  imports JobRoutes Volumes
begin

text \<open>
  The background loops of the server over jobs and providers: the job sweep and the offline sweep of
  \<open>backend/src/services/jobSweep.js\<close>, \<open>services/recovery-engine.js\<close>, \<open>services/fallback-loop.js\<close> and
  \<open>services/providerLivenessMonitor.js\<close>. All of them look for providers that stopped sending
  heartbeats and deal with their jobs, each in its own way. The columns \<open>queued_at\<close>, \<open>retry_reason\<close>
  and \<open>status_updated_at\<close>, for which the sweep asks the schema, do not exist.
\<close>

section \<open>State\<close>

record sweep_log =
  sl_job :: string
  sl_old :: job_status
  sl_new :: job_status
  sl_reason :: string
  sl_at :: int

datatype recovery_status = RcPending | RcSuccess | RcNoBackup

record recovery_event =
  rc_job :: string
  rc_from :: int
  rc_to :: "int option"
  rc_status :: recovery_status
  rc_started :: int
  rc_completed :: "int option"

record bottleneck_event =
  bn_provider :: int
  bn_utilization :: rat
  bn_affected :: nat
  bn_action :: string
  bn_created :: int

record sweep_state =
  sw_db :: db
  sw_log :: "sweep_log list"
  sw_recoveries :: "recovery_event list"
  sw_bottlenecks :: "bottleneck_event list"
  sw_high :: "int \<Rightarrow> nat"          \<comment> \<open>\<open>loopState.consecutiveHighUtil\<close>, 0 where it has no entry\<close>

section \<open>Timed-out jobs\<close>

definition past_duration :: "int \<Rightarrow> job_row \<Rightarrow> bool" where
  \<comment> \<open>\<open>runningCandidatesSql\<close>\<close>
  "past_duration now j =
     (jb_status j = JRunning \<and> jb_type j \<noteq> ''interactive_pod'' \<and> or0 (jb_duration_minutes j) > 0
      \<and> (case jb_started_at j of None \<Rightarrow> False
         | Some t \<Rightarrow> sql_datetime (t + or0 (jb_duration_minutes j) * 60000) \<le> sql_datetime now))"

definition past_queue :: "int \<Rightarrow> job_row \<Rightarrow> bool" where
  \<comment> \<open>\<open>queuedCandidatesSql\<close>\<close>
  "past_queue now j =
     (jb_status j = JQueued \<and> jb_type j \<noteq> ''interactive_pod''
      \<and> (case jb_submitted_at j of None \<Rightarrow> False
         | Some t \<Rightarrow> sql_datetime t \<le> sql_datetime (now - 30 * 60 * 1000)))"

definition sweep_final :: "job_status \<Rightarrow> bool" where
  "sweep_final st = (st \<in> {JFailed, JPermanentlyFailed, JCancelled, JCompleted, JDone})"

definition requeued_row :: "job_row \<Rightarrow> string \<Rightarrow> int \<Rightarrow> job_row \<Rightarrow> job_row" where
  "requeued_row j reason now x =
     (let n = or0 (jb_retry_count j) + 1
      in x\<lparr>jb_status := JQueued, jb_retry_count := Some n, jb_provider := None, jb_completed_at := None,
           jb_started_at := None, jb_assigned_at := None, jb_picked_up_at := None, jb_timeout_at := None,
           jb_webhook_at := None, jb_webhook_status := None, jb_webhook_attempts := 0,
           jb_error := Some (''[retry '' @ dec n @ ''/'' @ dec (retry_limit j) @ ''] '' @ reason),
           jb_updated_at := Some (sql_datetime now)\<rparr>)"

definition exhausted_row :: "string \<Rightarrow> int \<Rightarrow> job_row \<Rightarrow> job_row" where
  "exhausted_row reason now x =
     x\<lparr>jb_status := JFailed, jb_error := Some (''[permanent] retries exhausted: '' @ reason),
       jb_completed_at := Some (sql_datetime now), jb_updated_at := Some (sql_datetime now)\<rparr>"

definition writeSweepLog :: "job_row \<Rightarrow> job_status \<Rightarrow> string \<Rightarrow> int \<Rightarrow> sweep_state \<Rightarrow> sweep_state" where
  "writeSweepLog j st reason now s =
     s\<lparr>sw_log := sql_insert \<lparr>sl_job = (if jb_job_id j = [] then dec (jb_id j) else jb_job_id j), sl_old = jb_status j, sl_new = st,
         sl_reason = reason, sl_at = sql_datetime now\<rparr> (sw_log s)\<rparr>"

definition updateJobForRetry :: "int \<Rightarrow> job_row \<times> string \<Rightarrow> sweep_state \<Rightarrow> sweep_state" where
  "updateJobForRetry now item s =
     (let j = fst item; reason = snd item; P = (\<lambda>x. jb_id x = jb_id j \<and> \<not> sweep_final (jb_status x)) in
      if or0 (jb_retry_count j) < retry_limit j
      then writeSweepLog j JQueued reason now (s\<lparr>sw_db := set_job P (requeued_row j reason now) (sw_db s)\<rparr>)
      else writeSweepLog j JFailed reason now (s\<lparr>sw_db := set_job P (exhausted_row reason now) (sw_db s)\<rparr>))"

definition sweep_candidates :: "int \<Rightarrow> db \<Rightarrow> (job_row \<times> string) list" where
  "sweep_candidates now d =
     map (\<lambda>j. (j, ''provider_timeout'')) (sql_all (past_duration now) (jobs d))
     @ map (\<lambda>j. (j, ''queue_timeout'')) (sql_all (past_queue now) (jobs d))"

fun once_each :: "int set \<Rightarrow> (job_row \<times> string) list \<Rightarrow> (job_row \<times> string) list" where
  \<comment> \<open>the set \<open>seen\<close> of the loop\<close>
  "once_each seen [] = []"
| "once_each seen (c # cs) =
     (if jb_id (fst c) \<in> seen then once_each seen cs else c # once_each (insert (jb_id (fst c)) seen) cs)"

definition retry_sweep :: "int \<Rightarrow> sweep_state \<Rightarrow> sweep_state" where
  "retry_sweep now s = fold (updateJobForRetry now) (once_each {} (sweep_candidates now (sw_db s))) s"

text \<open>\<open>runSweep\<close> up to its first await; mails and webhooks follow.\<close>

definition runSweep :: "int \<Rightarrow> sweep_state \<Rightarrow> sweep_state" where
  "runSweep now s = (let s1 = retry_sweep now s in s1\<lparr>sw_db := billRenterVolumes now (settleExpiredPods now (sw_db s1))\<rparr>)"

section \<open>Webhooks of finished jobs\<close>

definition webhook_due :: "job_row \<Rightarrow> bool" where
  "webhook_due j = (jb_renter j \<noteq> None \<and> jb_webhook_at j = None \<and> jb_status j \<in> {JDone, JCompleted, JFailed, JPermanentlyFailed})"

definition finished_at :: "job_row \<Rightarrow> int option" where
  "finished_at j = coalesce (jb_completed_at j) (jb_created_at j)"

definition webhook_candidates :: "db \<Rightarrow> job_row list" where
  \<comment> \<open>NULL sorts first\<close>
  "webhook_candidates d = take 25 (sort_key (\<lambda>j. if finished_at j = None then 0 else 1 :: nat)
     (sort_key (\<lambda>j. or0 (finished_at j)) (sort_key jb_id (sql_all webhook_due (jobs d)))))"

datatype webhook_reply = WrOk int | WrHttp int | WrError string

record delivery =
  dl_ok :: bool
  dl_attempts :: int
  dl_detail :: string

fun deliver_from :: "nat \<Rightarrow> string \<Rightarrow> webhook_reply list \<Rightarrow> delivery" where
  \<comment> \<open>the replies to the attempts that are left, of three\<close>
  "deliver_from n detail [] = \<lparr>dl_ok = False, dl_attempts = 3, dl_detail = detail\<rparr>"
| "deliver_from n detail (r # rs) =
     (case r of
        WrOk c \<Rightarrow> \<lparr>dl_ok = True, dl_attempts = int n, dl_detail = ''delivered_http_'' @ dec c\<rparr>
      | WrHttp c \<Rightarrow> deliver_from (n + 1) (''http_'' @ dec c) rs
      | WrError e \<Rightarrow> deliver_from (n + 1) e rs)"

definition deliverWebhookWithRetry :: "webhook_reply \<times> webhook_reply \<times> webhook_reply \<Rightarrow> delivery" where
  "deliverWebhookWithRetry rs = (case rs of (a, b, c) \<Rightarrow> deliver_from 1 ''delivery_failed'' [a, b, c])"

text \<open>\<open>stamp\<close> is the ISO time written into the notes, whose last 4000 characters are kept.\<close>

definition markWebhookDelivery :: "int \<Rightarrow> string \<Rightarrow> int \<Rightarrow> string \<Rightarrow> string \<Rightarrow> int \<Rightarrow> db \<Rightarrow> db" where
  "markWebhookDelivery job stamp attempts st detail now d =
     set_job (\<lambda>j. jb_id j = job)
       (\<lambda>j. let t = (case jb_notes j of None \<Rightarrow> [] | Some n \<Rightarrow> n) @ [CHR 0x0A] @ ''['' @ stamp @ ''] webhook '' @ detail
            in j\<lparr>jb_webhook_at := Some now, jb_webhook_status := Some st, jb_webhook_attempts := attempts,
                 jb_notes := Some (drop (length t - 4000) t)\<rparr>) d"

datatype webhook_target = NotConfigured | UrlBlocked | DnsBlocked | Reachable

definition notify_renter :: "job_row \<Rightarrow> webhook_target \<Rightarrow> webhook_reply \<times> webhook_reply \<times> webhook_reply \<Rightarrow> string \<Rightarrow> int \<Rightarrow> db \<Rightarrow> db" where
  \<comment> \<open>one turn of the loop of \<open>processWebhookCandidates\<close>; only its last statement writes\<close>
  "notify_renter j target replies stamp now d =
     (case target of
        NotConfigured \<Rightarrow> markWebhookDelivery (jb_id j) stamp 0 ''skipped'' ''webhook_not_configured'' now d
      | UrlBlocked \<Rightarrow> markWebhookDelivery (jb_id j) stamp 0 ''skipped'' ''webhook_url_blocked'' now d
      | DnsBlocked \<Rightarrow> markWebhookDelivery (jb_id j) stamp 0 ''skipped'' ''webhook_dns_blocked'' now d
      | Reachable \<Rightarrow> (let r = deliverWebhookWithRetry replies
          in markWebhookDelivery (jb_id j) stamp (dl_attempts r) (if dl_ok r then ''delivered'' else ''failed'') (dl_detail r) now d))"

section \<open>Providers that went offline\<close>

definition mark_provider :: "int \<Rightarrow> string \<Rightarrow> int option \<Rightarrow> db \<Rightarrow> db" where
  \<comment> \<open>\<open>None\<close> where the statement leaves \<open>updated_at\<close> alone\<close>
  "mark_provider p st now d =
     d\<lparr>providers := sql_update (\<lambda>r. pv_id r = p)
         (\<lambda>r. r\<lparr>pv_status := st, pv_updated_at := (if now = None then pv_updated_at r else now)\<rparr>) (providers d)\<rparr>"

definition offline_stale :: "int \<Rightarrow> provider_row \<Rightarrow> bool" where
  \<comment> \<open>five minutes of whole seconds\<close>
  "offline_stale now p =
     (pv_status p \<noteq> ''offline'' \<and> \<not> pv_is_burst p
      \<and> (case pv_last_heartbeat p of None \<Rightarrow> True | Some t \<Rightarrow> (now - t) div 1000 > 5 * 60))"

definition requeueable :: "job_status \<Rightarrow> bool" where
  "requeueable st = (st \<in> {JRunning, JPending, JAssigned, JPulling})"

definition offline_provider :: "int \<Rightarrow> int \<Rightarrow> db \<Rightarrow> db" where
  "offline_provider now p d =
     set_job (\<lambda>j. jb_provider j = Some p \<and> requeueable (jb_status j))
       (\<lambda>j. j\<lparr>jb_status := JQueued, jb_provider := None, jb_last_error := Some ''Provider went offline'',
              jb_retry_count := Some (or0 (jb_retry_count j) + 1), jb_picked_up_at := None, jb_assigned_at := None,
              jb_started_at := None, jb_updated_at := Some now\<rparr>)
       (mark_provider p ''offline'' (Some now) d)"

definition sweepOfflineProviders :: "int \<Rightarrow> db \<Rightarrow> db" where
  "sweepOfflineProviders now d = fold (offline_provider now) (map pv_id (sql_all (offline_stale now) (providers d))) d"

section \<open>The liveness monitor\<close>

definition STALE_THRESHOLD_SEC :: int where "STALE_THRESHOLD_SEC = 90"

definition liveness_stale :: "int \<Rightarrow> provider_row \<Rightarrow> bool" where
  "liveness_stale now p =
     (pv_status p \<in> {''online'', ''degraded''} \<and> \<not> pv_is_burst p
      \<and> (case pv_last_heartbeat p of None \<Rightarrow> True | Some t \<Rightarrow> t < now - STALE_THRESHOLD_SEC * 1000))"

definition liveness_requeue :: "int \<Rightarrow> int \<Rightarrow> job_row \<Rightarrow> db \<Rightarrow> db" where
  "liveness_requeue now p j d =
     set_job (\<lambda>x. jb_id x = jb_id j)
       (\<lambda>x. x\<lparr>jb_status := JPending, jb_provider := None, jb_assigned_at := None, jb_picked_up_at := None,
              jb_started_at := None, jb_error := Some (''Provider #'' @ dec p @ '' went offline '' @ [CHR 0xE2, CHR 0x80, CHR 0x94] @ '' requeued''),
              jb_updated_at := Some now\<rparr>) d"

definition liveness_provider :: "int \<Rightarrow> int \<Rightarrow> db \<Rightarrow> db" where
  "liveness_provider now p d =
     (let d1 = mark_provider p ''offline'' (Some now) d
      in fold (liveness_requeue now p)
           (sql_all (\<lambda>j. jb_provider j = Some p \<and> jb_status j \<in> {JRunning, JAssigned, JPulling}) (jobs d1)) d1)"

definition runLivenessSweep :: "int \<Rightarrow> db \<Rightarrow> db" where
  "runLivenessSweep now d = fold (liveness_provider now) (map pv_id (sql_all (liveness_stale now) (providers d))) d"

section \<open>The recovery engine\<close>

definition heartbeat_lost :: "int \<Rightarrow> provider_row \<Rightarrow> bool" where
  "heartbeat_lost now p = (pv_status p = ''online'' \<and> \<not> pv_is_burst p
     \<and> (case pv_last_heartbeat p of None \<Rightarrow> False | Some t \<Rightarrow> t < now - 90 * 1000))"

definition detectDisconnectedProviders :: "int \<Rightarrow> db \<Rightarrow> db \<times> int list" where
  "detectDisconnectedProviders now d =
     (let stale = map pv_id (sql_all (heartbeat_lost now) (providers d))
      in (fold (\<lambda>p. mark_provider p ''disconnected'' None) stale d, stale))"

definition findActiveJobsOnProvider :: "db \<Rightarrow> int \<Rightarrow> job_row list" where
  "findActiveJobsOnProvider d p = sql_all (\<lambda>j. jb_provider j = Some p \<and> jb_status j \<in> {JPending, JRunning}) (jobs d)"

definition backup_ok :: "int \<Rightarrow> int \<Rightarrow> int \<Rightarrow> provider_row \<Rightarrow> bool" where
  "backup_ok now vram excl p =
     (pv_status p = ''online'' \<and> \<not> pv_is_burst p
      \<and> (case pv_last_heartbeat p of None \<Rightarrow> False | Some t \<Rightarrow> t \<ge> now - 90 * 1000)
      \<and> pv_id p \<noteq> excl \<and> (case pv_vram_mib p of None \<Rightarrow> False | Some v \<Rightarrow> v \<ge> vram))"

definition findBackupProvider :: "int \<Rightarrow> db \<Rightarrow> int \<Rightarrow> int \<Rightarrow> provider_row option" where
  "findBackupProvider now d vram excl =
     sql_get (\<lambda>_. True) (sort_key (\<lambda>p. or0 (pv_vram_mib p)) (sql_all (backup_ok now vram excl) (providers d)))"

definition resolveRequiredVramMib :: "job_row \<Rightarrow> int" where
  "resolveRequiredVramMib j =
     (if or0 (jb_vram_required j) > 0 then or0 (jb_vram_required j)
      else case jb_min_vram_gb j of Some g \<Rightarrow> if g > 0 then js_round (fl_mul g 1024) else 0 | None \<Rightarrow> 0)"

definition migrateJob :: "int \<Rightarrow> string \<Rightarrow> int \<Rightarrow> int option \<Rightarrow> sweep_state \<Rightarrow> sweep_state" where
  "migrateJob now job from_p to_p s =
     (case to_p of
        None \<Rightarrow> s\<lparr>sw_recoveries := sql_insert \<lparr>rc_job = job, rc_from = from_p, rc_to = None, rc_status = RcNoBackup,
                   rc_started = now, rc_completed = Some now\<rparr> (sw_recoveries s)\<rparr>
      | Some q \<Rightarrow>
        let started = sql_insert \<lparr>rc_job = job, rc_from = from_p, rc_to = Some q, rc_status = RcPending, rc_started = now,
                        rc_completed = None\<rparr> (sw_recoveries s)
        in s\<lparr>sw_db := set_job (\<lambda>j. jb_job_id j = job) (\<lambda>j. j\<lparr>jb_provider := Some q, jb_updated_at := Some now\<rparr>) (sw_db s),
             sw_recoveries := sql_update (\<lambda>e. rc_job e = job \<and> rc_from e = from_p \<and> rc_status e = RcPending)
               (\<lambda>e. e\<lparr>rc_status := RcSuccess, rc_completed := Some now\<rparr>) started\<rparr>)"

definition recover_job :: "(job_row \<Rightarrow> int) \<Rightarrow> int \<Rightarrow> int \<Rightarrow> job_row \<Rightarrow> sweep_state \<Rightarrow> sweep_state" where
  "recover_job vram now p j s =
     migrateJob now (jb_job_id j) p (map_option pv_id (findBackupProvider now (sw_db s) (vram j) p)) s"

definition recover_provider :: "int \<Rightarrow> int \<Rightarrow> sweep_state \<Rightarrow> sweep_state" where
  "recover_provider now p s = fold (recover_job resolveRequiredVramMib now p) (findActiveJobsOnProvider (sw_db s) p) s"

definition runRecoveryCycle :: "int \<Rightarrow> sweep_state \<Rightarrow> sweep_state" where
  "runRecoveryCycle now s =
     (case detectDisconnectedProviders now (sw_db s) of (d, lost) \<Rightarrow> fold (recover_provider now) lost (s\<lparr>sw_db := d\<rparr>))"

section \<open>The fallback loop\<close>

definition fallback_provider :: "int \<Rightarrow> int \<Rightarrow> sweep_state \<Rightarrow> sweep_state" where
  "fallback_provider now p s =
     (let s1 = s\<lparr>sw_db := mark_provider p ''disconnected'' None (sw_db s)\<rparr>
      in fold (recover_job (\<lambda>j. or0 (jb_vram_required j)) now p) (findActiveJobsOnProvider (sw_db s1) p) s1)"

definition handleDisconnects :: "int \<Rightarrow> sweep_state \<Rightarrow> sweep_state" where
  "handleDisconnects now s =
     fold (fallback_provider now) (map pv_id (sql_all (heartbeat_lost now) (providers (sw_db s)))) s"

definition migrate_pending :: "int \<Rightarrow> int \<Rightarrow> job_row \<Rightarrow> sweep_state \<times> nat \<Rightarrow> sweep_state \<times> nat" where
  "migrate_pending now p j acc =
     (case findBackupProvider now (sw_db (fst acc)) (or0 (jb_vram_required j)) p of
        None \<Rightarrow> acc
      | Some b \<Rightarrow> (migrateJob now (jb_job_id j) p (Some (pv_id b)) (fst acc), snd acc + 1))"

text \<open>\<open>util\<close> is the utilization parsed from the provider's GPU status.\<close>

definition handle_bottleneck :: "int \<Rightarrow> (provider_row \<Rightarrow> rat) \<Rightarrow> provider_row \<Rightarrow> sweep_state \<Rightarrow> sweep_state" where
  "handle_bottleneck now util p s =
     (let n = (if util p > 95 then sw_high s (pv_id p) + 1 else 0); s1 = s\<lparr>sw_high := (sw_high s)(pv_id p := n)\<rparr>;
          waiting = sql_all (\<lambda>j. jb_provider j = Some (pv_id p) \<and> jb_status j = JPending) (jobs (sw_db s1))
      in if n < 3 \<or> waiting = [] then s1
         else case fold (migrate_pending now (pv_id p)) waiting (s1, 0) of (s2, k) \<Rightarrow>
           s2\<lparr>sw_bottlenecks := sql_insert \<lparr>bn_provider = pv_id p, bn_utilization = util p, bn_affected = k,
                bn_action = (if k > 0 then ''migrated_pending_jobs'' else ''none''), bn_created = now\<rparr> (sw_bottlenecks s2),
              sw_high := (sw_high s2)(pv_id p := 0)\<rparr>)"

definition handleBottlenecks :: "int \<Rightarrow> (provider_row \<Rightarrow> rat) \<Rightarrow> sweep_state \<Rightarrow> sweep_state" where
  "handleBottlenecks now util s =
     fold (handle_bottleneck now util) (sql_all (\<lambda>p. pv_status p = ''online'') (providers (sw_db s))) s"

definition runFallbackCycle :: "int \<Rightarrow> (provider_row \<Rightarrow> rat) \<Rightarrow> sweep_state \<Rightarrow> sweep_state" where
  "runFallbackCycle now util s = handleBottlenecks now util (handleDisconnects now s)"

section \<open>One database under all loops\<close>

datatype sweep_event =
  SwJobs int
| SwWebhook job_row webhook_target "webhook_reply \<times> webhook_reply \<times> webhook_reply" string int
| SwOffline int
| SwLiveness int
| SwRecovery int
| SwFallback "provider_row \<Rightarrow> rat" int
| SwClaim int int int
| SwRoute route_event

fun sweep_step :: "sweep_state \<Rightarrow> sweep_event \<Rightarrow> sweep_state" where
  "sweep_step s (SwJobs now) = runSweep now s"
| "sweep_step s (SwWebhook j target replies stamp now) = s\<lparr>sw_db := notify_renter j target replies stamp now (sw_db s)\<rparr>"
| "sweep_step s (SwOffline now) = s\<lparr>sw_db := sweepOfflineProviders now (sw_db s)\<rparr>"
| "sweep_step s (SwLiveness now) = s\<lparr>sw_db := runLivenessSweep now (sw_db s)\<rparr>"
| "sweep_step s (SwRecovery now) = runRecoveryCycle now s"
| "sweep_step s (SwFallback util now) = runFallbackCycle now util s"
| "sweep_step s (SwClaim provider job now) = s\<lparr>sw_db := fst (claim_job provider job now (sw_db s))\<rparr>"
| "sweep_step s (SwRoute e) = s\<lparr>sw_db := route_step (sw_db s) e\<rparr>"

text \<open>How often an event puts job \<open>k\<close> back and counts it as a retry.\<close>

definition retryable :: "int \<Rightarrow> job_row \<times> string \<Rightarrow> bool" where
  "retryable k c = (jb_id (fst c) = k \<and> or0 (jb_retry_count (fst c)) < retry_limit (fst c))"

fun requeued :: "int \<Rightarrow> sweep_state \<Rightarrow> sweep_event \<Rightarrow> nat" where
  "requeued k s (SwJobs now) = length (filter (retryable k) (once_each {} (sweep_candidates now (sw_db s))))"
| "requeued k s (SwRoute e) = (if retried_of (sw_db s) e = Some k then 1 else 0)"
| "requeued k s _ = 0"

fun requeues :: "int \<Rightarrow> sweep_state \<Rightarrow> sweep_event list \<Rightarrow> nat" where
  "requeues k s [] = 0"
| "requeues k s (e # es) = requeued k s e + requeues k (sweep_step s e) es"

section \<open>The row of a job\<close>

definition settled_status :: "job_status \<Rightarrow> bool" where
  "settled_status st = (st \<in> {JCompleted, JCancelled})"

definition spends :: "int \<Rightarrow> nat \<Rightarrow> db \<Rightarrow> db \<Rightarrow> bool" where
  \<comment> \<open>\<open>n\<close> retries of the job were used, each while its counter was below the limit\<close>
  "spends k n d d' = (has_key jb_id (jobs d) \<longrightarrow> has_key jb_id (jobs d') \<and>
     (\<forall>j. job_by_id d k = Some j \<longrightarrow>
        (\<exists>j'. job_by_id d' k = Some j' \<and> jb_max_retries j' = jb_max_retries j
           \<and> or0 (jb_retry_count j) + int n \<le> or0 (jb_retry_count j')
           \<and> (0 < n \<longrightarrow> or0 (jb_retry_count j) + int n \<le> retry_limit j)
           \<and> (settled_status (jb_status j) \<longrightarrow> jb_status j' = jb_status j))))"

lemma spends_trans: "spends k n d d1 \<Longrightarrow> spends k m d1 d2 \<Longrightarrow> spends k (n + m) d d2"
  unfolding spends_def by (fastforce simp: retry_limit_def)

lemma spends_0_trans: "spends k 0 d d1 \<Longrightarrow> spends k 0 d1 d2 \<Longrightarrow> spends k 0 d d2"
  using spends_trans [of k 0 d d1 0 d2] by simp

lemma spends_same: "jobs d' = jobs d \<Longrightarrow> spends k 0 d d'"
  by (simp add: spends_def job_by_id_def)

lemma spends_frame: "jobs d' = jobs d1 \<Longrightarrow> spends k n d d' = spends k n d d1"
  by (simp add: spends_def job_by_id_def)

lemma spends_fold:
  assumes "\<And>x d. x \<in> set xs \<Longrightarrow> spends k 0 d (f x d)"
  shows "spends k 0 d (fold f xs d)"
  using assms
proof (induction xs arbitrary: d)
  case (Cons x xs)
  have "spends k 0 d (f x d)" by (rule Cons.prems) simp
  moreover have "spends k 0 (f x d) (fold f xs (f x d))" by (rule Cons.IH) (simp add: Cons.prems)
  ultimately show ?case using spends_0_trans by simp
qed (simp add: spends_same)

lemma job_by_id_set:
  "(\<And>x. jb_id (f x) = jb_id x) \<Longrightarrow> job_by_id (set_job P f d) k = map_option (\<lambda>x. if P x then f x else x) (job_by_id d k)"
  by (simp add: job_by_id_def set_job_def sql_get_update)

lemma spends_set:
  assumes "\<And>x. jb_id (f x) = jb_id x" and "\<And>x. jb_max_retries (f x) = jb_max_retries x"
    and "\<And>x. P x \<Longrightarrow> or0 (jb_retry_count x) \<le> or0 (jb_retry_count (f x))"
    and "\<And>x. P x \<Longrightarrow> settled_status (jb_status x) \<Longrightarrow> jb_status (f x) = jb_status x"
  shows "spends k 0 d (set_job P f d)"
  using assms by (auto simp: spends_def job_by_id_set has_key_update)

section \<open>Each loop\<close>

lemma jobs_mark [simp]: "jobs (mark_provider p st now d) = jobs d"
  by (simp add: mark_provider_def)

lemma spends_mark: "spends k n d (mark_provider p st now d1) = spends k n d d1"
  by (rule spends_frame) simp

lemma spends_offline: "spends k 0 d (sweepOfflineProviders now d)"
  unfolding sweepOfflineProviders_def
proof (rule spends_fold)
  fix p d
  have "spends k 0 (mark_provider p ''offline'' (Some now) d) (offline_provider now p d)"
    unfolding offline_provider_def by (rule spends_set) (auto simp: requeueable_def settled_status_def)
  then show "spends k 0 d (offline_provider now p d)" by (simp add: spends_def job_by_id_def)
qed

lemma job_by_id_id: "job_by_id d k = Some j \<Longrightarrow> jb_id j = k"
  by (auto simp: job_by_id_def dest: sql_get_Some)

lemma spends_row:
  assumes j: "job_by_id d (jb_id j) = Some j" and id: "\<And>x. jb_id (f x) = jb_id x" and f: "jb_max_retries (f j) = jb_max_retries j"
    "or0 (jb_retry_count j) \<le> or0 (jb_retry_count (f j))" "settled_status (jb_status j) \<Longrightarrow> jb_status (f j) = jb_status j"
  shows "spends k 0 d (set_job (\<lambda>x. jb_id x = jb_id j) f d)"
proof -
  let ?d = "set_job (\<lambda>x. jb_id x = jb_id j) f d"
  have new: "job_by_id ?d k = map_option (\<lambda>x. if jb_id x = jb_id j then f x else x) (job_by_id d k)"
    by (rule job_by_id_set) (rule id)
  have "\<exists>x'. job_by_id ?d k = Some x' \<and> jb_max_retries x' = jb_max_retries x
      \<and> or0 (jb_retry_count x) + int 0 \<le> or0 (jb_retry_count x')
      \<and> (settled_status (jb_status x) \<longrightarrow> jb_status x' = jb_status x)" if x: "job_by_id d k = Some x" for x
  proof (cases "jb_id x = jb_id j")
    case True
    then have k: "k = jb_id j" using job_by_id_id [OF x] by metis
    have "x = j" using x j unfolding k by (metis option.inject)
    then have "job_by_id ?d k = Some (f j)" using new x by simp
    then show ?thesis using f \<open>x = j\<close> by simp
  next
    case False
    then have "job_by_id ?d k = Some x" using new x by simp
    then show ?thesis by simp
  qed
  moreover have "has_key jb_id (jobs ?d) = has_key jb_id (jobs d)" by (simp add: has_key_update [of jb_id f, OF id])
  ultimately show ?thesis unfolding spends_def by simp
qed

lemma liveness_step: "\<not> settled_status (jb_status j) \<Longrightarrow> job_by_id d (jb_id j) = Some j \<Longrightarrow> spends k 0 d (liveness_requeue now p j d)"
  unfolding liveness_requeue_def by (rule spends_row) simp_all

lemma liveness_fold:
  assumes "has_key jb_id (jobs d)" "distinct (map jb_id js)"
    and "\<And>j. j \<in> set js \<Longrightarrow> job_by_id d (jb_id j) = Some j \<and> \<not> settled_status (jb_status j)"
  shows "spends k 0 d (fold (liveness_requeue now p) js d)"
  using assms
proof (induction js arbitrary: d)
  case (Cons j js)
  have other: "job_by_id (liveness_requeue now p j d) (jb_id x) = Some x" if "x \<in> set js" for x
    using Cons.prems(2,3) that by (auto simp: liveness_requeue_def job_by_id_set rev_image_eqI)
  have "spends k 0 d (liveness_requeue now p j d)" using Cons.prems(3) [of j] liveness_step by auto
  moreover have "has_key jb_id (jobs (liveness_requeue now p j d))"
    using Cons.prems(1) by (simp add: liveness_requeue_def has_key_update)
  then have "spends k 0 (liveness_requeue now p j d) (fold (liveness_requeue now p) js (liveness_requeue now p j d))"
    using Cons.prems(2,3) other by (intro Cons.IH) auto
  ultimately show ?case using spends_0_trans by simp
qed (simp add: spends_same)

lemma distinct_rows: "has_key jb_id (jobs d) \<Longrightarrow> distinct (map jb_id (sql_all P (jobs d)))"
  by (simp add: has_key_def sql_all_def distinct_map_filter)

lemma row_by_id: "has_key jb_id (jobs d) \<Longrightarrow> j \<in> set (jobs d) \<Longrightarrow> job_by_id d (jb_id j) = Some j"
  by (simp add: job_by_id_def sql_get_key)

lemma spends_liveness: "spends k 0 d (runLivenessSweep now d)"
  unfolding runLivenessSweep_def
proof (rule spends_fold)
  fix p d
  let ?d = "mark_provider p ''offline'' (Some now) d"
  show "spends k 0 d (liveness_provider now p d)"
  proof (cases "has_key jb_id (jobs d)")
    case True
    then have "spends k 0 ?d (fold (liveness_requeue now p)
        (sql_all (\<lambda>j. jb_provider j = Some p \<and> jb_status j \<in> {JRunning, JAssigned, JPulling}) (jobs ?d)) ?d)"
      using distinct_rows [of ?d] row_by_id [of ?d]
      by (intro liveness_fold) (auto simp: sql_all_def settled_status_def)
    then show ?thesis by (simp add: liveness_provider_def Let_def spends_def job_by_id_def)
  qed (simp add: spends_def)
qed

lemma spends_migrate: "spends k 0 (sw_db s) (sw_db (migrateJob now job p q s))"
  by (auto simp: migrateJob_def Let_def spends_same split: option.splits intro!: spends_set)

lemma spends_state_fold:
  assumes "\<And>x s. spends k 0 (sw_db s) (sw_db (f x s))"
  shows "spends k 0 (sw_db s) (sw_db (fold f xs s))"
proof (induction xs arbitrary: s)
  case (Cons x xs)
  show ?case using spends_0_trans [OF assms [where x = x and s = s] Cons.IH] by simp
qed (simp add: spends_same)

lemma spends_recover_job: "spends k 0 (sw_db s) (sw_db (fold (recover_job v now p) js s))"
  by (rule spends_state_fold) (simp add: recover_job_def spends_migrate)

lemma spends_recovery: "spends k 0 (sw_db s) (sw_db (runRecoveryCycle now s))"
proof -
  obtain d lost where d: "detectDisconnectedProviders now (sw_db s) = (d, lost)" by fastforce
  have j: "jobs (fold (\<lambda>p. mark_provider p st t) ps x) = jobs x" for ps st t x by (induction ps arbitrary: x) simp_all
  have "jobs d = jobs (sw_db s)" using d by (auto simp: detectDisconnectedProviders_def Let_def j)
  moreover have "spends k 0 (sw_db (s\<lparr>sw_db := d\<rparr>)) (sw_db (fold (recover_provider now) lost (s\<lparr>sw_db := d\<rparr>)))"
    by (rule spends_state_fold) (simp add: recover_provider_def spends_recover_job)
  ultimately show ?thesis by (simp add: runRecoveryCycle_def d spends_def job_by_id_def)
qed

lemma spends_disconnects: "spends k 0 (sw_db s) (sw_db (handleDisconnects now s))"
  unfolding handleDisconnects_def
proof (rule spends_state_fold)
  fix p and s :: sweep_state
  let ?s = "s\<lparr>sw_db := mark_provider p ''disconnected'' None (sw_db s)\<rparr>"
  show "spends k 0 (sw_db s) (sw_db (fallback_provider now p s))"
    using spends_recover_job [of k ?s "\<lambda>j. or0 (jb_vram_required j)" now p "findActiveJobsOnProvider (sw_db ?s) p"]
    by (simp add: fallback_provider_def Let_def spends_def job_by_id_def)
qed

lemma spends_migrate_pending: "spends k 0 (sw_db s) (sw_db (fst (fold (migrate_pending now p) js (s, n))))"
proof (induction js arbitrary: s n)
  case (Cons j js)
  show ?case
  proof (cases "findBackupProvider now (sw_db s) (or0 (jb_vram_required j)) p")
    case None
    with Cons.IH [of s n] show ?thesis by (simp add: migrate_pending_def)
  next
    case (Some b)
    with spends_0_trans [OF spends_migrate Cons.IH] show ?thesis by (simp add: migrate_pending_def)
  qed
qed (simp add: spends_same)

lemma spends_bottlenecks: "spends k 0 (sw_db s) (sw_db (handleBottlenecks now util s))"
  unfolding handleBottlenecks_def
proof (rule spends_state_fold)
  fix p :: provider_row and s :: sweep_state
  have "spends k 0 (sw_db s) (sw_db (fst (fold (migrate_pending now (pv_id p)) js (s\<lparr>sw_high := h\<rparr>, 0))))" for js h
    using spends_migrate_pending [of k "s\<lparr>sw_high := h\<rparr>"] by simp
  moreover define n where "n = (if util p > 95 then sw_high s (pv_id p) + 1 else 0)"
  moreover define s1 where "s1 = s\<lparr>sw_high := (sw_high s)(pv_id p := n)\<rparr>"
  moreover obtain s2 m where f: "fold (migrate_pending now (pv_id p))
      (sql_all (\<lambda>j. jb_provider j = Some (pv_id p) \<and> jb_status j = JPending) (jobs (sw_db s1))) (s1, 0) = (s2, m)"
    by fastforce
  ultimately have "spends k 0 (sw_db s) (sw_db s2)" by (metis fst_conv)
  then show "spends k 0 (sw_db s) (sw_db (handle_bottleneck now util p s))"
    unfolding handle_bottleneck_def n_def [symmetric] s1_def [symmetric] Let_def f
    by (simp add: spends_same s1_def)
qed

lemma spends_claim: "spends k 0 d (fst (claim_job p job now d))"
  by (simp add: claim_job_def Let_def, rule spends_set) (auto simp: settled_status_def)

lemma spends_notify: "spends k 0 d (notify_renter j target replies stamp now d)"
  by (auto simp: notify_renter_def markWebhookDelivery_def Let_def split: webhook_target.splits intro!: spends_set)

lemma spends_pods: "spends k 0 d (settleExpiredPods now d)"
proof -
  have a: "spends k 0 d (settle_expired now j d)" for j d
  proof -
    have "spends k 0 d (set_job (\<lambda>x. jb_id x = jb_id j \<and> jb_status x = JRunning)
        (\<lambda>x. (settled JCompleted now 0 (full_settlement j) x)\<lparr>jb_duration_seconds := jb_max_seconds x\<rparr>) d)"
      by (rule spends_set) (auto simp: settled_def settled_status_def)
    then show ?thesis by (simp add: settle_expired_def Let_def spends_def job_by_id_def)
  qed
  have b: "spends k 0 d (cancel_stale now j d)" for j d
  proof -
    have "spends k 0 d (set_job (\<lambda>x. jb_id x = jb_id j \<and> jb_status x \<in> {JPending, JQueued})
        (\<lambda>x. x\<lparr>jb_status := JCancelled, jb_completed_at := Some now, jb_refunded_at := Some now\<rparr>) d)"
      by (rule spends_set) (auto simp: settled_status_def)
    then show ?thesis by (simp add: cancel_stale_def Let_def spends_def job_by_id_def)
  qed
  show ?thesis unfolding settleExpiredPods_def Let_def
    by (rule spends_0_trans; rule spends_fold; rule a b)
qed

lemma jobs_volumes [simp]: "jobs (billRenterVolumes now d) = jobs d"
proof -
  have deb: "jobs d' = jobs d" if "debit_balance i a now d = Some d'" for i a d d'
    using that by (auto simp: debit_balance_def Let_def split: if_splits)
  have "jobs (bill_one now v d) = jobs d" for v d
  proof (cases "if max 0 (vo_price v) > 0 then debit_balance (vo_renter v) (max 0 (vo_price v)) now d else Some d")
    case None
    then show ?thesis by (simp add: bill_one_def set_volume_def Let_def)
  next
    case (Some d1)
    then have "jobs d1 = jobs d" using deb by (simp split: if_splits)
    with Some show ?thesis by (simp add: bill_one_def set_volume_def Let_def)
  qed
  then have "jobs (fold (bill_one now) vs d) = jobs d" for vs by (induction vs arbitrary: d) simp_all
  then show ?thesis by (simp add: billRenterVolumes_def)
qed

lemma once_each_set: "set (once_each seen cs) \<subseteq> set cs"
  by (induction seen cs rule: once_each.induct) auto

lemma once_each_seen: "c \<in> set (once_each seen cs) \<Longrightarrow> jb_id (fst c) \<notin> seen"
proof (induction cs arbitrary: seen)
  case (Cons x xs)
  show ?case
  proof (cases "jb_id (fst x) \<in> seen")
    case True
    with Cons show ?thesis by simp
  next
    case False
    with Cons.prems Cons.IH [of "insert (jb_id (fst x)) seen"] show ?thesis by auto
  qed
qed simp

lemma once_each_distinct: "distinct (map (\<lambda>c. jb_id (fst c)) (once_each seen cs))"
proof (induction cs arbitrary: seen)
  case (Cons x xs)
  show ?case
  proof (cases "jb_id (fst x) \<in> seen")
    case True
    with Cons show ?thesis by simp
  next
    case False
    have "jb_id (fst c) \<noteq> jb_id (fst x)" if "c \<in> set (once_each (insert (jb_id (fst x)) seen) xs)" for c
      using once_each_seen [OF that] by simp
    with False Cons.IH [of "insert (jb_id (fst x)) seen"] show ?thesis by (simp add: image_iff) metis
  qed
qed simp

lemma once_each_all:
  "distinct (map (\<lambda>c. jb_id (fst c)) cs) \<Longrightarrow> (\<And>c. c \<in> set cs \<Longrightarrow> jb_id (fst c) \<notin> seen) \<Longrightarrow> once_each seen cs = cs"
proof (induction cs arbitrary: seen)
  case (Cons c cs)
  have "once_each (insert (jb_id (fst c)) seen) cs = cs"
    using Cons.prems by (intro Cons.IH) (auto simp: image_iff)
  with Cons.prems(2) [of c] show ?case by simp
qed simp

lemma db_log [simp]: "sw_db (writeSweepLog j st reason now s) = sw_db s"
  by (simp add: writeSweepLog_def)

lemma retry_one:
  assumes "job_by_id (sw_db s) (jb_id (fst c)) = Some (fst c)" and "\<not> sweep_final (jb_status (fst c))"
  shows "spends k (if retryable k c then 1 else 0) (sw_db s) (sw_db (updateJobForRetry now c s))"
    and "x \<noteq> jb_id (fst c) \<Longrightarrow> job_by_id (sw_db (updateJobForRetry now c s)) x = job_by_id (sw_db s) x"
    and "has_key jb_id (jobs (sw_db (updateJobForRetry now c s))) = has_key jb_id (jobs (sw_db s))"
proof -
  let ?P = "\<lambda>x. jb_id x = jb_id (fst c) \<and> \<not> sweep_final (jb_status x)"
  let ?f = "if or0 (jb_retry_count (fst c)) < retry_limit (fst c) then requeued_row (fst c) (snd c) now else exhausted_row (snd c) now"
  have u: "sw_db (updateJobForRetry now c s) = set_job ?P ?f (sw_db s)" by (simp add: updateJobForRetry_def Let_def)
  have id: "jb_id (?f x) = jb_id x" "jb_max_retries (?f x) = jb_max_retries x" for x
    by (simp_all add: requeued_row_def exhausted_row_def Let_def)
  show "has_key jb_id (jobs (sw_db (updateJobForRetry now c s))) = has_key jb_id (jobs (sw_db s))"
    unfolding u by (simp only: frames has_key_update [of jb_id ?f, OF id(1)])
  show "x \<noteq> jb_id (fst c) \<Longrightarrow> job_by_id (sw_db (updateJobForRetry now c s)) x = job_by_id (sw_db s) x"
    unfolding u by (cases "job_by_id (sw_db s) x") (simp_all only: job_by_id_set [of ?f, OF id(1)] option.map, auto dest: job_by_id_id)
  show "spends k (if retryable k c then 1 else 0) (sw_db s) (sw_db (updateJobForRetry now c s))"
    using assms unfolding u
    by (auto simp: spends_def job_by_id_set id has_key_update retryable_def requeued_row_def exhausted_row_def Let_def
        settled_status_def sweep_final_def dest: job_by_id_id)
qed

lemma retry_fold:
  assumes "has_key jb_id (jobs (sw_db s))" "distinct (map (\<lambda>c. jb_id (fst c)) cs)"
    and "\<And>c. c \<in> set cs \<Longrightarrow> job_by_id (sw_db s) (jb_id (fst c)) = Some (fst c) \<and> \<not> sweep_final (jb_status (fst c))"
  shows "spends k (length (filter (retryable k) cs)) (sw_db s) (sw_db (fold (updateJobForRetry now) cs s))"
  using assms
proof (induction cs arbitrary: s)
  case (Cons c cs)
  let ?s = "updateJobForRetry now c s"
  have c: "job_by_id (sw_db s) (jb_id (fst c)) = Some (fst c)" "\<not> sweep_final (jb_status (fst c))"
    using Cons.prems(3) [of c] by simp_all
  have "spends k (length (filter (retryable k) cs)) (sw_db ?s) (sw_db (fold (updateJobForRetry now) cs ?s))"
  proof (rule Cons.IH)
    show "has_key jb_id (jobs (sw_db ?s))" using Cons.prems(1) retry_one(3) [OF c] by simp
    show "distinct (map (\<lambda>c. jb_id (fst c)) cs)" using Cons.prems(2) by simp
    fix x assume x: "x \<in> set cs"
    then have "jb_id (fst x) \<noteq> jb_id (fst c)" using Cons.prems(2) by (metis (no_types, lifting) distinct.simps(2) image_eqI list.simps(9) list.set_map)
    with x Cons.prems(3) [of x] retry_one(2) [OF c, of "jb_id (fst x)"]
    show "job_by_id (sw_db ?s) (jb_id (fst x)) = Some (fst x) \<and> \<not> sweep_final (jb_status (fst x))" by simp
  qed
  from spends_trans [OF retry_one(1) [OF c, of k now] this] show ?case by (cases "retryable k c") simp_all
qed (simp add: spends_same)

lemma candidate_rows:
  assumes "has_key jb_id (jobs d)" and "c \<in> set (once_each {} (sweep_candidates now d))"
  shows "job_by_id d (jb_id (fst c)) = Some (fst c) \<and> \<not> sweep_final (jb_status (fst c))"
proof -
  have "c \<in> set (sweep_candidates now d)" using assms(2) once_each_set by blast
  then have "fst c \<in> set (jobs d) \<and> jb_status (fst c) \<in> {JRunning, JQueued}"
    by (auto simp: sweep_candidates_def sql_all_def past_duration_def past_queue_def)
  then show ?thesis using row_by_id [OF assms(1)] by (auto simp: sweep_final_def)
qed

lemma spends_sweep: "spends k (requeued k s (SwJobs now)) (sw_db s) (sw_db (runSweep now s))"
proof (cases "has_key jb_id (jobs (sw_db s))")
  case True
  have "spends k (requeued k s (SwJobs now)) (sw_db s) (sw_db (retry_sweep now s))"
    unfolding retry_sweep_def requeued.simps
    by (rule retry_fold [OF True once_each_distinct]) (rule candidate_rows [OF True])
  from spends_trans [OF this spends_pods [of k _ now]] show ?thesis by (simp add: runSweep_def Let_def spends_def job_by_id_def)
qed (simp add: spends_def)

lemma spends_route: "spends k (if retried_of d e = Some k then 1 else 0) d (route_step d e)"
proof (cases "has_key jb_id (jobs d)")
  case True
  have "or0 (jb_retry_count j) + 1 \<le> retry_limit j" if "job_by_id d k = Some j" "retried_of d e = Some k" for j
  proof -
    from step_retry [OF that(2)] obtain x where x: "x \<in> set (jobs d)" "jb_id x = k" "or0 (jb_retry_count x) + 1 \<le> retry_limit x" by blast
    with row_by_id [OF True x(1)] that(1) show ?thesis by simp
  qed
  moreover have "jb_status j' = jb_status j" if "settled_status (jb_status j)" "route_trans\<^sup>*\<^sup>* (jb_status j) (jb_status j')" for j j' :: job_row
    using final_moves [OF that(2)] that(1) by (simp add: settled_status_def)
  ultimately show ?thesis
    using step_rows [OF True, of k] step_keys [OF True, of e] unfolding spends_def by (fastforce split: if_splits)
qed (simp add: spends_def)

lemma spends_step: "spends k (requeued k s e) (sw_db s) (sw_db (sweep_step s e))"
proof (cases e)
  case (SwFallback util now)
  show ?thesis unfolding SwFallback sweep_step.simps requeued.simps runFallbackCycle_def
    by (rule spends_0_trans [OF spends_disconnects spends_bottlenecks])
qed (use spends_sweep in \<open>simp_all add: spends_notify spends_offline spends_liveness spends_recovery spends_claim spends_route del: requeued.simps(1)\<close>)

lemma spends_run: "spends k (requeues k s es) (sw_db s) (sw_db (foldl sweep_step s es))"
proof (induction es arbitrary: s)
  case (Cons e es)
  from spends_trans [OF spends_step Cons.IH] show ?case by simp
qed (simp add: spends_same)

text \<open>A settled job keeps its status under every loop.\<close>

interpretation swept: lifecycle sweep_step "\<lambda>s k. map_option jb_status (job_by_id (sw_db s) k)" settled_status
    "\<lambda>s. has_key jb_id (jobs (sw_db s))"
proof
  fix s :: sweep_state and k st e
  assume a: "has_key jb_id (jobs (sw_db s))" "map_option jb_status (job_by_id (sw_db s) k) = Some st" "settled_status st"
  then show "map_option jb_status (job_by_id (sw_db (sweep_step s e)) k) = Some st"
    using spends_step [of k s e] by (auto simp: spends_def)
next
  fix s :: sweep_state and e
  assume "has_key jb_id (jobs (sw_db s))"
  then show "has_key jb_id (jobs (sw_db (sweep_step s e)))" using spends_step [of 0 s e] by (simp add: spends_def)
qed
section \<open>Theorems\<close>

definition demo_hour :: job_row where "demo_hour = demo_run\<lparr>jb_duration_minutes := Some 60\<rparr>"

definition demo_sweep :: sweep_state where
  "demo_sweep = \<lparr>sw_db = demo_db\<lparr>jobs := [demo_hour]\<rparr>, sw_log = [], sw_recoveries = [], sw_bottlenecks = [], sw_high = (\<lambda>_. 0)\<rparr>"

text \<open>Half a day later the job has timed out; the provider claims it again and loses its heartbeat.\<close>

definition demo_sweeps :: "sweep_event list" where
  "demo_sweeps = [SwJobs 43200000, SwClaim 7 1 43201000, SwJobs 86400000, SwClaim 7 1 86401000, SwLiveness 86402000,
     SwJobs 129600000, SwRoute (RCancel renter_caller job_one 129700000)]"



lemma retry_renters [simp]: "renters (sw_db (updateJobForRetry now c s)) = renters (sw_db s)"
  by (simp add: updateJobForRetry_def Let_def)

lemma retry_fold_renters [simp]: "renters (sw_db (fold (updateJobForRetry now) cs s)) = renters (sw_db s)"
  by (induction cs arbitrary: s) simp_all

definition swept_row :: "int \<Rightarrow> job_row \<times> string \<Rightarrow> job_row" where
  "swept_row now c = (if or0 (jb_retry_count (fst c)) < retry_limit (fst c) then requeued_row (fst c) (snd c) now (fst c)
     else exhausted_row (snd c) now (fst c))"

lemma retry_one_row:
  assumes "job_by_id (sw_db s) (jb_id (fst c)) = Some (fst c)" and "\<not> sweep_final (jb_status (fst c))"
  shows "job_by_id (sw_db (updateJobForRetry now c s)) (jb_id (fst c)) = Some (swept_row now c)"
proof -
  have id: "jb_id (requeued_row j r now x) = jb_id x" "jb_id (exhausted_row r now x) = jb_id x" for j r x
    by (simp_all add: requeued_row_def exhausted_row_def Let_def)
  show ?thesis using assms
    by (simp add: updateJobForRetry_def Let_def swept_row_def job_by_id_set [of "requeued_row j r now" for j r, OF id(1)]
        job_by_id_set [of "exhausted_row r now" for r, OF id(2)])
qed

lemma retry_fold_other:
  assumes "k \<notin> (\<lambda>c. jb_id (fst c)) ` set cs" "distinct (map (\<lambda>c. jb_id (fst c)) cs)"
    and "\<And>c. c \<in> set cs \<Longrightarrow> job_by_id (sw_db s) (jb_id (fst c)) = Some (fst c) \<and> \<not> sweep_final (jb_status (fst c))"
  shows "job_by_id (sw_db (fold (updateJobForRetry now) cs s)) k = job_by_id (sw_db s) k"
  using assms
proof (induction cs arbitrary: s)
  case (Cons c cs)
  have c: "job_by_id (sw_db s) (jb_id (fst c)) = Some (fst c)" "\<not> sweep_final (jb_status (fst c))"
    using Cons.prems(3) [of c] by simp_all
  have "job_by_id (sw_db (updateJobForRetry now c s)) (jb_id (fst x)) = job_by_id (sw_db s) (jb_id (fst x))" if "x \<in> set cs" for x
    using retry_one(2) [OF c, of "jb_id (fst x)"] Cons.prems(2) that by (auto simp: image_iff)
  then have "job_by_id (sw_db (fold (updateJobForRetry now) cs (updateJobForRetry now c s))) k = job_by_id (sw_db (updateJobForRetry now c s)) k"
    using Cons.prems by (intro Cons.IH) auto
  with retry_one(2) [OF c, of k] Cons.prems(1) show ?case by simp
qed simp

lemma retry_fold_row:
  assumes "distinct (map (\<lambda>c. jb_id (fst c)) cs)" "c \<in> set cs"
    and "\<And>c. c \<in> set cs \<Longrightarrow> job_by_id (sw_db s) (jb_id (fst c)) = Some (fst c) \<and> \<not> sweep_final (jb_status (fst c))"
  shows "job_by_id (sw_db (fold (updateJobForRetry now) cs s)) (jb_id (fst c)) = Some (swept_row now c)"
  using assms
proof (induction cs arbitrary: s)
  case (Cons x xs)
  have x: "job_by_id (sw_db s) (jb_id (fst x)) = Some (fst x)" "\<not> sweep_final (jb_status (fst x))"
    using Cons.prems(3) [of x] by simp_all
  have rest: "job_by_id (sw_db (updateJobForRetry now x s)) (jb_id (fst y)) = Some (fst y) \<and> \<not> sweep_final (jb_status (fst y))"
    if "y \<in> set xs" for y
    using retry_one(2) [OF x, of "jb_id (fst y)"] Cons.prems(1,3) that by (auto simp: image_iff)
  show ?case
  proof (cases "c = x")
    case True
    with retry_fold_other [of "jb_id (fst c)" xs "updateJobForRetry now x s"] Cons.prems(1) rest retry_one_row [OF x]
    show ?thesis by (auto simp: image_iff)
  next
    case False
    with Cons.IH [of "updateJobForRetry now x s"] Cons.prems rest show ?thesis by auto
  qed
qed simp
lemma candidates_distinct:
  assumes "has_key jb_id (jobs d)"
  shows "distinct (map (\<lambda>c. jb_id (fst c)) (sweep_candidates now d))"
proof -
  let ?r = "sql_all (past_duration now) (jobs d)" and ?q = "sql_all (past_queue now) (jobs d)"
  have "jb_id x \<noteq> jb_id y" if "x \<in> set ?r" "y \<in> set ?q" for x y
  proof
    assume "jb_id x = jb_id y"
    then have "x = y" using has_key_eq [OF assms, of x y] that by (simp add: sql_all_def)
    with that show False by (simp add: sql_all_def past_duration_def past_queue_def)
  qed
  then have "distinct (map jb_id (?r @ ?q))" using distinct_rows [OF assms] by auto
  then show ?thesis by (simp add: sweep_candidates_def comp_def)
qed

text \<open>
  The job sweep gives up without a refund. A running job whose time and retries have run out is
  failed by the sweep, with the renter's balance and \<open>refunded_at\<close> as they were; had the provider
  reported the same failure, the renter would have had the cost back.
\<close>

theorem exhausted_job_keeps_payment:
  assumes "has_key jb_id (jobs (sw_db s))" "has_key jb_job_id (jobs (sw_db s))" "j \<in> set (jobs (sw_db s))"
    and "past_duration now j" "retry_limit j \<le> or0 (jb_retry_count j)"
    and "jb_renter j = Some n" "n \<noteq> 0" "n \<in> rn_id ` set (renters (sw_db s))" "jb_cost j = Some a" "0 < a" "jb_refunded_at j = None"
    and "by_provider c j"
  shows "(\<exists>j'. job_by_id (sw_db (retry_sweep now s)) (jb_id j) = Some j' \<and> jb_status j' = JFailed \<and> jb_refunded_at j' = None)
    \<and> balance_of (sw_db (retry_sweep now s)) n = balance_of (sw_db s) n
    \<and> balance_of (fst (postFail c \<lparr>ref_text = jb_job_id j, ref_id = None\<rparr> err None now (sw_db s))) n = balance_of (sw_db s) n + a"
proof -
  have st: "jb_status j = JRunning" using assms(4) by (simp add: past_duration_def)
  let ?cs = "once_each {} (sweep_candidates now (sw_db s))"
  have "(j, ''provider_timeout'') \<in> set ?cs"
  proof -
    have "distinct (map (\<lambda>c. jb_id (fst c)) (sweep_candidates now (sw_db s)))" by (rule candidates_distinct [OF assms(1)])
    then have "once_each {} (sweep_candidates now (sw_db s)) = sweep_candidates now (sw_db s)" by (rule once_each_all) simp
    then show ?thesis using assms(3,4) by (simp add: sweep_candidates_def sql_all_def)
  qed
  from retry_fold_row [OF once_each_distinct this candidate_rows [OF assms(1)], where now = now]
  have "job_by_id (sw_db (retry_sweep now s)) (jb_id j) = Some (exhausted_row ''provider_timeout'' now j)"
    using assms(5) by (simp add: retry_sweep_def swept_row_def)
  moreover have "balance_of (sw_db (retry_sweep now s)) n = balance_of (sw_db s) n"
    by (simp add: retry_sweep_def balance_of_def renter_by_id_def)
  moreover have "balance_of (fst (postFail c \<lparr>ref_text = jb_job_id j, ref_id = None\<rparr> err None now (sw_db s))) n = balance_of (sw_db s) n + a"
    using fail_refunds [OF assms(1-3,12) _ assms(6-11), of err now] st by auto
  ultimately show ?thesis using assms(11) by (simp add: exhausted_row_def)
qed

theorem exhausted_job_keeps_payment_witness:
  "let j = demo_hour\<lparr>jb_retry_count := Some 2\<rparr>; s = demo_sweep\<lparr>sw_db := demo_db\<lparr>jobs := [j]\<rparr>\<rparr> in
   balance_of (sw_db (retry_sweep 43200000 s)) 1 = 1000
   \<and> balance_of (fst (postFail gpu_caller job_one None None 43200000 (sw_db s))) 1 = 1090"
proof -
  let ?j = "demo_hour\<lparr>jb_retry_count := Some 2\<rparr>"
  let ?s = "demo_sweep\<lparr>sw_db := demo_db\<lparr>jobs := [?j]\<rparr>\<rparr>"
  have "past_duration 43200000 ?j" by code_simp
  moreover have "balance_of (sw_db ?s) 1 = 1000" by code_simp
  moreover have "retry_limit ?j = 2" by code_simp
  ultimately show ?thesis
    using exhausted_job_keeps_payment [of ?s ?j 43200000 1 90 gpu_caller None]
    by (simp add: has_key_def demo_hour_def demo_run_def by_provider_def gpu_caller_def job_one_def demo_db_def demo_renter_def)
qed
lemma min_of_sorted: "sql_get (\<lambda>_. True) (sort_key f xs) = Some y \<Longrightarrow> y \<in> set xs \<and> (\<forall>x\<in>set xs. f y \<le> f x)"
proof -
  assume a: "sql_get (\<lambda>_. True) (sort_key f xs) = Some y"
  then obtain ys where ys: "sort_key f xs = y # ys" by (cases "sort_key f xs") (auto simp: sql_get_def)
  have "sorted (map f (sort_key f xs))" by simp
  then have "\<forall>x\<in>set (y # ys). f y \<le> f x" by (auto simp: ys)
  then show ?thesis by (metis list.set_intros(1) set_sort ys)
qed

text \<open>
  The backup of a job is an online native provider with a fresh heartbeat, other than the lost one,
  with the least memory that is enough; there is none exactly when no provider qualifies.
\<close>

theorem backup_is_best_fit:
  "case findBackupProvider now d vram p of
     None \<Rightarrow> \<forall>q\<in>set (providers d). \<not> backup_ok now vram p q
   | Some b \<Rightarrow> b \<in> set (providers d) \<and> backup_ok now vram p b
       \<and> (\<forall>q\<in>set (providers d). backup_ok now vram p q \<longrightarrow> or0 (pv_vram_mib b) \<le> or0 (pv_vram_mib q))"
proof (cases "findBackupProvider now d vram p")
  case None
  then have "set (sort_key (\<lambda>p. or0 (pv_vram_mib p)) (sql_all (backup_ok now vram p) (providers d))) = {}"
    by (auto simp: findBackupProvider_def sql_get_None)
  with None show ?thesis by (auto simp: sql_all_def)
next
  case (Some b)
  from min_of_sorted [OF this [unfolded findBackupProvider_def]] Some show ?thesis by (auto simp: sql_all_def)
qed

lemma overlap_not_distinct:
  "a \<in> set xs \<Longrightarrow> b \<in> set xs \<Longrightarrow> a \<noteq> b \<Longrightarrow> i \<in> set (f a) \<Longrightarrow> i \<in> set (f b) \<Longrightarrow> \<not> distinct (concat (map f xs))"
  by (induction xs) auto

text \<open>
  Recovery puts two pods on one GPU. When a provider's heartbeat is lost, the recovery engine hands
  its running pod, with the GPU indices it had there, to another provider; if a pod of
  that provider is live on one of these indices, both hold the same GPU.
\<close>

theorem recovery_breaks_exclusivity:
  assumes "has_key jb_job_id (jobs (sw_db s))"
    and a: "a \<in> set (jobs (sw_db s))" "jb_status a = JRunning" "pod_type (jb_type a)" "jb_gpu_indices a = Some ia"
    and b: "b \<in> set (jobs (sw_db s))" "holds_gpu (pv_id q) b" "jb_gpu_indices b = Some ib" "a \<noteq> b"
    and lost: "detectDisconnectedProviders now (sw_db s) = (d, [p])" "findActiveJobsOnProvider d p = [a]"
    and backup: "findBackupProvider now d (resolveRequiredVramMib a) p = Some q"
    and clash: "i \<in> set (parse_indices ia)" "i \<in> set (parse_indices ib)"
  shows "\<not> distinct (used_indices (sw_db (runRecoveryCycle now s)) (pv_id q))"
proof -
  have "jobs (fold (\<lambda>p. mark_provider p st t) ps x) = jobs x" for ps st t x by (induction ps arbitrary: x) simp_all
  then have j: "jobs d = jobs (sw_db s)" using lost(1) by (auto simp: detectDisconnectedProviders_def Let_def)
  let ?f = "\<lambda>j. j\<lparr>jb_provider := Some (pv_id q), jb_updated_at := Some now\<rparr>"
  have d': "jobs (sw_db (runRecoveryCycle now s)) = sql_update (\<lambda>x. jb_job_id x = jb_job_id a) ?f (jobs (sw_db s))"
    by (simp add: runRecoveryCycle_def lost recover_provider_def recover_job_def backup migrateJob_def Let_def j)
  have other: "jb_job_id b \<noteq> jb_job_id a" using has_key_eq [OF assms(1) a(1) b(1)] b(4) by auto
  have "?f a \<in> set (jobs (sw_db (runRecoveryCycle now s)))" unfolding d' set_sql_update using a(1) by force
  moreover have "b \<in> set (jobs (sw_db (runRecoveryCycle now s)))" unfolding d' set_sql_update using b(1) other by force
  moreover have "parse_indices [] = []" by code_simp
  then have "ia \<noteq> []" using clash(1) by auto
  then have "holds_gpu (pv_id q) (?f a)" using a by (simp add: holds_gpu_def live_pod_status_def)
  moreover have "?f a \<noteq> b" using other by auto
  ultimately show ?thesis
    unfolding used_indices_def sql_all_def using a(4) b(2,3) clash
    by (intro overlap_not_distinct [of "?f a" _ b i]) simp_all
qed

definition demo_twin :: "int \<Rightarrow> string \<Rightarrow> int \<Rightarrow> job_row" where
  "demo_twin i k p = demo_pod\<lparr>jb_id := i, jb_job_id := k, jb_provider := Some p, jb_status := JRunning, jb_gpu_indices := Some ''0''\<rparr>"

definition demo_twins :: sweep_state where
  "demo_twins = demo_sweep\<lparr>sw_db := demo_db\<lparr>jobs := [demo_twin 1 ''pod-1'' 7, demo_twin 2 ''pod-2'' 8],
     providers := [demo_provider, demo_provider\<lparr>pv_id := 8, pv_last_heartbeat := Some 100000\<rparr>]\<rparr>\<rparr>"

theorem recovery_breaks_exclusivity_witness:
  "distinct (used_indices (sw_db demo_twins) 7) \<and> distinct (used_indices (sw_db demo_twins) 8)
   \<and> \<not> distinct (used_indices (sw_db (runRecoveryCycle 100000 demo_twins)) 8)"
proof -
  let ?p = "demo_provider\<lparr>pv_id := 8, pv_last_heartbeat := Some 100000\<rparr>"
  let ?a = "demo_twin 1 ''pod-1'' 7" and ?b = "demo_twin 2 ''pod-2'' 8"
  have rows: "jobs (sw_db demo_twins) = [?a, ?b]" by (simp add: demo_twins_def)
  obtain d where d: "detectDisconnectedProviders 100000 (sw_db demo_twins) = (d, [7])" "jobs d = [?a, ?b]"
      "providers d = [demo_provider\<lparr>pv_status := ''disconnected''\<rparr>, ?p]"
    by (simp add: detectDisconnectedProviders_def demo_twins_def Let_def sql_all_def heartbeat_lost_def demo_provider_def mark_provider_def)
  have "\<not> distinct (used_indices (sw_db (runRecoveryCycle 100000 demo_twins)) (pv_id ?p))"
  proof (rule recovery_breaks_exclusivity [where a = ?a and b = ?b and i = 0 and ia = "''0''" and ib = "''0''" and p = 7 and d = d])
    show "findActiveJobsOnProvider d 7 = [?a]"
      by (simp add: findActiveJobsOnProvider_def d demo_twin_def demo_pod_def sql_all_def)
    show "findBackupProvider 100000 d (resolveRequiredVramMib ?a) 7 = Some ?p"
      by (simp add: findBackupProvider_def d sql_all_def backup_ok_def demo_provider_def sql_get_def resolveRequiredVramMib_def
          demo_twin_def demo_pod_def blank_job_def)
    show "0 \<in> set (parse_indices ''0'')" by code_simp
    then show "0 \<in> set (parse_indices ''0'')" .
  qed (simp_all add: rows d, simp_all add: demo_twin_def has_key_def demo_pod_def pod_type_def holds_gpu_def live_pod_status_def blank_job_def)
  moreover have "distinct (used_indices (sw_db demo_twins) 7)" "distinct (used_indices (sw_db demo_twins) 8)" by code_simp+
  ultimately show ?thesis by simp
qed

end
