(* ===== verification/Payouts.thy ===== *)
theory Payouts
  imports Schema Contracts Samples "HOL-Library.List_Lexorder" "HOL-Library.Char_ord"
begin

text \<open>
  \<open>backend/src/services/payoutService.js\<close> and the request checks of
  \<open>moyasarPayoutService.js\<close>. The two operations that wait for Moyasar are split where the
  code awaits: a synchronous part before the call and one after it, so that other operations
  can run in between. What Moyasar answers is an argument. The lemmas show that a payout's
  amount is always in exactly one place, that a paid or rejected payout stays so whatever is
  interleaved, and how the hold enters the available balance.
\<close>

definition MIN_PAYOUT_USD :: rat where "MIN_PAYOUT_USD = 50"
definition USD_TO_SAR :: rat where "USD_TO_SAR = 3.75"
definition HALALA_PER_SAR :: rat where "HALALA_PER_SAR = 100"

section \<open>Requests\<close>

datatype payout_error =
  InvalidAmount
| BelowMinimum
| ProviderNotFound
| InsufficientAvailable int int     \<comment> \<open>available, requested\<close>
| DuplicateId
| PayoutNotFound
| AlreadyPaid
| AlreadyRejected
| NotRejectable
| NotPending
| NoPayoutAccount
| NoMoyasarId
| MoyasarError

definition open_payout :: "payout_row \<Rightarrow> bool" where
  "open_payout r = (po_status r = PPending \<or> po_status r = PProcessing)"

definition pendingHoldsHalala :: "db \<Rightarrow> int \<Rightarrow> int" where
  "pendingHoldsHalala d p = sql_sum (\<lambda>r. po_provider r = p \<and> open_payout r) po_amount (payouts d)"

definition live_provider :: "db \<Rightarrow> int \<Rightarrow> provider_row option" where
  "live_provider d p = sql_get (\<lambda>r. pv_id r = p \<and> pv_deleted_at r = None) (providers d)"

definition usd_halala :: "rat \<Rightarrow> int" where
  "usd_halala usd = js_round (fl_mul (fl_mul usd USD_TO_SAR) HALALA_PER_SAR)"

definition usd_sar :: "rat \<Rightarrow> rat" where
  "usd_sar usd = fl (to_fixed 2 (fl_mul usd USD_TO_SAR))"

definition payout_by_id :: "db \<Rightarrow> string \<Rightarrow> payout_row option" where
  "payout_by_id d i = sql_get (\<lambda>r. po_id r = i) (payouts d)"

definition add_claimable :: "int \<Rightarrow> int \<Rightarrow> db \<Rightarrow> db" where
  "add_claimable p a d =
     d\<lparr>providers := sql_update (\<lambda>r. pv_id r = p) (\<lambda>r. r\<lparr>pv_claimable := pv_claimable r + a\<rparr>) (providers d)\<rparr>"

definition new_payout :: "int \<Rightarrow> rat \<Rightarrow> string \<Rightarrow> int \<Rightarrow> payout_row" where
  "new_payout p usd uuid now =
     \<lparr>po_id = uuid, po_provider = p, po_amount_usd = usd, po_amount_sar = usd_sar usd,
      po_amount = usd_halala usd, po_status = PPending, po_requested_at = now, po_processed_at = None,
      po_payment_ref = None, po_moyasar_id = None, po_moyasar_status = None, po_failure_reason = None\<rparr>"

text \<open>
  The two writes are not one transaction: if \<open>uuid\<close> were taken, the insert would throw after
  the amount had left the claimable balance.
\<close>

definition requestPayout :: "db \<Rightarrow> int \<Rightarrow> js_num \<Rightarrow> string \<Rightarrow> int \<Rightarrow> db \<times> (payout_error + payout_row)" where
  "requestPayout d p amountUsd uuid now =
     (case amountUsd of
        None \<Rightarrow> (d, Inl InvalidAmount)
      | Some usd \<Rightarrow>
        if usd \<le> 0 then (d, Inl InvalidAmount)
        else if usd < MIN_PAYOUT_USD then (d, Inl BelowMinimum)
        else case live_provider d p of
          None \<Rightarrow> (d, Inl ProviderNotFound)
        | Some pv \<Rightarrow>
          (let amount = usd_halala usd;
               available = max 0 (pv_claimable pv - pendingHoldsHalala d p)
           in if amount > available then (d, Inl (InsufficientAvailable available amount))
              else
                (let d1 = add_claimable p (- amount) d
                 in if uuid \<in> set (map po_id (payouts d)) then (d1, Inl DuplicateId)
                    else (d1\<lparr>payouts := sql_insert (new_payout p usd uuid now) (payouts d1)\<rparr>,
                          Inr (new_payout p usd uuid now)))))"

section \<open>Queries\<close>

record earnings_view =
  ev_available :: int
  ev_pending :: int
  ev_paid :: int
  ev_available_sar :: rat
  ev_available_usd :: rat

definition to_sar :: "int \<Rightarrow> rat" where
  "to_sar h = fl (to_fixed 2 (fl_div (of_int h) HALALA_PER_SAR))"

definition to_usd :: "int \<Rightarrow> rat" where
  "to_usd h = fl (to_fixed 2 (fl_div (of_int h) (HALALA_PER_SAR * USD_TO_SAR)))"

definition getEarningsSummary :: "db \<Rightarrow> int \<Rightarrow> earnings_view option" where
  "getEarningsSummary d p =
     (case live_provider d p of
        None \<Rightarrow> None
      | Some pv \<Rightarrow>
        (let pending = pendingHoldsHalala d p;
             paid = sql_sum (\<lambda>r. po_provider r = p \<and> po_status r = PPaid) po_amount (payouts d);
             available = max 0 (pv_claimable pv - pending)
         in Some \<lparr>ev_available = available, ev_pending = pending, ev_paid = paid,
                  ev_available_sar = to_sar available, ev_available_usd = to_usd available\<rparr>))"

record history_view =
  hv_rows :: "payout_row list"
  hv_limit :: int
  hv_offset :: int
  hv_total :: nat

definition getPayoutHistory :: "db \<Rightarrow> int \<Rightarrow> int option \<Rightarrow> int option \<Rightarrow> history_view" where
  "getPayoutHistory d p limit off =
     (let l = min (if or0 limit = 0 then 20 else or0 limit) 100;
          k = max (or0 off) 0;
          mine = sql_all (\<lambda>r. po_provider r = p) (payouts d)
      in \<lparr>hv_rows = sql_limit l k (rev (sort_key po_requested_at (sort_key po_id mine))),
          hv_limit = l, hv_offset = k, hv_total = length mine\<rparr>)"

section \<open>Administration\<close>

definition update_payout :: "string \<Rightarrow> (payout_row \<Rightarrow> payout_row) \<Rightarrow> db \<Rightarrow> db" where
  "update_payout i f d = d\<lparr>payouts := sql_update (\<lambda>r. po_id r = i) f (payouts d)\<rparr>"

definition some_or_null :: "string option \<Rightarrow> string option" where
  "some_or_null s = (if truthy_str s then s else None)"

definition markPayoutPaid :: "db \<Rightarrow> string \<Rightarrow> string option \<Rightarrow> int \<Rightarrow> db \<times> (payout_error + payout_row option)" where
  "markPayoutPaid d i ref now =
     (case payout_by_id d i of
        None \<Rightarrow> (d, Inl PayoutNotFound)
      | Some r \<Rightarrow>
        if po_status r = PPaid then (d, Inl AlreadyPaid)
        else if po_status r = PRejected then (d, Inl AlreadyRejected)
        else (let d1 = update_payout i (\<lambda>r. r\<lparr>po_status := PPaid, po_processed_at := Some now,
                         po_payment_ref := some_or_null ref\<rparr>) d
              in (d1, Inr (payout_by_id d1 i))))"

definition rejectPayout :: "db \<Rightarrow> string \<Rightarrow> string option \<Rightarrow> int \<Rightarrow> db \<times> (payout_error + payout_row option)" where
  "rejectPayout d i reason now =
     (case payout_by_id d i of
        None \<Rightarrow> (d, Inl PayoutNotFound)
      | Some r \<Rightarrow>
        if \<not> open_payout r then (d, Inl NotRejectable)
        else
          (let d1 = add_claimable (po_provider r) (po_amount r) d;
               ref = (if truthy_str reason then ''REJECTED: '' @ the reason else ''REJECTED'');
               d2 = update_payout i (\<lambda>r. r\<lparr>po_status := PRejected, po_processed_at := Some now,
                      po_payment_ref := Some ref\<rparr>) d1
           in (d2, Inr (payout_by_id d2 i))))"


section \<open>The gateway\<close>

record payout_body =
  pb_source :: string
  pb_amount :: int
  pb_iban :: string
  pb_name :: string
  pb_comment :: string

record gateway_reply =
  gr_id :: string
  gr_status :: string
  gr_sequence :: "string option"
  gr_failure :: "string option"
  gr_message :: "string option"

definition isTerminalSuccess :: "string \<Rightarrow> bool" where
  "isTerminalSuccess s = (s = ''paid'')"

definition isTerminalFailure :: "string \<Rightarrow> bool" where
  "isTerminalFailure s = (s = ''failed'' \<or> s = ''canceled'' \<or> s = ''returned'')"

definition is_space :: "char \<Rightarrow> bool" where
  "is_space c = (c \<in> {CHR '' '', CHR 0x09, CHR 0x0A, CHR 0x0B, CHR 0x0C, CHR 0x0D})"

definition createPayout ::
    "string \<Rightarrow> (payout_body \<Rightarrow> gateway_reply option) \<Rightarrow> int \<Rightarrow> string \<Rightarrow> string \<Rightarrow> string \<Rightarrow> gateway_reply option" where
  \<comment> \<open>\<open>None\<close> is a rejected promise; \<open>post\<close> is the HTTP call\<close>
  "createPayout source post amount iban name cmt =
     (if source = [] \<or> amount \<le> 0 \<or> iban = [] \<or> name = [] then None
      else post \<lparr>pb_source = source, pb_amount = amount,
                 pb_iban = map upper_ascii (filter (\<lambda>c. \<not> is_space c) iban), pb_name = name,
                 pb_comment = cmt\<rparr>)"

section \<open>Sending a payout\<close>

record payout_call =
  pc_payout :: string
  pc_amount :: int
  pc_iban :: string
  pc_name :: string

text \<open>Up to the \<open>await\<close>: the checks and the compare-and-set from pending to processing.\<close>

definition process_begin :: "db \<Rightarrow> string \<Rightarrow> int \<Rightarrow> db \<times> (payout_error + payout_call)" where
  "process_begin d i now =
     (case payout_by_id d i of
        None \<Rightarrow> (d, Inl PayoutNotFound)
      | Some r \<Rightarrow>
        if po_status r \<noteq> PPending then (d, Inl NotPending)
        else case provider_by_id d (po_provider r) of
          None \<Rightarrow> (d, Inl ProviderNotFound)
        | Some pv \<Rightarrow>
          if \<not> truthy_str (pv_iban pv) \<or> \<not> truthy_str (pv_holder pv) then (d, Inl NoPayoutAccount)
          else
            (let P = (\<lambda>x. po_id x = i \<and> po_status x = PPending)
             in if sql_changes P (payouts d) = 0 then (d, Inl NotPending)
                else (d\<lparr>payouts := sql_update P
                         (\<lambda>x. x\<lparr>po_status := PProcessing, po_processed_at := Some now\<rparr>) (payouts d)\<rparr>,
                      Inr \<lparr>pc_payout = i, pc_amount = po_amount r, pc_iban = the (pv_iban pv),
                           pc_name = the (pv_holder pv)\<rparr>)))"

text \<open>After it: the claim is released, or Moyasar's id is stored.\<close>

definition process_end :: "db \<Rightarrow> string \<Rightarrow> gateway_reply option \<Rightarrow> db \<times> (payout_error + gateway_reply)" where
  "process_end d i reply =
     (case reply of
        None \<Rightarrow> (d\<lparr>payouts := sql_update
                    (\<lambda>x. po_id x = i \<and> po_status x = PProcessing \<and> po_moyasar_id x = None)
                    (\<lambda>x. x\<lparr>po_status := PPending, po_processed_at := None\<rparr>) (payouts d)\<rparr>, Inl MoyasarError)
      | Some g \<Rightarrow> (update_payout i (\<lambda>x. x\<lparr>po_moyasar_id := Some (gr_id g),
                       po_moyasar_status := Some (gr_status g)\<rparr>) d, Inr g))"

definition processPayoutViaMoyasar ::
    "string \<Rightarrow> (payout_body \<Rightarrow> gateway_reply option) \<Rightarrow> db \<Rightarrow> string \<Rightarrow> int \<Rightarrow> db \<times> (payout_error + gateway_reply)" where
  "processPayoutViaMoyasar source post d i now =
     (case process_begin d i now of
        (d1, Inl e) \<Rightarrow> (d1, Inl e)
      | (d1, Inr c) \<Rightarrow> process_end d1 i
          (createPayout source post (pc_amount c) (pc_iban c) (pc_name c)
             (''DCP provider payout - request '' @ i)))"

section \<open>Following a payout\<close>

record sync_result =
  sy_status :: "payout_status option"
  sy_moyasar :: "string option"
  sy_transitioned :: bool

text \<open>Before the \<open>await\<close>: \<open>Inr\<close> is the row the rest of the call works with.\<close>

definition sync_begin :: "db \<Rightarrow> string \<Rightarrow> (payout_error + sync_result) + payout_row" where
  "sync_begin d i =
     (case payout_by_id d i of
        None \<Rightarrow> Inl (Inl PayoutNotFound)
      | Some r \<Rightarrow>
        if \<not> truthy_str (po_moyasar_id r) then Inl (Inl NoMoyasarId)
        else if po_status r = PPaid \<or> po_status r = PRejected
        then Inl (Inr \<lparr>sy_status = Some (po_status r), sy_moyasar = po_moyasar_status r, sy_transitioned = False\<rparr>)
        else Inr r)"

definition fresh_status :: "db \<Rightarrow> string \<Rightarrow> sync_result" where
  "fresh_status d i =
     \<lparr>sy_status = map_option po_status (payout_by_id d i),
      sy_moyasar = (case payout_by_id d i of None \<Rightarrow> None | Some r \<Rightarrow> po_moyasar_status r),
      sy_transitioned = False\<rparr>"

definition failure_text :: "gateway_reply \<Rightarrow> string" where
  "failure_text g = (if truthy_str (gr_failure g) then the (gr_failure g)
     else if truthy_str (gr_message g) then the (gr_message g) else ''moyasar status='' @ gr_status g)"

definition sync_end ::
    "db \<Rightarrow> payout_row \<Rightarrow> gateway_reply option \<Rightarrow> int \<Rightarrow> db \<times> (payout_error + sync_result)" where
  "sync_end d row reply now =
     (case reply of
        None \<Rightarrow> (d, Inl MoyasarError)
      | Some g \<Rightarrow>
        (let i = po_id row;
             P = (\<lambda>x. po_id x = i \<and> po_status x \<noteq> PPaid \<and> po_status x \<noteq> PRejected)
         in if isTerminalSuccess (gr_status g) then
              (if sql_changes P (payouts d) = 0 then (d, Inr (fresh_status d i))
               else (d\<lparr>payouts := sql_update P
                       (\<lambda>x. x\<lparr>po_status := PPaid, po_moyasar_status := Some (gr_status g),
                              po_processed_at := Some now,
                              po_payment_ref := coalesce (po_payment_ref x)
                                (Some (if truthy_str (gr_sequence g) then the (gr_sequence g) else gr_id g))\<rparr>)
                       (payouts d)\<rparr>,
                     Inr \<lparr>sy_status = Some PPaid, sy_moyasar = Some (gr_status g), sy_transitioned = True\<rparr>))
            else if isTerminalFailure (gr_status g) then
              (if sql_changes P (payouts d) = 0 then (d, Inr (fresh_status d i))
               else (add_claimable (po_provider row) (po_amount row)
                       (d\<lparr>payouts := sql_update P
                          (\<lambda>x. x\<lparr>po_status := PRejected, po_moyasar_status := Some (gr_status g),
                                 po_failure_reason := Some (failure_text g),
                                 po_processed_at := Some now\<rparr>) (payouts d)\<rparr>),
                     Inr \<lparr>sy_status = Some PRejected, sy_moyasar = Some (gr_status g), sy_transitioned = True\<rparr>))
            else (update_payout i (\<lambda>x. x\<lparr>po_moyasar_status := Some (gr_status g)\<rparr>) d,
                  Inr \<lparr>sy_status = Some (po_status row), sy_moyasar = Some (gr_status g),
                       sy_transitioned = False\<rparr>)))"

definition syncPayoutStatus ::
    "(string \<Rightarrow> gateway_reply option) \<Rightarrow> db \<Rightarrow> string \<Rightarrow> int \<Rightarrow> db \<times> (payout_error + sync_result)" where
  "syncPayoutStatus fetch d i now =
     (case sync_begin d i of
        Inl r \<Rightarrow> (d, r)
      | Inr row \<Rightarrow> sync_end d row (fetch (the (po_moyasar_id row))) now)"

record sweep =
  sw_swept :: nat
  sw_transitioned :: nat
  sw_errors :: nat

fun reconcile_loop :: "(string \<Rightarrow> gateway_reply option) \<Rightarrow> int \<Rightarrow> string list \<Rightarrow> db \<times> sweep \<Rightarrow> db \<times> sweep" where
  "reconcile_loop fetch now [] s = s"
| "reconcile_loop fetch now (i # is) (d, w) =
     (case syncPayoutStatus fetch d i now of
        (d1, Inr r) \<Rightarrow> reconcile_loop fetch now is
          (d1, if sy_transitioned r then w\<lparr>sw_transitioned := sw_transitioned w + 1\<rparr> else w)
      | (d1, Inl e) \<Rightarrow> reconcile_loop fetch now is (d1, w\<lparr>sw_errors := sw_errors w + 1\<rparr>))"

definition stuck_payouts :: "db \<Rightarrow> int \<Rightarrow> int \<Rightarrow> int \<Rightarrow> string list" where
  "stuck_payouts d minAgeMinutes limit now =
     (let cutoff = now - minAgeMinutes * 60 * 1000
      in map po_id (sql_limit limit 0 (sort_key po_requested_at
           (sql_all (\<lambda>r. po_status r = PProcessing \<and> po_moyasar_id r \<noteq> None
              \<and> (po_processed_at r = None \<or> lt_col (po_processed_at r) cutoff)) (payouts d)))))"

definition reconcileProcessingPayouts ::
    "(string \<Rightarrow> gateway_reply option) \<Rightarrow> db \<Rightarrow> int \<Rightarrow> int \<Rightarrow> int \<Rightarrow> db \<times> sweep" where
  "reconcileProcessingPayouts fetch d minAgeMinutes limit now =
     (let ids = stuck_payouts d minAgeMinutes limit now
      in reconcile_loop fetch now ids (d, \<lparr>sw_swept = length ids, sw_transitioned = 0, sw_errors = 0\<rparr>))"

section \<open>Where the money is\<close>

definition weight :: "int \<Rightarrow> payout_row \<Rightarrow> int" where
  "weight p r = (if po_provider r = p \<and> po_status r \<noteq> PRejected then po_amount r else 0)"

definition held :: "db \<Rightarrow> int \<Rightarrow> int" where
  "held d p = sum_list (map (weight p) (payouts d))"

definition entitlement :: "db \<Rightarrow> int \<Rightarrow> int" where
  \<comment> \<open>claimable, plus what is pending, processing or already paid out\<close>
  "entitlement d p = claimable_of d p + held d p"

definition payout_status_of :: "db \<Rightarrow> string \<Rightarrow> payout_status option" where
  "payout_status_of d i = map_option po_status (payout_by_id d i)"

definition final_payout :: "payout_status \<Rightarrow> bool" where
  "final_payout s = (s = PPaid \<or> s = PRejected)"

definition payouts_good :: "db \<Rightarrow> bool" where
  "payouts_good d = (has_key po_id (payouts d) \<and> (\<forall>r\<in>set (payouts d). provider_by_id d (po_provider r) \<noteq> None))"

definition sound :: "db \<Rightarrow> db \<Rightarrow> bool" where
  "sound d d' = (payouts_good d' \<and> (\<forall>p. entitlement d' p = entitlement d p) \<and>
     (\<forall>i st. payout_status_of d i = Some st \<longrightarrow> final_payout st \<longrightarrow> payout_status_of d' i = Some st))"

lemma sound_refl: "payouts_good d \<Longrightarrow> sound d d"
  by (simp add: sound_def)

lemma provider_by_id_add:
  "provider_by_id (add_claimable p a d) q =
     map_option (\<lambda>r. if pv_id r = p then r\<lparr>pv_claimable := pv_claimable r + a\<rparr> else r) (provider_by_id d q)"
  by (simp add: provider_by_id_def add_claimable_def sql_get_update)

lemma provider_by_id_id: "provider_by_id d p = Some r \<Longrightarrow> pv_id r = p"
  by (auto simp: provider_by_id_def dest: sql_get_Some)

lemma claimable_of_add:
  "claimable_of (add_claimable p a d) q =
     claimable_of d q + (if q = p \<and> provider_by_id d p \<noteq> None then a else 0)"
proof (cases "provider_by_id d q")
  case (Some r)
  then show ?thesis using provider_by_id_id [OF Some] by (auto simp: claimable_of_def provider_by_id_add)
qed (auto simp: claimable_of_def provider_by_id_add)

lemma payouts_add [simp]: "payouts (add_claimable p a d) = payouts d"
  by (simp add: add_claimable_def)

lemma set_payouts_frame [simp]:
  "provider_by_id (d\<lparr>payouts := x\<rparr>) p = provider_by_id d p" "claimable_of (d\<lparr>payouts := x\<rparr>) p = claimable_of d p"
  "held (add_claimable q a d) p = held d p" "payout_by_id (add_claimable q a d) i = payout_by_id d i"
  by (simp_all add: provider_by_id_def claimable_of_def held_def payout_by_id_def)

lemma payout_by_id_key:
  "has_key po_id (payouts d) \<Longrightarrow> r \<in> set (payouts d) \<Longrightarrow> payout_by_id d (po_id r) = Some r"
  by (simp add: payout_by_id_def sql_get_key)

lemma payout_by_id_in: "payout_by_id d i = Some r \<Longrightarrow> r \<in> set (payouts d) \<and> po_id r = i"
  by (auto simp: payout_by_id_def dest: sql_get_Some)

lemma payout_by_id_update:
  assumes key: "has_key po_id (payouts d)" and id: "\<And>x. po_id (f x) = po_id x"
  shows "payout_by_id (d\<lparr>payouts := sql_update P f (payouts d)\<rparr>) i =
     map_option (\<lambda>r. if P r then f r else r) (payout_by_id d i)"
  using id by (simp add: payout_by_id_def sql_get_update)

text \<open>An update that leaves final rows their status and rejects none moves no money.\<close>

lemma sound_update:
  assumes good: "payouts_good d"
    and f: "\<And>x. po_id (f x) = po_id x" "\<And>x. po_provider (f x) = po_provider x" "\<And>x. po_amount (f x) = po_amount x"
    and st: "\<And>x. x \<in> set (payouts d) \<Longrightarrow> P x \<Longrightarrow>
       po_status (f x) = po_status x \<or> (\<not> final_payout (po_status x) \<and> po_status (f x) \<noteq> PRejected)"
  shows "sound d (d\<lparr>payouts := sql_update P f (payouts d)\<rparr>)"
proof -
  have key: "has_key po_id (payouts d)" using good by (simp add: payouts_good_def)
  have "payouts_good (d\<lparr>payouts := sql_update P f (payouts d)\<rparr>)"
    using good f by (auto simp: payouts_good_def has_key_update set_sql_update)
  moreover have "held (d\<lparr>payouts := sql_update P f (payouts d)\<rparr>) p = held d p" for p
  proof -
    have "weight p (f x) - weight p x = 0" if "x \<in> set (filter P (payouts d))" for x
      using st [of x] f that by (auto simp: weight_def final_payout_def)
    then have "map (\<lambda>x. weight p (f x) - weight p x) (filter P (payouts d)) = map (\<lambda>_. 0) (filter P (payouts d))"
      by (intro map_cong refl)
    then have "sum_list (map (\<lambda>x. weight p (f x) - weight p x) (filter P (payouts d))) = 0"
      by (simp only: sum_list_0)
    then show ?thesis by (simp add: held_def sum_list_update)
  qed
  moreover have "payout_status_of (d\<lparr>payouts := sql_update P f (payouts d)\<rparr>) i = Some s"
    if fin: "payout_status_of d i = Some s" "final_payout s" for i s
  proof -
    obtain x where x: "payout_by_id d i = Some x" "po_status x = s"
      using fin(1) by (auto simp: payout_status_of_def)
    with st [of x] fin(2) payout_by_id_in [OF x(1)] show ?thesis
      by (auto simp: payout_status_of_def payout_by_id_update [OF key f(1)])
  qed
  ultimately show ?thesis by (simp add: sound_def entitlement_def)
qed

text \<open>A rejection of an open payout moves its amount back to the claimable balance.\<close>

lemma sound_refund:
  assumes good: "payouts_good d" and r: "r \<in> set (payouts d)" "Q r" "\<not> final_payout (po_status r)"
    and f: "\<And>x. po_id (f x) = po_id x" "\<And>x. po_provider (f x) = po_provider x" "\<And>x. po_amount (f x) = po_amount x"
      "\<And>x. po_status (f x) = PRejected"
  shows "sound d (add_claimable (po_provider r) (po_amount r)
     (d\<lparr>payouts := sql_update (\<lambda>x. po_id x = po_id r \<and> Q x) f (payouts d)\<rparr>))" (is "sound d ?d")
proof -
  have key: "has_key po_id (payouts d)" and pv: "provider_by_id d (po_provider r) \<noteq> None"
    using good r by (simp_all add: payouts_good_def)
  have "payouts_good ?d"
    using good f by (auto simp: payouts_good_def has_key_update set_sql_update provider_by_id_add)
  moreover have "entitlement ?d p = entitlement d p" for p
  proof -
    have "held ?d p = held d p + (weight p (f r) - weight p r)"
      using sum_list_update_key [OF key r(1), of Q "weight p" f] r(2) by (simp add: held_def)
    then show ?thesis using r(3) f pv
      by (auto simp: entitlement_def claimable_of_add weight_def final_payout_def)
  qed
  moreover have "payout_status_of ?d i = Some s" if fin: "payout_status_of d i = Some s" "final_payout s" for i s
  proof -
    obtain x where x: "payout_by_id d i = Some x" "po_status x = s"
      using fin(1) by (auto simp: payout_status_of_def)
    then have "po_id x \<noteq> po_id r"
      using payout_by_id_in [OF x(1)] has_key_eq [OF key, of x r] r fin(2) by auto
    with x show ?thesis by (simp add: payout_status_of_def payout_by_id_update [OF key f(1)])
  qed
  ultimately show ?thesis by (simp add: sound_def)
qed

section \<open>Every operation, in any order\<close>

datatype payout_event =
  EvRequest int js_num string int
| EvMarkPaid string "string option" int
| EvReject string "string option" int
| EvProcBegin string int
| EvProcEnd string "gateway_reply option"
| EvSyncEnd string "gateway_reply option" int

text \<open>
  A request uses an id that \<open>randomUUID\<close> has not returned before; one that is taken is no
  event. The row a pending \<open>syncPayoutStatus\<close> holds is the one it read before its
  \<open>await\<close>; the columns it uses later, id, provider and amount, never change.
\<close>

fun payout_run :: "db \<Rightarrow> payout_event \<Rightarrow> db" where
  "payout_run d (EvRequest p usd uuid now) =
     (if uuid \<in> set (map po_id (payouts d)) then d else fst (requestPayout d p usd uuid now))"
| "payout_run d (EvMarkPaid i ref now) = fst (markPayoutPaid d i ref now)"
| "payout_run d (EvReject i reason now) = fst (rejectPayout d i reason now)"
| "payout_run d (EvProcBegin i now) = fst (process_begin d i now)"
| "payout_run d (EvProcEnd i reply) = fst (process_end d i reply)"
| "payout_run d (EvSyncEnd i reply now) =
     (case payout_by_id d i of None \<Rightarrow> d | Some row \<Rightarrow> fst (sync_end d row reply now))"

lemma sound_request:
  assumes good: "payouts_good d" and fresh: "uuid \<notin> set (map po_id (payouts d))"
  shows "sound d (fst (requestPayout d p usd uuid now))"
proof (cases "\<exists>u pv. usd = Some u \<and> \<not> u \<le> 0 \<and> \<not> u < MIN_PAYOUT_USD \<and> live_provider d p = Some pv
    \<and> \<not> usd_halala u > max 0 (pv_claimable pv - pendingHoldsHalala d p)")
  case False
  then have "fst (requestPayout d p usd uuid now) = d"
    by (auto simp: requestPayout_def Let_def split: option.splits)
  then show ?thesis using good by (simp add: sound_refl)
next
  case True
  then obtain u pv where u: "usd = Some u" "\<not> u \<le> 0" "\<not> u < MIN_PAYOUT_USD" "live_provider d p = Some pv"
    "\<not> usd_halala u > max 0 (pv_claimable pv - pendingHoldsHalala d p)" by blast
  let ?a = "usd_halala u"
  let ?d = "(add_claimable p (- ?a) d)\<lparr>payouts := sql_insert (new_payout p u uuid now) (payouts d)\<rparr>"
  have d': "fst (requestPayout d p usd uuid now) = ?d"
    using u fresh by (simp add: requestPayout_def Let_def del: max_less_iff_conj)
  have pv: "provider_by_id d p \<noteq> None"
    using sql_get_Some [OF u(4) [unfolded live_provider_def]]
    by (auto simp: provider_by_id_def sql_get_None)
  have n: "po_id (new_payout p u uuid now) = uuid" "po_provider (new_payout p u uuid now) = p"
    "po_amount (new_payout p u uuid now) = ?a" "po_status (new_payout p u uuid now) = PPending"
    by (simp_all add: new_payout_def)
  have "payouts_good ?d"
    using good fresh pv n
    by (auto simp: payouts_good_def provider_by_id_add sql_insert_def intro!: has_key_insert [unfolded sql_insert_def])
  moreover have "entitlement ?d q = entitlement d q" for q
    using pv n by (auto simp: entitlement_def claimable_of_add held_def sql_insert_def weight_def)
  moreover have "payout_status_of ?d i = Some s" if "payout_status_of d i = Some s" for i s
    using that by (auto simp: payout_status_of_def payout_by_id_def sql_get_insert)
  ultimately show ?thesis unfolding d' by (simp add: sound_def)
qed

lemma sound_mark_paid: "payouts_good d \<Longrightarrow> sound d (fst (markPayoutPaid d i ref now))"
  using payout_by_id_in [of d i]
  by (auto simp: markPayoutPaid_def Let_def update_payout_def sound_refl payouts_good_def final_payout_def
      intro!: sound_update dest: has_key_eq split: option.splits)

lemma update_commute: "update_payout i f (add_claimable p a d) = add_claimable p a (update_payout i f d)"
  by (simp add: update_payout_def add_claimable_def)

lemma open_not_final: "open_payout r \<Longrightarrow> \<not> final_payout (po_status r)"
  by (auto simp: open_payout_def final_payout_def)

lemma sound_reject:
  assumes good: "payouts_good d"
  shows "sound d (fst (rejectPayout d i reason now))"
proof (cases "\<exists>r. payout_by_id d i = Some r \<and> open_payout r")
  case False
  then show ?thesis using good by (auto simp: rejectPayout_def sound_refl split: option.splits)
next
  case True
  then obtain r where r: "payout_by_id d i = Some r" "open_payout r" by blast
  note m = payout_by_id_in [OF r(1)]
  define f :: "payout_row \<Rightarrow> payout_row" where "f = (\<lambda>x. x\<lparr>po_status := PRejected, po_processed_at := Some now, po_payment_ref :=
     Some (if truthy_str reason then ''REJECTED: '' @ the reason else ''REJECTED'')\<rparr>)"
  have "fst (rejectPayout d i reason now) =
      add_claimable (po_provider r) (po_amount r) (d\<lparr>payouts := sql_update (\<lambda>x. po_id x = po_id r \<and> True) f (payouts d)\<rparr>)"
    using r m by (simp add: rejectPayout_def Let_def update_commute) (simp add: update_payout_def f_def)
  also have "sound d \<dots>"
    using good m r(2) by (intro sound_refund) (simp_all add: open_not_final f_def)
  finally show ?thesis .
qed

lemma sound_process_begin: "payouts_good d \<Longrightarrow> sound d (fst (process_begin d i now))"
  by (auto simp: process_begin_def Let_def sound_refl final_payout_def intro!: sound_update split: option.splits)

lemma sound_process_end: "payouts_good d \<Longrightarrow> sound d (fst (process_end d i reply))"
  by (auto simp: process_end_def update_payout_def final_payout_def intro!: sound_update split: option.splits)

lemma sound_sync_end:
  assumes good: "payouts_good d" and row: "payout_by_id d i = Some row"
  shows "sound d (fst (sync_end d row reply now))"
proof (cases reply)
  case None
  then show ?thesis using good by (simp add: sync_end_def sound_refl)
next
  case (Some g)
  note m = payout_by_id_in [OF row]
  have key: "has_key po_id (payouts d)" using good by (simp add: payouts_good_def)
  let ?Q = "\<lambda>x. po_status x \<noteq> PPaid \<and> po_status x \<noteq> PRejected"
  show ?thesis
  proof (cases "isTerminalFailure (gr_status g) \<and> \<not> isTerminalSuccess (gr_status g)
      \<and> sql_changes (\<lambda>x. po_id x = po_id row \<and> ?Q x) (payouts d) \<noteq> 0")
    case False
    then show ?thesis using Some good
      by (auto simp: sync_end_def Let_def sound_refl update_payout_def final_payout_def intro!: sound_update)
  next
    case True
    then obtain x where x: "x \<in> set (payouts d)" "po_id x = po_id row" "?Q x"
      by (auto simp: sql_changes_0)
    with m has_key_eq [OF key, of x row] have q: "?Q row" by auto
    define f :: "payout_row \<Rightarrow> payout_row" where "f = (\<lambda>x. x\<lparr>po_status := PRejected, po_moyasar_status := Some (gr_status g),
       po_failure_reason := Some (failure_text g), po_processed_at := Some now\<rparr>)"
    have "fst (sync_end d row reply now) = add_claimable (po_provider row) (po_amount row)
        (d\<lparr>payouts := sql_update (\<lambda>x. po_id x = po_id row \<and> ?Q x) f (payouts d)\<rparr>)"
      using Some True by (simp add: sync_end_def Let_def f_def)
    also have "sound d \<dots>"
      using good m q by (intro sound_refund) (simp_all add: final_payout_def f_def)
    finally show ?thesis .
  qed
qed

lemma payout_step: "payouts_good d \<Longrightarrow> sound d (payout_run d e)"
  by (cases e)
     (auto simp: sound_refl sound_request sound_mark_paid sound_reject sound_process_begin
        sound_process_end sound_sync_end split: option.splits)

interpretation payout_books: conserved payout_run "\<lambda>d. entitlement d p" payouts_good "\<lambda>_ _. 0" for p
  by unfold_locales (use payout_step in \<open>auto simp: sound_def\<close>)

interpretation payout_life: lifecycle payout_run payout_status_of final_payout payouts_good
  by unfold_locales (use payout_step in \<open>auto simp: sound_def\<close>)

lemma sound_trans: "sound d d1 \<Longrightarrow> sound d1 d2 \<Longrightarrow> sound d d2"
  by (simp add: sound_def)

lemma sound_good: "sound d d' \<Longrightarrow> payouts_good d'"
  by (simp add: sound_def)

lemma sync_begin_row: "sync_begin d i = Inr row \<Longrightarrow> payout_by_id d i = Some row"
  by (auto simp: sync_begin_def split: option.splits if_splits)

lemma sound_sync: "payouts_good d \<Longrightarrow> sound d (fst (syncPayoutStatus fetch d i now))"
  by (cases "sync_begin d i") (simp_all add: syncPayoutStatus_def sound_refl sound_sync_end [OF _ sync_begin_row])

lemma reconcile_sound:
  "payouts_good d \<Longrightarrow> sound d (fst (reconcile_loop fetch now is (d, w)))"
proof (induction "is" arbitrary: d w)
  case (Cons i "is")
  obtain d1 res where s: "syncPayoutStatus fetch d i now = (d1, res)"
    by (cases "syncPayoutStatus fetch d i now")
  have "sound d d1" using sound_sync [OF Cons.prems, of fetch i now] s by simp
  with Cons.IH [OF sound_good [OF this]] show ?case
    by (auto simp: s split: sum.splits intro: sound_trans)
qed (simp add: sound_refl)

lemma reconcile_counts:
  "sw_swept (snd (reconcile_loop fetch now is (d, w))) = sw_swept w"
  "sw_transitioned (snd (reconcile_loop fetch now is (d, w))) + sw_errors (snd (reconcile_loop fetch now is (d, w)))
     \<le> sw_transitioned w + sw_errors w + length is"
proof (induction "is" arbitrary: d w)
  case (Cons i "is")
  {
    case 1
    show ?case using Cons(1) by (simp split: prod.splits sum.splits)
  next
    case 2
    obtain d1 res where s: "syncPayoutStatus fetch d i now = (d1, res)"
      by (cases "syncPayoutStatus fetch d i now")
    have "sw_transitioned (snd (reconcile_loop fetch now is (d1, v))) + sw_errors (snd (reconcile_loop fetch now is (d1, v)))
        \<le> Suc (sw_transitioned w + sw_errors w + length is)"
      if "sw_transitioned v + sw_errors v \<le> Suc (sw_transitioned w + sw_errors w)" for v
      using Cons(2) [of d1 v] that by linarith
    then show ?case by (simp add: s split: sum.splits)
  }
qed simp_all

section \<open>What payouts promise\<close>

definition demo_payout :: payout_row where
  "demo_payout =
     \<lparr>po_id = ''p1'', po_provider = 7, po_amount_usd = 50, po_amount_sar = 187.5, po_amount = 18750,
      po_status = PPending, po_requested_at = 0, po_processed_at = None, po_payment_ref = None,
      po_moyasar_id = None, po_moyasar_status = None, po_failure_reason = None\<rparr>"

definition demo_paying :: db where
  "demo_paying = demo_db\<lparr>providers := [demo_provider\<lparr>pv_claimable := 40000, pv_iban := Some ''SA1'', pv_holder := Some ''N''\<rparr>],
     payouts := [demo_payout]\<rparr>"

lemma demo_paying_good [simp]: "payouts_good demo_paying"
  by (simp add: payouts_good_def demo_paying_def provider_by_id_def sql_get_def has_key_def demo_payout_def demo_provider_def)

text \<open>
  A provider's money is always in exactly one place. Whatever sequence of requests,
  approvals, rejections, sends to Moyasar and replies from it occurs, in any interleaving of
  their synchronous parts, claimable balance plus open and paid payouts of the provider stays
  the same: nothing is paid from nowhere and no rejection refunds twice.
\<close>

theorem payouts_conserve:
  assumes "payouts_good d"
  shows "claimable_of (foldl payout_run d es) p + held (foldl payout_run d es) p = claimable_of d p + held d p"
  using payout_books.amount_kept [OF assms, of es p] by (simp add: entitlement_def)

theorem payouts_conserve_witness:
  "claimable_of (foldl payout_run demo_paying [EvProcBegin ''p1'' 1, EvReject ''p1'' None 2,
      EvSyncEnd ''p1'' (Some \<lparr>gr_id = ''m'', gr_status = ''failed'', gr_sequence = None, gr_failure = None, gr_message = None\<rparr>) 3]) 7
   + held (foldl payout_run demo_paying [EvProcBegin ''p1'' 1, EvReject ''p1'' None 2,
      EvSyncEnd ''p1'' (Some \<lparr>gr_id = ''m'', gr_status = ''failed'', gr_sequence = None, gr_failure = None, gr_message = None\<rparr>) 3]) 7
   = 58750"
  by (subst payouts_conserve [OF demo_paying_good])
     (simp add: claimable_of_def provider_by_id_def sql_get_def held_def weight_def demo_paying_def
        demo_provider_def demo_payout_def)

text \<open>
  Paid and rejected are final. Once a payout has either status, no later operation and no
  late reply from Moyasar changes it, in whatever order they arrive.
\<close>

theorem payout_status_final:
  assumes "payouts_good d" and "payout_status_of d i = Some st" and "st = PPaid \<or> st = PRejected"
  shows "payout_status_of (foldl payout_run d es) i = Some st"
  using payout_life.final_forever [OF assms(1,2), of es] assms(3) by (simp add: final_payout_def)

theorem payout_status_final_witness:
  "payout_status_of (foldl payout_run (payout_run demo_paying (EvMarkPaid ''p1'' None 1))
     [EvReject ''p1'' None 2, EvProcEnd ''p1'' None]) ''p1'' = Some PPaid"
proof -
  have "payouts_good (payout_run demo_paying (EvMarkPaid ''p1'' None 1))"
    by (rule sound_good [OF payout_step]) simp
  moreover have "payout_status_of (payout_run demo_paying (EvMarkPaid ''p1'' None 1)) ''p1'' = Some PPaid"
    by (simp add: markPayoutPaid_def payout_by_id_def payout_status_of_def sql_get_def demo_paying_def
        demo_payout_def update_payout_def Let_def)
  ultimately show ?thesis by (rule payout_status_final) simp
qed

text \<open>
  The reconciliation sweep keeps the books too: whatever Moyasar answers for each row, no
  provider gains or loses, final payouts keep their status, and the transitions and errors it
  reports never exceed the rows it swept.
\<close>

theorem reconcile_sweep_safe:
  assumes "payouts_good d"
  shows "entitlement (fst (reconcileProcessingPayouts fetch d age limit now)) p = entitlement d p
    \<and> (\<forall>i st. payout_status_of d i = Some st \<and> final_payout st \<longrightarrow>
          payout_status_of (fst (reconcileProcessingPayouts fetch d age limit now)) i = Some st)
    \<and> sw_transitioned (snd (reconcileProcessingPayouts fetch d age limit now))
        + sw_errors (snd (reconcileProcessingPayouts fetch d age limit now))
      \<le> sw_swept (snd (reconcileProcessingPayouts fetch d age limit now))"
proof -
  let ?ids = "stuck_payouts d age limit now"
  let ?w = "\<lparr>sw_swept = length ?ids, sw_transitioned = 0, sw_errors = 0\<rparr>"
  show ?thesis unfolding reconcileProcessingPayouts_def Let_def
    using reconcile_sound [OF assms, of fetch now ?ids ?w] reconcile_counts [of fetch now ?ids d ?w]
    by (simp add: sound_def)
qed

theorem reconcile_sweep_safe_witness:
  "entitlement (fst (reconcileProcessingPayouts (\<lambda>_. None) demo_paying 15 50 1000000)) 7 = entitlement demo_paying 7"
  using reconcile_sweep_safe [OF demo_paying_good] by blast

lemma live_provider_add:
  "live_provider (add_claimable p a d) p = map_option (\<lambda>r. r\<lparr>pv_claimable := pv_claimable r + a\<rparr>) (live_provider d p)"
proof -
  have "live_provider (add_claimable p a d) p =
      map_option (\<lambda>r. if pv_id r = p then r\<lparr>pv_claimable := pv_claimable r + a\<rparr> else r) (live_provider d p)"
    by (simp add: live_provider_def add_claimable_def sql_get_update)
  moreover have "pv_id r = p" if "live_provider d p = Some r" for r
    using sql_get_Some [OF that [unfolded live_provider_def]] by simp
  ultimately show ?thesis by (cases "live_provider d p") simp_all
qed

lemma live_provider_payouts [simp]: "live_provider (d\<lparr>payouts := x\<rparr>) p = live_provider d p"
  by (simp add: live_provider_def)

lemma request_ok_cases:
  assumes "requestPayout d p usd uuid now = (d', Inr row)"
  obtains u pv where "usd = Some u" "live_provider d p = Some pv"
    "usd_halala u \<le> max 0 (pv_claimable pv - pendingHoldsHalala d p)"
    "row = new_payout p u uuid now"
    "d' = (add_claimable p (- usd_halala u) d)\<lparr>payouts := sql_insert row (payouts d)\<rparr>"
  using assms by (auto simp: requestPayout_def Let_def not_less split: option.splits if_splits)

text \<open>
  An accepted request reserves its amount twice. It takes the amount off the claimable
  balance and also enters the pending holds, which the available balance subtracts again, so
  what the provider sees as available falls by twice what was requested, or to zero.
\<close>

theorem hold_counted_twice:
  assumes "requestPayout d p usd uuid now = (d', Inr row)"
  shows "\<exists>pv v. live_provider d p = Some pv \<and> getEarningsSummary d' p = Some v
     \<and> po_amount row \<le> max 0 (pv_claimable pv - pendingHoldsHalala d p)
     \<and> ev_available v = max 0 (pv_claimable pv - pendingHoldsHalala d p - 2 * po_amount row)"
proof -
  obtain u pv where c: "usd = Some u" "live_provider d p = Some pv"
    "usd_halala u \<le> max 0 (pv_claimable pv - pendingHoldsHalala d p)" "row = new_payout p u uuid now"
    "d' = (add_claimable p (- usd_halala u) d)\<lparr>payouts := sql_insert row (payouts d)\<rparr>"
    by (rule request_ok_cases [OF assms])
  have amt: "po_amount row = usd_halala u" by (simp add: c(4) new_payout_def)
  have "pendingHoldsHalala d' p = pendingHoldsHalala d p + po_amount row"
    by (simp add: c(4,5) pendingHoldsHalala_def sql_sum_def sql_insert_def open_payout_def new_payout_def)
  then show ?thesis using c(2,3) amt
    by (simp add: c(5) getEarningsSummary_def live_provider_add Let_def)
qed

theorem hold_counted_twice_witness:
  "\<exists>d' row v. requestPayout (demo_paying\<lparr>payouts := []\<rparr>) 7 (Some 50) ''p2'' 9 = (d', Inr row)
     \<and> po_amount row = 18750 \<and> getEarningsSummary d' 7 = Some v \<and> ev_available v = 2500"
proof -
  let ?d = "demo_paying\<lparr>payouts := []\<rparr>"
  have h: "usd_halala 50 = 18750" by code_simp
  have l: "live_provider ?d 7 = Some (demo_provider\<lparr>pv_claimable := 40000, pv_iban := Some ''SA1'', pv_holder := Some ''N''\<rparr>)"
    by (simp add: live_provider_def sql_get_def demo_paying_def demo_provider_def)
  have pe: "pendingHoldsHalala ?d 7 = 0" by (simp add: pendingHoldsHalala_def sql_sum_def)
  have ok: "requestPayout ?d 7 (Some 50) ''p2'' 9 =
      ((add_claimable 7 (- 18750) ?d)\<lparr>payouts := [new_payout 7 50 ''p2'' 9]\<rparr>, Inr (new_payout 7 50 ''p2'' 9))"
    unfolding requestPayout_def Let_def option.case l pe h MIN_PAYOUT_USD_def
    by (simp add: sql_insert_def demo_provider_def)
  have "po_amount (new_payout 7 50 ''p2'' 9) = 18750" by (simp add: new_payout_def h)
  with ok hold_counted_twice [OF ok] l pe show ?thesis by auto
qed

text \<open>
  A payout that Moyasar has accepted can still be rejected: the amount goes back to the
  claimable balance, and when Moyasar then reports the transfer as paid, the row stays
  rejected, so the provider keeps both the transfer and the refund.
\<close>

theorem rejected_after_send:
  assumes "payouts_good d" and "payout_by_id d i = Some r" and "po_status r = PProcessing"
    and "isTerminalSuccess (gr_status g)"
  shows "claimable_of (payout_run d (EvReject i reason now)) (po_provider r) = claimable_of d (po_provider r) + po_amount r
    \<and> payout_status_of (payout_run (payout_run d (EvReject i reason now)) (EvSyncEnd i (Some g) later)) i = Some PRejected"
proof -
  have pv: "provider_by_id d (po_provider r) \<noteq> None"
    using assms(1) payout_by_id_in [OF assms(2)] by (simp add: payouts_good_def)
  have key: "has_key po_id (payouts d)" using assms(1) by (simp add: payouts_good_def)
  let ?d1 = "payout_run d (EvReject i reason now)"
  have "claimable_of ?d1 (po_provider r) = claimable_of d (po_provider r) + po_amount r"
    using assms(2,3) pv by (simp add: rejectPayout_def open_payout_def Let_def update_payout_def claimable_of_add)
  moreover have "payout_status_of ?d1 i = Some PRejected"
    using assms(2,3) payout_by_id_in [OF assms(2)]
    by (simp add: rejectPayout_def open_payout_def Let_def update_payout_def payout_status_of_def
        add_claimable_def payout_by_id_def sql_get_update)
  then have "payout_status_of (foldl payout_run ?d1 [EvSyncEnd i (Some g) later]) i = Some PRejected"
    by (rule payout_life.final_forever [OF sound_good [OF payout_step [OF assms(1)]]]) (simp add: final_payout_def)
  ultimately show ?thesis by simp
qed

theorem rejected_after_send_witness:
  "claimable_of (payout_run (payout_run demo_paying (EvProcBegin ''p1'' 1)) (EvReject ''p1'' None 2)) 7 = 58750"
proof -
  let ?d = "payout_run demo_paying (EvProcBegin ''p1'' 1)"
  let ?g = "\<lparr>gr_id = ''m'', gr_status = ''paid'', gr_sequence = None, gr_failure = None, gr_message = None\<rparr>"
  have g: "payouts_good ?d" by (rule sound_good [OF payout_step]) simp
  have e: "payout_by_id ?d ''p1'' = Some (demo_payout\<lparr>po_status := PProcessing, po_processed_at := Some 1\<rparr>)"
    "claimable_of ?d 7 = 40000"
    by (simp_all add: process_begin_def payout_by_id_def sql_get_def demo_paying_def demo_payout_def
        provider_by_id_def demo_provider_def sql_changes_def Let_def claimable_of_def)
  show ?thesis
    using rejected_after_send [OF g e(1), of ?g None 2 0] e(2) by (simp add: isTerminalSuccess_def demo_payout_def)
qed
end
