(* ===== verification/DaemonResults.thy ===== *)
theory DaemonResults
  imports JobRoutes
begin

text \<open>
  How a daemon is paid in \<open>backend/src/routes/providers.js\<close>: \<open>POST /job-result\<close>, which settles a running
  job against the wall clock, and \<open>POST /:id/jobs/:jobId/complete\<close>, which writes a billing record. The
  provider of the API key is an argument. Attempt logs and notifications are left out.
\<close>

section \<open>State\<close>

record billing_record =
  br_id :: string
  br_job :: string
  br_renter :: "int option"
  br_provider :: int
  br_model :: "string option"
  br_tokens :: int
  br_duration_ms :: int
  br_gross :: int
  br_fee :: int
  br_earning :: int
  br_status :: string
  br_created_at :: int

record result_state =
  rs_db :: db
  rs_records :: "billing_record list"
  rs_rates :: "(string \<times> int) list"   \<comment> \<open>\<open>cost_rates\<close>: model and token rate\<close>

definition normalizeString :: "nat \<Rightarrow> string option \<Rightarrow> string option" where
  "normalizeString n v = (case v of None \<Rightarrow> None
     | Some s \<Rightarrow> let t = strip s in if t = [] then None else Some (take n t))"

definition provider_job :: "db \<Rightarrow> string \<Rightarrow> int \<Rightarrow> job_row option" where
  "provider_job d job p = sql_get (\<lambda>j. jb_job_id j = job \<and> jb_provider j = Some p) (jobs d)"

section \<open>The price of a report\<close>

definition type_rate :: "string \<Rightarrow> int" where
  \<comment> \<open>\<open>COST_RATES[job_type] || COST_RATES['default']\<close>\<close>
  "type_rate t = or_default (map_of JOB_TYPE_RATES t) 6"

definition number_or_null :: "rat option \<Rightarrow> js_num" where
  \<comment> \<open>\<open>Number(v)\<close> of a nullable column: NULL is 0\<close>
  "number_or_null v = Some (case v of None \<Rightarrow> 0 | Some r \<Rightarrow> r)"

definition gpu_second_rate :: "provider_row \<Rightarrow> string \<Rightarrow> rat" where
  "gpu_second_rate p t =
     (case toFiniteNumber (number_or_null (pv_rate p)) 0 None of Some r \<Rightarrow> r
      | None \<Rightarrow> fl_div (of_int (type_rate t)) 60)"

definition report_elapsed :: "job_row \<Rightarrow> int \<Rightarrow> rat" where
  "report_elapsed j now =
     (case coalesce (jb_started_at j) (jb_submitted_at j) of
        Some t \<Rightarrow> max 0 (fl_div (of_int (now - t)) 1000)
      | None \<Rightarrow> max 0 (of_int (or0 (jb_duration_minutes j) * 60)))"

definition report_minutes :: "job_row \<Rightarrow> int \<Rightarrow> int" where
  "report_minutes j now =
     (case coalesce (jb_started_at j) (jb_submitted_at j) of
        Some t \<Rightarrow> \<lceil>fl_div (of_int (now - t)) 60000\<rceil> | None \<Rightarrow> or0 (jb_duration_minutes j))"

record daemon_report =
  dm_success :: bool
  dm_result :: string
  dm_error :: "string option"
  dm_last_error :: "string option"
  dm_gpu_count :: js_num
  dm_gpu_seconds :: js_num

definition report_gpus :: "provider_row \<Rightarrow> daemon_report \<Rightarrow> int" where
  "report_gpus p r =
     min (or_default (toFiniteInt (dm_gpu_count r) 1 (Some 64)) 1)
         (or_default (toFiniteInt (Some (of_int (or0 (pv_gpu_count p)))) 1 (Some 64)) 1)"

definition millis :: "rat \<Rightarrow> rat" where
  \<comment> \<open>\<open>Math.round(x * 1000) / 1000\<close>\<close>
  "millis x = fl_div (of_int (js_round (fl_mul x 1000))) 1000"

definition billed_seconds :: "provider_row \<Rightarrow> job_row \<Rightarrow> daemon_report \<Rightarrow> int \<Rightarrow> rat" where
  "billed_seconds p j r now =
     (let full = fl_mul (report_elapsed j now) (of_int (report_gpus p r)) in
      case toFiniteNumber (dm_gpu_seconds r) 0 None of
        Some s \<Rightarrow> min s (millis (fl_mul full (fl 1.05)))
      | None \<Rightarrow> millis full)"

definition report_cost :: "provider_row \<Rightarrow> job_row \<Rightarrow> daemon_report \<Rightarrow> int \<Rightarrow> int" where
  "report_cost p j r now =
     (let cost = max 0 (js_round (fl_mul (billed_seconds p j r now) (gpu_second_rate p (jb_type j))));
          quote = max 0 (or0 (jb_cost j))
      in if jb_type j = ''interactive_pod'' \<and> quote > 0 then min cost quote else cost)"

definition earned_share :: "int \<Rightarrow> int" where
  "earned_share cost = \<lfloor>fl_mul (of_int cost) (3 / 4)\<rfloor>"

section \<open>Reporting a result\<close>

definition v1_owned :: "job_row \<Rightarrow> bool" where
  "v1_owned j = (jb_notes j = Some ''v1:chat/completions'')"

definition finish_provider :: "bool \<Rightarrow> int \<Rightarrow> int \<Rightarrow> db \<Rightarrow> db" where
  "finish_provider paid p earned d =
     d\<lparr>providers := sql_update (\<lambda>r. pv_id r = p)
         (\<lambda>r. if paid then r\<lparr>pv_total_earnings := fl_add (pv_total_earnings r) (fl_div (of_int earned) 100),
                             pv_claimable := pv_claimable r + earned, pv_total_jobs := pv_total_jobs r + 1,
                             pv_current_job := None\<rparr>
              else r\<lparr>pv_current_job := None\<rparr>) (providers d)\<rparr>"

definition true_up :: "int option \<Rightarrow> int \<Rightarrow> int \<Rightarrow> db \<Rightarrow> db" where
  \<comment> \<open>the difference of quote and cost, of either sign, and the counters\<close>
  "true_up i delta spent d =
     d\<lparr>renters := sql_update (\<lambda>r. Some (rn_id r) = i)
         (\<lambda>r. r\<lparr>rn_balance := rn_balance r + delta, rn_total_spent := rn_total_spent r + spent,
                rn_total_jobs := rn_total_jobs r + 1\<rparr>) (renters d)\<rparr>"

definition has_renter :: "job_row \<Rightarrow> bool" where
  "has_renter j = (jb_renter j \<noteq> None \<and> jb_renter j \<noteq> Some 0)"

definition settle_report_renter :: "bool \<Rightarrow> job_row \<Rightarrow> int \<Rightarrow> int \<Rightarrow> db \<Rightarrow> db" where
  "settle_report_renter ok j cost now d =
     (if \<not> has_renter j \<or> v1_owned j then d
      else if ok then true_up (jb_renter j) (or0 (jb_cost j) - cost) cost d
      else if or0 (jb_cost j) > 0 \<and> jb_refunded_at j = None then refund_job j now d
      else d)"

datatype report_answer = UnknownJob | AlreadySettledAs job_status | Reported job_status int int int

definition report_row :: "daemon_report \<Rightarrow> int \<Rightarrow> int \<Rightarrow> job_row \<Rightarrow> job_row \<Rightarrow> job_row" where
  "report_row r cost now j x =
     (let err = coalesce (normalizeString 1000 (dm_last_error r)) (normalizeString 1000 (dm_error r)) in
      x\<lparr>jb_status := (if dm_success r then JCompleted else JFailed), jb_result := Some (dm_result r), jb_error := err,
        jb_completed_at := Some now, jb_actual_minutes := Some (report_minutes j now),
        jb_duration_seconds := Some (js_round (report_elapsed j now)), jb_actual_cost := Some cost,
        jb_earned := Some (earned_share cost), jb_fee := Some (cost - earned_share cost), jb_last_error := err\<rparr>)"

definition report_writes :: "provider_row \<Rightarrow> job_row \<Rightarrow> daemon_report \<Rightarrow> int \<Rightarrow> int \<Rightarrow> db \<Rightarrow> db" where
  "report_writes p j r cost now d =
     (let d1 = set_job (\<lambda>x. jb_id x = jb_id j) (report_row r cost now j) d;
          d2 = finish_provider (dm_success r \<and> \<not> v1_owned j) (pv_id p) (earned_share cost) d1;
          d3 = release_escrow (jb_job_id j) (if dm_success r then EReleasedProvider else EReleasedRenter) now d2
      in settle_report_renter (dm_success r) j cost now d3)"

definition jobResult :: "provider_row \<Rightarrow> string \<Rightarrow> daemon_report \<Rightarrow> int \<Rightarrow> db \<Rightarrow> db \<times> report_answer" where
  "jobResult p job r now d =
     (case provider_job d job (pv_id p) of None \<Rightarrow> (d, UnknownJob)
      | Some j \<Rightarrow>
        if jb_status j \<noteq> JRunning then (d, AlreadySettledAs (jb_status j))
        else let cost = report_cost p j r now; earned = earned_share cost in
             (report_writes p j r cost now d,
              Reported (if dm_success r then JCompleted else JFailed) cost earned (cost - earned)))"

section \<open>Billing a job\<close>

record attestation =
  at_required :: bool
  at_given :: bool                  \<comment> \<open>data and signature are in the body\<close>
  at_wallet :: bool                 \<comment> \<open>the provider has an EVM wallet\<close>
  at_verified :: "bool option"      \<comment> \<open>the verifier's answer, \<open>None\<close> when it cannot be loaded\<close>

record completion =
  co_tokens :: js_num
  co_duration_ms :: js_num
  co_model :: "string option"
  co_attestation :: attestation
  co_record :: string

datatype completion_answer =
  CompletionJobNotFound | AlreadyBilled "billing_record option" | AttestationInvalid | AttestationUnavailable
| AttestationMissing | RecordExists | Billed billing_record

definition gross_cost :: "result_state \<Rightarrow> provider_row \<Rightarrow> job_row \<Rightarrow> string option \<Rightarrow> int \<Rightarrow> int \<Rightarrow> int" where
  "gross_cost s p j model tokens ms =
     (if or0 (jb_actual_cost j) > 0 then or0 (jb_actual_cost j)
      else if tokens > 0 then tokens * (case map_of (rs_rates s) (case model of None \<Rightarrow> [] | Some m \<Rightarrow> m) of None \<Rightarrow> 1 | Some k \<Rightarrow> k)
      else if ms > 0 then max 0 (js_round (fl_mul (fl_div (of_int ms) 1000) (gpu_second_rate p (jb_type j))))
      else 0)"

definition PLATFORM_FEE_RATE :: rat where "PLATFORM_FEE_RATE = fl 0.15"

definition platform_fee :: "int \<Rightarrow> int" where
  "platform_fee gross = js_round (fl_mul (of_int gross) PLATFORM_FEE_RATE)"

definition bill_claim :: "int \<Rightarrow> int \<Rightarrow> db \<Rightarrow> db" where
  "bill_claim p earned d =
     d\<lparr>providers := sql_update (\<lambda>r. pv_id r = p) (\<lambda>r. r\<lparr>pv_claimable := pv_claimable r + earned\<rparr>) (providers d)\<rparr>"

definition attestation_gate :: "attestation \<Rightarrow> completion_answer + bool" where
  "attestation_gate a =
     (if at_given a \<and> at_wallet a
      then (case at_verified a of
              Some ok \<Rightarrow> if \<not> ok \<and> at_required a then Inl AttestationInvalid else Inr ok
            | None \<Rightarrow> if at_required a then Inl AttestationUnavailable else Inr False)
      else if at_required a \<and> \<not> at_given a then Inl AttestationMissing else Inr False)"

definition completion_record :: "result_state \<Rightarrow> provider_row \<Rightarrow> job_row \<Rightarrow> completion \<Rightarrow> int \<Rightarrow> billing_record" where
  "completion_record s p j c now =
     (let tokens = or0 (toFiniteInt (co_tokens c) 0 None); ms = or0 (toFiniteInt (co_duration_ms c) 0 None);
          model = coalesce (normalizeString 200 (co_model c)) (if jb_model j = [] then None else Some (jb_model j));
          gross = gross_cost s p j model tokens ms; fee = platform_fee gross
      in \<lparr>br_id = co_record c, br_job = jb_job_id j, br_renter = (if has_renter j then jb_renter j else None),
           br_provider = pv_id p, br_model = model, br_tokens = tokens, br_duration_ms = ms, br_gross = gross,
           br_fee = fee, br_earning = gross - fee, br_status = ''pending_release'', br_created_at = now\<rparr>)"

definition billed_row :: "bool \<Rightarrow> int \<Rightarrow> job_row \<Rightarrow> job_row" where
  "billed_row valid now x =
     x\<lparr>jb_lifecycle := Some ''billed'', jb_attestation := Some (if valid then ''signed'' else ''pending''), jb_updated_at := Some now\<rparr>"

definition bill_writes :: "provider_row \<Rightarrow> job_row \<Rightarrow> billing_record \<Rightarrow> bool \<Rightarrow> int \<Rightarrow> result_state \<Rightarrow> result_state" where
  "bill_writes p j b valid now s =
     (let d = set_job (\<lambda>x. jb_job_id x = jb_job_id j) (billed_row valid now) (rs_db s)
      in s\<lparr>rs_db := (if or0 (jb_actual_cost j) > 0 then d else bill_claim (pv_id p) (br_earning b) d),
           rs_records := sql_insert b (rs_records s)\<rparr>)"

definition completeJobBilling :: "provider_row \<Rightarrow> string \<Rightarrow> completion \<Rightarrow> int \<Rightarrow> result_state \<Rightarrow> result_state \<times> completion_answer" where
  "completeJobBilling p job c now s =
     (case provider_job (rs_db s) job (pv_id p) of None \<Rightarrow> (s, CompletionJobNotFound)
      | Some j \<Rightarrow>
        if jb_lifecycle j = Some ''billed'' then (s, AlreadyBilled (sql_get (\<lambda>r. br_job r = job) (rs_records s)))
        else (case attestation_gate (co_attestation c) of Inl e \<Rightarrow> (s, e)
              | Inr valid \<Rightarrow>
                let b = completion_record s p j c now in
                if job \<in> set (map br_job (rs_records s)) then (s, RecordExists)
                else (bill_writes p j b valid now s, Billed b)))"

section \<open>What each write does\<close>

lemma provider_job_Some: "provider_job d job p = Some j \<Longrightarrow> j \<in> set (jobs d) \<and> jb_job_id j = job \<and> jb_provider j = Some p"
  unfolding provider_job_def by (auto dest: sql_get_Some)

lemma claimable_rows:
  assumes "p \<in> pv_id ` set (providers d)" "providers d' = sql_update (\<lambda>r. pv_id r = p) f (providers d)"
    "\<And>r. pv_id (f r) = pv_id r" "\<And>r. pv_claimable (f r) = pv_claimable r + e"
  shows "claimable_of d' k = claimable_of d k + (if k = p then e else 0)"
proof -
  have "provider_by_id d' k = map_option (\<lambda>r. if pv_id r = p then f r else r) (provider_by_id d k)"
    unfolding provider_by_id_def by (simp add: assms(2)) (subst sql_get_update; simp add: assms(3))
  moreover have "provider_by_id d p \<noteq> None" using assms(1) by (auto simp: provider_by_id_def sql_get_None)
  moreover have "provider_by_id d k = Some r \<Longrightarrow> pv_id r = k" for r unfolding provider_by_id_def by (auto dest: sql_get_Some)
  ultimately show ?thesis using assms(4) by (cases "provider_by_id d k") (auto simp: claimable_of_def)
qed

lemma claimable_finish:
  "p \<in> pv_id ` set (providers d) \<Longrightarrow> claimable_of (finish_provider paid p e d) k = claimable_of d k + (if paid \<and> k = p then e else 0)"
  by (cases paid) (simp_all add: claimable_rows [of p d, where e = e] claimable_rows [of p d, where e = 0] finish_provider_def)

lemma balance_true_up:
  assumes "n \<in> rn_id ` set (renters d)"
  shows "balance_of (true_up (Some n) delta spent d) k = balance_of d k + (if k = n then delta else 0)"
proof -
  have "balance_of (true_up (Some n) delta spent d) k = (case renter_by_id d k of None \<Rightarrow> 0 | Some r \<Rightarrow> rn_balance (if Some (rn_id r) = Some n
      then r\<lparr>rn_balance := rn_balance r + delta, rn_total_spent := rn_total_spent r + spent, rn_total_jobs := rn_total_jobs r + 1\<rparr> else r))"
    by (rule balance_update_rows) (simp_all add: true_up_def)
  moreover have "renter_by_id d n \<noteq> None" using assms by (auto simp: renter_by_id_def sql_get_None)
  moreover have "renter_by_id d k = Some r \<Longrightarrow> rn_id r = k" for r unfolding renter_by_id_def by (auto dest: sql_get_Some)
  ultimately show ?thesis by (cases "renter_by_id d k") (auto simp: balance_of_def)
qed

lemma daemon_frames [simp]:
  "balance_of (finish_provider paid p e d) k = balance_of d k" "renters (finish_provider paid p e d) = renters d"
  "claimable_of (true_up i a b d) k = claimable_of d k" "balance_of (set_job P f d) k = balance_of d k"
  "renters (set_job P f d) = renters d" "providers (set_job P f d) = providers d"
  "renters (release_escrow j st now d) = renters d"
  "balance_of (bill_claim p e d) k = balance_of d k" "jobs (bill_claim p e d) = jobs d"
  by (simp_all add: balance_of_def claimable_of_def renter_by_id_def provider_by_id_def finish_provider_def
      true_up_def set_job_def release_escrow_def bill_claim_def)

lemma earned_share_bounds:
  assumes "0 \<le> c" "c \<le> 2 ^ 53"
  shows "0 \<le> earned_share c" "earned_share c \<le> c"
proof -
  have "0 \<le> fl ((of_int c :: rat) * (3 / 4))" using assms(1) by (intro fl_nonneg) simp
  then show "0 \<le> earned_share c" by (simp add: earned_share_def fl_mul_def)
  have "fl ((of_int c :: rat) * (3 / 4)) \<le> fl (of_int c)" using assms(1) by (intro fl_mono) simp_all
  then have "fl ((of_int c :: rat) * (3 / 4)) \<le> of_int c" using assms by (simp add: fl_of_int)
  then show "earned_share c \<le> c" by (simp add: earned_share_def fl_mul_def floor_le_iff)
qed

lemma report_cost_nonneg: "0 \<le> report_cost p j r now"
  by (simp add: report_cost_def Let_def)

lemma js_round_mono: "x \<le> y \<Longrightarrow> js_round x \<le> js_round y"
  by (simp add: js_round_def floor_mono)

text \<open>Whatever is reported, the bill is that of the wall clock with five per cent of tolerance.\<close>

definition wall_clock_cap :: "provider_row \<Rightarrow> job_row \<Rightarrow> daemon_report \<Rightarrow> int \<Rightarrow> rat" where
  "wall_clock_cap p j r now =
     (let full = fl_mul (report_elapsed j now) (of_int (report_gpus p r)) in max (millis full) (millis (fl_mul full (fl 1.05))))"

lemma billed_within: "billed_seconds p j r now \<le> wall_clock_cap p j r now"
  by (auto simp: billed_seconds_def wall_clock_cap_def Let_def split: option.splits)

lemma report_elapsed_nonneg: "0 \<le> report_elapsed j now"
  by (simp add: report_elapsed_def split: option.splits)

lemma number_nonneg: "toFiniteNumber v 0 hi = Some x \<Longrightarrow> 0 \<le> x"
  by (auto simp: toFiniteNumber_def split: option.splits if_splits)

lemma int_at_least: "toFiniteInt v 1 hi = Some n \<Longrightarrow> 1 \<le> n"
  by (auto simp: toFiniteInt_def toFiniteNumber_def split: option.splits if_splits)

lemma report_gpus_pos: "1 \<le> report_gpus p r"
proof -
  have "1 \<le> or_default (toFiniteInt v 1 (Some 64)) 1" for v
    using int_at_least [of v "Some 64"] by (cases "toFiniteInt v 1 (Some 64)") (auto simp: or_default_def)
  then show ?thesis by (simp add: report_gpus_def)
qed

lemma millis_nonneg: "0 \<le> x \<Longrightarrow> 0 \<le> millis x"
  by (simp add: millis_def fl_div_def fl_nonneg js_round_nonneg fl_mul_nonneg)

lemma billed_nonneg: "0 \<le> billed_seconds p j r now"
proof -
  have full: "0 \<le> fl_mul (report_elapsed j now) (of_int (report_gpus p r))"
    using report_gpus_pos [of p r] by (intro fl_mul_nonneg report_elapsed_nonneg) simp
  have "0 \<le> fl (1.05 :: rat)" by (rule fl_nonneg) simp
  then have "0 \<le> fl_mul (fl_mul (report_elapsed j now) (of_int (report_gpus p r))) (fl 1.05)" by (rule fl_mul_nonneg [OF full])
  then show ?thesis using full number_nonneg by (auto simp: billed_seconds_def Let_def millis_nonneg split: option.splits)
qed

lemma gpu_rate_nonneg: "0 \<le> gpu_second_rate p t"
proof -
  have "0 \<le> type_rate t"
    unfolding type_rate_def or_default_def
    by (auto simp: JOB_TYPE_RATES_def split: option.splits if_splits)
  then show ?thesis using number_nonneg by (auto simp: gpu_second_rate_def fl_div_def fl_nonneg split: option.splits)
qed

lemma report_cost_capped:
  "report_cost p j r now \<le> max 0 (js_round (fl_mul (wall_clock_cap p j r now) (gpu_second_rate p (jb_type j))))"
proof -
  have "fl_mul (billed_seconds p j r now) (gpu_second_rate p (jb_type j)) \<le> fl_mul (wall_clock_cap p j r now) (gpu_second_rate p (jb_type j))"
    unfolding fl_mul_def by (intro fl_mono mult_right_mono billed_within gpu_rate_nonneg mult_nonneg_nonneg billed_nonneg)
  from js_round_mono [OF this] show ?thesis by (auto simp: report_cost_def Let_def)
qed


section \<open>What a report pays\<close>

lemma jobResult_reported:
  assumes "jobResult p job r now d = (d', Reported st cost earned fee)" "provider_job d job (pv_id p) = Some j"
  shows "jb_status j = JRunning \<and> st = (if dm_success r then JCompleted else JFailed) \<and> cost = report_cost p j r now
    \<and> earned = earned_share cost \<and> fee = cost - earned \<and> d' = report_writes p j r cost now d"
  using assms by (auto simp: jobResult_def Let_def split: if_splits)

lemma report_writes_claimable:
  "pv_id p \<in> pv_id ` set (providers d) \<Longrightarrow>
   claimable_of (report_writes p j r cost now d) k
     = claimable_of d k + (if dm_success r \<and> \<not> v1_owned j \<and> k = pv_id p then earned_share cost else 0)"
  by (simp add: report_writes_def Let_def settle_report_renter_def claimable_finish)

lemma report_writes_balance:
  assumes "jb_renter j = Some n" "n \<noteq> 0" "n \<in> rn_id ` set (renters d)" "\<not> v1_owned j"
  shows "balance_of (report_writes p j r cost now d) k = balance_of d k + (if k \<noteq> n then 0
    else if dm_success r then or0 (jb_cost j) - cost
    else if 0 < or0 (jb_cost j) \<and> jb_refunded_at j = None then or0 (jb_cost j) else 0)"
  using assms by (simp add: report_writes_def Let_def settle_report_renter_def has_renter_def balance_true_up balance_refund)


text \<open>
  A provider without a rate of its own works for nothing. NULL in \<open>cost_per_gpu_second_halala\<close> is
  documented as the platform's default rate, but the guard reads it as 0: whatever the time spent, a
  successful report costs 0, the provider earns 0, and the renter gets the whole quote back.
\<close>

theorem unrated_reports_are_free:
  assumes "pv_rate p = None" "jobResult p job r now d = (d', Reported JCompleted cost earned fee)"
    and "provider_job d job (pv_id p) = Some j" "jb_renter j = Some n" "n \<noteq> 0" "n \<in> rn_id ` set (renters d)"
    and "pv_id p \<in> pv_id ` set (providers d)" "\<not> v1_owned j"
  shows "cost = 0 \<and> earned = 0 \<and> claimable_of d' (pv_id p) = claimable_of d (pv_id p)
    \<and> balance_of d' n = balance_of d n + or0 (jb_cost j)"
proof -
  have "gpu_second_rate p (jb_type j) = 0"
    by (simp add: gpu_second_rate_def number_or_null_def assms(1) toFiniteNumber_def)
  then have zero: "report_cost p j r now = 0" by (simp add: report_cost_def Let_def fl_mul_def js_round_def)
  note run = jobResult_reported [OF assms(2,3)]
  have "dm_success r" using run by (simp split: if_splits)
  moreover have "earned_share 0 = 0" by (simp add: earned_share_def fl_mul_def)
  ultimately show ?thesis
    using run zero assms(7) report_writes_balance [OF assms(4-6,8)] by (simp add: report_writes_claimable)
qed

section \<open>What a billed job pays\<close>

lemma completion_billed:
  assumes "completeJobBilling p job c now s = (s', Billed b)" "provider_job (rs_db s) job (pv_id p) = Some j"
  obtains valid where "b = completion_record s p j c now" "jb_lifecycle j \<noteq> Some ''billed''" "jb_job_id j = job"
    "job \<notin> br_job ` set (rs_records s)" "s' = bill_writes p j b valid now s"
proof (cases "attestation_gate (co_attestation c)")
  case (Inl e)
  then have "e = Billed b" using assms by (simp add: completeJobBilling_def split: if_splits)
  then show ?thesis using Inl by (auto simp: attestation_gate_def split: if_splits option.splits)
next
  case (Inr valid)
  show ?thesis
    using that [of valid] assms provider_job_Some [OF assms(2)] Inr by (auto simp: completeJobBilling_def Let_def split: if_splits)
qed

lemma completion_unbilled: "\<not> (\<exists>b. snd (completeJobBilling p job c now s) = Billed b) \<Longrightarrow> fst (completeJobBilling p job c now s) = s"
  by (auto simp: completeJobBilling_def Let_def split: option.splits sum.splits)

lemma completion_record_facts:
  "br_gross (completion_record s p j c now)
     = gross_cost s p j (br_model (completion_record s p j c now)) (br_tokens (completion_record s p j c now)) (br_duration_ms (completion_record s p j c now))"
  "br_fee (completion_record s p j c now) = platform_fee (br_gross (completion_record s p j c now))"
  "br_earning (completion_record s p j c now) = br_gross (completion_record s p j c now) - br_fee (completion_record s p j c now)"
  "br_tokens (completion_record s p j c now) = or0 (toFiniteInt (co_tokens c) 0 None)"
  "br_job (completion_record s p j c now) = jb_job_id j"
  by (simp_all add: completion_record_def Let_def)

lemma bill_writes_facts:
  "rs_records (bill_writes p j b v now s) = rs_records s @ [b]"
  "balance_of (rs_db (bill_writes p j b v now s)) n = balance_of (rs_db s) n"
  "0 < or0 (jb_actual_cost j) \<Longrightarrow> claimable_of (rs_db (bill_writes p j b v now s)) k = claimable_of (rs_db s) k"
  "jobs (rs_db (bill_writes p j b v now s)) = sql_update (\<lambda>x. jb_job_id x = jb_job_id j) (billed_row v now) (jobs (rs_db s))"
  by (simp_all add: bill_writes_def Let_def sql_insert_def set_job_def claimable_of_def provider_by_id_def)

lemma claimable_set_job: "claimable_of (set_job P f d) k = claimable_of d k"
  by (simp add: claimable_of_def provider_by_id_def)

lemma claimable_bill:
  "p \<in> pv_id ` set (providers d) \<Longrightarrow> claimable_of (bill_claim p e d) k = claimable_of d k + (if k = p then e else 0)"
  by (simp add: claimable_rows [of p d, where e = e] bill_claim_def)

text \<open>
  C28: A completion is priced at the settled cost where there is one, and otherwise at the tokens, or
  time, that the provider puts in the request. Fee and earning add up to that price. Without a settled cost the
  earning is added to what the provider may claim, whatever status the job has, and
  no renter pays for it: no balance moves.
\<close>

theorem completion_pays:
  assumes "completeJobBilling p job c now s = (s', Billed b)" "provider_job (rs_db s) job (pv_id p) = Some j"
    and "pv_id p \<in> pv_id ` set (providers (rs_db s))"
  shows "br_fee b + br_earning b = br_gross b \<and> br_fee b = platform_fee (br_gross b)
    \<and> (0 < or0 (jb_actual_cost j) \<longrightarrow> br_gross b = or0 (jb_actual_cost j) \<and> claimable_of (rs_db s') k = claimable_of (rs_db s) k)
    \<and> (\<not> 0 < or0 (jb_actual_cost j) \<longrightarrow>
         claimable_of (rs_db s') k = claimable_of (rs_db s) k + (if k = pv_id p then br_earning b else 0)
         \<and> (0 < br_tokens b \<and> map_of (rs_rates s) (case br_model b of None \<Rightarrow> [] | Some m \<Rightarrow> m) = None
            \<longrightarrow> br_gross b = or0 (toFiniteInt (co_tokens c) 0 None)))
    \<and> balance_of (rs_db s') n = balance_of (rs_db s) n"
proof -
  obtain v where b: "b = completion_record s p j c now" and s': "s' = bill_writes p j b v now s"
    by (rule completion_billed [OF assms(1,2)])
  have "\<not> 0 < or0 (jb_actual_cost j) \<Longrightarrow>
      claimable_of (rs_db s') k = claimable_of (rs_db s) k + (if k = pv_id p then br_earning b else 0)"
    using assms(3) by (simp add: s' bill_writes_def Let_def claimable_bill claimable_set_job)
  moreover have "0 < or0 (jb_actual_cost j) \<Longrightarrow> br_gross b = or0 (jb_actual_cost j)"
    using completion_record_facts(1) [of s p j c now] by (simp add: b gross_cost_def)
  moreover have "\<not> 0 < or0 (jb_actual_cost j) \<Longrightarrow> 0 < br_tokens b \<Longrightarrow>
      map_of (rs_rates s) (case br_model b of None \<Rightarrow> [] | Some m \<Rightarrow> m) = None \<Longrightarrow> br_gross b = br_tokens b"
    using completion_record_facts(1) [of s p j c now] by (simp add: b gross_cost_def)
  ultimately show ?thesis
    using completion_record_facts(2-4) [of s p j c now] by (simp add: s' b bill_writes_facts)
qed

section \<open>A job is billed once\<close>

type_synonym completion_call = "provider_row \<times> string \<times> completion \<times> int"

definition complete_step :: "result_state \<Rightarrow> completion_call \<Rightarrow> result_state" where
  "complete_step s a = (case a of (p, job, c, now) \<Rightarrow> fst (completeJobBilling p job c now s))"

definition billed_job :: "result_state \<Rightarrow> string \<Rightarrow> bool" where
  "billed_job s job = (\<forall>j \<in> set (jobs (rs_db s)). jb_job_id j = job \<longrightarrow> jb_lifecycle j = Some ''billed'')"

lemma complete_cases:
  obtains "complete_step s (p, job, c, now) = s"
  | b j where "completeJobBilling p job c now s = (complete_step s (p, job, c, now), Billed b)" "provider_job (rs_db s) job (pv_id p) = Some j"
proof (cases "\<exists>b. snd (completeJobBilling p job c now s) = Billed b")
  case True
  then obtain b where "completeJobBilling p job c now s = (complete_step s (p, job, c, now), Billed b)"
    by (auto simp: complete_step_def) (metis prod.collapse)
  moreover from this obtain j where "provider_job (rs_db s) job (pv_id p) = Some j"
    by (cases "provider_job (rs_db s) job (pv_id p)") (simp_all add: completeJobBilling_def)
  ultimately show ?thesis by (rule that(2))
next
  case False
  show ?thesis by (rule that(1)) (simp add: complete_step_def completion_unbilled [OF False])
qed

lemma billed_after:
  assumes "completeJobBilling p job c now s = (s', Billed b)" "provider_job (rs_db s) job (pv_id p) = Some j"
  shows "billed_job s' job" "billed_job s k \<Longrightarrow> billed_job s' k"
proof -
  obtain v where s': "s' = bill_writes p j b v now s" and j: "jb_job_id j = job" by (rule completion_billed [OF assms])
  have "jobs (rs_db s') = map (\<lambda>x. if jb_job_id x = job then billed_row v now x else x) (jobs (rs_db s))"
    by (simp add: s' bill_writes_facts sql_update_def j)
  moreover have "jb_lifecycle (billed_row v now x) = Some ''billed''" "jb_job_id (billed_row v now x) = jb_job_id x" for x
    by (simp_all add: billed_row_def)
  ultimately show "billed_job s' job" "billed_job s k \<Longrightarrow> billed_job s' k"
    by (auto simp: billed_job_def split: if_splits)
qed

interpretation billing_once: once_only complete_step "\<lambda>a. fst (snd a)" billed_job
proof (unfold_locales, goal_cases)
  case (1 s a)
  obtain p job c now where a: "a = (p, job, c, now)" by (cases a) auto
  have "fst (completeJobBilling p job c now s) = s"
  proof (cases "provider_job (rs_db s) job (pv_id p)")
    case None
    then show ?thesis by (simp add: completeJobBilling_def)
  next
    case (Some j)
    then have "jb_lifecycle j = Some ''billed''" using 1 provider_job_Some [OF Some] by (simp add: a billed_job_def)
    then show ?thesis using Some by (simp add: completeJobBilling_def)
  qed
  then show ?case by (simp add: a complete_step_def)
next
  case (2 s a)
  obtain p job c now where a: "a = (p, job, c, now)" by (cases a) auto
  show ?case unfolding a by (rule complete_cases [of s p job c now]) (auto dest: billed_after)
next
  case (3 s k a)
  obtain p job c now where a: "a = (p, job, c, now)" by (cases a) auto
  show ?case using 3 unfolding a by (rule_tac complete_cases [of s p job c now]) (auto dest: billed_after)
qed

lemma other_completions_keep:
  "fst (snd a) \<noteq> job \<Longrightarrow> filter (\<lambda>r. br_job r = job) (rs_records (complete_step s a)) = filter (\<lambda>r. br_job r = job) (rs_records s)"
proof -
  assume other: "fst (snd a) \<noteq> job"
  obtain p job' c now where a: "a = (p, job', c, now)" by (cases a) auto
  show ?thesis
  proof (rule complete_cases [of s p job' c now])
    fix b j assume "completeJobBilling p job' c now s = (complete_step s (p, job', c, now), Billed b)" "provider_job (rs_db s) job' (pv_id p) = Some j"
    then obtain v where "b = completion_record s p j c now" "jb_job_id j = job'" "complete_step s a = bill_writes p j b v now s"
      unfolding a by (rule completion_billed)
    then show ?thesis using other a completion_record_facts(5) [of s p j c now] by (simp add: bill_writes_facts)
  qed (simp add: a)
qed

lemma records_kept:
  "billed_job s job \<Longrightarrow>
   filter (\<lambda>r. br_job r = job) (rs_records (foldl complete_step s as)) = filter (\<lambda>r. br_job r = job) (rs_records s)"
proof (induction as arbitrary: s)
  case (Cons a as)
  show ?case
  proof (cases "fst (snd a) = job")
    case True
    then have "complete_step s a = s" using billing_once.skip [of s a] Cons.prems by simp
    then show ?thesis using Cons by simp
  next
    case False
    then show ?thesis using Cons.IH [OF billing_once.marked_mono [OF Cons.prems]] other_completions_keep [OF False] by simp
  qed
qed simp

text \<open>
  A job is billed once. After a completion that wrote a billing record, no sequence of completions, of
  this job or others, by any provider, writes a second record for it, and every later completion of the job changes
  nothing at all.
\<close>

theorem completion_bills_once:
  assumes "completeJobBilling p job c now s = (s', Billed b)" "provider_job (rs_db s) job (pv_id p) = Some j"
  shows "filter (\<lambda>r. br_job r = job) (rs_records (foldl complete_step s' as)) = [b]
    \<and> complete_step (foldl complete_step s' as) (q, job, c', now') = foldl complete_step s' as
    \<and> foldl complete_step s' as = foldl complete_step s' (filter (\<lambda>a. fst (snd a) \<noteq> job) as)"
proof -
  have m: "billed_job s' job" by (rule billed_after [OF assms])
  have "filter (\<lambda>r. br_job r = job) (rs_records s') = [b]"
  proof -
    obtain v where "b = completion_record s p j c now" "jb_job_id j = job" "job \<notin> br_job ` set (rs_records s)" "s' = bill_writes p j b v now s"
      by (rule completion_billed [OF assms])
    then show ?thesis
      using completion_record_facts(5) [of s p j c now] by (auto simp: bill_writes_facts filter_empty_conv image_iff)
  qed
  then show ?thesis
    using records_kept [OF m] billing_once.drop_marked [OF m] billing_once.replay_skipped [of s' "(q, job, c', now')" as] m by simp
qed

section \<open>Witnesses\<close>

definition demo_report :: daemon_report where
  "demo_report = \<lparr>dm_success = True, dm_result = ''ok'', dm_error = None, dm_last_error = None, dm_gpu_count = Some 8, dm_gpu_seconds = Some 1000000\<rparr>"

definition rated_provider :: provider_row where "rated_provider = demo_provider\<lparr>pv_rate := Some (1 / 2)\<rparr>"

lemma demo_report_run:
  "snd (jobResult rated_provider ''job-1'' demo_report 100000 demo_running) = Reported JCompleted 53 39 14"
  "snd (jobResult demo_provider ''job-1'' demo_report 100000 demo_running) = Reported JCompleted 0 0 0"
  by code_simp+

lemma demo_running_job: "provider_job demo_running ''job-1'' 7 = Some demo_run"
  by (simp add: provider_job_def demo_running_def sql_get_def demo_run_def)

lemma demo_running_accounts: "renters demo_running = [demo_renter]" "providers demo_running = [demo_provider]"
  by (simp_all add: demo_running_def)


theorem unrated_reports_are_free_witness:
  "\<exists>d'. jobResult demo_provider ''job-1'' demo_report 100000 demo_running = (d', Reported JCompleted 0 0 0)
     \<and> balance_of d' 1 = 1090"
proof -
  obtain d' where d': "jobResult demo_provider ''job-1'' demo_report 100000 demo_running = (d', Reported JCompleted 0 0 0)"
    using demo_report_run(2) by (metis prod.collapse)
  have "pv_rate demo_provider = None" "pv_id demo_provider = 7" by (simp_all add: demo_provider_def)
  moreover have "balance_of demo_running 1 = 1000"
    by (simp add: demo_running_def balance_of_def renter_by_id_def sql_get_def demo_renter_def)
  ultimately show ?thesis
    using unrated_reports_are_free [OF _ d', of demo_run 1] d' demo_running_job
    by (simp add: demo_running_accounts demo_run_def demo_renter_def demo_provider_def v1_owned_def demo_job_def blank_job_def)
qed

definition demo_completion :: completion where
  "demo_completion = \<lparr>co_tokens = Some 1000000, co_duration_ms = None, co_model = None,
     co_attestation = \<lparr>at_required = False, at_given = False, at_wallet = False, at_verified = None\<rparr>, co_record = ''rec-1''\<rparr>"

definition demo_results :: result_state where
  "demo_results = \<lparr>rs_db = demo_running, rs_records = [], rs_rates = []\<rparr>"

definition demo_record :: billing_record where
  "demo_record = completion_record demo_results demo_provider demo_run demo_completion 100000"

lemma demo_billing:
  "completeJobBilling demo_provider ''job-1'' demo_completion 100000 demo_results
     = (bill_writes demo_provider demo_run demo_record False 100000 demo_results, Billed demo_record)"
proof -
  have "pv_id demo_provider = 7" "jb_lifecycle demo_run = Some ''pending''"
    by (simp_all add: demo_provider_def demo_run_def demo_job_def blank_job_def)
  then show ?thesis
    using demo_running_job
    by (simp add: completeJobBilling_def demo_results_def attestation_gate_def demo_completion_def demo_record_def Let_def)
qed

lemma demo_record_run: "br_earning demo_record = 850000" "br_tokens demo_record = 1000000"
  by code_simp+

theorem completion_pays_witness:
  "\<exists>s'. completeJobBilling demo_provider ''job-1'' demo_completion 100000 demo_results = (s', Billed demo_record)
     \<and> claimable_of (rs_db s') 7 = 850000 \<and> (\<forall>n. balance_of (rs_db s') n = balance_of demo_running n)"
proof -
  have p: "pv_id demo_provider = 7" "jb_actual_cost demo_run = None"
    by (simp_all add: demo_provider_def demo_run_def demo_job_def blank_job_def)
  have "claimable_of demo_running 7 = 0"
    by (simp add: demo_running_def claimable_of_def provider_by_id_def sql_get_def demo_provider_def)
  moreover have "rs_db demo_results = demo_running" by (simp add: demo_results_def)
  ultimately show ?thesis
    using completion_pays [OF demo_billing, of demo_run 7] demo_running_job p demo_billing demo_record_run
    by (simp add: demo_running_accounts)
qed

theorem completion_bills_once_witness:
  "let s' = bill_writes demo_provider demo_run demo_record False 100000 demo_results;
       again = (demo_provider, ''job-1'', demo_completion, 200000)
   in rs_records (foldl complete_step s' [again, again]) = [demo_record]"
proof -
  let ?s = "bill_writes demo_provider demo_run demo_record False 100000 demo_results"
  let ?again = "(demo_provider, ''job-1'', demo_completion, 200000)"
  have j: "provider_job (rs_db demo_results) ''job-1'' (pv_id demo_provider) = Some demo_run"
    using demo_running_job by (simp add: demo_results_def demo_provider_def)
  have "foldl complete_step ?s [?again, ?again] = ?s"
    using completion_bills_once [OF demo_billing j, of "[?again, ?again]"] by simp
  moreover have "rs_records ?s = [demo_record]" by (simp add: bill_writes_facts demo_results_def)
  ultimately show ?thesis by (simp add: Let_def)
qed

end
