(* ===== verification/Withdrawals.thy ===== *)
theory Withdrawals
  imports Payouts DaemonResults
begin

text \<open>
  Withdrawals of provider earnings: \<open>POST /me/withdraw\<close> and the legacy \<open>POST /withdraw\<close> of
  \<open>backend/src/routes/providers.js\<close>, and the administrator's routes on both tables in
  \<open>routes/admin.js\<close>. The provider of the API key is an argument. Withdrawals and the payouts of
  \<open>Payouts\<close> are drawn from the same claimable balance, so the events of both are interleaved: no money is
  lost or paid twice by the first table, and the second does not draw on the balance at all.
\<close>

section \<open>Tables\<close>

datatype request_status = WPending | WProcessing | WPaid | WFailed

record withdrawal_request =
  wr_id :: string
  wr_provider :: int
  wr_amount :: int
  wr_reserved :: bool
  wr_status :: request_status
  wr_iban :: string
  wr_note :: "string option"
  wr_created :: int
  wr_processed :: "int option"
  wr_updated :: "int option"

record legacy_withdrawal =
  lw_id :: int
  lw_wid :: string
  lw_provider :: int
  lw_sar :: rat
  lw_method :: string
  lw_status :: string
  lw_requested :: int
  lw_processed :: "int option"
  lw_notes :: "string option"

record money_state =
  ms_db :: db
  ms_requests :: "withdrawal_request list"
  ms_legacy :: "legacy_withdrawal list"

definition open_request :: "withdrawal_request \<Rightarrow> bool" where
  "open_request r = (wr_status r = WPending \<or> wr_status r = WProcessing)"

section \<open>Requests\<close>

datatype withdraw_answer =
  WBadAmount | WBadIban | WAlreadyOpen | WExceeds int int int | WTaken | WRecorded withdrawal_request

definition iban_ok :: "string \<Rightarrow> bool" where
  \<comment> \<open>\<open>/^SA\d{22}$/i\<close>\<close>
  "iban_ok s = (length s = 24 \<and> map upper_ascii (take 2 s) = ''SA'' \<and> list_all is_digit (drop 2 s))"

definition request_refusal :: "provider_row \<Rightarrow> int \<Rightarrow> string \<Rightarrow> money_state \<Rightarrow> withdraw_answer option" where
  "request_refusal p a iban s =
     (let claimable = max 0 (pv_claimable p);
          pending = max 0 (sql_sum (\<lambda>r. wr_provider r = pv_id p \<and> open_request r) wr_amount (ms_requests s));
          available = max 0 (claimable - pending) in
      if \<not> iban_ok iban then Some WBadIban
      else if sql_get (\<lambda>r. wr_provider r = pv_id p \<and> open_request r) (ms_requests s) \<noteq> None
        \<or> sql_get (\<lambda>r. lw_provider r = pv_id p \<and> lw_status r \<in> {''pending'', ''processing''}) (ms_legacy s) \<noteq> None then Some WAlreadyOpen
      else if a > available then Some (WExceeds claimable pending available)
      else None)"

definition new_request :: "provider_row \<Rightarrow> int \<Rightarrow> string \<Rightarrow> string \<Rightarrow> int \<Rightarrow> withdrawal_request" where
  "new_request p a iban fresh now =
     \<lparr>wr_id = fresh, wr_provider = pv_id p, wr_amount = a, wr_reserved = False, wr_status = WPending, wr_iban = iban,
      wr_note = None, wr_created = now, wr_processed = None, wr_updated = Some now\<rparr>"

definition requestWithdrawal :: "provider_row \<Rightarrow> js_num \<Rightarrow> string option \<Rightarrow> string \<Rightarrow> int \<Rightarrow> money_state \<Rightarrow> money_state \<times> withdraw_answer" where
  "requestWithdrawal p amount iban_in fresh now s =
     (case toFiniteInt amount 1000 None of None \<Rightarrow> (s, WBadAmount)
      | Some a \<Rightarrow>
        let iban = (case normalizeString 24 iban_in of None \<Rightarrow> [] | Some t \<Rightarrow> map upper_ascii t) in
        (case request_refusal p a iban s of Some e \<Rightarrow> (s, e)
         | None \<Rightarrow>
           if fresh \<in> set (map wr_id (ms_requests s)) then (s, WTaken)
           else (s\<lparr>ms_requests := sql_insert (new_request p a iban fresh now) (ms_requests s)\<rparr>, WRecorded (new_request p a iban fresh now))))"

section \<open>Their administration\<close>

definition requested_status :: "string option \<Rightarrow> request_status option" where
  \<comment> \<open>the status of the body, with its two synonyms\<close>
  "requested_status v =
     (case map_option to_lower (normalizeString 20 v) of
        None \<Rightarrow> None
      | Some t \<Rightarrow> if t = ''processing'' then Some WProcessing
                  else if t = ''paid'' \<or> t = ''completed'' then Some WPaid
                  else if t = ''failed'' \<or> t = ''rejected'' then Some WFailed else None)"

fun allowed_transition :: "request_status \<Rightarrow> request_status \<Rightarrow> bool" where
  "allowed_transition WPending t = (t \<in> {WProcessing, WPaid, WFailed})"
| "allowed_transition WProcessing t = (t \<in> {WPaid, WFailed})"
| "allowed_transition WPaid t = False"
| "allowed_transition WFailed t = False"

definition move_claimable :: "int \<Rightarrow> int \<Rightarrow> int \<Rightarrow> db \<Rightarrow> db" where
  "move_claimable p a now d =
     d\<lparr>providers := sql_update (\<lambda>r. pv_id r = p) (\<lambda>r. r\<lparr>pv_claimable := pv_claimable r + a, pv_updated_at := Some now\<rparr>) (providers d)\<rparr>"

definition advance_request :: "request_status \<Rightarrow> string option \<Rightarrow> int \<Rightarrow> withdrawal_request \<Rightarrow> withdrawal_request" where
  "advance_request st note now r =
     r\<lparr>wr_status := st, wr_note := coalesce note (wr_note r),
       wr_processed := (if st = WPaid \<or> st = WFailed then Some now else wr_processed r),
       wr_reserved := (if st = WPaid then True else if st = WFailed then False else wr_reserved r), wr_updated := Some now\<rparr>"

definition patch_writes :: "request_status \<Rightarrow> withdrawal_request \<Rightarrow> string option \<Rightarrow> int \<Rightarrow> money_state \<Rightarrow> money_state" where
  "patch_writes st e note now s =
     s\<lparr>ms_db := (if st = WPaid \<and> \<not> wr_reserved e then move_claimable (wr_provider e) (- wr_amount e) now (ms_db s)
                 else if st = WFailed \<and> wr_reserved e then move_claimable (wr_provider e) (wr_amount e) now (ms_db s)
                 else ms_db s),
       ms_requests := sql_update (\<lambda>r. wr_id r = wr_id e) (advance_request st note now) (ms_requests s)\<rparr>"

datatype patch_answer = PBadStatus | PNotFound | PBadTransition request_status request_status | PThrows | PPatched "withdrawal_request option"

definition patchWithdrawal :: "string \<Rightarrow> string option \<Rightarrow> string option \<Rightarrow> int \<Rightarrow> money_state \<Rightarrow> money_state \<times> patch_answer" where
  "patchWithdrawal i status note now s =
     (case requested_status status of None \<Rightarrow> (s, PBadStatus)
      | Some st \<Rightarrow> (case sql_get (\<lambda>r. wr_id r = i) (ms_requests s) of None \<Rightarrow> (s, PNotFound)
      | Some e \<Rightarrow>
        if \<not> allowed_transition (wr_status e) st then (s, PBadTransition (wr_status e) st)
        else if st = WPaid \<and> \<not> wr_reserved e \<and> claimable_of (ms_db s) (wr_provider e) < wr_amount e then (s, PThrows)
        else let s' = patch_writes st e (normalizeString 500 note) now s
             in (s', PPatched (sql_get (\<lambda>r. wr_id r = i) (ms_requests s')))))"

section \<open>The legacy table\<close>

datatype legacy_answer = LForbidden | LBadAmount | LBelowMinimum | LInsufficient int | LTaken | LRecorded string
  | LNotFound | LWrongStatus string | LMoved string

text \<open>SQLite sums REAL columns with compensation: the result is taken to be the rounded exact sum.\<close>

definition legacy_sum :: "int \<Rightarrow> string \<Rightarrow> money_state \<Rightarrow> rat" where
  "legacy_sum p st s = fl (sum_list (map lw_sar (sql_all (\<lambda>r. lw_provider r = p \<and> lw_status r = st) (ms_legacy s))))"

definition halala_of_sar :: "rat \<Rightarrow> int" where
  "halala_of_sar x = js_round (fl_mul x 100)"

definition legacy_available :: "provider_row \<Rightarrow> money_state \<Rightarrow> int" where
  "legacy_available p s =
     (let earned = (if pv_claimable p > 0 then pv_claimable p else halala_of_sar (pv_total_earnings p))
      in max 0 (earned - halala_of_sar (legacy_sum (pv_id p) ''pending'' s) - halala_of_sar (legacy_sum (pv_id p) ''completed'' s)))"

definition legacy_row :: "provider_row \<Rightarrow> rat \<Rightarrow> string option \<Rightarrow> string \<Rightarrow> int \<Rightarrow> money_state \<Rightarrow> legacy_withdrawal" where
  "legacy_row p a how fresh now s =
     \<lparr>lw_id = next_rowid lw_id (ms_legacy s), lw_wid = fresh, lw_provider = pv_id p, lw_sar = a,
      lw_method = (case normalizeString 50 how of None \<Rightarrow> ''bank_transfer'' | Some m \<Rightarrow> m), lw_status = ''pending'',
      lw_requested = now, lw_processed = None, lw_notes = None\<rparr>"

definition legacyWithdraw :: "bool \<Rightarrow> provider_row \<Rightarrow> js_num \<Rightarrow> string option \<Rightarrow> string \<Rightarrow> int \<Rightarrow> money_state \<Rightarrow> money_state \<times> legacy_answer" where
  "legacyWithdraw admin p amount how fresh now s =
     (if \<not> admin then (s, LForbidden)
      else case toFiniteNumber amount (fl 0.01) (Some 1000000) of None \<Rightarrow> (s, LBadAmount)
      | Some a \<Rightarrow>
        if a < 10 then (s, LBelowMinimum)
        else if a > fl_div (of_int (legacy_available p s)) 100 then (s, LInsufficient (legacy_available p s))
        else if fresh \<in> set (map lw_wid (ms_legacy s)) then (s, LTaken)
        else (s\<lparr>ms_legacy := sql_insert (legacy_row p a how fresh now s) (ms_legacy s)\<rparr>, LRecorded fresh))"

text \<open>\<open>WHERE id = ? OR withdrawal_id = ?\<close>: the number the parameter denotes, if it denotes one, or its text.\<close>

type_synonym legacy_ref = "int option \<times> string"

definition legacy_get :: "legacy_ref \<Rightarrow> money_state \<Rightarrow> legacy_withdrawal option" where
  "legacy_get i s = sql_get (\<lambda>r. fst i = Some (lw_id r) \<or> lw_wid r = snd i) (ms_legacy s)"

definition move_legacy :: "string \<Rightarrow> string \<Rightarrow> string \<Rightarrow> legacy_ref \<Rightarrow> string option \<Rightarrow> int \<Rightarrow> money_state \<Rightarrow> money_state \<times> legacy_answer" where
  "move_legacy from_st to_st dflt i notes now s =
     (case legacy_get i s of None \<Rightarrow> (s, LNotFound)
      | Some w \<Rightarrow>
        if lw_status w \<noteq> from_st then (s, LWrongStatus (lw_status w))
        else (s\<lparr>ms_legacy := sql_update (\<lambda>r. lw_id r = lw_id w)
                (\<lambda>r. r\<lparr>lw_status := to_st, lw_processed := Some now, lw_notes := coalesce (normalizeString 500 notes) (Some dflt)\<rparr>)
                (ms_legacy s)\<rparr>, LMoved to_st))"

definition approveLegacy :: "legacy_ref \<Rightarrow> string option \<Rightarrow> int \<Rightarrow> money_state \<Rightarrow> money_state \<times> legacy_answer" where
  "approveLegacy = move_legacy ''pending'' ''approved'' ''Approved by admin''"

definition rejectLegacy :: "legacy_ref \<Rightarrow> string option \<Rightarrow> int \<Rightarrow> money_state \<Rightarrow> money_state \<times> legacy_answer" where
  "rejectLegacy = move_legacy ''pending'' ''rejected'' ''Rejected by admin''"

definition completeLegacy :: "legacy_ref \<Rightarrow> string option \<Rightarrow> int \<Rightarrow> money_state \<Rightarrow> money_state \<times> legacy_answer" where
  "completeLegacy = move_legacy ''approved'' ''completed'' ''Payment sent''"

section \<open>Interleaved with payouts\<close>

datatype money_event =
  WdRequest int js_num "string option" string int
| WdPatch string "string option" "string option" int
| WdLegacy bool int js_num "string option" string int
| WdApprove legacy_ref "string option" int
| WdReject legacy_ref "string option" int
| WdComplete legacy_ref "string option" int
| WdPayout payout_event

fun money_step :: "money_state \<Rightarrow> money_event \<Rightarrow> money_state" where
  "money_step s (WdRequest p a iban fresh now) =
     (case provider_by_id (ms_db s) p of None \<Rightarrow> s | Some pv \<Rightarrow> fst (requestWithdrawal pv a iban fresh now s))"
| "money_step s (WdPatch i st note now) = fst (patchWithdrawal i st note now s)"
| "money_step s (WdLegacy admin p a how fresh now) =
     (case provider_by_id (ms_db s) p of None \<Rightarrow> s | Some pv \<Rightarrow> fst (legacyWithdraw admin pv a how fresh now s))"
| "money_step s (WdApprove i notes now) = fst (approveLegacy i notes now s)"
| "money_step s (WdReject i notes now) = fst (rejectLegacy i notes now s)"
| "money_step s (WdComplete i notes now) = fst (completeLegacy i notes now s)"
| "money_step s (WdPayout e) = s\<lparr>ms_db := payout_run (ms_db s) e\<rparr>"

definition reserved_for :: "int \<Rightarrow> money_state \<Rightarrow> int" where
  "reserved_for p s = sum_list (map (\<lambda>r. if wr_provider r = p \<and> wr_reserved r then wr_amount r else 0) (ms_requests s))"

definition owed :: "int \<Rightarrow> money_state \<Rightarrow> int" where
  \<comment> \<open>claimable, open and paid payouts, and reserved withdrawals\<close>
  "owed p s = entitlement (ms_db s) p + reserved_for p s"

definition claims_good :: "db \<Rightarrow> bool" where
  "claims_good d = (has_key pv_id (providers d) \<and> (\<forall>p. 0 \<le> claimable_of d p) \<and> (\<forall>r\<in>set (payouts d). 0 \<le> po_amount r))"

definition money_good :: "money_state \<Rightarrow> bool" where
  "money_good s = (payouts_good (ms_db s) \<and> claims_good (ms_db s) \<and> has_key wr_id (ms_requests s)
     \<and> (\<forall>r\<in>set (ms_requests s). provider_by_id (ms_db s) (wr_provider r) \<noteq> None \<and> 0 \<le> wr_amount r
          \<and> (wr_reserved r \<or> wr_status r \<noteq> WPaid)))"

definition request_status_of :: "money_state \<Rightarrow> string \<Rightarrow> request_status option" where
  "request_status_of s i = map_option wr_status (sql_get (\<lambda>r. wr_id r = i) (ms_requests s))"

definition final_request :: "request_status \<Rightarrow> bool" where
  "final_request st = (st = WPaid \<or> st = WFailed)"

text \<open>What every step has to satisfy.\<close>

definition money_sound :: "money_state \<Rightarrow> money_state \<Rightarrow> bool" where
  "money_sound s s' = (money_good s' \<and> (\<forall>p. owed p s' = owed p s)
     \<and> (\<forall>i st. request_status_of s i = Some st \<longrightarrow> final_request st \<longrightarrow> request_status_of s' i = Some st))"

lemma money_refl: "money_good s \<Longrightarrow> money_sound s s"
  by (simp add: money_sound_def)

lemma money_legacy [simp]:
  "money_good (s\<lparr>ms_legacy := x\<rparr>) = money_good s" "owed p (s\<lparr>ms_legacy := x\<rparr>) = owed p s"
  "request_status_of (s\<lparr>ms_legacy := x\<rparr>) i = request_status_of s i"
  by (simp_all add: money_good_def owed_def reserved_for_def request_status_of_def)

lemma legacy_sound:
  "money_good s \<Longrightarrow> money_sound s (fst (legacyWithdraw admin p a how fresh now s))"
  "money_good s \<Longrightarrow> money_sound s (fst (move_legacy f t dflt i notes now s))"
  by (simp_all add: legacyWithdraw_def move_legacy_def money_sound_def split: option.splits)

lemma request_sound:
  assumes good: "money_good s" and p: "provider_by_id (ms_db s) p = Some pv"
  shows "money_sound s (fst (requestWithdrawal pv a iban fresh now s))"
proof (cases "fst (requestWithdrawal pv a iban fresh now s) = s")
  case True
  then show ?thesis using good by (simp add: money_refl)
next
  case False
  then obtain n iban' where n: "toFiniteInt a 1000 None = Some n" and fresh: "fresh \<notin> wr_id ` set (ms_requests s)"
    and r: "fst (requestWithdrawal pv a iban fresh now s) = s\<lparr>ms_requests := ms_requests s @ [new_request pv n iban' fresh now]\<rparr>"
    by (auto simp: requestWithdrawal_def Let_def sql_insert_def split: option.splits if_splits)
  have nn: "0 \<le> n" using n by (auto simp: toFiniteInt_def toFiniteNumber_def split: option.splits if_splits)
  let ?r = "new_request pv n iban' fresh now"
  have row: "wr_id ?r = fresh" "wr_provider ?r = pv_id pv" "wr_amount ?r = n" "\<not> wr_reserved ?r" "wr_status ?r = WPending"
    by (simp_all add: new_request_def)
  have "pv_id pv = p" using p by (rule provider_by_id_id)
  then show ?thesis
    using good p nn fresh row unfolding r
    by (auto simp: money_sound_def money_good_def owed_def reserved_for_def request_status_of_def has_key_def sql_get_insert [unfolded sql_insert_def])
qed

lemma provider_move: "provider_by_id (move_claimable p a now d) q =
    map_option (\<lambda>r. if pv_id r = p then r\<lparr>pv_claimable := pv_claimable r + a, pv_updated_at := Some now\<rparr> else r) (provider_by_id d q)"
  by (simp add: provider_by_id_def move_claimable_def sql_get_update)

lemma claimable_move:
  "claimable_of (move_claimable p a now d) q = claimable_of d q + (if q = p \<and> provider_by_id d p \<noteq> None then a else 0)"
proof (cases "provider_by_id d q")
  case (Some r)
  then show ?thesis using provider_by_id_id [OF Some] by (auto simp: claimable_of_def provider_move)
qed (auto simp: claimable_of_def provider_move)

lemma key_move: "has_key pv_id (providers (move_claimable p a now d)) = has_key pv_id (providers d)"
  by (simp add: move_claimable_def has_key_update)

lemma move_frame [simp]: "payouts (move_claimable p a now d) = payouts d" "Payouts.held (move_claimable p a now d) q = Payouts.held d q"
  by (simp_all add: move_claimable_def Payouts.held_def)

lemma provider_known: "(provider_by_id d p \<noteq> None) = (p \<in> set (map pv_id (providers d)))"
  by (auto simp: provider_by_id_def sql_get_None)

lemma ids_add [simp]: "map pv_id (providers (add_claimable p a d)) = map pv_id (providers d)"
  by (simp add: add_claimable_def map_sql_update)

lemma ids_update [simp]: "providers (update_payout i f d) = providers d"
  by (simp add: update_payout_def)

lemma payout_ids: "map pv_id (providers (payout_run d e)) = map pv_id (providers d)"
  by (cases e)
    (simp_all add: requestPayout_def markPayoutPaid_def rejectPayout_def process_begin_def process_end_def sync_end_def Let_def
      split: option.splits)

lemma key_add: "has_key pv_id (providers (add_claimable p a d)) = has_key pv_id (providers d)"
  by (simp add: add_claimable_def has_key_update)

lemma claims_add: "claims_good d \<Longrightarrow> 0 \<le> a \<or> - a \<le> claimable_of d p \<Longrightarrow> claims_good (add_claimable p a d)"
  by (auto simp: claims_good_def claimable_of_add key_add)

lemma claims_update: "claims_good d \<Longrightarrow> (\<And>r. po_amount (f r) = po_amount r) \<Longrightarrow> claims_good (update_payout i f d)"
  by (auto simp: claims_good_def update_payout_def set_sql_update)

lemma claims_payouts:
  "claims_good d \<Longrightarrow> (\<And>r. po_amount (f r) = po_amount r) \<Longrightarrow> claims_good (d\<lparr>payouts := sql_update P f (payouts d)\<rparr>)"
  by (auto simp: claims_good_def set_sql_update)

lemma usd_halala_nonneg: "0 \<le> u \<Longrightarrow> 0 \<le> usd_halala u"
  by (simp add: usd_halala_def js_round_nonneg fl_mul_def fl_nonneg USD_TO_SAR_def HALALA_PER_SAR_def)

lemma claims_request:
  assumes "claims_good d"
  shows "claims_good (fst (requestPayout d p usd uuid now))"
proof (cases "fst (requestPayout d p usd uuid now) = d")
  case True
  then show ?thesis using assms by simp
next
  case False
  then obtain u pv where u: "\<not> u \<le> 0" "live_provider d p = Some pv" "\<not> usd_halala u > max 0 (pv_claimable pv - pendingHoldsHalala d p)"
    and d': "fst (requestPayout d p usd uuid now) = (if uuid \<in> set (map po_id (payouts d)) then add_claimable p (- usd_halala u) d
      else (add_claimable p (- usd_halala u) d)\<lparr>payouts := sql_insert (new_payout p u uuid now) (payouts d)\<rparr>)"
    by (auto simp: requestPayout_def Let_def split: option.splits if_splits simp del: max_less_iff_conj)
  have a: "0 \<le> usd_halala u" using u(1) by (intro usd_halala_nonneg) simp
  have "0 \<le> pendingHoldsHalala d p"
    unfolding pendingHoldsHalala_def sql_sum_def using assms by (intro sum_list_nonneg) (auto simp: claims_good_def)
  moreover have "claimable_of d p = pv_claimable pv"
    using sql_get_Some [OF u(2) [unfolded live_provider_def]] sql_get_key [of pv_id "providers d" pv] assms
    by (auto simp: claims_good_def claimable_of_def provider_by_id_def)
  moreover have "0 \<le> claimable_of d p" using assms by (simp add: claims_good_def)
  ultimately have "usd_halala u \<le> claimable_of d p" using u(3) a by (auto simp: max_def split: if_splits)
  then have c: "claims_good (add_claimable p (- usd_halala u) d)" using assms by (intro claims_add) simp_all
  then show ?thesis using a unfolding d' by (auto simp: claims_good_def sql_insert_def new_payout_def)
qed

lemma payout_claims:
  assumes "claims_good d"
  shows "claims_good (payout_run d e)"
proof (cases e)
  case (EvReject i reason now)
  then show ?thesis
    using assms payout_by_id_in [of d i]
    by (auto simp: rejectPayout_def Let_def split: option.splits intro!: claims_update claims_add)
      (auto simp: claims_good_def)
next
  case (EvSyncEnd i reply now)
  then show ?thesis
    using assms payout_by_id_in [of d i]
    by (auto simp: sync_end_def Let_def split: option.splits intro!: claims_update claims_payouts claims_add)
      (auto simp: claims_good_def)
qed (use assms in \<open>auto simp: claims_request markPayoutPaid_def process_begin_def process_end_def Let_def
    split: option.splits intro!: claims_update claims_payouts\<close>)

lemma payout_sound:
  assumes "money_good s"
  shows "money_sound s (s\<lparr>ms_db := payout_run (ms_db s) e\<rparr>)"
proof -
  have "sound (ms_db s) (payout_run (ms_db s) e)" "claims_good (payout_run (ms_db s) e)"
    using assms payout_step payout_claims by (auto simp: money_good_def)
  moreover have "provider_by_id (payout_run (ms_db s) e) p \<noteq> None \<longleftrightarrow> provider_by_id (ms_db s) p \<noteq> None" for p
    unfolding provider_known payout_ids ..
  ultimately show ?thesis
    using assms by (auto simp: money_sound_def money_good_def sound_def owed_def reserved_for_def request_status_of_def)
qed

lemma advance_simps [simp]:
  "wr_id (advance_request t m now r) = wr_id r" "wr_provider (advance_request t m now r) = wr_provider r"
  "wr_amount (advance_request t m now r) = wr_amount r" "wr_status (advance_request t m now r) = t"
  "wr_reserved (advance_request t m now r) = (if t = WPaid then True else if t = WFailed then False else wr_reserved r)"
  by (simp_all add: advance_request_def)

lemma patch_cases:
  "fst (patchWithdrawal i status note now s) = s
   \<or> (\<exists>st e. sql_get (\<lambda>r. wr_id r = i) (ms_requests s) = Some e \<and> allowed_transition (wr_status e) st
        \<and> (st = WPaid \<and> \<not> wr_reserved e \<longrightarrow> wr_amount e \<le> claimable_of (ms_db s) (wr_provider e))
        \<and> fst (patchWithdrawal i status note now s) = patch_writes st e (normalizeString 500 note) now s)"
proof (cases "\<exists>st e. requested_status status = Some st \<and> sql_get (\<lambda>r. wr_id r = i) (ms_requests s) = Some e")
  case True
  then obtain st e where "requested_status status = Some st" "sql_get (\<lambda>r. wr_id r = i) (ms_requests s) = Some e" by blast
  then show ?thesis by (auto simp: patchWithdrawal_def Let_def)
qed (auto simp: patchWithdrawal_def split: option.splits)

lemma patch_sound:
  assumes good: "money_good s"
  shows "money_sound s (fst (patchWithdrawal i status note now s))"
proof (cases "fst (patchWithdrawal i status note now s) = s")
  case True
  then show ?thesis using good by (simp add: money_refl)
next
  case False
  define take where "take st e = (st = WPaid \<and> \<not> wr_reserved e)" for st and e :: withdrawal_request
  define give where "give st e = (st = WFailed \<and> wr_reserved e)" for st and e :: withdrawal_request
  obtain st e where e: "sql_get (\<lambda>r. wr_id r = i) (ms_requests s) = Some e" and al: "allowed_transition (wr_status e) st"
    and fits: "take st e \<Longrightarrow> wr_amount e \<le> claimable_of (ms_db s) (wr_provider e)"
    and w: "fst (patchWithdrawal i status note now s) = patch_writes st e (normalizeString 500 note) now s"
    using patch_cases [of i status "note" now s] False unfolding take_def by blast
  have s': "fst (patchWithdrawal i status note now s) = s\<lparr>ms_db := (if take st e then move_claimable (wr_provider e) (- wr_amount e) now (ms_db s)
        else if give st e then move_claimable (wr_provider e) (wr_amount e) now (ms_db s) else ms_db s),
      ms_requests := sql_update (\<lambda>r. wr_id r = i) (advance_request st (normalizeString 500 note) now) (ms_requests s)\<rparr>" (is "_ = ?s")
    using sql_get_Some [OF e] by (simp add: w patch_writes_def take_def give_def)
  let ?f = "advance_request st (normalizeString 500 note) now"
  have m: "e \<in> set (ms_requests s)" "wr_id e = i" using sql_get_Some [OF e] by simp_all
  have key: "has_key wr_id (ms_requests s)" and known: "provider_by_id (ms_db s) (wr_provider e) \<noteq> None" and nn: "0 \<le> wr_amount e"
    using good m(1) by (auto simp: money_good_def)
  have res: "reserved_for p (s\<lparr>ms_requests := sql_update (\<lambda>r. wr_id r = i) ?f (ms_requests s)\<rparr>) = reserved_for p s
      + (if wr_provider e = p then (if take st e then wr_amount e else if give st e then - wr_amount e else 0) else 0)" for p
    using sum_list_update_key0 [OF key m(1), of "\<lambda>r. if wr_provider r = p \<and> wr_reserved r then wr_amount r else 0" ?f]
    by (auto simp: reserved_for_def m(2) take_def give_def)
  have frame: "reserved_for p (s\<lparr>ms_db := D, ms_requests := R\<rparr>) = reserved_for p (s\<lparr>ms_requests := R\<rparr>)" for p D R
    by (simp add: reserved_for_def)
  have "owed p ?s = owed p s" for p
    using known by (cases "take st e"; cases "give st e") (simp_all add: owed_def res frame entitlement_def claimable_move)
  moreover have "claims_good (ms_db ?s)"
    using good fits nn by (auto simp: money_good_def claims_good_def claimable_move key_move)
  moreover have "payouts_good (ms_db ?s)"
    using good by (auto simp: money_good_def payouts_good_def provider_move)
  moreover have "provider_by_id (ms_db ?s) p \<noteq> None \<longleftrightarrow> provider_by_id (ms_db s) p \<noteq> None" for p
    by (auto simp: provider_move)
  moreover have "wr_reserved (?f r) \<or> wr_status (?f r) \<noteq> WPaid" for r by simp
  moreover have "request_status_of ?s k = Some t" if "request_status_of s k = Some t" "final_request t" for k t
  proof -
    have "k \<noteq> i" using that al e by (auto simp: request_status_of_def final_request_def)
    then show ?thesis using that(1) by (simp add: request_status_of_def sql_get_update_other)
  qed
  ultimately show ?thesis
    using good unfolding s' money_sound_def money_good_def by (auto simp: set_sql_update has_key_update)
qed

lemma money_step_sound: "money_good s \<Longrightarrow> money_sound s (money_step s e)"
  by (cases e)
    (simp_all add: request_sound patch_sound legacy_sound payout_sound money_refl approveLegacy_def rejectLegacy_def completeLegacy_def
      split: option.splits)

interpretation money_books: conserved money_step "owed p" money_good "\<lambda>_ _. 0" for p
  by unfold_locales (use money_step_sound in \<open>auto simp: money_sound_def\<close>)

interpretation request_life: lifecycle money_step request_status_of final_request money_good
  by unfold_locales (use money_step_sound in \<open>auto simp: money_sound_def\<close>)

text \<open>
  C11: Withdrawals and payouts together never pay a halala twice. Over every interleaving of withdrawal
  requests, their administration, legacy withdrawals and the events of the payout service, what a
  provider may claim, its open and paid payouts and its reserved withdrawals add up to a constant,
  a paid withdrawal is always reserved, no claimable balance becomes negative, and a paid or failed request keeps its status.
\<close>

theorem withdrawals_conserve:
  assumes "money_good s" "s' = foldl money_step s es"
  shows "claimable_of (ms_db s') p + Payouts.held (ms_db s') p + reserved_for p s'
      = claimable_of (ms_db s) p + Payouts.held (ms_db s) p + reserved_for p s
    \<and> 0 \<le> claimable_of (ms_db s') p
    \<and> (\<forall>r\<in>set (ms_requests s'). wr_status r = WPaid \<longrightarrow> wr_reserved r)
    \<and> (\<forall>i. request_status_of s i \<in> {Some WPaid, Some WFailed} \<longrightarrow> request_status_of s' i = request_status_of s i)"
proof -
  have "money_good s'" unfolding assms(2) by (rule money_books.good_run_all [OF assms(1)])
  moreover have "owed p s' = owed p s" unfolding assms(2) by (rule money_books.amount_kept [OF assms(1)])
  moreover have "request_status_of s' i = request_status_of s i" if "request_status_of s i \<in> {Some WPaid, Some WFailed}" for i
    unfolding assms(2) using that request_life.final_forever [OF assms(1)] by (auto simp: final_request_def)
  ultimately show ?thesis by (auto simp: owed_def entitlement_def money_good_def claims_good_def)
qed

text \<open>
  An approved legacy withdrawal can be made again. The available amount of the legacy table subtracts
  pending and completed withdrawals but not approved ones, and nothing is taken from the claimable
  balance: once a withdrawal is approved, the same amount is available as before it, and the same request is recorded again.
\<close>

theorem approved_legacy_unlocks:
  assumes "legacyWithdraw True p amount how fresh now s = (s1, LRecorded fresh)"
    and "approveLegacy (None, fresh) notes later s1 = (s2, r)" and "fresh2 \<notin> set (map lw_wid (ms_legacy s2))"
  shows "r = LMoved ''approved'' \<and> legacy_available p s2 = legacy_available p s \<and> ms_db s2 = ms_db s
    \<and> snd (legacyWithdraw True p amount how fresh2 later s2) = LRecorded fresh2"
proof -
  obtain a where a: "toFiniteNumber amount (fl 0.01) (Some 1000000) = Some a" "\<not> a < 10"
      "\<not> a > fl_div (of_int (legacy_available p s)) 100" and fresh: "fresh \<notin> lw_wid ` set (ms_legacy s)"
    and s1': "s1 = s\<lparr>ms_legacy := ms_legacy s @ [legacy_row p a how fresh now s]\<rparr>"
    using assms(1) by (auto simp: legacyWithdraw_def sql_insert_def split: option.splits if_splits)
  define w where "w = legacy_row p a how fresh now s"
  have new: "fresh \<notin> lw_wid ` set (ms_legacy s)" "lw_wid w = fresh" "lw_id w = next_rowid lw_id (ms_legacy s)" "lw_status w = ''pending''"
    and s1: "s1 = s\<lparr>ms_legacy := ms_legacy s @ [w]\<rparr>" using fresh s1' by (simp_all add: w_def legacy_row_def)
  have found: "legacy_get (None, fresh) s1 = Some w"
  proof -
    have "sql_get (\<lambda>r. lw_wid r = fresh) (ms_legacy s) = None" using new(1) by (auto simp: sql_get_None)
    then show ?thesis using new(2) by (simp add: legacy_get_def s1 sql_get_insert [unfolded sql_insert_def])
  qed
  have ids: "lw_id w \<notin> lw_id ` set (ms_legacy s)" using next_rowid_fresh [of lw_id "ms_legacy s"] by (simp add: new(3))
  have keep: "sql_update (\<lambda>r. lw_id r = lw_id w) f (ms_legacy s) = ms_legacy s" for f
    using ids by (intro sql_update_id ballI) (metis imageI)
  obtain w' where s2: "s2 = s\<lparr>ms_legacy := ms_legacy s @ [w']\<rparr>" "lw_status w' = ''approved''" and r: "r = LMoved ''approved''"
    using assms(2) found new(4) keep
    by (auto simp: approveLegacy_def move_legacy_def s1 sql_update_def [where rows = "_ @ _"] keep [unfolded sql_update_def])
  have "legacy_sum q st s2 = legacy_sum q st s" if "st \<noteq> ''approved''" for q st
    using that s2(2) by (simp add: legacy_sum_def s2(1) sql_all_def)
  then have av: "legacy_available p s2 = legacy_available p s" by (simp add: legacy_available_def)
  have "snd (legacyWithdraw True p amount how fresh2 later s2) = LRecorded fresh2"
    using a assms(3) by (simp add: legacyWithdraw_def av)
  then show ?thesis using r av by (simp add: s2(1))
qed

section \<open>Witnesses\<close>

definition demo_money :: money_state where
  "demo_money = \<lparr>ms_db = demo_paying, ms_requests = [], ms_legacy = []\<rparr>"

definition demo_iban :: string where "demo_iban = ''SA0123456789012345678901''"

definition demo_withdrawal :: "money_event list" where
  "demo_withdrawal = [WdRequest 7 (Some 5000) (Some demo_iban) ''wreq-1'' 1, WdPatch ''wreq-1'' (Some ''processing'') None 2,
     WdPayout (EvReject ''p1'' None 3), WdPatch ''wreq-1'' (Some ''completed'') None 4, WdPatch ''wreq-1'' (Some ''rejected'') None 5]"

lemma demo_money_good: "money_good demo_money"
  by (auto simp: money_good_def demo_money_def claims_good_def demo_paying_def demo_payout_def has_key_def claimable_of_def
      provider_by_id_def sql_get_def payouts_good_def demo_provider_def split: option.splits)

lemma demo_withdrawal_run:
  "reserved_for 7 (foldl money_step demo_money demo_withdrawal) = 5000"
  "claimable_of (ms_db (foldl money_step demo_money demo_withdrawal)) 7 + Payouts.held (ms_db (foldl money_step demo_money demo_withdrawal)) 7 = 53750"
  by code_simp+

theorem withdrawals_conserve_witness:
  "claimable_of (ms_db (foldl money_step demo_money demo_withdrawal)) 7 + Payouts.held (ms_db (foldl money_step demo_money demo_withdrawal)) 7 + 5000 = 58750"
  using withdrawals_conserve [OF demo_money_good refl, of demo_withdrawal 7] demo_withdrawal_run(1)
  by (simp add: demo_money_def claimable_of_def provider_by_id_def sql_get_def Payouts.held_def weight_def demo_paying_def
      demo_provider_def demo_payout_def reserved_for_def)

definition demo_rich :: provider_row where "demo_rich = demo_provider\<lparr>pv_claimable := 40000\<rparr>"

theorem approved_legacy_unlocks_witness:
  "let s1 = fst (legacyWithdraw True demo_rich (Some 400) None ''wd-1'' 1 demo_money);
       s2 = fst (approveLegacy (None, ''wd-1'') None 2 s1)
   in legacy_available demo_rich s2 = 40000 \<and> snd (legacyWithdraw True demo_rich (Some 400) None ''wd-2'' 2 s2) = LRecorded ''wd-2''"
proof -
  let ?s1 = "fst (legacyWithdraw True demo_rich (Some 400) None ''wd-1'' 1 demo_money)"
  let ?s2 = "fst (approveLegacy (None, ''wd-1'') None 2 ?s1)"
  have r: "snd (legacyWithdraw True demo_rich (Some 400) None ''wd-1'' 1 demo_money) = LRecorded ''wd-1''"
    "map lw_wid (ms_legacy ?s2) = [''wd-1'']" "legacy_available demo_rich demo_money = 40000" by code_simp+
  have e1: "legacyWithdraw True demo_rich (Some 400) None ''wd-1'' 1 demo_money = (?s1, LRecorded ''wd-1'')"
    using r(1) by (metis prod.collapse)
  have e2: "approveLegacy (None, ''wd-1'') None 2 ?s1 = (?s2, snd (approveLegacy (None, ''wd-1'') None 2 ?s1))" by simp
  show ?thesis
    using approved_legacy_unlocks [OF e1 e2, of "''wd-2''"] r(2,3) unfolding Let_def by simp
qed

end
