(* ===== verification/OpenRouter.thy ===== *)
theory OpenRouter
  imports Prelude Contracts
begin

text \<open>
  \<open>backend/src/services/openrouterSettlementService.js\<close>: the usage ledger of OpenRouter requests and
  its periodic settlement. The tables are those of \<open>db.js\<close> after its migrations, so every optional
  column exists. UUIDs are arguments; a run of the service is synchronous, so it has one time. The
  lemmas show that each usage is recorded once and settled once, that items, ledger, settlements and
  invoices agree for ever, and what a run does.
\<close>

section \<open>Tables\<close>

datatype or_status = OrPending | OrSettled | OrFailed
datatype or_mode = OrInvoice | OrAutoTopup
datatype or_settle_status = OsPending | OsProcessing | OsCompleted | OsPartial | OsFailed
datatype or_severity = OrWarning | OrCritical

text \<open>The USD columns hold the text of \<open>toFixed(6)\<close>; the model keeps the number it denotes.\<close>

record or_usage =
  ou_id :: string
  ou_request :: "string option"
  ou_response :: "string option"
  ou_job :: "string option"
  ou_path :: "string option"
  ou_key :: "string option"
  ou_key_type :: "string option"
  ou_renter :: int
  ou_provider :: "int option"
  ou_model :: string
  ou_source :: string
  ou_prompt :: int
  ou_completion :: int
  ou_total :: int
  ou_prompt_cost :: int
  ou_completion_cost :: int
  ou_rate :: "int option"
  ou_cost :: int
  ou_usd_prompt :: rat
  ou_usd_completion :: rat
  ou_usd_total :: rat
  ou_currency :: string
  ou_status :: or_status
  ou_settlement :: "string option"
  ou_created :: int

record or_settlement =
  os_id :: string
  os_start :: int
  os_end :: int
  os_cadence :: string
  os_mode :: or_mode
  os_expected :: int
  os_reconciled :: int
  os_discrepancy :: int
  os_count :: int
  os_status :: or_settle_status
  os_reason :: "string option"
  os_created :: int
  os_completed :: "int option"

record or_item =
  oi_id :: string
  oi_settlement :: string
  oi_usage :: string
  oi_renter :: int
  oi_provider :: "int option"
  oi_cost :: int
  oi_created :: int

text \<open>Rows of \<open>openrouter_settlement_invoices\<close>, which are issued with a due date, and of \<open>openrouter_settlement_topups\<close>, which are queued.\<close>

record or_charge =
  oc_id :: string
  oc_settlement :: string
  oc_amount :: int
  oc_due :: "int option"
  oc_status :: string
  oc_created :: int

record or_alert =
  oa_id :: string
  oa_settlement :: "string option"
  oa_severity :: or_severity
  oa_code :: string
  oa_message :: string
  oa_created :: int

record or_state =
  or_ledger :: "or_usage list"
  or_settlements :: "or_settlement list"
  or_items :: "or_item list"
  or_invoices :: "or_charge list"
  or_topups :: "or_charge list"
  or_alerts :: "or_alert list"

section \<open>Recording a usage\<close>

definition toInt :: "js_num \<Rightarrow> int \<Rightarrow> int option \<Rightarrow> int option" where
  "toInt v lo hi =
     (case v of None \<Rightarrow> None
      | Some x \<Rightarrow> if of_int \<lfloor>x\<rfloor> = x \<and> lo \<le> \<lfloor>x\<rfloor> \<and> (case hi of None \<Rightarrow> True | Some h \<Rightarrow> \<lfloor>x\<rfloor> \<le> h) then Some \<lfloor>x\<rfloor> else None)"

definition clean_text :: "nat \<Rightarrow> string option \<Rightarrow> string" where
  "clean_text n v = (case v of None \<Rightarrow> [] | Some s \<Rightarrow> take n (strip s))"

definition text_or_null :: "string \<Rightarrow> string option" where
  "text_or_null s = (if s = [] then None else Some s)"

definition js_int :: "int \<Rightarrow> int" where
  \<comment> \<open>an integer result in binary64\<close>
  "js_int n = \<lfloor>fl (of_int n)\<rfloor>"

definition toUsdStringFromHalala :: "int \<Rightarrow> rat" where
  "toUsdStringFromHalala h = (if h \<le> 0 then 0 else to_fixed 6 (fl_div (of_int h) 375))"

definition toCanonicalUsdString :: "js_num option \<Rightarrow> int \<Rightarrow> rat" where
  \<comment> \<open>the first argument is \<open>None\<close> where the caller passes nothing: the default is null, and \<open>Number(null)\<close> is 0\<close>
  "toCanonicalUsdString v fallback =
     (case (case v of None \<Rightarrow> Some 0 | Some n \<Rightarrow> n) of
        None \<Rightarrow> toUsdStringFromHalala fallback
      | Some x \<Rightarrow> if x < 0 then toUsdStringFromHalala fallback else to_fixed 6 x)"

record usage_input =
  ui_request :: "string option"
  ui_response :: "string option"
  ui_job :: "string option"
  ui_path :: "string option"
  ui_key :: "string option"
  ui_key_type :: "string option"
  ui_prompt_cost :: js_num
  ui_completion_cost :: js_num
  ui_rate :: js_num
  ui_usd_prompt :: "js_num option"
  ui_usd_completion :: "js_num option"
  ui_usd_total :: "js_num option"
  ui_renter :: js_num
  ui_provider :: js_num
  ui_model :: "string option"
  ui_source :: "string option"
  ui_prompt :: js_num
  ui_completion :: js_num
  ui_total :: js_num
  ui_cost :: js_num
  ui_currency :: string
  ui_status :: string

definition MAX_TOKENS :: int where "MAX_TOKENS = 1000000000"

definition MAX_COST :: int where "MAX_COST = 100000000000"

definition usage_row :: "string \<Rightarrow> int \<Rightarrow> usage_input \<Rightarrow> int \<Rightarrow> or_usage" where
  "usage_row fresh now u renter =
     (let count = (\<lambda>v. case toInt v 0 (Some MAX_TOKENS) of Some n \<Rightarrow> n | None \<Rightarrow> 0);
          or_cost = (\<lambda>v n. case toInt v 0 (Some MAX_COST) of Some c \<Rightarrow> c | None \<Rightarrow> n);
          prompt = count (ui_prompt u); completion = count (ui_completion u);
          rate = toInt (ui_rate u) 0 (Some MAX_COST);
          pcost = or_cost (ui_prompt_cost u) (js_int (prompt * or0 rate));
          ccost = or_cost (ui_completion_cost u) (js_int (completion * or0 rate));
          cost = or_cost (ui_cost u) (js_int (pcost + ccost))
      in \<lparr>ou_id = fresh, ou_request = text_or_null (clean_text 200 (ui_request u)),
          ou_response = text_or_null (clean_text 200 (ui_response u)), ou_job = text_or_null (clean_text 120 (ui_job u)),
          ou_path = text_or_null (clean_text 160 (ui_path u)), ou_key = text_or_null (clean_text 120 (ui_key u)),
          ou_key_type = (if ui_key_type u \<in> {Some ''scoped_key'', Some ''master_key''} then ui_key_type u else None),
          ou_renter = renter, ou_provider = toInt (ui_provider u) 1 None, ou_model = clean_text 200 (ui_model u),
          ou_source = (case clean_text 80 (ui_source u) of [] \<Rightarrow> ''v1'' | c # cs \<Rightarrow> c # cs),
          ou_prompt = prompt, ou_completion = completion,
          ou_total = (case toInt (ui_total u) 0 (Some MAX_TOKENS) of Some n \<Rightarrow> n | None \<Rightarrow> prompt + completion),
          ou_prompt_cost = pcost, ou_completion_cost = ccost, ou_rate = rate, ou_cost = cost,
          ou_usd_prompt = toCanonicalUsdString (ui_usd_prompt u) pcost,
          ou_usd_completion = toCanonicalUsdString (ui_usd_completion u) ccost,
          ou_usd_total = toCanonicalUsdString (ui_usd_total u) cost,
          ou_currency = (if ui_currency u = [] then ''SAR'' else ui_currency u),
          ou_status = (if ui_status u = ''failed'' then OrFailed else if ui_status u = ''settled'' then OrSettled else OrPending),
          ou_settlement = None, ou_created = now\<rparr>)"

datatype usage_answer = BadRenter | NoModel | UsageIdTaken | AlreadyRecorded or_usage | Recorded or_usage

definition recordOpenRouterUsage :: "string \<Rightarrow> int \<Rightarrow> usage_input \<Rightarrow> or_state \<Rightarrow> or_state \<times> usage_answer" where
  "recordOpenRouterUsage fresh now u s =
     (case toInt (ui_renter u) 1 None of None \<Rightarrow> (s, BadRenter)
      | Some renter \<Rightarrow>
        if clean_text 200 (ui_model u) = [] then (s, NoModel)
        else let req = clean_text 200 (ui_request u); row = usage_row fresh now u renter in
          case (if req = [] then None else sql_get (\<lambda>r. ou_request r = Some req) (or_ledger s)) of
            Some r \<Rightarrow> (s, AlreadyRecorded r)
          | None \<Rightarrow> if fresh \<in> set (map ou_id (or_ledger s)) then (s, UsageIdTaken)
                    else (s\<lparr>or_ledger := sql_insert row (or_ledger s)\<rparr>, Recorded row))"

section \<open>The dry run\<close>

record or_summary =
  sm_start :: int
  sm_end :: int
  sm_expected :: int
  sm_reconciled :: int
  sm_discrepancy :: int
  sm_sar :: "rat \<times> rat \<times> rat"         \<comment> \<open>expected, reconciled and discrepancy in SAR\<close>
  sm_top :: "(int \<times> int \<times> int) list"   \<comment> \<open>renter, usages and total\<close>
  sm_ids :: "string list"

definition sar :: "int \<Rightarrow> rat" where
  \<comment> \<open>\<open>Number((n / 100).toFixed(2))\<close>\<close>
  "sar n = (if n < 0 then - 1 else 1) * fl (to_fixed 2 (fl_div (of_int \<bar>n\<bar>) 100))"

definition pending_in :: "int \<Rightarrow> int \<Rightarrow> or_usage \<Rightarrow> bool" where
  "pending_in since until r = (ou_status r = OrPending \<and> since \<le> ou_created r \<and> ou_created r \<le> until)"

definition by_renter :: "or_usage list \<Rightarrow> (int \<times> int \<times> int) list" where
  "by_renter rows =
     sort_key (\<lambda>(i, n, total). - total)
       (map (\<lambda>i. (i, int (length (filter (\<lambda>r. ou_renter r = i) rows)), sql_sum (\<lambda>r. ou_renter r = i) ou_cost rows))
          (sort (remdups (map ou_renter rows))))"

definition computeDryRunSummary :: "int \<Rightarrow> int option \<Rightarrow> int option \<Rightarrow> js_num \<Rightarrow> or_state \<Rightarrow> or_summary" where
  "computeDryRunSummary now start stop expected s =
     (let since = (case start of Some t \<Rightarrow> t | None \<Rightarrow> now - 24 * 3600 * 1000); until = (case stop of Some t \<Rightarrow> t | None \<Rightarrow> now);
          rows = sort_key ou_created (sql_all (pending_in since until) (or_ledger s));
          reconciled = sum_list (map ou_cost rows);
          total = (case toInt expected 0 None of Some n \<Rightarrow> n | None \<Rightarrow> reconciled)
      in \<lparr>sm_start = since, sm_end = until, sm_expected = total, sm_reconciled = reconciled,
          sm_discrepancy = total - reconciled, sm_sar = (sar total, sar reconciled, sar (total - reconciled)),
          sm_top = by_renter (sql_all (pending_in since until) (or_ledger s)), sm_ids = map ou_id rows\<rparr>)"

section \<open>A run\<close>

record run_ids =
  ri_settlement :: string
  ri_item :: "string \<Rightarrow> string"   \<comment> \<open>the UUID drawn for the item of a usage\<close>
  ri_charge :: string
  ri_alert :: string

record run_request =
  rr_from :: "int option"     \<comment> \<open>\<open>None\<close>: missing or not a date\<close>
  rr_to :: "int option"
  rr_mode :: string
  rr_cadence :: "string option"
  rr_expected :: js_num

definition settle_usage_row :: "string \<Rightarrow> or_usage \<Rightarrow> or_usage" where
  "settle_usage_row sid r = r\<lparr>ou_status := OrSettled, ou_settlement := Some sid\<rparr>"

definition or_item_of :: "run_ids \<Rightarrow> int \<Rightarrow> or_usage \<Rightarrow> or_item" where
  "or_item_of ids now r =
     \<lparr>oi_id = ri_item ids (ou_id r), oi_settlement = ri_settlement ids, oi_usage = ou_id r, oi_renter = ou_renter r,
      oi_provider = (if ou_provider r = Some 0 then None else ou_provider r), oi_cost = ou_cost r, oi_created = now\<rparr>"

fun settle_usages :: "run_ids \<Rightarrow> int \<Rightarrow> string list \<Rightarrow> or_state \<Rightarrow> string + or_state" where
  "settle_usages ids now [] s = Inr s"
| "settle_usages ids now (u # us) s =
     (if sql_changes (\<lambda>r. ou_id r = u \<and> ou_status r = OrPending) (or_ledger s) = 0
      then Inl (''usage row became unavailable during settlement: '' @ u)
      else let s1 = s\<lparr>or_ledger := sql_update (\<lambda>r. ou_id r = u \<and> ou_status r = OrPending) (settle_usage_row (ri_settlement ids)) (or_ledger s)\<rparr>
        in case sql_get (\<lambda>r. ou_id r = u) (or_ledger s1) of None \<Rightarrow> Inl ''Cannot read properties of undefined''
           | Some r \<Rightarrow>
             if ri_item ids u \<in> set (map oi_id (or_items s1)) then Inl ''UNIQUE constraint failed: openrouter_settlement_items.id''
             else if u \<in> set (map oi_usage (or_items s1)) then Inl ''UNIQUE constraint failed: openrouter_settlement_items.usage_id''
             else settle_usages ids now us (s1\<lparr>or_items := sql_insert (or_item_of ids now r) (or_items s1)\<rparr>))"

definition charge_clash :: "or_charge \<Rightarrow> or_charge list \<Rightarrow> bool" where
  "charge_clash c rows = (oc_id c \<in> set (map oc_id rows) \<or> oc_settlement c \<in> set (map oc_settlement rows))"

definition insert_charge :: "run_ids \<Rightarrow> int \<Rightarrow> or_mode \<Rightarrow> int \<Rightarrow> or_state \<Rightarrow> string + or_state" where
  "insert_charge ids now mode amount s =
     (let c = \<lparr>oc_id = ri_charge ids, oc_settlement = ri_settlement ids, oc_amount = amount,
               oc_due = (if mode = OrInvoice then Some (now + 7 * 24 * 3600 * 1000) else None),
               oc_status = (if mode = OrInvoice then ''issued'' else ''queued''), oc_created = now\<rparr>
      in case mode of
           OrInvoice \<Rightarrow> if charge_clash c (or_invoices s) then Inl ''UNIQUE constraint failed: openrouter_settlement_invoices''
                        else Inr (s\<lparr>or_invoices := sql_insert c (or_invoices s)\<rparr>)
         | OrAutoTopup \<Rightarrow> if charge_clash c (or_topups s) then Inl ''UNIQUE constraint failed: openrouter_settlement_topups''
                        else Inr (s\<lparr>or_topups := sql_insert c (or_topups s)\<rparr>))"

definition createAlert :: "string \<Rightarrow> string \<Rightarrow> string \<Rightarrow> string \<Rightarrow> int \<Rightarrow> or_state \<Rightarrow> string + or_state" where
  "createAlert fresh sid code msg now s =
     (if fresh \<in> set (map oa_id (or_alerts s)) then Inl ''UNIQUE constraint failed: openrouter_settlement_alerts.id''
      else Inr (s\<lparr>or_alerts := sql_insert \<lparr>oa_id = fresh, oa_settlement = Some sid, oa_severity = OrCritical,
        oa_code = code, oa_message = take 500 msg, oa_created = now\<rparr> (or_alerts s)\<rparr>))"

definition settlement_row :: "run_ids \<Rightarrow> int \<Rightarrow> or_mode \<Rightarrow> string \<Rightarrow> or_summary \<Rightarrow> or_settle_status \<Rightarrow> string option \<Rightarrow> int option \<Rightarrow> or_settlement" where
  "settlement_row ids now mode cadence m st reason done_at =
     \<lparr>os_id = ri_settlement ids, os_start = sm_start m, os_end = sm_end m, os_cadence = cadence, os_mode = mode,
      os_expected = sm_expected m, os_reconciled = sm_reconciled m, os_discrepancy = sm_discrepancy m,
      os_count = int (length (sm_ids m)), os_status = st, os_reason = reason, os_created = now, os_completed = done_at\<rparr>"

definition finish_settlement :: "run_ids \<Rightarrow> int \<Rightarrow> or_summary \<Rightarrow> or_state \<Rightarrow> or_state" where
  "finish_settlement ids now m s =
     s\<lparr>or_settlements := sql_update (\<lambda>o'. os_id o' = ri_settlement ids)
        (\<lambda>o'. o'\<lparr>os_status := (if sm_discrepancy m = 0 then OsCompleted else OsPartial), os_completed := Some now,
                os_reason := (if sm_discrepancy m = 0 then None else Some ''Discrepancy between expected and reconciled totals'')\<rparr>)
        (or_settlements s)\<rparr>"

definition discrepancy_text :: "or_summary \<Rightarrow> string" where
  "discrepancy_text m = ''Expected '' @ dec (sm_expected m) @ '' halala but reconciled '' @ dec (sm_reconciled m) @ '' halala''"

text \<open>The transaction: an error is a throw, which rolls everything back.\<close>

definition settlement_tx :: "run_ids \<Rightarrow> int \<Rightarrow> or_mode \<Rightarrow> string \<Rightarrow> or_summary \<Rightarrow> or_state \<Rightarrow> string + or_state" where
  "settlement_tx ids now mode cadence m s =
     (if ri_settlement ids \<in> set (map os_id (or_settlements s)) then Inl ''UNIQUE constraint failed: openrouter_settlements.id''
      else case settle_usages ids now (sm_ids m)
                  (s\<lparr>or_settlements := sql_insert (settlement_row ids now mode cadence m OsProcessing None None) (or_settlements s)\<rparr>) of
        Inl e \<Rightarrow> Inl e
      | Inr s1 \<Rightarrow> (case insert_charge ids now mode (sm_reconciled m) s1 of
          Inl e \<Rightarrow> Inl e
        | Inr s2 \<Rightarrow> let s3 = finish_settlement ids now m s2 in
            if sm_discrepancy m \<noteq> 0 then createAlert (ri_alert ids) (ri_settlement ids) ''SETTLEMENT_DISCREPANCY'' (discrepancy_text m) now s3
            else Inr s3))"

text \<open>\<open>INSERT OR REPLACE\<close> of the failed row, then the alert; an error of either is swallowed.\<close>

definition record_failure :: "run_ids \<Rightarrow> int \<Rightarrow> or_mode \<Rightarrow> string \<Rightarrow> or_summary \<Rightarrow> string \<Rightarrow> or_state \<Rightarrow> or_state" where
  "record_failure ids now mode cadence m e s =
     (let s1 = s\<lparr>or_settlements := sql_insert (settlement_row ids now mode cadence m OsFailed (Some (take 500 e)) (Some now))
                   (filter (\<lambda>o'. os_id o' \<noteq> ri_settlement ids) (or_settlements s))\<rparr>
      in case createAlert (ri_alert ids) (ri_settlement ids) ''SETTLEMENT_EXECUTION_FAILED'' e now s1 of
           Inl _ \<Rightarrow> s1 | Inr s2 \<Rightarrow> s2)"

datatype run_answer = NothingPending or_summary | RunFailed or_summary string | RunDone or_summary

definition run_mode :: "run_request \<Rightarrow> or_mode" where
  "run_mode q = (if rr_mode q = ''auto_topup'' then OrAutoTopup else OrInvoice)"

definition executeOpenRouterSettlement :: "run_ids \<Rightarrow> int \<Rightarrow> run_request \<Rightarrow> or_state \<Rightarrow> or_state \<times> run_answer" where
  "executeOpenRouterSettlement ids now q s =
     (let cadence = (case rr_cadence q of Some c \<Rightarrow> take 24 c | None \<Rightarrow> ''daily'');
          m = computeDryRunSummary now (rr_from q) (rr_to q) (rr_expected q) s in
      if sm_ids m = [] then (s, NothingPending m)
      else (case settlement_tx ids now (run_mode q) cadence m s of
              Inl e \<Rightarrow> (record_failure ids now (run_mode q) cadence m e s, RunFailed m e)
            | Inr s' \<Rightarrow> (s', RunDone m)))"

section \<open>What a transaction does\<close>

lemma item_of_settled [simp]: "or_item_of ids now (settle_usage_row sid r) = or_item_of ids now r"
  by (simp add: or_item_of_def settle_usage_row_def)

lemma settled_row [simp]:
  "ou_id (settle_usage_row sid r) = ou_id r" "ou_cost (settle_usage_row sid r) = ou_cost r"
  "ou_status (settle_usage_row sid r) = OrSettled" "ou_settlement (settle_usage_row sid r) = Some sid"
  "ou_request (settle_usage_row sid r) = ou_request r"
  by (simp_all add: settle_usage_row_def)

lemma settle_step:
  assumes "settle_usages ids now (u # us) s = Inr s'" "has_key ou_id (or_ledger s)"
  obtains r where "r \<in> set (or_ledger s)" "ou_id r = u" "ou_status r = OrPending" "u \<notin> oi_usage ` set (or_items s)"
    "settle_usages ids now us
       (s\<lparr>or_ledger := sql_update (\<lambda>x. ou_id x = u) (settle_usage_row (ri_settlement ids)) (or_ledger s),
          or_items := or_items s @ [or_item_of ids now r]\<rparr>) = Inr s'"
proof -
  let ?P = "\<lambda>r. ou_id r = u \<and> ou_status r = OrPending"
  let ?mark = "settle_usage_row (ri_settlement ids)"
  have "sql_changes ?P (or_ledger s) \<noteq> 0" using assms(1) by (simp split: if_splits)
  then obtain r where r: "r \<in> set (or_ledger s)" "ou_id r = u" "ou_status r = OrPending" by (auto simp: sql_changes_0)
  have upd: "sql_update ?P ?mark (or_ledger s) = sql_update (\<lambda>x. ou_id x = u) ?mark (or_ledger s)"
    unfolding sql_update_def
  proof (intro map_cong refl)
    fix x assume "x \<in> set (or_ledger s)"
    then have "ou_id x = u \<Longrightarrow> x = r" using has_key_eq [OF assms(2) _ r(1)] r(2) by simp
    then show "(if ?P x then ?mark x else x) = (if ou_id x = u then ?mark x else x)" using r(3) by (cases "ou_id x = u") simp_all
  qed
  have "?mark r \<in> set (sql_update (\<lambda>x. ou_id x = u) ?mark (or_ledger s))" using r by (force simp: set_sql_update)
  moreover have "has_key ou_id (sql_update (\<lambda>x. ou_id x = u) ?mark (or_ledger s))" using assms(2) by (simp add: has_key_update)
  ultimately have "sql_get (\<lambda>x. ou_id x = u) (sql_update (\<lambda>x. ou_id x = u) ?mark (or_ledger s)) = Some (?mark r)"
    using sql_get_key [of ou_id _ "?mark r"] r(2) by simp
  then show thesis using that [OF r] assms(1) by (simp add: upd Let_def sql_insert_def split: if_splits)
qed

lemma settle_usages_run:
  "settle_usages ids now us s = Inr s' \<Longrightarrow> has_key ou_id (or_ledger s) \<Longrightarrow> distinct us \<Longrightarrow>
     or_ledger s' = sql_update (\<lambda>r. ou_id r \<in> set us) (settle_usage_row (ri_settlement ids)) (or_ledger s)
   \<and> (\<exists>rows. map ou_id rows = us \<and> set rows \<subseteq> set (or_ledger s) \<and> (\<forall>r\<in>set rows. ou_status r = OrPending)
        \<and> or_items s' = or_items s @ map (or_item_of ids now) rows)
   \<and> set us \<inter> oi_usage ` set (or_items s) = {}
   \<and> or_settlements s' = or_settlements s \<and> or_invoices s' = or_invoices s \<and> or_topups s' = or_topups s \<and> or_alerts s' = or_alerts s"
proof (induction us arbitrary: s)
  case Nil
  then show ?case by (simp add: sql_update_def)
next
  case (Cons u us)
  obtain r where r: "r \<in> set (or_ledger s)" "ou_id r = u" "ou_status r = OrPending" "u \<notin> oi_usage ` set (or_items s)"
    and rest: "settle_usages ids now us
       (s\<lparr>or_ledger := sql_update (\<lambda>x. ou_id x = u) (settle_usage_row (ri_settlement ids)) (or_ledger s),
          or_items := or_items s @ [or_item_of ids now r]\<rparr>) = Inr s'"
    by (rule settle_step [OF Cons.prems(1,2)])
  have u: "u \<notin> set us" "distinct us" using Cons.prems(3) by simp_all
  let ?mark = "settle_usage_row (ri_settlement ids)"
  have k: "has_key ou_id (sql_update (\<lambda>x. ou_id x = u) ?mark (or_ledger s))" using Cons.prems(2) by (simp add: has_key_update)
  note IH = Cons.IH [OF rest _ u(2), simplified, OF k]
  obtain rows where rows: "map ou_id rows = us" "set rows \<subseteq> set (sql_update (\<lambda>x. ou_id x = u) ?mark (or_ledger s))"
    "\<forall>r\<in>set rows. ou_status r = OrPending" "or_items s' = or_items s @ map (or_item_of ids now) (r # rows)"
    using IH by auto
  have "set rows \<subseteq> set (or_ledger s)"
  proof
    fix x assume x: "x \<in> set rows"
    then have "ou_id x \<noteq> u" using rows(1) u(1) by auto
    then show "x \<in> set (or_ledger s)" using x rows(2) by (auto simp: set_sql_update dest!: subsetD split: if_splits)
  qed
  then have "map ou_id (r # rows) = u # us \<and> set (r # rows) \<subseteq> set (or_ledger s) \<and> (\<forall>r\<in>set (r # rows). ou_status r = OrPending)
      \<and> or_items s' = or_items s @ map (or_item_of ids now) (r # rows)" using rows r by simp
  moreover have "or_ledger s' = sql_update (\<lambda>r. ou_id r \<in> set (u # us)) ?mark (or_ledger s)"
  proof -
    have "or_ledger s' = sql_update (\<lambda>r. ou_id r \<in> set us) ?mark (sql_update (\<lambda>x. ou_id x = u) ?mark (or_ledger s))" using IH by blast
    also have "\<dots> = sql_update (\<lambda>r. ou_id r \<in> set (u # us)) ?mark (or_ledger s)"
      using u(1) by (auto simp: sql_update_def)
    finally show ?thesis .
  qed
  moreover have "set (u # us) \<inter> oi_usage ` set (or_items s) = {}" using IH r(4) by auto
  moreover have "or_settlements s' = or_settlements s" "or_invoices s' = or_invoices s" "or_topups s' = or_topups s" "or_alerts s' = or_alerts s"
    using IH by blast+
  ultimately show ?case by (intro conjI exI [of _ "r # rows"]) simp_all
qed


lemma insert_charge_run:
  "insert_charge ids now mode a s = Inr s' \<Longrightarrow>
   \<exists>c. oc_settlement c = ri_settlement ids \<and> oc_amount c = a
     \<and> s' = (case mode of OrInvoice \<Rightarrow> s\<lparr>or_invoices := or_invoices s @ [c]\<rparr> | OrAutoTopup \<Rightarrow> s\<lparr>or_topups := or_topups s @ [c]\<rparr>)"
  unfolding insert_charge_def Let_def sql_insert_def
  by (cases mode) (force split: if_splits)+

lemma createAlert_run:
  "createAlert fresh sid code msg now s = Inr s' \<Longrightarrow> \<exists>a. s' = s\<lparr>or_alerts := or_alerts s @ [a]\<rparr>"
  by (auto simp: createAlert_def sql_insert_def split: if_splits)

definition final_status :: "or_summary \<Rightarrow> or_settle_status" where
  "final_status m = (if sm_discrepancy m = 0 then OsCompleted else OsPartial)"

lemma settlement_tx_run:
  assumes "settlement_tx ids now mode cadence m s = Inr s'" "has_key ou_id (or_ledger s)" "distinct (sm_ids m)"
  obtains rows c v where "ri_settlement ids \<notin> os_id ` set (or_settlements s)"
    "or_ledger s' = sql_update (\<lambda>r. ou_id r \<in> set (sm_ids m)) (settle_usage_row (ri_settlement ids)) (or_ledger s)"
    "map ou_id rows = sm_ids m" "set rows \<subseteq> set (or_ledger s)" "\<forall>r\<in>set rows. ou_status r = OrPending"
    "or_items s' = or_items s @ map (or_item_of ids now) rows" "set (sm_ids m) \<inter> oi_usage ` set (or_items s) = {}"
    "or_settlements s' = or_settlements s @ [v]" "os_id v = ri_settlement ids" "os_status v = final_status m"
    "os_reconciled v = sm_reconciled m" "os_count v = int (length (sm_ids m))" "os_mode v = mode"
    "os_expected v = sm_expected m" "os_discrepancy v = sm_discrepancy m"
    "oc_settlement c = ri_settlement ids" "oc_amount c = sm_reconciled m"
    "or_invoices s' = or_invoices s @ (if mode = OrInvoice then [c] else [])"
    "or_topups s' = or_topups s @ (if mode = OrInvoice then [] else [c])"
proof -
  let ?s0 = "s\<lparr>or_settlements := or_settlements s @ [settlement_row ids now mode cadence m OsProcessing None None]\<rparr>"
  have new: "ri_settlement ids \<notin> os_id ` set (or_settlements s)" using assms(1) by (auto simp: settlement_tx_def split: if_splits)
  obtain s1 where s1: "settle_usages ids now (sm_ids m) ?s0 = Inr s1"
    using assms(1) new by (auto simp: settlement_tx_def sql_insert_def split: sum.splits)
  obtain s2 where s2: "insert_charge ids now mode (sm_reconciled m) s1 = Inr s2"
    using assms(1) new s1 by (auto simp: settlement_tx_def sql_insert_def split: sum.splits)
  have s3: "(if sm_discrepancy m \<noteq> 0 then createAlert (ri_alert ids) (ri_settlement ids) ''SETTLEMENT_DISCREPANCY'' (discrepancy_text m) now
       (finish_settlement ids now m s2) else Inr (finish_settlement ids now m s2)) = Inr s'"
    using assms(1) new s1 s2 by (simp add: settlement_tx_def sql_insert_def Let_def split: if_splits)
  obtain al where s': "s' = (finish_settlement ids now m s2)\<lparr>or_alerts := al\<rparr>"
  proof (cases "sm_discrepancy m = 0")
    case True
    then show ?thesis using s3 that [of "or_alerts (finish_settlement ids now m s2)"] by simp
  next
    case False
    then show ?thesis using s3 that createAlert_run [of "ri_alert ids" "ri_settlement ids" _ _ now _ s'] by fastforce
  qed
  obtain c where c: "oc_settlement c = ri_settlement ids" "oc_amount c = sm_reconciled m"
    "s2 = (case mode of OrInvoice \<Rightarrow> s1\<lparr>or_invoices := or_invoices s1 @ [c]\<rparr> | OrAutoTopup \<Rightarrow> s1\<lparr>or_topups := or_topups s1 @ [c]\<rparr>)"
    using insert_charge_run [OF s2] by blast
  note run = settle_usages_run [OF s1, simplified, OF assms(2,3)]
  obtain rows where rows: "map ou_id rows = sm_ids m" "set rows \<subseteq> set (or_ledger s)" "\<forall>r\<in>set rows. ou_status r = OrPending"
    "or_items s1 = or_items s @ map (or_item_of ids now) rows" using run by blast
  have keep: "sql_update (\<lambda>v. os_id v = ri_settlement ids) f (or_settlements s) = or_settlements s" for f
    using new by (intro sql_update_id) force
  show thesis
  proof (rule that [where rows = rows and c = c and v = "settlement_row ids now mode cadence m (final_status m)
      (if sm_discrepancy m = 0 then None else Some ''Discrepancy between expected and reconciled totals'') (Some now)"])
    show "ri_settlement ids \<notin> os_id ` set (or_settlements s)" by (rule new)
    show "map ou_id rows = sm_ids m" "set rows \<subseteq> set (or_ledger s)" "\<forall>r\<in>set rows. ou_status r = OrPending" by (rule rows)+
    show "set (sm_ids m) \<inter> oi_usage ` set (or_items s) = {}" using run by blast
  qed (use run rows c in \<open>cases mode; simp add: s' finish_settlement_def sql_update_def [where rows = "_ @ _"] settlement_row_def
      final_status_def keep [unfolded sql_update_def]\<close>)+
qed

section \<open>The books\<close>

definition item_key :: "or_item \<Rightarrow> string \<times> string \<times> int" where
  "item_key i = (oi_usage i, oi_settlement i, oi_cost i)"

definition usage_key :: "or_usage \<Rightarrow> string \<times> string \<times> int" where
  "usage_key r = (ou_id r, (case ou_settlement r of None \<Rightarrow> [] | Some k \<Rightarrow> k), ou_cost r)"

definition items_of :: "or_state \<Rightarrow> string \<Rightarrow> or_item list" where
  "items_of s k = filter (\<lambda>i. oi_settlement i = k) (or_items s)"

definition charges_of :: "or_state \<Rightarrow> string \<Rightarrow> or_charge list" where
  "charges_of s k = filter (\<lambda>c. oc_settlement c = k) (or_invoices s) @ filter (\<lambda>c. oc_settlement c = k) (or_topups s)"

definition settled_run :: "or_settlement \<Rightarrow> bool" where
  "settled_run v = (os_status v = OsCompleted \<or> os_status v = OsPartial)"

text \<open>What a settlement row promises: its items, their sum and one charge of that sum; nothing at all if it failed.\<close>

definition row_agrees :: "or_state \<Rightarrow> or_settlement \<Rightarrow> bool" where
  "row_agrees s v =
     (if settled_run v
      then items_of s (os_id v) \<noteq> [] \<and> int (length (items_of s (os_id v))) = os_count v
        \<and> sum_list (map oi_cost (items_of s (os_id v))) = os_reconciled v
        \<and> map oc_amount (charges_of s (os_id v)) = [os_reconciled v]
        \<and> os_discrepancy v = os_expected v - os_reconciled v \<and> (os_status v = OsCompleted) = (os_expected v = os_reconciled v)
      else items_of s (os_id v) = [] \<and> charges_of s (os_id v) = [])"

definition requests :: "or_usage list \<Rightarrow> string option list" where
  "requests rows = map ou_request (filter (\<lambda>r. ou_request r \<noteq> None) rows)"

definition or_ok :: "or_state \<Rightarrow> bool" where
  "or_ok s = (has_key ou_id (or_ledger s) \<and> has_key os_id (or_settlements s) \<and> distinct (requests (or_ledger s))
     \<and> has_key oi_usage (or_items s)
     \<and> (\<forall>r\<in>set (or_ledger s). ou_status r = OrPending \<longrightarrow> ou_settlement r = None)
     \<and> mset (map item_key (or_items s)) = mset (map usage_key (filter (\<lambda>r. ou_settlement r \<noteq> None) (or_ledger s)))
     \<and> oi_settlement ` set (or_items s) \<union> oc_settlement ` set (or_invoices s) \<union> oc_settlement ` set (or_topups s) \<subseteq> os_id ` set (or_settlements s)
     \<and> (\<forall>v\<in>set (or_settlements s). row_agrees s v))"

lemma or_okD:
  assumes "or_ok s"
  shows "has_key ou_id (or_ledger s)" "has_key os_id (or_settlements s)" "distinct (requests (or_ledger s))"
    "has_key oi_usage (or_items s)" "\<And>r. r \<in> set (or_ledger s) \<Longrightarrow> ou_status r = OrPending \<Longrightarrow> ou_settlement r = None"
    "mset (map item_key (or_items s)) = mset (map usage_key (filter (\<lambda>r. ou_settlement r \<noteq> None) (or_ledger s)))"
    "oi_settlement ` set (or_items s) \<union> oc_settlement ` set (or_invoices s) \<union> oc_settlement ` set (or_topups s) \<subseteq> os_id ` set (or_settlements s)"
    "\<And>v. v \<in> set (or_settlements s) \<Longrightarrow> row_agrees s v"
  using assms unfolding or_ok_def by blast+

lemma requests_update: "(\<And>r. ou_request (f r) = ou_request r) \<Longrightarrow> requests (sql_update P f rows) = requests rows"
  by (induction rows) (auto simp: requests_def sql_update_def)

lemma unused_settlement:
  assumes "or_ok s" "k \<notin> os_id ` set (or_settlements s)"
  shows "items_of s k = []" "charges_of s k = []"
  using or_okD(7) [OF assms(1)] assms(2) by (auto simp: items_of_def charges_of_def filter_empty_conv)

lemma settled_keys:
  assumes "\<And>r. r \<in> set rows \<Longrightarrow> P r \<Longrightarrow> ou_settlement r = None"
  shows "mset (map usage_key (filter (\<lambda>r. ou_settlement r \<noteq> None) (sql_update P (settle_usage_row k) rows)))
       = mset (map usage_key (filter (\<lambda>r. ou_settlement r \<noteq> None) rows)) + mset (map (\<lambda>r. (ou_id r, k, ou_cost r)) (filter P rows))"
  using assms by (induction rows) (auto simp: usage_key_def)

lemma same_rows:
  assumes "has_key key L" "set xs \<subseteq> set L" "set ys \<subseteq> set L" "map key xs = map key ys"
  shows "xs = ys"
proof (rule map_inj_on [OF assms(4)])
  show "inj_on key (set xs \<union> set ys)"
    by (rule inj_onI) (use has_key_eq [OF assms(1)] assms(2,3) in blast)
qed

lemma picked_rows:
  assumes "has_key ou_id L" "set rows \<subseteq> set L" "map ou_id rows = us" "distinct us"
  shows "mset (filter (\<lambda>r. ou_id r \<in> set us) L) = mset rows"
proof -
  have "distinct rows" using assms(3,4) by (metis distinct_map)
  moreover have "distinct (filter (\<lambda>r. ou_id r \<in> set us) L)" using assms(1) by (simp add: has_key_def distinct_map)
  moreover have "set (filter (\<lambda>r. ou_id r \<in> set us) L) = set rows"
    using assms(2,3) has_key_eq [OF assms(1)] by (auto; metis image_iff list.set_map subsetD)
  ultimately show ?thesis by (metis set_eq_iff_mset_eq_distinct)
qed


definition window :: "int \<Rightarrow> run_request \<Rightarrow> or_usage \<Rightarrow> bool" where
  "window now q = pending_in (case rr_from q of Some t \<Rightarrow> t | None \<Rightarrow> now - 24 * 3600 * 1000) (case rr_to q of Some t \<Rightarrow> t | None \<Rightarrow> now)"

abbreviation dry_run :: "int \<Rightarrow> run_request \<Rightarrow> or_state \<Rightarrow> or_summary" where
  "dry_run now q s \<equiv> computeDryRunSummary now (rr_from q) (rr_to q) (rr_expected q) s"

lemma dry_run_facts:
  "sm_ids (dry_run now q s) = map ou_id (sort_key ou_created (filter (window now q) (or_ledger s)))"
  "sm_reconciled (dry_run now q s) = sum_list (map ou_cost (sort_key ou_created (filter (window now q) (or_ledger s))))"
  "sm_discrepancy (dry_run now q s) = sm_expected (dry_run now q s) - sm_reconciled (dry_run now q s)"
  by (simp_all add: computeDryRunSummary_def Let_def sql_all_def window_def)

lemma distinct_ids: "has_key ou_id (or_ledger s) \<Longrightarrow> distinct (sm_ids (dry_run now q s))"
  unfolding dry_run_facts(1) has_key_def distinct_map by (auto elim: inj_on_subset)

lemma or_run_rows:
  assumes "has_key ou_id (or_ledger s)" "map ou_id rows = sm_ids (dry_run now q s)" "set rows \<subseteq> set (or_ledger s)"
  shows "rows = sort_key ou_created (filter (window now q) (or_ledger s))"
  by (rule same_rows [OF assms(1,3)]) (use assms(2) in \<open>auto simp: dry_run_facts\<close>)

lemma window_pending: "window now q r \<Longrightarrow> ou_status r = OrPending"
  by (simp add: window_def pending_in_def)

lemma agrees_other:
  assumes "row_agrees s v" "items_of s' (os_id v) = items_of s (os_id v)" "charges_of s' (os_id v) = charges_of s (os_id v)"
  shows "row_agrees s' v"
  using assms by (simp add: row_agrees_def)

lemma tx_ok:
  assumes ok: "or_ok s" and some: "sm_ids (dry_run now q s) \<noteq> []"
    and tx: "settlement_tx ids now mode cadence (dry_run now q s) s = Inr s'"
  shows "or_ok s'"
proof -
  let ?m = "dry_run now q s" and ?k = "ri_settlement ids" and ?mark = "settle_usage_row (ri_settlement ids)"
  note key = or_okD(1) [OF ok]
  obtain rows c v where new: "?k \<notin> os_id ` set (or_settlements s)"
    and led: "or_ledger s' = sql_update (\<lambda>r. ou_id r \<in> set (sm_ids ?m)) ?mark (or_ledger s)"
    and rows: "map ou_id rows = sm_ids ?m" "set rows \<subseteq> set (or_ledger s)" "\<forall>r\<in>set rows. ou_status r = OrPending"
    and its: "or_items s' = or_items s @ map (or_item_of ids now) rows" and fresh: "set (sm_ids ?m) \<inter> oi_usage ` set (or_items s) = {}"
    and sts: "or_settlements s' = or_settlements s @ [v]" and v: "os_id v = ?k" "os_status v = final_status ?m"
      "os_reconciled v = sm_reconciled ?m" "os_count v = int (length (sm_ids ?m))" "os_mode v = mode" "os_expected v = sm_expected ?m"
      "os_discrepancy v = sm_discrepancy ?m"
    and c: "oc_settlement c = ?k" "oc_amount c = sm_reconciled ?m"
    and inv: "or_invoices s' = or_invoices s @ (if mode = OrInvoice then [c] else [])"
      "or_topups s' = or_topups s @ (if mode = OrInvoice then [] else [c])"
    by (rule settlement_tx_run [OF tx key distinct_ids [OF key]])
  have d: "distinct (sm_ids ?m)" by (rule distinct_ids [OF key])
  have pend: "ou_settlement r = None" if a: "r \<in> set (or_ledger s)" "ou_id r \<in> set (sm_ids ?m)" for r
  proof -
    obtain r' where "r' \<in> set rows" "ou_id r' = ou_id r" using a(2) rows(1) by (metis image_iff list.set_map)
    then have "r' = r" using has_key_eq [OF key] rows(2) a(1) by blast
    then show ?thesis using or_okD(5) [OF ok a(1)] rows(3) \<open>r' \<in> set rows\<close> by simp
  qed
  have "mset (map item_key (or_items s')) = mset (map usage_key (filter (\<lambda>r. ou_settlement r \<noteq> None) (or_ledger s')))"
  proof -
    let ?key = "\<lambda>r. (ou_id r, ?k, ou_cost r)" and ?P = "\<lambda>r. ou_id r \<in> set (sm_ids ?m)"
    have "map item_key (map (or_item_of ids now) rows) = map ?key rows" by (simp add: item_key_def or_item_of_def)
    then have "mset (map item_key (or_items s')) = mset (map item_key (or_items s)) + mset (map ?key rows)"
      by (simp only: its map_append mset_append)
    moreover have "mset (map ?key (filter ?P (or_ledger s))) = mset (map ?key rows)"
      using picked_rows [OF key rows(2,1) d] by (simp only: mset_map)
    moreover have "mset (map usage_key (filter (\<lambda>r. ou_settlement r \<noteq> None) (or_ledger s')))
        = mset (map usage_key (filter (\<lambda>r. ou_settlement r \<noteq> None) (or_ledger s))) + mset (map ?key (filter ?P (or_ledger s)))"
      unfolding led by (rule settled_keys) (rule pend)
    ultimately show ?thesis using or_okD(6) [OF ok] by (simp only:)
  qed
  moreover have "has_key oi_usage (or_items s')"
  proof -
    have "map oi_usage (map (or_item_of ids now) rows) = sm_ids ?m" using rows(1) by (simp add: or_item_of_def o_def)
    then show ?thesis using or_okD(4) [OF ok] d fresh unfolding has_key_def its
      by (metis distinct_append inf_commute list.set_map map_append)
  qed
  moreover have "row_agrees s' u" if "u \<in> set (or_settlements s')" for u
  proof (cases "os_id u = ?k")
    case True
    then have [simp]: "u = v" using that new sts by force
    have "items_of s' ?k = map (or_item_of ids now) rows" "map oc_amount (charges_of s' ?k) = [sm_reconciled ?m]"
      using unused_settlement [OF ok new] c by (auto simp: items_of_def charges_of_def its inv or_item_of_def filter_map o_def)
    moreover have "sum_list (map ou_cost rows) = sm_reconciled ?m"
      using or_run_rows [OF key rows(1,2)] by (simp add: dry_run_facts)
    moreover have "length rows = length (sm_ids ?m)" "rows \<noteq> []" using rows(1) some by (metis length_map, auto)
    ultimately show ?thesis
      using v by (simp add: row_agrees_def settled_run_def final_status_def or_item_of_def o_def dry_run_facts(3))
  next
    case False
    then have u: "u \<in> set (or_settlements s)" using that v(1) sts by auto
    have "items_of s' (os_id u) = items_of s (os_id u)" "charges_of s' (os_id u) = charges_of s (os_id u)"
      using False c(1) by (auto simp: items_of_def charges_of_def its inv or_item_of_def filter_empty_conv)
    then show ?thesis by (rule agrees_other [OF or_okD(8) [OF ok u]])
  qed
  moreover have "oi_settlement ` set (or_items s') \<union> oc_settlement ` set (or_invoices s') \<union> oc_settlement ` set (or_topups s')
      \<subseteq> os_id ` set (or_settlements s')"
    using or_okD(7) [OF ok] v(1) c(1) by (auto simp: its inv sts or_item_of_def)
  moreover have "has_key ou_id (or_ledger s')" "distinct (requests (or_ledger s'))"
    using key or_okD(3) [OF ok] by (simp_all add: led has_key_update requests_update)
  moreover have "has_key os_id (or_settlements s')"
    using or_okD(2) [OF ok] new v(1) by (simp add: sts has_key_def)
  moreover have "ou_settlement r = None" if "r \<in> set (or_ledger s')" "ou_status r = OrPending" for r
    using that or_okD(5) [OF ok] by (auto simp: led set_sql_update split: if_splits)
  ultimately show ?thesis unfolding or_ok_def by blast
qed

lemma record_failure_run:
  assumes "ri_settlement ids \<notin> os_id ` set (or_settlements s)"
  obtains al where "record_failure ids now mode cadence m e s
    = s\<lparr>or_settlements := or_settlements s @ [settlement_row ids now mode cadence m OsFailed (Some (take 500 e)) (Some now)], or_alerts := al\<rparr>"
proof -
  have "filter (\<lambda>v. os_id v \<noteq> ri_settlement ids) (or_settlements s) = or_settlements s"
    using assms by (intro filter_True) force
  then have f: "record_failure ids now mode cadence m e s =
      (let s1 = s\<lparr>or_settlements := or_settlements s @ [settlement_row ids now mode cadence m OsFailed (Some (take 500 e)) (Some now)]\<rparr>
       in case createAlert (ri_alert ids) (ri_settlement ids) ''SETTLEMENT_EXECUTION_FAILED'' e now s1 of Inl _ \<Rightarrow> s1 | Inr s2 \<Rightarrow> s2)"
    by (simp add: record_failure_def sql_insert_def)
  show thesis
  proof (cases "createAlert (ri_alert ids) (ri_settlement ids) ''SETTLEMENT_EXECUTION_FAILED'' e now
      (s\<lparr>or_settlements := or_settlements s @ [settlement_row ids now mode cadence m OsFailed (Some (take 500 e)) (Some now)]\<rparr>)")
    case (Inl x)
    then show ?thesis using that [of "or_alerts s"] by (simp add: f)
  next
    case (Inr s2)
    then obtain a where "s2 = s\<lparr>or_settlements := or_settlements s @ [settlement_row ids now mode cadence m OsFailed (Some (take 500 e)) (Some now)],
        or_alerts := or_alerts s @ [a]\<rparr>" using createAlert_run [OF Inr] by auto
    then show ?thesis using that [of "or_alerts s @ [a]"] Inr by (simp add: f)
  qed
qed

lemma failure_ok:
  assumes ok: "or_ok s" and new: "ri_settlement ids \<notin> os_id ` set (or_settlements s)"
  shows "or_ok (record_failure ids now mode cadence m e s)"
proof -
  let ?v = "settlement_row ids now mode cadence m OsFailed (Some (take 500 e)) (Some now)"
  obtain al where f: "record_failure ids now mode cadence m e s = s\<lparr>or_settlements := or_settlements s @ [?v], or_alerts := al\<rparr>" (is "_ = ?s")
    by (rule record_failure_run [OF new])
  have same: "items_of ?s k = items_of s k" "charges_of ?s k = charges_of s k" for k
    by (simp_all add: items_of_def charges_of_def)
  have v: "os_status ?v = OsFailed" "os_id ?v = ri_settlement ids" by (simp_all add: settlement_row_def)
  have "row_agrees ?s ?v" using unused_settlement [OF ok new]
    by (simp add: row_agrees_def settled_run_def same v)
  moreover have "row_agrees ?s u" if "u \<in> set (or_settlements s)" for u
    by (rule agrees_other [OF or_okD(8) [OF ok that]]) (simp_all add: same)
  moreover have "has_key os_id (or_settlements s @ [?v])"
    using or_okD(2) [OF ok] new by (simp add: has_key_def settlement_row_def)
  ultimately show ?thesis
    using or_okD(1,3-7) [OF ok] unfolding f or_ok_def by (simp add: le_supI1 subset_insertI2)
qed

lemma execute_ok:
  assumes "or_ok s" "ri_settlement ids \<notin> os_id ` set (or_settlements s)"
  shows "or_ok (fst (executeOpenRouterSettlement ids now q s))"
  using assms tx_ok [OF assms(1)] failure_ok [OF assms]
  by (auto simp: executeOpenRouterSettlement_def Let_def split: sum.splits)

lemma usage_row_facts:
  "ou_id (usage_row fresh now u n) = fresh" "ou_settlement (usage_row fresh now u n) = None"
  "ou_request (usage_row fresh now u n) = text_or_null (clean_text 200 (ui_request u))"
  by (simp_all add: usage_row_def Let_def)

lemma record_ok:
  assumes ok: "or_ok s"
  shows "or_ok (fst (recordOpenRouterUsage fresh now u s))"
proof (cases "\<exists>n. fst (recordOpenRouterUsage fresh now u s) = s\<lparr>or_ledger := or_ledger s @ [usage_row fresh now u n]\<rparr>
    \<and> fresh \<notin> ou_id ` set (or_ledger s) \<and> (\<forall>k. text_or_null (clean_text 200 (ui_request u)) = Some k \<longrightarrow> Some k \<notin> ou_request ` set (or_ledger s))")
  case True
  then obtain n where r: "fst (recordOpenRouterUsage fresh now u s) = s\<lparr>or_ledger := or_ledger s @ [usage_row fresh now u n]\<rparr>" (is "_ = ?s")
    and new: "fresh \<notin> ou_id ` set (or_ledger s)" "\<And>k. text_or_null (clean_text 200 (ui_request u)) = Some k \<Longrightarrow> Some k \<notin> ou_request ` set (or_ledger s)"
    by blast
  have "distinct (requests (or_ledger ?s))"
    using or_okD(3) [OF ok] new(2) by (force simp: requests_def usage_row_facts)
  moreover have "row_agrees ?s v" if "v \<in> set (or_settlements s)" for v
    by (rule agrees_other [OF or_okD(8) [OF ok that]]) (simp_all add: items_of_def charges_of_def)
  ultimately show ?thesis
    using or_okD(1,2,4-7) [OF ok] new(1) unfolding r or_ok_def by (auto simp: has_key_def usage_row_facts)
next
  case False
  then have "fst (recordOpenRouterUsage fresh now u s) = s"
    by (auto simp: recordOpenRouterUsage_def Let_def sql_insert_def text_or_null_def sql_get_None image_iff dest: sql_get_Some split: option.splits if_splits)
  then show ?thesis using ok by simp
qed

section \<open>Sequences\<close>

datatype or_event = OrRecord string int usage_input | OrRun run_ids int run_request

text \<open>A settlement UUID that is in use is never drawn again.\<close>

fun or_step :: "or_state \<Rightarrow> or_event \<Rightarrow> or_state" where
  "or_step s (OrRecord fresh now u) = fst (recordOpenRouterUsage fresh now u s)"
| "or_step s (OrRun ids now q) =
     (if ri_settlement ids \<in> os_id ` set (or_settlements s) then s else fst (executeOpenRouterSettlement ids now q s))"

interpretation or_books: preserved or_step or_ok
proof
  show "or_ok (or_step s e)" if "or_ok s" for s e
    using that by (cases e) (simp_all add: record_ok execute_ok)
qed

text \<open>
  C29: Usage, items, settlements and charges agree for ever. After any sequence of recordings and runs,
  each request id has one usage row, each usage has at most one item, the items are exactly
  the usages that a run settled at exactly their cost, and every settlement that did not fail has one
  invoice or top-up of exactly the sum of its items; a failed one has neither items nor charge.
\<close>

theorem openrouter_books:
  assumes "or_ok s" "s' = foldl or_step s es"
  shows "distinct (requests (or_ledger s')) \<and> distinct (map oi_usage (or_items s'))
    \<and> mset (map item_key (or_items s')) = mset (map usage_key (filter (\<lambda>r. ou_settlement r \<noteq> None) (or_ledger s')))
    \<and> (\<forall>v\<in>set (or_settlements s').
         if settled_run v
         then sum_list (map oi_cost (items_of s' (os_id v))) = os_reconciled v \<and> map oc_amount (charges_of s' (os_id v)) = [os_reconciled v]
           \<and> (os_status v = OsCompleted) = (os_expected v = os_reconciled v)
         else items_of s' (os_id v) = [] \<and> charges_of s' (os_id v) = [])"
proof -
  have ok: "or_ok s'" unfolding assms(2) by (rule or_books.inv_run_all [OF assms(1)])
  then have "\<forall>v\<in>set (or_settlements s'). row_agrees s' v" by (simp add: or_okD(8))
  then show ?thesis using or_okD(3,4,6) [OF ok] by (auto simp: row_agrees_def has_key_def)
qed

text \<open>
  A run settles the pending usage of its period, or nothing. When it is done, exactly the pending
  usages of the period are marked with the new settlement, one charge is for their sum, and the
  settlement is completed when that is what was expected and partial otherwise. When it fails, ledger,
  items, invoices and top-ups are as before; and it does nothing exactly when nothing is pending.
\<close>

theorem settlement_run_settles:
  assumes "or_ok s" "executeOpenRouterSettlement ids now q s = (s', r)" "ri_settlement ids \<notin> os_id ` set (or_settlements s)"
  shows "case r of
      NothingPending m \<Rightarrow> s' = s \<and> filter (window now q) (or_ledger s) = []
    | RunFailed m e \<Rightarrow> or_ledger s' = or_ledger s \<and> or_items s' = or_items s \<and> or_invoices s' = or_invoices s
        \<and> or_topups s' = or_topups s \<and> map os_status (or_settlements s') = map os_status (or_settlements s) @ [OsFailed]
    | RunDone m \<Rightarrow> filter (window now q) (or_ledger s) \<noteq> []
        \<and> or_ledger s' = sql_update (window now q) (settle_usage_row (ri_settlement ids)) (or_ledger s)
        \<and> map oc_amount (charges_of s' (ri_settlement ids)) = [sql_sum (window now q) ou_cost (or_ledger s)]
        \<and> map os_status (or_settlements s') = map os_status (or_settlements s)
            @ [if sm_expected m = sql_sum (window now q) ou_cost (or_ledger s) then OsCompleted else OsPartial]"
proof (cases r)
  case (NothingPending m)
  then have "s' = s \<and> sort_key ou_created (filter (window now q) (or_ledger s)) = []" using assms(2)
    by (auto simp: executeOpenRouterSettlement_def Let_def dry_run_facts split: if_splits sum.splits)
  moreover from this have "set (filter (window now q) (or_ledger s)) = {}" by (metis list.set(1) set_sort)
  ultimately show ?thesis using NothingPending by simp
next
  case (RunFailed m e)
  obtain c where s': "s' = record_failure ids now (run_mode q) c m e s"
    using assms(2) RunFailed by (auto simp: executeOpenRouterSettlement_def Let_def split: if_splits sum.splits)
  obtain al where "s' = s\<lparr>or_settlements := or_settlements s @ [settlement_row ids now (run_mode q) c m OsFailed (Some (take 500 e)) (Some now)],
      or_alerts := al\<rparr>" unfolding s' by (rule record_failure_run [OF assms(3)])
  then show ?thesis using RunFailed by (simp add: settlement_row_def)
next
  case (RunDone m)
  let ?m = "dry_run now q s" and ?L = "or_ledger s"
  note key = or_okD(1) [OF assms(1)]
  have ex: "executeOpenRouterSettlement ids now q s = (s', RunDone m)" using assms(2) RunDone by simp
  define cad where "cad = (case rr_cadence q of Some c \<Rightarrow> take 24 c | None \<Rightarrow> ''daily'')"
  have run: "executeOpenRouterSettlement ids now q s = (if sm_ids ?m = [] then (s, NothingPending ?m)
      else (case settlement_tx ids now (run_mode q) cad ?m s of
        Inl e \<Rightarrow> (record_failure ids now (run_mode q) cad ?m e s, RunFailed ?m e) | Inr t \<Rightarrow> (t, RunDone ?m)))"
    by (simp only: executeOpenRouterSettlement_def Let_def cad_def)
  have some: "sm_ids ?m \<noteq> []" using ex run by (cases "sm_ids ?m = []") simp_all
  have tx: "settlement_tx ids now (run_mode q) cad ?m s = Inr s'" and m: "m = ?m"
  proof -
    have "(case settlement_tx ids now (run_mode q) cad ?m s of
        Inl e \<Rightarrow> (record_failure ids now (run_mode q) cad ?m e s, RunFailed ?m e) | Inr t \<Rightarrow> (t, RunDone ?m)) = (s', RunDone m)"
      using ex unfolding run if_not_P [OF some] .
    then show "settlement_tx ids now (run_mode q) cad ?m s = Inr s'" "m = ?m"
      by (cases "settlement_tx ids now (run_mode q) cad ?m s"; simp)+
  qed
  obtain rows c v where led: "or_ledger s' = sql_update (\<lambda>r. ou_id r \<in> set (sm_ids ?m)) (settle_usage_row (ri_settlement ids)) ?L"
    and sts: "or_settlements s' = or_settlements s @ [v]" "os_status v = final_status ?m"
    and c: "oc_settlement c = ri_settlement ids" "oc_amount c = sm_reconciled ?m"
    and inv: "or_invoices s' = or_invoices s @ (if run_mode q = OrInvoice then [c] else [])"
      "or_topups s' = or_topups s @ (if run_mode q = OrInvoice then [] else [c])"
    by (rule settlement_tx_run [OF tx key distinct_ids [OF key]])
  have "(ou_id r \<in> set (sm_ids ?m)) = window now q r" if "r \<in> set ?L" for r
    using has_key_eq [OF key that] that by (auto simp: dry_run_facts(1))
  then have "or_ledger s' = sql_update (window now q) (settle_usage_row (ri_settlement ids)) ?L"
    unfolding led sql_update_def by (intro map_cong) simp_all
  moreover have total: "sm_reconciled ?m = sql_sum (window now q) ou_cost ?L"
    unfolding dry_run_facts(2) sql_sum_def by (metis mset_map mset_sort sum_mset_sum_list)
  moreover have "map oc_amount (charges_of s' (ri_settlement ids)) = [sm_reconciled ?m]"
    using unused_settlement(2) [OF assms(1,3)] c by (auto simp: charges_of_def inv)
  moreover have "filter (window now q) ?L \<noteq> []" using some by (auto simp: dry_run_facts(1))
  moreover have "final_status ?m = (if sm_expected ?m = sql_sum (window now q) ou_cost ?L then OsCompleted else OsPartial)"
    using dry_run_facts(3) [of now q s] total by (simp add: final_status_def)
  ultimately show ?thesis using RunDone m sts by simp
qed

text \<open>A caller that gives no USD amounts, as \<open>routes/vllm.js\<close>, has 0 stored whatever the cost: the fallback is not reached.\<close>

lemma missing_usd_is_zero: "ui_usd_total u = None \<Longrightarrow> ou_usd_total (usage_row fresh now u n) = 0"
  by (simp add: usage_row_def Let_def toCanonicalUsdString_def to_fixed_def floor_eq_iff)

section \<open>Witnesses\<close>

definition no_usage :: usage_input where
  "no_usage = \<lparr>ui_request = Some ''req-1'', ui_response = None, ui_job = None, ui_path = None, ui_key = None, ui_key_type = None,
     ui_prompt_cost = None, ui_completion_cost = None, ui_rate = Some 3, ui_usd_prompt = None, ui_usd_completion = None,
     ui_usd_total = None, ui_renter = Some 1, ui_provider = Some 7, ui_model = Some ''m'', ui_source = Some ''v1'',
     ui_prompt = Some 100, ui_completion = Some 50, ui_total = None, ui_cost = None, ui_currency = ''SAR'', ui_status = ''pending''\<rparr>"

definition no_state :: or_state where
  "no_state = \<lparr>or_ledger = [], or_settlements = [], or_items = [], or_invoices = [], or_topups = [], or_alerts = []\<rparr>"

definition demo_ids :: run_ids where
  "demo_ids = \<lparr>ri_settlement = ''orset_1'', ri_item = (\<lambda>u. u @ ''-item''), ri_charge = ''orinv_1'', ri_alert = ''oralert_1''\<rparr>"

definition demo_run_request :: run_request where
  "demo_run_request = \<lparr>rr_from = Some 0, rr_to = Some 2000, rr_mode = ''invoice'', rr_cadence = None, rr_expected = Some 400\<rparr>"

definition demo_trace :: "or_event list" where
  "demo_trace = [OrRecord ''oru_1'' 1000 no_usage, OrRecord ''oru_2'' 1100 no_usage, OrRun demo_ids 2000 demo_run_request]"

text \<open>The second request is a replay; the run settles 450 halala where 400 were expected.\<close>

lemma demo_trace_run:
  "map ou_cost (or_ledger (foldl or_step no_state demo_trace)) = [450]"
  "map os_status (or_settlements (foldl or_step no_state demo_trace)) = [OsPartial]"
  by code_simp+

lemma no_state_ok: "or_ok no_state"
  by (simp add: or_ok_def no_state_def has_key_def requests_def)

theorem openrouter_books_witness:
  "let s = foldl or_step no_state demo_trace in
   map os_status (or_settlements s) = [OsPartial] \<and> distinct (map oi_usage (or_items s))
   \<and> (\<forall>v\<in>set (or_settlements s). map oc_amount (charges_of s (os_id v)) = [os_reconciled v])"
proof -
  have "\<forall>v\<in>set (or_settlements (foldl or_step no_state demo_trace)). settled_run v"
    using demo_trace_run(2) by (auto simp: settled_run_def)
  then show ?thesis using openrouter_books [OF no_state_ok refl, of demo_trace] demo_trace_run(2) by (simp add: Let_def)
qed

definition demo_pending :: or_state where
  "demo_pending = or_step no_state (OrRecord ''oru_1'' 1000 no_usage)"

lemma demo_pending_run:
  "case snd (executeOpenRouterSettlement demo_ids 2000 demo_run_request demo_pending) of RunDone m \<Rightarrow> sm_expected m = 400 | _ \<Rightarrow> False"
  "sql_sum (window 2000 demo_run_request) ou_cost (or_ledger demo_pending) = 450"
  by code_simp+

theorem settlement_run_settles_witness:
  "\<exists>s' m. executeOpenRouterSettlement demo_ids 2000 demo_run_request demo_pending = (s', RunDone m)
     \<and> map oc_amount (charges_of s' ''orset_1'') = [450] \<and> map os_status (or_settlements s') = [OsPartial]"
proof -
  obtain s' m where r: "executeOpenRouterSettlement demo_ids 2000 demo_run_request demo_pending = (s', RunDone m)" "sm_expected m = 400"
    using demo_pending_run(1) by (cases "executeOpenRouterSettlement demo_ids 2000 demo_run_request demo_pending") (auto split: run_answer.splits)
  have "or_ok demo_pending" unfolding demo_pending_def by (rule or_books.inv_run [OF no_state_ok])
  moreover have "or_settlements demo_pending = []"
    by (simp add: demo_pending_def recordOpenRouterUsage_def Let_def no_state_def split: option.splits)
  ultimately show ?thesis
    using settlement_run_settles [OF _ r(1)] r demo_pending_run(2) by (simp add: demo_ids_def)
qed

end
