(* ===== verification/AutoTopup.thy ===== *)
theory AutoTopup
  imports Schema Contracts Samples
begin

text \<open>
  \<open>backend/src/services/autoTopupService.js\<close>: recharging a balance from a saved card.
  \<open>maybeTrigger\<close> is split at its \<open>await\<close> on Moyasar: \<open>trigger_begin\<close> takes every
  decision and records the attempt, \<open>trigger_end\<close> settles it with the answer. The
  attempt ids come from \<open>randomBytes\<close>. E-mails and the stored raw responses are left out.
\<close>

definition MAX_CONSECUTIVE_FAILURES :: int where "MAX_CONSECUTIVE_FAILURES = 3"
definition PAUSE_AFTER_FAILURES_HOURS :: int where "PAUSE_AFTER_FAILURES_HOURS = 24"

section \<open>Settings\<close>

definition update_renter :: "int \<Rightarrow> (renter_row \<Rightarrow> renter_row) \<Rightarrow> db \<Rightarrow> db" where
  "update_renter i f d = d\<lparr>renters := sql_update (\<lambda>r. rn_id r = i) f (renters d)\<rparr>"

definition update_attempt :: "string \<Rightarrow> (topup_attempt \<Rightarrow> topup_attempt) \<Rightarrow> db \<Rightarrow> db" where
  "update_attempt i f d = d\<lparr>topups := sql_update (\<lambda>a. ta_id a = i) f (topups d)\<rparr>"

definition text_or_null :: "string option \<Rightarrow> string option" where
  "text_or_null s = (if truthy_str s then s else None)"

datatype topup_error = TokenRequired | TopupInvalidAmount | TopupInvalidThreshold | CapBelowAmount | NoCardOnFile

definition saveCardToken ::
    "db \<Rightarrow> int \<Rightarrow> string option \<Rightarrow> string option \<Rightarrow> string option \<Rightarrow> int \<Rightarrow> topup_error + db" where
  "saveCardToken d renter token brand last4 now =
     (if \<not> truthy_str token then Inl TokenRequired
      else Inr (update_renter renter (\<lambda>r. r\<lparr>rn_card_token := token, rn_card_brand := text_or_null brand,
              rn_card_last4 := text_or_null last4, rn_card_saved_at := Some now,
              rn_at_failures := 0, rn_at_paused_until := None\<rparr>) d))"

definition updateSettings ::
    "db \<Rightarrow> int \<Rightarrow> bool \<Rightarrow> js_num \<Rightarrow> js_num \<Rightarrow> js_num \<Rightarrow> topup_error + db" where
  "updateSettings d renter enabled threshold amount cap =
     (let t = floor0 threshold; a = floor0 amount; c = floor0 cap
      in if enabled \<and> a \<le> 0 then Inl TopupInvalidAmount
         else if enabled \<and> t \<le> 0 then Inl TopupInvalidThreshold
         else if enabled \<and> c > 0 \<and> c < a then Inl CapBelowAmount
         else if enabled \<and> (case renter_by_id d renter of None \<Rightarrow> True
                            | Some r \<Rightarrow> \<not> truthy_str (rn_card_token r)) then Inl NoCardOnFile
         else Inr (update_renter renter (\<lambda>r. r\<lparr>rn_at_enabled := enabled, rn_at_threshold := t,
                 rn_at_amount := a, rn_at_cap := c\<rparr>) d))"

section \<open>The decision\<close>

definition shouldResetMonthly :: "renter_row \<Rightarrow> int \<Rightarrow> bool" where
  "shouldResetMonthly r now = (case rn_at_reset_at r of None \<Rightarrow> True | Some t \<Rightarrow> t < month_start now)"

definition isPaused :: "renter_row \<Rightarrow> int \<Rightarrow> bool" where
  "isPaused r now = (case rn_at_paused_until r of None \<Rightarrow> False | Some t \<Rightarrow> t > now)"

datatype skip_reason =
  RenterNotFound | NotEnabled | NoCard | NoAmount | AboveThreshold | Paused | CapReached | SoftLock

record charge =
  ch_attempt :: string
  ch_renter :: int
  ch_amount :: int
  ch_token :: string

definition new_attempt :: "string \<Rightarrow> int \<Rightarrow> int \<Rightarrow> string \<Rightarrow> int \<Rightarrow> int \<Rightarrow> topup_attempt" where
  "new_attempt aid renter amount why before now =
     \<lparr>ta_id = aid, ta_renter = renter, ta_amount = amount, ta_status = AtInitiated, ta_moyasar_id = None,
      ta_reason = why, ta_before = Some before, ta_after = None, ta_error_code = None, ta_error = None,
      ta_created_at = now, ta_completed_at = None\<rparr>"

definition recordAttempt ::
    "db \<Rightarrow> string \<Rightarrow> int \<Rightarrow> int \<Rightarrow> attempt_status \<Rightarrow> string \<Rightarrow> int \<Rightarrow> int \<Rightarrow> string option \<Rightarrow> int \<Rightarrow> db" where
  "recordAttempt d aid renter amount st why before after err now =
     d\<lparr>topups := sql_insert
         \<lparr>ta_id = aid, ta_renter = renter, ta_amount = amount, ta_status = st, ta_moyasar_id = None,
          ta_reason = why, ta_before = Some before, ta_after = Some after, ta_error_code = None,
          ta_error = text_or_null err, ta_created_at = now, ta_completed_at = Some now\<rparr> (topups d)\<rparr>"

definition reset_month :: "int \<Rightarrow> renter_row \<Rightarrow> renter_row" where
  "reset_month now r = (if shouldResetMonthly r now
     then r\<lparr>rn_at_used := Some 0, rn_at_reset_at := Some (month_start now)\<rparr> else r)"

definition cap_blocks :: "renter_row \<Rightarrow> bool" where
  "cap_blocks r = (rn_at_cap r > 0 \<and> rn_at_cap r - or0 (rn_at_used r) < rn_at_amount r)"

definition locked :: "renter_row \<Rightarrow> int \<Rightarrow> bool" where
  "locked r now = (case rn_at_last_attempt r of None \<Rightarrow> False | Some t \<Rightarrow> now - t < 60 * 1000)"

definition trigger_begin :: "db \<Rightarrow> int \<Rightarrow> int \<Rightarrow> string \<Rightarrow> string \<Rightarrow> db \<times> (skip_reason + charge)" where
  "trigger_begin d renter now why aid =
     (case renter_by_id d renter of
        None \<Rightarrow> (d, Inl RenterNotFound)
      | Some r0 \<Rightarrow>
        if \<not> rn_at_enabled r0 then (d, Inl NotEnabled)
        else if \<not> truthy_str (rn_card_token r0) then (d, Inl NoCard)
        else if rn_at_amount r0 \<le> 0 then (d, Inl NoAmount)
        else if rn_balance r0 \<ge> rn_at_threshold r0 then (d, Inl AboveThreshold)
        else if isPaused r0 now then (d, Inl Paused)
        else
          (let d1 = (if shouldResetMonthly r0 now
                     then update_renter renter (\<lambda>r. r\<lparr>rn_at_used := Some 0,
                            rn_at_reset_at := Some (month_start now)\<rparr>) d else d);
               r = reset_month now r0
           in if cap_blocks r
              then (recordAttempt d1 aid renter (rn_at_amount r) AtCapped why (rn_balance r) (rn_balance r)
                      (Some ''Monthly cap reached'') now, Inl CapReached)
              else if locked r now then (d1, Inl SoftLock)
              else
                (let d2 = update_renter renter (\<lambda>r. r\<lparr>rn_at_last_attempt := Some now\<rparr>) d1;
                     d3 = d2\<lparr>topups := sql_insert
                            (new_attempt aid renter (rn_at_amount r) why (rn_balance r) now) (topups d2)\<rparr>
                 in (d3, Inr \<lparr>ch_attempt = aid, ch_renter = renter, ch_amount = rn_at_amount r,
                              ch_token = the (rn_card_token r)\<rparr>))))"

section \<open>The answer\<close>

datatype moyasar_answer =
  NetError "int option" string                       \<comment> \<open>HTTP status, message\<close>
| Answered string string "string option"             \<comment> \<open>id, status, source message\<close>

datatype trigger_result =
  Skipped skip_reason
| TopupPaid string
| Needs3ds string
| TopupFailed string

definition pay_id :: "string \<Rightarrow> string" where
  \<comment> \<open>\<open>pay_at_\<close> and the attempt id without its \<open>at_\<close>\<close>
  "pay_id aid = ''pay_at_'' @ drop 3 aid"

definition insert_payment :: "payment_row \<Rightarrow> db \<Rightarrow> db" where
  \<comment> \<open>\<open>INSERT OR IGNORE\<close> on a table with two unique columns\<close>
  "insert_payment p d =
     (if py_payment_id p \<in> set (map py_payment_id (payments d))
         \<or> (py_moyasar_id p \<noteq> None \<and> py_moyasar_id p \<in> set (map py_moyasar_id (payments d)))
      then d else d\<lparr>payments := sql_insert p (payments d)\<rparr>)"

definition topup_payment :: "string \<Rightarrow> string \<Rightarrow> int \<Rightarrow> int \<Rightarrow> string \<Rightarrow> int \<Rightarrow> int option \<Rightarrow> payment_row" where
  "topup_payment aid mid renter amount st now confirmed =
     \<lparr>py_payment_id = pay_id aid, py_moyasar_id = Some mid, py_renter = renter, py_amount = amount,
      py_status = st, py_source = ''auto_topup'', py_created_at = now, py_confirmed_at = confirmed,
      py_refunded_at = None, py_refund_amount = None\<rparr>"

definition finalizePaid :: "db \<Rightarrow> int \<Rightarrow> string \<Rightarrow> int \<Rightarrow> string \<Rightarrow> int \<Rightarrow> db" where
  "finalizePaid d renter aid amount mid now =
     (let d1 = update_renter renter (\<lambda>r. r\<lparr>rn_balance := rn_balance r + amount, rn_updated_at := Some now,
                 rn_at_failures := 0, rn_at_paused_until := None\<rparr>) d;
          d2 = update_renter renter (\<lambda>r. r\<lparr>rn_at_used := Some (or0 (rn_at_used r) + amount)\<rparr>) d1;
          d3 = update_attempt aid (\<lambda>a. a\<lparr>ta_status := AtPaid, ta_moyasar_id := Some mid,
                 ta_after := Some (balance_of d2 renter), ta_completed_at := Some now\<rparr>) d2
      in insert_payment (topup_payment aid mid renter amount ''paid'' now (Some now)) d3)"

definition error_code :: "int option \<Rightarrow> string" where
  "error_code st = (case st of Some c \<Rightarrow> if c = 0 then ''network'' else ''http_'' @ dec c | None \<Rightarrow> ''network'')"

definition failures_next :: "db \<Rightarrow> int \<Rightarrow> int" where
  "failures_next d renter = (case renter_by_id d renter of None \<Rightarrow> 0 | Some r \<Rightarrow> rn_at_failures r) + 1"

definition finalizeFailure :: "db \<Rightarrow> int \<Rightarrow> string \<Rightarrow> int option \<Rightarrow> string \<Rightarrow> int \<Rightarrow> db" where
  "finalizeFailure d renter aid http msg now =
     (let n = failures_next d renter;
          pausedUntil = (if n \<ge> MAX_CONSECUTIVE_FAILURES
                         then Some (now + PAUSE_AFTER_FAILURES_HOURS * 3600 * 1000) else None);
          d1 = update_renter renter (\<lambda>r. r\<lparr>rn_at_failures := n, rn_at_paused_until := pausedUntil\<rparr>) d
      in update_attempt aid (\<lambda>a. a\<lparr>ta_status := AtFailed, ta_error_code := Some (error_code http),
           ta_error := Some (take 500 (if msg = [] then ''unknown'' else msg)), ta_completed_at := Some now\<rparr>) d1)"

definition trigger_end :: "db \<Rightarrow> charge \<Rightarrow> moyasar_answer \<Rightarrow> int \<Rightarrow> db \<times> trigger_result" where
  "trigger_end d c ans now =
     (let aid = ch_attempt c; renter = ch_renter c; amount = ch_amount c
      in case ans of
           NetError http msg \<Rightarrow> (finalizeFailure d renter aid http msg now, TopupFailed aid)
         | Answered mid st msg \<Rightarrow>
           if to_lower st = ''paid'' then (finalizePaid d renter aid amount mid now, TopupPaid aid)
           else if to_lower st = ''initiated'' then
             (update_attempt aid (\<lambda>a. a\<lparr>ta_status := At3ds, ta_moyasar_id := Some mid,
                  ta_completed_at := Some now, ta_error := Some ''3DS verification required''\<rparr>)
                (insert_payment (topup_payment aid mid renter amount ''initiated'' now None) d), Needs3ds aid)
           else if to_lower st = ''failed'' then
             (finalizeFailure d renter aid None
                (if truthy_str msg then the msg else ''Moyasar reported failed'') now, TopupFailed aid)
           else
             (update_attempt aid (\<lambda>a. a\<lparr>ta_status := AtFailed, ta_moyasar_id := text_or_null (Some mid),
                  ta_completed_at := Some now, ta_error := Some (''unexpected_status:'' @ to_lower st)\<rparr>) d,
              TopupFailed aid))"

definition maybeTrigger :: "(charge \<Rightarrow> moyasar_answer) \<Rightarrow> db \<Rightarrow> int \<Rightarrow> int \<Rightarrow> string \<Rightarrow> string \<Rightarrow> db \<times> trigger_result" where
  "maybeTrigger post d renter now why aid =
     (case trigger_begin d renter now why aid of
        (d1, Inl s) \<Rightarrow> (d1, Skipped s)
      | (d1, Inr c) \<Rightarrow> trigger_end d1 c (post c) now)"


section \<open>Sweep and callback\<close>

record sweep_env =
  se_attempt :: "int \<Rightarrow> string"                   \<comment> \<open>attempt id drawn for a renter\<close>
  se_clock :: "int \<Rightarrow> int"                         \<comment> \<open>the instant of its retry\<close>
  se_post :: "charge \<Rightarrow> moyasar_answer"

definition retried :: "trigger_result \<Rightarrow> bool" where
  "retried r = (case r of Skipped _ \<Rightarrow> False | _ \<Rightarrow> True)"

fun sweep_loop :: "sweep_env \<Rightarrow> int list \<Rightarrow> db \<times> nat \<Rightarrow> db \<times> nat" where
  "sweep_loop env [] s = s"
| "sweep_loop env (i # is) (d, n) =
     (let d1 = update_renter i (\<lambda>r. r\<lparr>rn_at_paused_until := None, rn_at_failures := 0\<rparr>) d;
          (d2, res) = maybeTrigger (se_post env) d1 i (se_clock env i) ''pause_window_elapsed'' (se_attempt env i)
      in sweep_loop env is (d2, if retried res then Suc n else n))"

definition sweepPausedRenters :: "sweep_env \<Rightarrow> db \<Rightarrow> int \<Rightarrow> db \<times> nat \<times> nat" where
  "sweepPausedRenters env d now =
     (let ids = map rn_id (sql_all (\<lambda>r. rn_at_enabled r \<and> lt_col (rn_at_paused_until r) now) (renters d));
          (d1, n) = sweep_loop env ids (d, 0)
      in (d1, length ids, n))"

definition open_attempt :: "topup_attempt \<Rightarrow> bool" where
  "open_attempt a = (ta_status a = At3ds \<or> ta_status a = AtInitiated)"

datatype finalize_result = NoMoyasarPayment | NoOpenAttempt | RenterGone | AlreadyFinalized | Finalized string

definition finalizeFrom3dsCallback :: "db \<Rightarrow> string \<Rightarrow> int \<Rightarrow> db \<times> finalize_result" where
  "finalizeFrom3dsCallback d mid now =
     (if mid = [] then (d, NoMoyasarPayment)
      else case sql_get (\<lambda>a. ta_moyasar_id a = Some mid \<and> open_attempt a) (topups d) of
        None \<Rightarrow> (d, NoOpenAttempt)
      | Some a \<Rightarrow>
        (case renter_by_id d (ta_renter a) of
           None \<Rightarrow> (d, RenterGone)
         | Some r \<Rightarrow>
           (let P = (\<lambda>x. ta_id x = ta_id a \<and> open_attempt x)
            in if sql_changes P (topups d) = 0 then (d, AlreadyFinalized)
               else (update_renter (rn_id r) (\<lambda>r. r\<lparr>rn_at_used := Some (or0 (rn_at_used r) + ta_amount a),
                         rn_at_failures := 0, rn_at_paused_until := None\<rparr>)
                       (d\<lparr>topups := sql_update P (\<lambda>x. x\<lparr>ta_status := AtPaid,
                            ta_after := Some (rn_balance r), ta_completed_at := Some now\<rparr>) (topups d)\<rparr>),
                     Finalized (ta_id a)))))"

section \<open>One renter's row\<close>

lemma renter_update_renter:
  assumes "\<And>r. rn_id (f r) = rn_id r"
  shows "renter_by_id (update_renter k f d) i = map_option (\<lambda>r. if i = k then f r else r) (renter_by_id d i)"
proof -
  have "renter_by_id (update_renter k f d) i =
      map_option (\<lambda>r. if rn_id r = k then f r else r) (renter_by_id d i)"
    using assms by (simp add: renter_by_id_def update_renter_def sql_get_update)
  moreover have "renter_by_id d i = Some r \<Longrightarrow> rn_id r = i" for r
    by (auto simp: renter_by_id_def dest: sql_get_Some)
  ultimately show ?thesis by (cases "renter_by_id d i") auto
qed

lemma renter_frame [simp]:
  "renter_by_id (update_attempt aid g d) i = renter_by_id d i"
  "renter_by_id (insert_payment p d) i = renter_by_id d i"
  "renter_by_id (recordAttempt d aid renter amount st why b a err now) i = renter_by_id d i"
  "renter_by_id (d\<lparr>topups := x\<rparr>) i = renter_by_id d i"
  by (simp_all add: renter_by_id_def update_attempt_def insert_payment_def recordAttempt_def)

lemma balance_of_row: "renter_by_id d i = Some r \<Longrightarrow> balance_of d i = rn_balance r"
  by (simp add: balance_of_def)

text \<open>What the three ways an attempt can end do to the renter's row.\<close>

lemma finalizePaid_row:
  "renter_by_id (finalizePaid d renter aid amount mid now) i =
     map_option (\<lambda>r. if i = renter then r\<lparr>rn_balance := rn_balance r + amount, rn_updated_at := Some now,
        rn_at_failures := 0, rn_at_paused_until := None, rn_at_used := Some (or0 (rn_at_used r) + amount)\<rparr> else r)
      (renter_by_id d i)"
  by (cases "renter_by_id d i") (simp_all add: finalizePaid_def Let_def renter_update_renter)

lemma finalizeFailure_row:
  "renter_by_id (finalizeFailure d renter aid http msg now) i =
     map_option (\<lambda>r. if i = renter then r\<lparr>rn_at_failures := failures_next d renter,
        rn_at_paused_until := (if failures_next d renter \<ge> MAX_CONSECUTIVE_FAILURES
           then Some (now + PAUSE_AFTER_FAILURES_HOURS * 3600 * 1000) else None)\<rparr> else r)
      (renter_by_id d i)"
  by (simp add: finalizeFailure_def Let_def renter_update_renter)

lemma trigger_begin_charge:
  assumes "trigger_begin d renter now why aid = (d', Inr c)"
  obtains r0 where "renter_by_id d renter = Some r0"
    "rn_at_enabled r0" "truthy_str (rn_card_token r0)" "0 < rn_at_amount r0" "rn_balance r0 < rn_at_threshold r0"
    "\<not> isPaused r0 now" "\<not> cap_blocks (reset_month now r0)" "\<not> locked (reset_month now r0) now"
    "c = \<lparr>ch_attempt = aid, ch_renter = renter, ch_amount = rn_at_amount r0, ch_token = the (rn_card_token r0)\<rparr>"
    "renter_by_id d' renter = Some ((reset_month now r0)\<lparr>rn_at_last_attempt := Some now\<rparr>)"
proof -
  from assms obtain r0 where r0: "renter_by_id d renter = Some r0"
    by (auto simp: trigger_begin_def split: option.splits)
  have am: "rn_at_amount (reset_month now r0) = rn_at_amount r0"
    "rn_card_token (reset_month now r0) = rn_card_token r0" by (simp_all add: reset_month_def)
  show ?thesis
    by (rule that [OF r0]; use assms r0 am in
        \<open>auto simp: trigger_begin_def Let_def not_le renter_update_renter split: if_splits\<close>)
       (simp_all add: reset_month_def)
qed

section \<open>Interleaved recharges\<close>

datatype topup_event =
  EvBegin int int string string
| EvEnd charge moyasar_answer int
| EvSettings int bool js_num js_num js_num
| EvCard int "string option" "string option" "string option" int
| EvCallback string int

fun topup_step :: "db \<Rightarrow> topup_event \<Rightarrow> db \<times> charge list" where
  "topup_step d (EvBegin renter now why aid) =
     (case trigger_begin d renter now why aid of (d', Inl _) \<Rightarrow> (d', []) | (d', Inr c) \<Rightarrow> (d', [c]))"
| "topup_step d (EvEnd c ans now) = (fst (trigger_end d c ans now), [])"
| "topup_step d (EvSettings renter en t a c) =
     (case updateSettings d renter en t a c of Inl _ \<Rightarrow> (d, []) | Inr d' \<Rightarrow> (d', []))"
| "topup_step d (EvCard renter tok brand last4 now) =
     (case saveCardToken d renter tok brand last4 now of Inl _ \<Rightarrow> (d, []) | Inr d' \<Rightarrow> (d', []))"
| "topup_step d (EvCallback mid now) = (fst (finalizeFrom3dsCallback d mid now), [])"

fun charges :: "db \<Rightarrow> topup_event list \<Rightarrow> charge list" where
  "charges d [] = []"
| "charges d (e # es) = snd (topup_step d e) @ charges (fst (topup_step d e)) es"

fun begins_before :: "int \<Rightarrow> int \<Rightarrow> topup_event \<Rightarrow> bool" where
  "begins_before renter t (EvBegin r now _ _) = (r = renter \<longrightarrow> now < t)"
| "begins_before renter t _ = True"

definition last_attempt :: "db \<Rightarrow> int \<Rightarrow> int option" where
  "last_attempt d i = (case renter_by_id d i of None \<Rightarrow> None | Some r \<Rightarrow> rn_at_last_attempt r)"

lemma last_attempt_update:
  assumes "\<And>r. rn_id (f r) = rn_id r" "\<And>r. rn_at_last_attempt (f r) = rn_at_last_attempt r"
  shows "last_attempt (update_renter k f d) i = last_attempt d i"
  using assms by (simp add: last_attempt_def renter_update_renter split: option.splits)

lemma last_attempt_frame [simp]:
  "last_attempt (update_attempt aid g d) i = last_attempt d i"
  "last_attempt (insert_payment p d) i = last_attempt d i"
  "last_attempt (recordAttempt d aid renter amount st why b a err now) i = last_attempt d i"
  "last_attempt (d\<lparr>topups := x\<rparr>) i = last_attempt d i"
  by (simp_all add: last_attempt_def)

lemma last_attempt_end: "last_attempt (fst (trigger_end d c ans now)) i = last_attempt d i"
  by (simp add: trigger_end_def Let_def finalizePaid_def finalizeFailure_def last_attempt_update split: moyasar_answer.splits)

lemma last_attempt_begin_skip:
  "trigger_begin d renter now why aid = (d', Inl s) \<Longrightarrow> last_attempt d' i = last_attempt d i"
  by (auto simp: trigger_begin_def Let_def last_attempt_update split: option.splits if_splits)

lemma last_attempt_begin_charge:
  "trigger_begin d renter now why aid = (d', Inr c) \<Longrightarrow>
     last_attempt d' i = (if i = renter then Some now else last_attempt d i)"
proof -
  assume b: "trigger_begin d renter now why aid = (d', Inr c)"
  then obtain r0 where "renter_by_id d renter = Some r0" by (auto simp: trigger_begin_def split: option.splits)
  with b show ?thesis
    by (auto simp: trigger_begin_def Let_def last_attempt_def renter_update_renter split: option.splits if_splits)
qed

lemma locked_no_charge:
  assumes "last_attempt d renter = Some t" "now < t + 60 * 1000"
  shows "\<exists>d' s. trigger_begin d renter now why aid = (d', Inl s)"
proof (cases "trigger_begin d renter now why aid")
  case (Pair d' res)
  show ?thesis
  proof (cases res)
    case (Inr c)
    with Pair obtain r0 where "renter_by_id d renter = Some r0" "\<not> locked (reset_month now r0) now"
      by (auto elim: trigger_begin_charge)
    then show ?thesis using assms by (auto simp: last_attempt_def locked_def reset_month_def split: option.splits if_splits)
  qed (use Pair in simp)
qed

lemma last_attempt_step:
  assumes "last_attempt d renter = Some t" "begins_before renter (t + 60 * 1000) e"
  shows "last_attempt (fst (topup_step d e)) renter = Some t"
    and "\<forall>c\<in>set (snd (topup_step d e)). ch_renter c \<noteq> renter"
proof -
  have "last_attempt (fst (topup_step d e)) renter = Some t \<and> (\<forall>c\<in>set (snd (topup_step d e)). ch_renter c \<noteq> renter)"
  proof (cases e)
    case (EvBegin r now why aid)
    obtain d' res where b: "trigger_begin d r now why aid = (d', res)" by (cases "trigger_begin d r now why aid")
    show ?thesis
    proof (cases res)
      case (Inl s)
      then show ?thesis using EvBegin b assms(1) last_attempt_begin_skip by simp
    next
      case (Inr c)
      have "r \<noteq> renter"
        using locked_no_charge [OF assms(1), of now why aid] assms(2) EvBegin b Inr by auto
      moreover have "ch_renter c = r" using b Inr by (auto elim!: trigger_begin_charge)
      ultimately show ?thesis using EvBegin b Inr assms(1) last_attempt_begin_charge [of d r now why aid d' c renter] by simp
    qed
  qed (use assms(1) in \<open>auto simp: last_attempt_end updateSettings_def saveCardToken_def Let_def
        finalizeFrom3dsCallback_def last_attempt_update split: option.splits\<close>)
  then show "last_attempt (fst (topup_step d e)) renter = Some t"
    and "\<forall>c\<in>set (snd (topup_step d e)). ch_renter c \<noteq> renter" by simp_all
qed

lemma no_second_charge:
  "last_attempt d renter = Some t \<Longrightarrow> \<forall>e\<in>set es. begins_before renter (t + 60 * 1000) e \<Longrightarrow>
     \<forall>c\<in>set (charges d es). ch_renter c \<noteq> renter"
proof (induction es arbitrary: d)
  case (Cons e es)
  note s = last_attempt_step [OF Cons.prems(1), of e]
  have "begins_before renter (t + 60 * 1000) e" using Cons.prems(2) by simp
  with s Cons show ?case by auto
qed simp

section \<open>What auto top-up promises\<close>

definition used_this_month :: "renter_row \<Rightarrow> int \<Rightarrow> int" where
  "used_this_month r now = (if shouldResetMonthly r now then 0 else or0 (rn_at_used r))"

definition refused :: "moyasar_answer \<Rightarrow> bool" where
  "refused ans = (case ans of NetError _ _ \<Rightarrow> True | Answered _ st _ \<Rightarrow> to_lower st = ''failed'')"

definition demo_at_renter :: renter_row where
  "demo_at_renter = demo_renter\<lparr>rn_at_enabled := True, rn_card_token := Some ''tok'', rn_at_cap := 50000,
     rn_at_used := Some 30000, rn_at_reset_at := Some 0, rn_at_failures := 2\<rparr>"

definition demo_at :: db where "demo_at = demo_db\<lparr>renters := [demo_at_renter]\<rparr>"

lemma demo_at_row [simp]: "renter_by_id demo_at 1 = Some demo_at_renter"
  by (simp add: demo_at_def renter_by_id_def sql_get_def demo_at_renter_def demo_renter_def)

lemma demo_at_begin:
  "\<exists>d' c. trigger_begin demo_at 1 1000 ''post_debit'' ''at_1'' = (d', Inr c)"
proof -
  have m: "month_start 1000 = 0" by code_simp
  show ?thesis
    by (simp add: trigger_begin_def Let_def demo_at_renter_def demo_renter_def isPaused_def shouldResetMonthly_def
        m reset_month_def cap_blocks_def locked_def)
qed

text \<open>
  C12: The card is charged for a recharge at most once a minute. Once a debit has started a
  charge at time \<open>t\<close>, no other debit before \<open>t\<close> plus 60 seconds starts one for the same
  renter, whatever answers, settings changes, saved cards and webhooks are processed in
  between, even while the first charge is still waiting for its answer.
\<close>

theorem one_charge_a_minute:
  assumes "trigger_begin d renter t why aid = (d', Inr c)"
    and "\<forall>e\<in>set es. begins_before renter (t + 60 * 1000) e"
  shows "\<forall>c\<in>set (charges d' es). ch_renter c \<noteq> renter"
proof (rule no_second_charge [OF _ assms(2)])
  show "last_attempt d' renter = Some t" using last_attempt_begin_charge [OF assms(1)] by simp
qed

theorem one_charge_a_minute_witness:
  "\<exists>d' c. trigger_begin demo_at 1 1000 ''post_debit'' ''at_1'' = (d', Inr c) \<and>
     list_all (\<lambda>c. ch_renter c \<noteq> 1) (charges d' [EvBegin 1 60999 ''post_debit'' ''at_2''])"
proof -
  obtain d' c where b: "trigger_begin demo_at 1 1000 ''post_debit'' ''at_1'' = (d', Inr c)"
    using demo_at_begin by blast
  show ?thesis using one_charge_a_minute [OF b, of "[EvBegin 1 60999 ''post_debit'' ''at_2'']"] b
    unfolding list_all_iff by auto
qed

text \<open>
  A recharge that Moyasar reports paid credits exactly what was charged, once, to the
  balance and to the month's use, and a month that respected its cap before still respects it.
  Whatever else Moyasar answers, the balance and the month's use stay as they were, apart from
  the reset at the turn of the month.
\<close>

theorem recharge_within_cap:
  assumes row: "renter_by_id d renter = Some r" and b: "trigger_begin d renter now why aid = (d1, Inr c)"
    and ans: "trigger_end d1 c ans now = (d2, res)"
  shows "\<exists>r2. renter_by_id d2 renter = Some r2 \<and>
     (if res = TopupPaid aid
      then rn_balance r2 = rn_balance r + rn_at_amount r
         \<and> or0 (rn_at_used r2) = used_this_month r now + rn_at_amount r
         \<and> (0 < rn_at_cap r \<longrightarrow> or0 (rn_at_used r2) \<le> rn_at_cap r)
      else rn_balance r2 = rn_balance r \<and> or0 (rn_at_used r2) = used_this_month r now)"
proof -
  obtain r0 where c: "renter_by_id d renter = Some r0" "\<not> cap_blocks (reset_month now r0)"
    "c = \<lparr>ch_attempt = aid, ch_renter = renter, ch_amount = rn_at_amount r0, ch_token = the (rn_card_token r0)\<rparr>"
    "renter_by_id d1 renter = Some ((reset_month now r0)\<lparr>rn_at_last_attempt := Some now\<rparr>)"
    by (rule trigger_begin_charge [OF b])
  with row have r0: "r0 = r" by simp
  define m where "m = reset_month now r"
  have m: "rn_balance m = rn_balance r" "or0 (rn_at_used m) = used_this_month r now"
    "rn_at_amount m = rn_at_amount r" "rn_at_cap m = rn_at_cap r"
    by (simp_all add: m_def reset_month_def used_this_month_def)
  have cap: "0 < rn_at_cap r \<Longrightarrow> used_this_month r now + rn_at_amount r \<le> rn_at_cap r"
    using c(2) m unfolding r0 m_def [symmetric] cap_blocks_def by simp
  have d1: "renter_by_id d1 renter = Some (m\<lparr>rn_at_last_attempt := Some now\<rparr>)" using c(4) r0 by (simp add: m_def)
  have d2: "d2 = fst (trigger_end d1 c ans now)" and res: "res = snd (trigger_end d1 c ans now)"
    using ans by simp_all
  show ?thesis using d1 m cap unfolding d2 res c(3) r0
    by (cases ans) (simp_all add: trigger_end_def Let_def finalizePaid_row finalizeFailure_row)
qed

theorem recharge_within_cap_witness:
  "\<exists>d1 c. trigger_begin demo_at 1 1000 ''post_debit'' ''at_1'' = (d1, Inr c) \<and>
     balance_of (fst (trigger_end d1 c (Answered ''m'' ''paid'' None) 1000)) 1 = 21000"
proof -
  obtain d1 c where b: "trigger_begin demo_at 1 1000 ''post_debit'' ''at_1'' = (d1, Inr c)"
    using demo_at_begin by blast
  obtain d2 res where e: "trigger_end d1 c (Answered ''m'' ''paid'' None) 1000 = (d2, res)"
    by (cases "trigger_end d1 c (Answered ''m'' ''paid'' None) 1000")
  have "ch_attempt c = ''at_1''" using b by (auto elim: trigger_begin_charge)
  moreover have "to_lower ''paid'' = ''paid''" by code_simp
  ultimately have "res = TopupPaid ''at_1''" using e by (auto simp: trigger_end_def Let_def)
  with recharge_within_cap [OF demo_at_row b e] show ?thesis
    using b e by (auto simp: balance_of_def demo_at_renter_def demo_renter_def)
qed

text \<open>
  The circuit breaker trips at the third failure in a row. When a renter with two failures
  has a charge refused or unanswered, then for 24 hours no debit starts a charge: it leaves the
  database as it is.
\<close>

theorem breaker_trips:
  assumes row: "renter_by_id d renter = Some r" "2 \<le> rn_at_failures r"
    and b: "trigger_begin d renter now why aid = (d1, Inr c)" and ans: "refused ans"
    and later: "later < now + 24 * 60 * 60 * 1000"
  shows "\<exists>s. trigger_begin (fst (trigger_end d1 c ans now)) renter later why' aid'
     = (fst (trigger_end d1 c ans now), Inl s)"
proof -
  obtain r0 where c: "renter_by_id d renter = Some r0"
    "c = \<lparr>ch_attempt = aid, ch_renter = renter, ch_amount = rn_at_amount r0, ch_token = the (rn_card_token r0)\<rparr>"
    "renter_by_id d1 renter = Some ((reset_month now r0)\<lparr>rn_at_last_attempt := Some now\<rparr>)"
    by (rule trigger_begin_charge [OF b])
  have f: "failures_next d1 renter \<ge> MAX_CONSECUTIVE_FAILURES"
    using c row by (simp add: failures_next_def reset_month_def MAX_CONSECUTIVE_FAILURES_def)
  obtain http msg where e: "fst (trigger_end d1 c ans now) = finalizeFailure d1 renter aid http msg now"
    using ans c(2) by (cases ans) (auto simp: refused_def trigger_end_def Let_def)
  obtain r2 where r2: "renter_by_id (finalizeFailure d1 renter aid http msg now) renter = Some r2"
    "rn_at_paused_until r2 = Some (now + PAUSE_AFTER_FAILURES_HOURS * 3600 * 1000)"
    using c(3) f by (simp add: finalizeFailure_row)
  have "isPaused r2 later" using r2(2) later by (simp add: isPaused_def PAUSE_AFTER_FAILURES_HOURS_def)
  then show ?thesis unfolding e by (auto simp: trigger_begin_def r2(1))
qed

theorem breaker_trips_witness:
  "\<exists>d1 c s. trigger_begin demo_at 1 1000 ''post_debit'' ''at_1'' = (d1, Inr c) \<and>
     trigger_begin (fst (trigger_end d1 c (NetError (Some 500) ''down'') 1000)) 1 3600000 ''post_debit'' ''at_2''
       = (fst (trigger_end d1 c (NetError (Some 500) ''down'') 1000), Inl s)"
proof -
  obtain d1 c where b: "trigger_begin demo_at 1 1000 ''post_debit'' ''at_1'' = (d1, Inr c)"
    using demo_at_begin by blast
  have "2 \<le> rn_at_failures demo_at_renter" by (simp add: demo_at_renter_def)
  from breaker_trips [OF demo_at_row this b, of "NetError (Some 500) ''down''" 3600000] b
  show ?thesis by (auto simp: refused_def)
qed
end
