(* ===== verification/Payments.thy ===== *)
theory Payments
  imports AutoTopup
begin

text \<open>
  The payment webhook and the top-up reconciliation of \<open>backend/src/routes/payments.js\<close>.
  The webhook is modelled from the verified, parsed event on; the HMAC and Moyasar's answers
  are parameters. The lemmas show that no sequence of webhooks and sweeps credits a payment
  twice.
\<close>

section \<open>Verification\<close>

definition is_hex :: "char \<Rightarrow> bool" where
  "is_hex c = (let n = (of_char c :: nat) in (48 \<le> n \<and> n \<le> 57) \<or> (97 \<le> n \<and> n \<le> 102))"

definition verifyMoyasarWebhook ::
    "(string \<Rightarrow> string \<Rightarrow> string) \<Rightarrow> string \<Rightarrow> string option \<Rightarrow> string \<Rightarrow> bool" where
  \<comment> \<open>\<open>hmac\<close> is the lower-case hex HMAC-SHA256 of the body under the secret\<close>
  "verifyMoyasarWebhook hmac body signature secret =
     (if secret = [] \<or> \<not> truthy_str signature then False
      else let sig = to_lower (strip (the signature))
           in length sig = 64 \<and> list_all is_hex sig \<and> hmac secret body = sig)"

section \<open>Credits and refunds\<close>

definition set_payment :: "(payment_row \<Rightarrow> bool) \<Rightarrow> (payment_row \<Rightarrow> payment_row) \<Rightarrow> db \<Rightarrow> db" where
  "set_payment P f d = d\<lparr>payments := sql_update P f (payments d)\<rparr>"

definition markPaymentPaidOnce :: "db \<Rightarrow> string \<Rightarrow> int \<Rightarrow> int \<Rightarrow> int \<Rightarrow> db \<times> bool" where
  "markPaymentPaidOnce d pid renter amount now =
     (let P = (\<lambda>p. py_payment_id p = pid \<and> py_status p \<in> {''pending'', ''initiated'', ''failed''})
      in if sql_changes P (payments d) = 0 then (d, False)
         else (update_renter renter (\<lambda>r. r\<lparr>rn_balance := rn_balance r + amount, rn_updated_at := Some now\<rparr>)
                 (set_payment P (\<lambda>p. p\<lparr>py_status := ''paid'', py_confirmed_at := Some now\<rparr>) d), True))"

definition markPaymentRefundedOnce :: "db \<Rightarrow> string \<Rightarrow> int \<Rightarrow> int \<Rightarrow> int \<Rightarrow> db \<times> bool" where
  "markPaymentRefundedOnce d pid renter amount now =
     (let P = (\<lambda>p. py_payment_id p = pid \<and> py_status p = ''paid'' \<and> py_refunded_at p = None)
      in if sql_changes P (payments d) = 0 then (d, False)
         else (update_renter renter (\<lambda>r. r\<lparr>rn_balance := max 0 (rn_balance r - amount), rn_updated_at := Some now\<rparr>)
                 (set_payment P (\<lambda>p. p\<lparr>py_status := ''refunded'', py_refunded_at := Some now,
                    py_refund_amount := Some amount\<rparr>) d), True))"

section \<open>The reconciliation sweep\<close>

datatype reconcile_action = RCredit | RSkip | RFail | RWait

definition topupReconcileDecision :: "string \<Rightarrow> int option \<Rightarrow> int \<Rightarrow> reconcile_action" where
  "topupReconcileDecision st moyasarAmount dbAmount =
     (let s = to_lower st
      in if s = ''paid'' then
           (if moyasarAmount \<noteq> None \<and> moyasarAmount \<noteq> Some dbAmount then RSkip else RCredit)
         else if s \<in> {''failed'', ''void'', ''canceled'', ''expired''} then RFail else RWait)"

record reconcile_summary =
  rs_swept :: nat
  rs_credited :: nat
  rs_pending :: nat
  rs_failed :: nat
  rs_errors :: nat

text \<open>
  The look-up of an invoice, or of a payment when the invoice is unknown, is the argument
  \<open>lookup\<close>: \<open>None\<close> when it throws. The rows are the ones read before the first look-up.
\<close>

fun reconcile_topups :: "(string \<Rightarrow> (string \<times> int option) option) \<Rightarrow> int \<Rightarrow> payment_row list
    \<Rightarrow> db \<times> reconcile_summary \<Rightarrow> db \<times> reconcile_summary" where
  "reconcile_topups lookup now [] s = s"
| "reconcile_topups lookup now (row # rows) (d, w) =
     (let w1 = w\<lparr>rs_swept := rs_swept w + 1\<rparr>
      in case lookup (the (py_moyasar_id row)) of
           None \<Rightarrow> reconcile_topups lookup now rows (d, w1\<lparr>rs_errors := rs_errors w1 + 1\<rparr>)
         | Some (st, amt) \<Rightarrow>
           (case topupReconcileDecision st amt (py_amount row) of
              RCredit \<Rightarrow>
                (let (d1, changed) = markPaymentPaidOnce d (py_payment_id row) (py_renter row) (py_amount row) now
                 in reconcile_topups lookup now rows
                      (d1, if changed then w1\<lparr>rs_credited := rs_credited w1 + 1\<rparr> else w1))
            | RSkip \<Rightarrow> reconcile_topups lookup now rows (d, w1\<lparr>rs_failed := rs_failed w1 + 1\<rparr>)
            | RFail \<Rightarrow> reconcile_topups lookup now rows
                (set_payment (\<lambda>p. py_payment_id p = py_payment_id row \<and> py_status p \<in> {''pending'', ''initiated''})
                   (\<lambda>p. p\<lparr>py_status := ''failed''\<rparr>) d, w1\<lparr>rs_failed := rs_failed w1 + 1\<rparr>)
            | RWait \<Rightarrow> reconcile_topups lookup now rows (d, w1\<lparr>rs_pending := rs_pending w1 + 1\<rparr>)))"

definition pending_topups :: "db \<Rightarrow> int \<Rightarrow> int \<Rightarrow> payment_row list" where
  "pending_topups d cutoff limit =
     sql_limit limit 0 (sort_key (\<lambda>p. - py_created_at p)
       (sql_all (\<lambda>p. py_status p \<in> {''pending'', ''initiated''} \<and> py_source p \<in> {''creditcard'', ''applepay''}
          \<and> py_moyasar_id p \<noteq> None \<and> py_created_at p > cutoff) (payments d)))"

definition reconcilePendingTopups ::
    "(string \<Rightarrow> (string \<times> int option) option) \<Rightarrow> db \<Rightarrow> int \<Rightarrow> int \<Rightarrow> int \<Rightarrow> db \<times> reconcile_summary" where
  "reconcilePendingTopups lookup d maxAgeDays limit now =
     reconcile_topups lookup now (pending_topups d (now - maxAgeDays * 86400 * 1000) limit)
       (d, \<lparr>rs_swept = 0, rs_credited = 0, rs_pending = 0, rs_failed = 0, rs_errors = 0\<rparr>)"

section \<open>The webhook\<close>

record pay_event =
  we_id :: string
  we_invoice :: string
  we_status :: string
  we_currency :: "string option"
  we_meta_renter :: "int option"
  we_amount :: "int option"
  we_refunded :: js_num              \<comment> \<open>\<open>amount_refunded\<close> as a number\<close>

datatype pay_action =
  MissingId | UnsupportedStatus | UnsupportedCurrency | IgnoredUnknown | AlreadyProcessed
| IgnoredStale | IgnoredRefunded | BalanceCredited int | MarkedFailed | RefundProcessed
| StatusUpdated string

definition WEBHOOK_STATUSES :: "string list" where
  "WEBHOOK_STATUSES = [''paid'', ''failed'', ''refunded'', ''initiated'']"

definition rebind :: "string \<Rightarrow> payment_row \<Rightarrow> db \<Rightarrow> db" where
  "rebind mid p d = set_payment (\<lambda>x. py_payment_id x = py_payment_id p) (\<lambda>x. x\<lparr>py_moyasar_id := Some mid\<rparr>) d"

definition match_payment :: "db \<Rightarrow> pay_event \<Rightarrow> db \<times> payment_row option" where
  "match_payment d e =
     (case sql_get (\<lambda>p. py_moyasar_id p = Some (we_id e) \<or> py_payment_id p = we_id e) (payments d) of
        Some p \<Rightarrow> (d, Some p)
      | None \<Rightarrow>
        (case (if we_invoice e = [] then None
               else sql_get (\<lambda>p. py_moyasar_id p = Some (we_invoice e)) (payments d)) of
           Some p \<Rightarrow> (rebind (we_id e) p d, Some p)
         | None \<Rightarrow>
           (case (we_meta_renter e, we_amount e) of
              (Some renter, Some amt) \<Rightarrow>
                if we_status e = ''paid'' \<and> amt > 0 then
                  (case sql_get (\<lambda>_. True) (sort_key (\<lambda>p. - py_created_at p)
                          (sql_all (\<lambda>p. py_renter p = renter \<and> py_status p = ''pending'' \<and> py_amount p = amt)
                             (payments d))) of
                     Some p \<Rightarrow> (rebind (we_id e) p d, Some p)
                   | None \<Rightarrow> (d, None))
                else (d, None)
            | _ \<Rightarrow> (d, None))))"

definition toFiniteInt :: "js_num \<Rightarrow> int \<Rightarrow> int \<Rightarrow> int option" where
  "toFiniteInt v lo hi =
     (case v of None \<Rightarrow> None
      | Some r \<Rightarrow> if r < of_int lo \<or> r > of_int hi \<or> of_int \<lfloor>r\<rfloor> \<noteq> r then None else Some \<lfloor>r\<rfloor>)"

definition topup_key :: "payment_row \<Rightarrow> string" where
  \<comment> \<open>\<open>payment.moyasar_id || payment.payment_id\<close>\<close>
  "topup_key p = (if truthy_str (py_moyasar_id p) then the (py_moyasar_id p) else py_payment_id p)"

definition fail_attempt :: "string \<Rightarrow> int \<Rightarrow> db \<Rightarrow> db" where
  "fail_attempt mid now d =
     (case sql_get (\<lambda>a. ta_moyasar_id a = Some mid \<and> open_attempt a) (topups d) of
        None \<Rightarrow> d
      | Some a \<Rightarrow> update_attempt (ta_id a) (\<lambda>x. x\<lparr>ta_status := AtFailed,
          ta_error := Some ''3DS verification failed or card declined'', ta_completed_at := Some now\<rparr>) d)"

definition apply_event :: "db \<Rightarrow> payment_row \<Rightarrow> pay_event \<Rightarrow> int \<Rightarrow> db \<times> pay_action" where
  "apply_event d p e now =
     (let st = we_status e; pid = py_payment_id p
      in if py_status p = st then (d, AlreadyProcessed)
         else if py_status p = ''paid'' \<and> (st = ''initiated'' \<or> st = ''failed'') then (d, IgnoredStale)
         else if py_status p = ''refunded'' \<and> st \<noteq> ''refunded'' then (d, IgnoredRefunded)
         else if st = ''paid'' then
           (case markPaymentPaidOnce d pid (py_renter p) (py_amount p) now of
              (d1, True) \<Rightarrow> (fst (finalizeFrom3dsCallback d1 (topup_key p) now), BalanceCredited (py_amount p))
            | (d1, False) \<Rightarrow> (d1, AlreadyProcessed))
         else if st = ''failed'' then
           (fail_attempt (topup_key p) now
              (set_payment (\<lambda>x. py_payment_id x = pid) (\<lambda>x. x\<lparr>py_status := ''failed''\<rparr>) d), MarkedFailed)
         else if st = ''refunded'' then
           (let amt = (case toFiniteInt (we_refunded e) 1 (py_amount p) of Some n \<Rightarrow> n | None \<Rightarrow> py_amount p)
            in case markPaymentRefundedOnce d pid (py_renter p) amt now of
                 (d1, True) \<Rightarrow> (d1, RefundProcessed)
               | (d1, False) \<Rightarrow> (d1, AlreadyProcessed))
         else (set_payment (\<lambda>x. py_payment_id x = pid) (\<lambda>x. x\<lparr>py_status := st\<rparr>) d, StatusUpdated st))"

definition webhook :: "db \<Rightarrow> pay_event \<Rightarrow> int \<Rightarrow> db \<times> pay_action" where
  "webhook d e now =
     (if we_id e = [] then (d, MissingId)
      else if we_status e \<notin> set WEBHOOK_STATUSES then (d, UnsupportedStatus)
      else if truthy_str (we_currency e) \<and> map_option (map upper_ascii) (we_currency e) \<noteq> Some ''SAR''
      then (d, UnsupportedCurrency)
      else case match_payment d e of
        (d1, None) \<Rightarrow> (d1, IgnoredUnknown)
      | (d1, Some p) \<Rightarrow> apply_event d1 p e now)"


section \<open>What was credited, and to whom\<close>

definition settled_payment :: "payment_row \<Rightarrow> bool" where
  "settled_payment p = (py_status p = ''paid'' \<or> py_status p = ''refunded'')"

definition pay_weight :: "int \<Rightarrow> payment_row \<Rightarrow> int" where
  "pay_weight i p = (if py_renter p = i \<and> settled_payment p then py_amount p else 0)"

definition paid_sum :: "db \<Rightarrow> int \<Rightarrow> int" where
  "paid_sum d i = sum_list (map (pay_weight i) (payments d))"

definition pay_good :: "db \<Rightarrow> bool" where
  "pay_good d = (has_key py_payment_id (payments d) \<and> (\<forall>p\<in>set (payments d). 0 \<le> py_amount p)
     \<and> (\<forall>r\<in>set (renters d). 0 \<le> rn_balance r))"

text \<open>
  One step is fair when no balance rises by more than the payments of its renter that became
  settled, settled payments stay settled, and no payment changes its id, renter or amount.
\<close>

definition pay_ids :: "payment_row \<Rightarrow> string \<times> int \<times> int" where
  "pay_ids p = (py_payment_id p, py_renter p, py_amount p)"

definition fair :: "db \<Rightarrow> db \<Rightarrow> bool" where
  "fair d d' = (pay_good d' \<and> (\<forall>i. balance_of d' i - paid_sum d' i \<le> balance_of d i - paid_sum d i)
     \<and> (\<forall>p\<in>set (payments d). settled_payment p \<longrightarrow>
          (\<exists>q\<in>set (payments d'). py_payment_id q = py_payment_id p \<and> settled_payment q))
     \<and> pay_ids ` set (payments d') = pay_ids ` set (payments d))"

lemma fair_refl: "pay_good d \<Longrightarrow> fair d d"
  by (auto simp: fair_def)

lemma fair_good: "fair d d' \<Longrightarrow> pay_good d'"
  by (simp add: fair_def)

lemma fair_trans:
  assumes "fair d d1" and "fair d1 d2"
  shows "fair d d2"
proof -
  have "balance_of d2 i - paid_sum d2 i \<le> balance_of d i - paid_sum d i" for i
    using assms by (auto simp: fair_def intro: order_trans)
  moreover have "\<exists>q\<in>set (payments d2). py_payment_id q = py_payment_id p \<and> settled_payment q"
    if p: "p \<in> set (payments d)" "settled_payment p" for p
  proof -
    obtain q where "q \<in> set (payments d1)" "py_payment_id q = py_payment_id p" "settled_payment q"
      using assms(1) p unfolding fair_def by blast
    with assms(2) show ?thesis unfolding fair_def by metis
  qed
  ultimately show ?thesis using assms by (simp add: fair_def)
qed

lemma payments_frame [simp]:
  "payments (update_renter k f d) = payments d" "payments (update_attempt aid g d) = payments d"
  "payments (d\<lparr>topups := x\<rparr>) = payments d" "payments (set_payment P h d) = sql_update P h (payments d)"
  by (simp_all add: update_renter_def update_attempt_def set_payment_def)

lemma renters_frame [simp]:
  "renters (set_payment P h d) = renters d" "renters (update_attempt aid g d) = renters d"
  "renters (d\<lparr>topups := x\<rparr>) = renters d"
  by (simp_all add: set_payment_def update_attempt_def)

lemma set_renters_update: "set (renters (update_renter k f d)) = (\<lambda>r. if rn_id r = k then f r else r) ` set (renters d)"
  by (simp add: update_renter_def set_sql_update)

lemma balance_set_payment [simp]: "balance_of (set_payment P h d) i = balance_of d i"
  by (simp add: balance_of_def renter_by_id_def)

lemma balance_update_renter:
  assumes "\<And>r. rn_id (f r) = rn_id r"
  shows "balance_of (update_renter k f d) i =
     (if i = k then (case renter_by_id d k of None \<Rightarrow> 0 | Some r \<Rightarrow> rn_balance (f r)) else balance_of d i)"
  using assms by (simp add: balance_of_def renter_update_renter split: option.splits)

lemma balance_nonneg: "pay_good d \<Longrightarrow> renter_by_id d i = Some r \<Longrightarrow> 0 \<le> rn_balance r"
  by (auto simp: pay_good_def renter_by_id_def dest!: sql_get_Some)

text \<open>A payment update that keeps identity and settlement changes no weight.\<close>

lemma fair_set_payment:
  assumes good: "pay_good d"
    and h: "\<And>p. py_payment_id (h p) = py_payment_id p" "\<And>p. py_renter (h p) = py_renter p" "\<And>p. py_amount (h p) = py_amount p"
    and st: "\<And>p. p \<in> set (payments d) \<Longrightarrow> P p \<Longrightarrow> settled_payment (h p) = settled_payment p"
  shows "fair d (set_payment P h d)"
proof -
  have w: "pay_weight i (if P p then h p else p) = pay_weight i p" if "p \<in> set (payments d)" for i p
    using st [OF that] h by (auto simp: pay_weight_def)
  have "paid_sum (set_payment P h d) i = paid_sum d i" for i
  proof -
    have "map (pay_weight i) (sql_update P h (payments d)) = map (pay_weight i) (payments d)"
      using w by (simp add: sql_update_def)
    then show ?thesis by (simp add: paid_sum_def)
  qed
  moreover have "pay_good (set_payment P h d)"
    using good h by (auto simp: pay_good_def has_key_update set_sql_update)
  moreover have "\<exists>q\<in>set (payments (set_payment P h d)). py_payment_id q = py_payment_id p \<and> settled_payment q"
    if "p \<in> set (payments d)" "settled_payment p" for p
    using that st [of p] h by (intro bexI [of _ "if P p then h p else p"]) (auto simp: set_sql_update)
  moreover have "pay_ids ` set (payments (set_payment P h d)) = pay_ids ` set (payments d)"
    using arg_cong [OF map_sql_update [of P pay_ids h "payments d"], of set] h
    by (simp add: pay_ids_def del: map_sql_update)
  ultimately show ?thesis unfolding fair_def by simp
qed

lemma fair_update_renter:
  assumes good: "pay_good d" and id: "\<And>r. rn_id (f r) = rn_id r"
    and le: "\<And>r. 0 \<le> rn_balance r \<Longrightarrow> 0 \<le> rn_balance (f r) \<and> rn_balance (f r) \<le> rn_balance r"
  shows "fair d (update_renter k f d)"
proof -
  have "balance_of (update_renter k f d) i \<le> balance_of d i" for i
  proof (cases "renter_by_id d i")
    case (Some r)
    then show ?thesis using le [OF balance_nonneg [OF good Some]]
      unfolding balance_update_renter [of f, OF id] by (auto simp: balance_of_def)
  next
    case None
    then show ?thesis unfolding balance_update_renter [of f, OF id] by (auto simp: balance_of_def)
  qed
  moreover have "pay_good (update_renter k f d)"
    using good le by (auto simp: pay_good_def set_renters_update)
  ultimately show ?thesis by (auto simp: fair_def paid_sum_def)
qed

lemma fair_paid:
  assumes good: "pay_good d" and ids: "(pid, renter, amt) \<in> pay_ids ` set (payments d)"
  shows "fair d (fst (markPaymentPaidOnce d pid renter amt now))"
proof (cases "sql_changes (\<lambda>p. py_payment_id p = pid \<and> py_status p \<in> {''pending'', ''initiated'', ''failed''}) (payments d) = 0")
  case True
  then show ?thesis using good by (simp add: markPaymentPaidOnce_def Let_def fair_refl)
next
  case False
  obtain p where p: "p \<in> set (payments d)" "py_payment_id p = pid" "py_renter p = renter" "py_amount p = amt"
    using ids by (auto simp: pay_ids_def)
  have key: "has_key py_payment_id (payments d)" and a0: "0 \<le> amt"
    using good p by (auto simp: pay_good_def)
  define Q :: "payment_row \<Rightarrow> bool" where "Q = (\<lambda>p. py_status p \<in> {''pending'', ''initiated'', ''failed''})"
  define h :: "payment_row \<Rightarrow> payment_row" where "h = (\<lambda>p. p\<lparr>py_status := ''paid'', py_confirmed_at := Some now\<rparr>)"
  define f :: "renter_row \<Rightarrow> renter_row" where
    "f = (\<lambda>r. r\<lparr>rn_balance := rn_balance r + amt, rn_updated_at := Some now\<rparr>)"
  let ?P = "\<lambda>x. py_payment_id x = py_payment_id p \<and> Q x"
  let ?d1 = "set_payment ?P h d"
  have d': "fst (markPaymentPaidOnce d pid renter amt now) = update_renter renter f ?d1"
    using False p(2) by (simp add: markPaymentPaidOnce_def Let_def Q_def h_def f_def)
  obtain x where "x \<in> set (payments d)" "?P x" using False p(2) by (auto simp: sql_changes_0 Q_def)
  with has_key_eq [OF key, of x p] p(1) have "Q p" by auto
  then have ps: "paid_sum (update_renter renter f ?d1) i = paid_sum d i + (if i = renter then amt else 0)" for i
    using sum_list_update_key [OF key p(1), of Q "pay_weight i" h] p
    by (auto simp: paid_sum_def pay_weight_def h_def settled_payment_def Q_def)
  have h: "pay_ids (h q) = pay_ids q" "py_payment_id (h q) = py_payment_id q" "settled_payment (h q)" for q
    by (simp_all add: h_def pay_ids_def settled_payment_def)
  have fid: "rn_id (f r) = rn_id r" for r by (simp add: f_def)
  have "balance_of (update_renter renter f ?d1) i \<le> balance_of d i + (if i = renter then amt else 0)" for i
    using a0 unfolding balance_update_renter [of f, OF fid]
    by (auto simp: balance_of_def renter_by_id_def f_def split: option.splits)
  moreover have "pay_good (update_renter renter f ?d1)"
    using good a0 by (auto simp: pay_good_def set_renters_update has_key_update set_sql_update h_def f_def)
  moreover have "\<exists>q\<in>set (payments (update_renter renter f ?d1)). py_payment_id q = py_payment_id v \<and> settled_payment q"
    if "v \<in> set (payments d)" "settled_payment v" for v
    using that h by (intro bexI [of _ "if ?P v then h v else v"]) (auto simp: set_sql_update)
  moreover have "pay_ids ` set (payments (update_renter renter f ?d1)) = pay_ids ` set (payments d)"
    using arg_cong [OF map_sql_update [of ?P pay_ids h "payments d"], of set] h(1) by simp
  ultimately show ?thesis unfolding d' fair_def by (simp add: ps algebra_simps)
qed

lemma fair_refunded:
  assumes good: "pay_good d" and amt: "0 \<le> amt"
  shows "fair d (fst (markPaymentRefundedOnce d pid renter amt now))"
proof -
  let ?P = "\<lambda>p. py_payment_id p = pid \<and> py_status p = ''paid'' \<and> py_refunded_at p = None"
  let ?d1 = "set_payment ?P (\<lambda>p. p\<lparr>py_status := ''refunded'', py_refunded_at := Some now, py_refund_amount := Some amt\<rparr>) d"
  have 1: "fair d ?d1" using good by (rule fair_set_payment) (auto simp: settled_payment_def)
  have 2: "fair ?d1 (update_renter renter (\<lambda>r. r\<lparr>rn_balance := max 0 (rn_balance r - amt), rn_updated_at := Some now\<rparr>) ?d1)"
    using amt by (intro fair_update_renter fair_good [OF 1]) auto
  show ?thesis using fair_trans [OF 1 2] fair_refl [OF good]
    by (simp add: markPaymentRefundedOnce_def Let_def)
qed

lemma fair_topups: "pay_good d \<Longrightarrow> fair d (d\<lparr>topups := x\<rparr>)"
  by (auto simp: fair_def pay_good_def paid_sum_def balance_of_def)

lemma fair_callback: "pay_good d \<Longrightarrow> fair d (fst (finalizeFrom3dsCallback d mid now))"
proof -
  assume good: "pay_good d"
  have "fair d (update_renter k (\<lambda>r. r\<lparr>rn_at_used := Some (or0 (rn_at_used r) + n), rn_at_failures := 0,
      rn_at_paused_until := None\<rparr>) (d\<lparr>topups := x\<rparr>))" for k n x
    using fair_trans [OF fair_topups [OF good] fair_update_renter [OF fair_good [OF fair_topups [OF good]]]] by simp
  then show ?thesis using fair_refl [OF good]
    by (simp add: finalizeFrom3dsCallback_def Let_def split: option.splits)
qed

lemma fair_fail_attempt: "pay_good d \<Longrightarrow> fair d (fail_attempt mid now d)"
  by (auto simp: fail_attempt_def update_attempt_def fair_refl fair_topups split: option.splits)

lemma fair_rebind: "pay_good d \<Longrightarrow> fair d (rebind mid p d)"
  unfolding rebind_def by (rule fair_set_payment) (simp_all add: settled_payment_def)

lemma match_payment_some:
  assumes "match_payment d e = (d1, Some p)" and good: "pay_good d"
  shows "fair d d1" "p \<in> set (payments d)"
    "\<And>x. x \<in> set (payments d1) \<Longrightarrow> py_payment_id x = py_payment_id p \<Longrightarrow> py_status x = py_status p"
proof -
  have key: "has_key py_payment_id (payments d)" using good by (simp add: pay_good_def)
  have m: "(d1 = d \<or> d1 = rebind (we_id e) p d) \<and> p \<in> set (payments d)"
    using assms(1) by (auto simp: match_payment_def sql_all_def dest!: sql_get_Some split: option.splits if_splits)
  then show "fair d d1" "p \<in> set (payments d)" using fair_refl [OF good] fair_rebind [OF good] by auto
  have same: "y = p" if "y \<in> set (payments d)" "py_payment_id y = py_payment_id p" for y
    using has_key_eq [OF key that(1) _ that(2)] m by simp
  show "py_status x = py_status p" if x: "x \<in> set (payments d1)" "py_payment_id x = py_payment_id p" for x
  proof -
    have "\<exists>y\<in>set (payments d). py_payment_id y = py_payment_id p \<and> py_status x = py_status y"
      using m x by (force simp: rebind_def set_sql_update)
    with same show ?thesis by metis
  qed
qed

lemma match_payment_none: "match_payment d e = (d1, None) \<Longrightarrow> d1 = d"
  by (auto simp: match_payment_def split: option.splits if_splits)

lemma fair_apply:
  assumes good: "pay_good d" and ids: "pay_ids p \<in> pay_ids ` set (payments d)"
    and st: "\<And>x. x \<in> set (payments d) \<Longrightarrow> py_payment_id x = py_payment_id p \<Longrightarrow> py_status x = py_status p"
    and ws: "we_status e \<in> set WEBHOOK_STATUSES"
  shows "fair d (fst (apply_event d p e now))"
proof -
  have amt: "0 \<le> py_amount p" using ids good by (auto simp: pay_ids_def pay_good_def)
  have paid: "fair d (fst (markPaymentPaidOnce d (py_payment_id p) (py_renter p) (py_amount p) now))"
    using fair_paid [OF good] ids by (simp add: pay_ids_def)
  have cb: "fair d (fst (finalizeFrom3dsCallback d1 mid now))"
    if "markPaymentPaidOnce d (py_payment_id p) (py_renter p) (py_amount p) now = (d1, b)" for d1 b mid
    using paid fair_callback [OF fair_good [OF paid]] that by (auto intro: fair_trans)
  have set: "fair d (set_payment (\<lambda>x. py_payment_id x = py_payment_id p) (\<lambda>x. x\<lparr>py_status := s\<rparr>) d)"
    if "\<not> settled_payment p" "s \<noteq> ''paid''" "s \<noteq> ''refunded''" for s
    using good by (rule fair_set_payment) (use st that in \<open>auto simp: settled_payment_def\<close>)
  have n: "0 \<le> (case toFiniteInt v 1 (py_amount p) of Some n \<Rightarrow> n | None \<Rightarrow> py_amount p)" for v
    using amt by (auto simp: toFiniteInt_def split: option.splits if_splits)
  have s: "py_status p \<noteq> ''paid'' \<Longrightarrow> py_status p \<noteq> ''refunded'' \<Longrightarrow> \<not> settled_payment p"
    by (simp add: settled_payment_def)
  note ref = fair_refunded [OF good n, of "py_payment_id p" "py_renter p" "we_refunded e" now]
  consider "we_status e = ''paid''" | "we_status e = ''failed''" | "we_status e = ''refunded''" | "we_status e = ''initiated''"
    using ws by (auto simp: WEBHOOK_STATUSES_def)
  then show ?thesis
  proof cases
    case 1
    then show ?thesis using fair_refl [OF good] paid cb
      by (auto simp: apply_event_def Let_def split: prod.splits bool.splits)
  next
    case 2
    then show ?thesis
      using fair_refl [OF good] set [of "''failed''"] s fair_trans [OF _ fair_fail_attempt [OF fair_good]]
      by (auto simp: apply_event_def Let_def)
  next
    case 3
    then show ?thesis using fair_refl [OF good] ref
      by (auto simp: apply_event_def Let_def split: prod.splits bool.splits)
  next
    case 4
    then show ?thesis using fair_refl [OF good] set [of "''initiated''"] s
      by (auto simp: apply_event_def Let_def)
  qed
qed

lemma fair_webhook: "pay_good d \<Longrightarrow> fair d (fst (webhook d e now))"
proof -
  assume good: "pay_good d"
  show ?thesis
  proof (cases "we_id e = [] \<or> we_status e \<notin> set WEBHOOK_STATUSES
      \<or> (truthy_str (we_currency e) \<and> map_option (map upper_ascii) (we_currency e) \<noteq> Some ''SAR'')")
    case True
    then show ?thesis using fair_refl [OF good] by (auto simp: webhook_def)
  next
    case False
    obtain d1 m where m: "match_payment d e = (d1, m)" by (cases "match_payment d e")
    show ?thesis
    proof (cases m)
      case None
      then show ?thesis using False m match_payment_none [of d e d1] fair_refl [OF good] by (auto simp: webhook_def)
    next
      case (Some p)
      note f = match_payment_some [OF m [unfolded Some] good]
      have "pay_ids p \<in> pay_ids ` set (payments d1)" using f(1,2) by (auto simp: fair_def)
      from fair_apply [OF fair_good [OF f(1)] this f(3)] False f(1) m Some show ?thesis
        by (auto simp: webhook_def intro: fair_trans)
    qed
  qed
qed

lemma fair_reconcile:
  "pay_good d \<Longrightarrow> pay_ids ` set rows \<subseteq> pay_ids ` set (payments d) \<Longrightarrow>
     fair d (fst (reconcile_topups lookup now rows (d, w)))"
proof (induction rows arbitrary: d w)
  case Nil
  then show ?case by (simp add: fair_refl)
next
  case (Cons row rows)
  have step: "fair d (fst (reconcile_topups lookup now rows (d1, v)))" if "fair d d1" for d1 v
  proof -
    have "pay_ids ` set rows \<subseteq> pay_ids ` set (payments d1)" using that Cons.prems(2) by (simp add: fair_def)
    from fair_trans [OF that Cons.IH [OF fair_good [OF that] this]] show ?thesis .
  qed
  have paid: "fair d (fst (markPaymentPaidOnce d (py_payment_id row) (py_renter row) (py_amount row) now))"
    using fair_paid [OF Cons.prems(1)] Cons.prems(2) by (simp add: pay_ids_def)
  have failed: "fair d (set_payment (\<lambda>p. py_payment_id p = py_payment_id row \<and> py_status p \<in> {''pending'', ''initiated''})
      (\<lambda>p. p\<lparr>py_status := ''failed''\<rparr>) d)"
    using Cons.prems(1) by (rule fair_set_payment) (auto simp: settled_payment_def)
  obtain d1 b where m: "markPaymentPaidOnce d (py_payment_id row) (py_renter row) (py_amount row) now = (d1, b)"
    by (cases "markPaymentPaidOnce d (py_payment_id row) (py_renter row) (py_amount row) now")
  show ?case
    using step [OF fair_refl [OF Cons.prems(1)]] step [OF paid] step [OF failed]
    by (simp add: m Let_def split: option.splits reconcile_action.splits)
qed

lemma pending_in: "set (pending_topups d cutoff limit) \<subseteq> set (payments d)"
  using set_sql_limit by (fastforce simp: pending_topups_def sql_all_def)

section \<open>Webhooks and sweeps in any order\<close>

datatype pay_step =
  Hook pay_event int
| Sweep "string \<Rightarrow> (string \<times> int option) option" int int int

fun pay_run :: "db \<Rightarrow> pay_step \<Rightarrow> db" where
  "pay_run d (Hook e now) = fst (webhook d e now)"
| "pay_run d (Sweep lookup age limit now) = fst (reconcilePendingTopups lookup d age limit now)"

lemma fair_step: "pay_good d \<Longrightarrow> fair d (pay_run d s)"
  by (cases s) (auto simp: fair_webhook reconcilePendingTopups_def intro!: fair_reconcile image_mono pending_in)

interpretation paying: preserved pay_run "\<lambda>d. fair d0 d" for d0
  by unfold_locales (blast intro: fair_trans fair_step fair_good)

section \<open>What the webhook promises\<close>

abbreviation hook_match :: "pay_event \<Rightarrow> payment_row \<Rightarrow> bool" where
  "hook_match e p \<equiv> py_moyasar_id p = Some (we_id e) \<or> py_payment_id p = we_id e"

lemma match_again:
  assumes m: "match_payment d e = (d1, Some p)" and good: "pay_good d"
  shows "\<exists>x. sql_get (hook_match e) (payments d1) = Some x \<and> py_payment_id x = py_payment_id p \<and> py_status x = py_status p"
proof (cases "sql_get (hook_match e) (payments d)")
  case (Some y)
  then have "d1 = d \<and> p = y" using m by (simp add: match_payment_def)
  with Some show ?thesis by simp
next
  case None
  note f = match_payment_some [OF m good]
  have d1: "d1 = rebind (we_id e) p d"
    using m None by (auto simp: match_payment_def split: option.splits if_splits)
  have "p\<lparr>py_moyasar_id := Some (we_id e)\<rparr> \<in> set (payments d1)"
    using f(2) by (force simp: d1 rebind_def set_sql_update)
  then obtain x where x: "sql_get (hook_match e) (payments d1) = Some x"
    using sql_get_None [of "hook_match e" "payments d1"] by (cases "sql_get (hook_match e) (payments d1)") auto
  have "py_payment_id x = py_payment_id p"
  proof (rule ccontr)
    assume ne: "py_payment_id x \<noteq> py_payment_id p"
    have "x \<in> set (payments d)"
      using sql_get_Some [OF x] ne by (auto simp: d1 rebind_def set_sql_update split: if_splits)
    with None sql_get_Some [OF x] show False by (auto simp: sql_get_None)
  qed
  with x f(3) [of x] sql_get_Some [OF x] show ?thesis by simp
qed

lemma payments_callback [simp]: "payments (fst (finalizeFrom3dsCallback d mid now)) = payments d"
  by (simp add: finalizeFrom3dsCallback_def Let_def split: option.splits)

lemma balance_callback: "balance_of (fst (finalizeFrom3dsCallback d mid now)) i = balance_of d i"
proof -
  have b: "balance_of (update_renter k (\<lambda>r. r\<lparr>rn_at_used := Some (or0 (rn_at_used r) + n), rn_at_failures := 0,
      rn_at_paused_until := None\<rparr>) (d\<lparr>topups := x\<rparr>)) i = balance_of d i" for k n x
    by (subst balance_update_renter) (auto simp: balance_of_def split: option.splits)
  show ?thesis by (simp add: finalizeFrom3dsCallback_def Let_def b split: option.splits)
qed

lemma credited_cases:
  assumes "webhook d e now = (d', BalanceCredited a)"
  obtains d1 p where "match_payment d e = (d1, Some p)" "we_status e = ''paid''" "a = py_amount p"
    "sql_changes (\<lambda>x. py_payment_id x = py_payment_id p \<and> py_status x \<in> {''pending'', ''initiated'', ''failed''}) (payments d1) \<noteq> 0"
    "d' = fst (finalizeFrom3dsCallback (update_renter (py_renter p)
        (\<lambda>r. r\<lparr>rn_balance := rn_balance r + py_amount p, rn_updated_at := Some now\<rparr>)
        (set_payment (\<lambda>x. py_payment_id x = py_payment_id p \<and> py_status x \<in> {''pending'', ''initiated'', ''failed''})
           (\<lambda>x. x\<lparr>py_status := ''paid'', py_confirmed_at := Some now\<rparr>) d1)) (topup_key p) now)"
    "we_id e \<noteq> []" "we_status e \<in> set WEBHOOK_STATUSES"
    "\<not> (truthy_str (we_currency e) \<and> map_option (map upper_ascii) (we_currency e) \<noteq> Some ''SAR'')"
  using assms
  by (auto simp: webhook_def apply_event_def Let_def markPaymentPaidOnce_def
      split: prod.splits option.splits if_splits bool.splits)

definition demo_payment :: payment_row where
  "demo_payment = \<lparr>py_payment_id = ''pay-1'', py_moyasar_id = Some ''inv-1'', py_renter = 1, py_amount = 500,
     py_status = ''pending'', py_source = ''creditcard'', py_created_at = 0, py_confirmed_at = None,
     py_refunded_at = None, py_refund_amount = None\<rparr>"

definition demo_pay :: db where "demo_pay = demo_db\<lparr>payments := [demo_payment]\<rparr>"

definition demo_event :: pay_event where
  "demo_event = \<lparr>we_id = ''mp-1'', we_invoice = ''inv-1'', we_status = ''paid'', we_currency = None,
     we_meta_renter = None, we_amount = None, we_refunded = None\<rparr>"

lemma demo_pay_good [simp]: "pay_good demo_pay"
  by (simp add: pay_good_def demo_pay_def has_key_def demo_payment_def demo_renter_def)

lemma demo_pay_row [simp]: "renter_by_id demo_pay 1 = Some demo_renter" "balance_of demo_pay 1 = 1000"
  by (simp_all add: demo_pay_def balance_of_def renter_by_id_def sql_get_def demo_renter_def)

lemma demo_credits: "\<exists>d'. webhook demo_pay demo_event 7 = (d', BalanceCredited 500)"
  by (simp add: webhook_def match_payment_def demo_event_def demo_pay_def demo_payment_def sql_get_def
      WEBHOOK_STATUSES_def rebind_def set_payment_def apply_event_def markPaymentPaidOnce_def Let_def sql_changes_def)

text \<open>
  C13: A paid webhook credits its payment exactly once. When it credits, the amount is the one
  stored with the payment, it goes to the payment's renter and to nobody else, and delivering
  the same event again, at any later time, finds the payment already processed and changes
  nothing, also when the payment was first matched by invoice or by amount.
\<close>

theorem webhook_credits_once:
  assumes good: "pay_good d" and w: "webhook d e now = (d', BalanceCredited a)"
  shows "\<exists>p\<in>set (payments d). a = py_amount p
      \<and> (\<forall>i. renter_by_id d i \<noteq> None \<longrightarrow> balance_of d' i = balance_of d i + (if i = py_renter p then a else 0))
      \<and> webhook d' e later = (d', AlreadyProcessed)"
proof -
  obtain d1 p where c: "match_payment d e = (d1, Some p)" "we_status e = ''paid''" "a = py_amount p"
    "sql_changes (\<lambda>x. py_payment_id x = py_payment_id p \<and> py_status x \<in> {''pending'', ''initiated'', ''failed''}) (payments d1) \<noteq> 0"
    "d' = fst (finalizeFrom3dsCallback (update_renter (py_renter p)
        (\<lambda>r. r\<lparr>rn_balance := rn_balance r + py_amount p, rn_updated_at := Some now\<rparr>)
        (set_payment (\<lambda>x. py_payment_id x = py_payment_id p \<and> py_status x \<in> {''pending'', ''initiated'', ''failed''})
           (\<lambda>x. x\<lparr>py_status := ''paid'', py_confirmed_at := Some now\<rparr>) d1)) (topup_key p) now)"
    "we_id e \<noteq> []" "we_status e \<in> set WEBHOOK_STATUSES"
    "\<not> (truthy_str (we_currency e) \<and> map_option (map upper_ascii) (we_currency e) \<noteq> Some ''SAR'')"
    by (rule credited_cases [OF w])
  note f = match_payment_some [OF c(1) good]
  have "renters d1 = renters d"
    using c(1) by (auto simp: match_payment_def rebind_def split: option.splits if_splits)
  then have rd: "renter_by_id d1 i = renter_by_id d i" for i by (simp add: renter_by_id_def)
  have bal: "balance_of d' i = balance_of d i + (if i = py_renter p then a else 0)" if "renter_by_id d i \<noteq> None" for i
    unfolding c(5) balance_callback using that c(3)
    by (subst balance_update_renter) (auto simp: balance_of_def rd renter_by_id_def [of "set_payment _ _ _"]
        simp flip: renter_by_id_def)
  obtain x where x: "sql_get (hook_match e) (payments d1) = Some x" "py_payment_id x = py_payment_id p"
    "py_status x = py_status p" using match_again [OF c(1) good] by blast
  have "py_status p \<in> {''pending'', ''initiated'', ''failed''}"
    using c(4) f(3) by (auto simp: sql_changes_0)
  then have "sql_get (hook_match e) (payments d') = Some (x\<lparr>py_status := ''paid'', py_confirmed_at := Some now\<rparr>)"
    unfolding c(5) using x by (simp add: sql_get_update)
  then have "match_payment d' e = (d', Some (x\<lparr>py_status := ''paid'', py_confirmed_at := Some now\<rparr>))"
    by (simp add: match_payment_def)
  then have "webhook d' e later = (d', AlreadyProcessed)"
    using c(2,6,7,8) by (auto simp: webhook_def apply_event_def Let_def)
  with bal c(3) f(2) show ?thesis by blast
qed

theorem webhook_credits_once_witness:
  "\<exists>d'. webhook demo_pay demo_event 7 = (d', BalanceCredited 500) \<and> balance_of d' 1 = 1500
     \<and> webhook d' demo_event 9 = (d', AlreadyProcessed)"
proof -
  obtain d' where w: "webhook demo_pay demo_event 7 = (d', BalanceCredited 500)" using demo_credits by blast
  from webhook_credits_once [OF demo_pay_good w, of 9] obtain p where "p \<in> set (payments demo_pay)"
    "\<forall>i. renter_by_id demo_pay i \<noteq> None \<longrightarrow> balance_of d' i = balance_of demo_pay i + (if i = py_renter p then 500 else 0)"
    "webhook d' demo_event 9 = (d', AlreadyProcessed)" by blast
  moreover have "payments demo_pay = [demo_payment]" "py_renter demo_payment = 1"
    by (simp_all add: demo_pay_def demo_payment_def)
  ultimately have "balance_of d' 1 = 1500" by simp
  with w \<open>webhook d' demo_event 9 = (d', AlreadyProcessed)\<close> show ?thesis by blast
qed



text \<open>
  A recharge that was credited when the card was charged is not credited again by the
  webhook for the same Moyasar payment: the row that \<open>finalizePaid\<close> writes answers it.
\<close>

theorem recharge_not_credited_twice:
  assumes fresh: "pay_id aid \<notin> set (map py_payment_id (payments d))"
    "Some mid \<notin> set (map py_moyasar_id (payments d))" "mid \<notin> set (map py_payment_id (payments d))"
    and e: "we_id e = mid" "we_status e = ''paid''" "we_currency e = None"
  shows "webhook (finalizePaid d renter aid amount mid now) e later =
     (finalizePaid d renter aid amount mid now, if mid = [] then MissingId else AlreadyProcessed)"
proof -
  let ?d = "finalizePaid d renter aid amount mid now"
  have "payments ?d = sql_insert (topup_payment aid mid renter amount ''paid'' now (Some now)) (payments d)"
    using fresh by (auto simp: finalizePaid_def Let_def insert_payment_def topup_payment_def)
  moreover have "sql_get (hook_match e) (payments d) = None"
    using fresh e(1) by (force simp: sql_get_None)
  ultimately have "sql_get (hook_match e) (payments ?d) = Some (topup_payment aid mid renter amount ''paid'' now (Some now))"
    using e(1) by (simp add: sql_get_insert) (simp add: topup_payment_def)
  then show ?thesis using e
    by (simp add: webhook_def match_payment_def WEBHOOK_STATUSES_def apply_event_def)
       (simp add: topup_payment_def)
qed

theorem recharge_not_credited_twice_witness:
  "snd (webhook (finalizePaid demo_pay 1 ''at_9'' 2000 ''mp-9'' 5)
     (demo_event\<lparr>we_id := ''mp-9''\<rparr>) 6) = AlreadyProcessed"
  by (subst recharge_not_credited_twice)
     (simp_all add: demo_pay_def demo_payment_def demo_event_def pay_id_def)

end
