(* ===== verification/AdminMoney.thy ===== *)
theory AdminMoney
  imports Payments
begin

text \<open>
  What administrators do to renters' money: credit grants, balance adjustments, confirmed bank transfers
  and refunds in \<open>backend/src/routes/admin.js\<close>, and the queue of refund requests in
  \<open>routes/payments.js\<close> and \<open>routes/payouts.js\<close>. The two refund routes that wait for Moyasar are split at
  the wait. Their steps are interleaved with the webhook and the sweep of \<open>Payments\<close>. The audit log is left out.
\<close>

section \<open>State\<close>

datatype refund_status = RfPending | RfProcessing | RfApproved | RfRejected

record refund_request =
  rf_id :: string
  rf_payment :: string
  rf_renter :: int
  rf_amount :: int
  rf_reason :: string
  rf_status :: refund_status
  rf_requested :: int
  rf_reviewed :: "int option"
  rf_by :: "string option"
  rf_note :: "string option"
  rf_moyasar :: "string option"

record admin_grant =
  ag_renter :: int
  ag_amount :: int
  ag_reason :: string
  ag_by :: string
  ag_created :: int

record admin_state =
  ad_db :: db
  ad_refunds :: "refund_request list"
  ad_grants :: "admin_grant list"

definition note_text :: "nat \<Rightarrow> string option \<Rightarrow> string option" where
  \<comment> \<open>\<open>normalizeString(v, { maxLen })\<close>\<close>
  "note_text n v = (case v of None \<Rightarrow> None | Some s \<Rightarrow> let t = strip s in if t = [] then None else Some (take n t))"

definition payment_of :: "db \<Rightarrow> string \<Rightarrow> payment_row option" where
  "payment_of d i = sql_get (\<lambda>p. py_payment_id p = i) (payments d)"

section \<open>Grants, adjustments, bank transfers\<close>

datatype admin_answer =
  ABadAmount | AReasonRequired | ANotFound | ANegative | ADone int | AAlreadyPaid | AAlreadyRefunded | ARenterMissing

definition MAX_GRANT :: int where "MAX_GRANT = 100000000"

definition grantRenterCredit :: "int \<Rightarrow> js_num \<Rightarrow> string option \<Rightarrow> string \<Rightarrow> int \<Rightarrow> admin_state \<Rightarrow> admin_state \<times> admin_answer" where
  "grantRenterCredit n amount reason who now s =
     (case toFiniteInt amount 1 MAX_GRANT of None \<Rightarrow> (s, ABadAmount)
      | Some a \<Rightarrow> (case note_text 300 reason of None \<Rightarrow> (s, AReasonRequired)
      | Some why \<Rightarrow> (case renter_by_id (ad_db s) n of None \<Rightarrow> (s, ANotFound)
      | Some r \<Rightarrow>
        let next_balance = rn_balance r + a in
        (s\<lparr>ad_db := update_renter n (\<lambda>x. x\<lparr>rn_balance := next_balance, rn_updated_at := Some now\<rparr>) (ad_db s),
           ad_grants := sql_insert \<lparr>ag_renter = n, ag_amount = a, ag_reason = why, ag_by = who, ag_created = now\<rparr> (ad_grants s)\<rparr>,
         ADone next_balance))))"

definition adjustBalance :: "int \<Rightarrow> js_num \<Rightarrow> admin_state \<Rightarrow> admin_state \<times> admin_answer" where
  "adjustBalance n amount s =
     (case toFiniteInt amount (- MAX_GRANT) MAX_GRANT of None \<Rightarrow> (s, ABadAmount)
      | Some a \<Rightarrow> (case renter_by_id (ad_db s) n of None \<Rightarrow> (s, ANotFound)
      | Some r \<Rightarrow>
        if rn_balance r + a < 0 then (s, ANegative)
        else (s\<lparr>ad_db := update_renter n (\<lambda>x. x\<lparr>rn_balance := rn_balance r + a\<rparr>) (ad_db s)\<rparr>, ADone (rn_balance r + a))))"

definition confirmTopup :: "string \<Rightarrow> string option \<Rightarrow> string \<Rightarrow> int \<Rightarrow> admin_state \<Rightarrow> admin_state \<times> admin_answer" where
  "confirmTopup topup note fresh now s =
     (case sql_get (\<lambda>p. py_payment_id p = strip topup \<and> py_source p = ''bank_transfer'') (payments (ad_db s)) of
        None \<Rightarrow> (s, ANotFound)
      | Some p \<Rightarrow>
        if py_status p = ''paid'' then (s, AAlreadyPaid)
        else if py_status p = ''refunded'' then (s, AAlreadyRefunded)
        else (case renter_by_id (ad_db s) (py_renter p) of None \<Rightarrow> (s, ARenterMissing)
        | Some r \<Rightarrow>
          let d1 = set_payment (\<lambda>x. py_payment_id x = py_payment_id p) (\<lambda>x. x\<lparr>py_status := ''paid'', py_confirmed_at := Some now\<rparr>) (ad_db s);
              d2 = update_renter (rn_id r) (\<lambda>x. x\<lparr>rn_balance := rn_balance x + py_amount p, rn_updated_at := Some now\<rparr>) d1;
              row = \<lparr>lg_id = fresh, lg_renter = rn_id r, lg_amount = py_amount p, lg_direction = Credit, lg_source = ''bank_transfer_topup'',
                     lg_job_id = None, lg_payment_ref = Some (py_payment_id p),
                     lg_note = Some (case note_text 500 note of None \<Rightarrow> ''Bank transfer confirmed by admin'' | Some t \<Rightarrow> t), lg_created_at = now\<rparr>
          in (s\<lparr>ad_db := d2\<lparr>ledger := sql_insert_or_ignore lg_id row (ledger d2)\<rparr>\<rparr>, ADone (rn_balance r + py_amount p))))"

section \<open>The refund route of the administrator\<close>

definition sandbox_payment :: "string \<Rightarrow> bool" where
  "sandbox_payment i = (take 8 i = ''sandbox-'')"

definition refund_now :: "string \<Rightarrow> int \<Rightarrow> int \<Rightarrow> int \<Rightarrow> db \<Rightarrow> db" where
  "refund_now i renter amount now d =
     update_renter renter (\<lambda>r. r\<lparr>rn_balance := max 0 (rn_balance r - amount), rn_updated_at := Some now\<rparr>)
       (set_payment (\<lambda>p. py_payment_id p = i)
         (\<lambda>p. p\<lparr>py_status := ''refunded'', py_refunded_at := Some now, py_refund_amount := Some amount\<rparr>) d)"

datatype refund_answer =
  RNotFound | RNotPaid string | RAlreadyRefunded | RBadAmount | RRefunded int | RGatewayError
| RAwait int \<comment> \<open>Moyasar is asked to refund the amount\<close>
| RBadReason | RRejected | ROpen refund_status | RTaken | RRecorded int | RNotPending refund_status | RThrows

text \<open>\<open>amount\<close> is \<open>None\<close> when the body has none.\<close>

definition refund_amount :: "js_num option \<Rightarrow> payment_row \<Rightarrow> int option" where
  "refund_amount amount p = (case amount of None \<Rightarrow> Some (py_amount p) | Some v \<Rightarrow> toFiniteInt v 1 (py_amount p))"

definition adminRefund_begin :: "bool \<Rightarrow> string \<Rightarrow> js_num option \<Rightarrow> int \<Rightarrow> admin_state \<Rightarrow> admin_state \<times> refund_answer" where
  "adminRefund_begin configured i amount now s =
     (case payment_of (ad_db s) i of None \<Rightarrow> (s, RNotFound)
      | Some p \<Rightarrow>
        if py_status p \<noteq> ''paid'' then (s, RNotPaid (py_status p))
        else if py_refunded_at p \<noteq> None then (s, RAlreadyRefunded)
        else (case refund_amount amount p of
          None \<Rightarrow> (s, RBadAmount)
        | Some a \<Rightarrow>
          if \<not> configured \<or> sandbox_payment i then (s\<lparr>ad_db := refund_now i (py_renter p) a now (ad_db s)\<rparr>, RRefunded a)
          else (s, RAwait a)))"

text \<open>When Moyasar has answered: the row read before the call is not read again.\<close>

definition adminRefund_end :: "payment_row \<Rightarrow> int \<Rightarrow> bool \<Rightarrow> int \<Rightarrow> admin_state \<Rightarrow> admin_state \<times> refund_answer" where
  "adminRefund_end p a ok now s =
     (if \<not> ok then (s, RGatewayError)
      else (s\<lparr>ad_db := refund_now (py_payment_id p) (py_renter p) a now (ad_db s)\<rparr>, RRefunded a))"

section \<open>The queue of refund requests\<close>

definition open_refund :: "refund_request \<Rightarrow> bool" where
  "open_refund r = (rf_status r = RfPending \<or> rf_status r = RfProcessing)"

definition requestRefund :: "int \<Rightarrow> string \<Rightarrow> string option \<Rightarrow> js_num option \<Rightarrow> string \<Rightarrow> int \<Rightarrow> admin_state \<Rightarrow> admin_state \<times> refund_answer" where
  "requestRefund renter param reason amount fresh now s =
     (let key = strip param; why = (case reason of None \<Rightarrow> [] | Some t \<Rightarrow> strip t) in
      if key = [] then (s, RNotFound)
      else if length why < 3 then (s, RBadReason)
      else (case sql_get (\<lambda>p. py_renter p = renter \<and> (py_payment_id p = key \<or> py_moyasar_id p = Some key)) (payments (ad_db s)) of
        None \<Rightarrow> (s, RNotFound)
      | Some p \<Rightarrow>
        if py_status p \<noteq> ''paid'' then (s, RNotPaid (py_status p))
        else if py_refunded_at p \<noteq> None then (s, RAlreadyRefunded)
        else (case refund_amount amount p of
          None \<Rightarrow> (s, RBadAmount)
        | Some a \<Rightarrow> (case sql_get (\<lambda>r. rf_payment r = py_payment_id p \<and> open_refund r) (ad_refunds s) of
            Some r \<Rightarrow> (s, ROpen (rf_status r))
          | None \<Rightarrow>
            if fresh \<in> set (map rf_id (ad_refunds s)) \<or> a \<le> 0 then (s, RTaken) \<comment> \<open>a key or the CHECK refuses the row\<close>
            else (s\<lparr>ad_refunds := sql_insert \<lparr>rf_id = fresh, rf_payment = py_payment_id p, rf_renter = renter, rf_amount = a,
                    rf_reason = take 1000 why, rf_status = RfPending, rf_requested = now, rf_reviewed = None, rf_by = None,
                    rf_note = None, rf_moyasar = None\<rparr> (ad_refunds s)\<rparr>, RRecorded a)))))"

definition set_refund :: "string \<Rightarrow> (refund_request \<Rightarrow> refund_request) \<Rightarrow> admin_state \<Rightarrow> admin_state" where
  "set_refund i f s = s\<lparr>ad_refunds := sql_update (\<lambda>r. rf_id r = i) f (ad_refunds s)\<rparr>"

definition refund_of :: "admin_state \<Rightarrow> string \<Rightarrow> refund_request option" where
  "refund_of s i = sql_get (\<lambda>r. rf_id r = i) (ad_refunds s)"

text \<open>The transaction at the end of an approval: it throws unless the payment is still paid.\<close>

definition approve_finish :: "refund_request \<Rightarrow> string \<Rightarrow> string option \<Rightarrow> string option \<Rightarrow> int \<Rightarrow> admin_state \<Rightarrow> admin_state \<times> refund_answer" where
  "approve_finish r who note gateway_id now s =
     (let P = (\<lambda>p. py_payment_id p = rf_payment r \<and> py_status p = ''paid'' \<and> py_refunded_at p = None) in
      if sql_changes P (payments (ad_db s)) = 0 then (s, RThrows)
      else let d1 = set_payment P (\<lambda>p. p\<lparr>py_status := ''refunded'', py_refunded_at := Some now, py_refund_amount := Some (rf_amount r)\<rparr>) (ad_db s);
               d2 = update_renter (rf_renter r) (\<lambda>x. x\<lparr>rn_balance := max 0 (rn_balance x - rf_amount r), rn_updated_at := Some now\<rparr>) d1
           in (set_refund (rf_id r) (\<lambda>x. x\<lparr>rf_status := RfApproved, rf_reviewed := Some now, rf_by := Some who, rf_note := note,
                  rf_moyasar := gateway_id\<rparr>) (s\<lparr>ad_db := d2\<rparr>), RRefunded (rf_amount r)))"

definition approve_begin :: "bool \<Rightarrow> string \<Rightarrow> string \<Rightarrow> string option \<Rightarrow> int \<Rightarrow> admin_state \<Rightarrow> admin_state \<times> refund_answer" where
  "approve_begin configured i who note now s =
     (case refund_of s i of None \<Rightarrow> (s, RNotFound)
      | Some r \<Rightarrow> (case payment_of (ad_db s) (rf_payment r) of None \<Rightarrow> (s, RNotFound)
      | Some p \<Rightarrow>
        if rf_status r \<noteq> RfPending then (s, RNotPending (rf_status r))
        else if py_status p \<noteq> ''paid'' \<or> py_refunded_at p \<noteq> None then (s, RNotPaid (py_status p))
        else let s1 = set_refund i (\<lambda>x. x\<lparr>rf_status := RfProcessing, rf_reviewed := Some now, rf_by := Some who, rf_note := note\<rparr>) s in
          if configured \<and> truthy_str (py_moyasar_id p) \<and> \<not> sandbox_payment (rf_payment r) then (s1, RAwait (rf_amount r))
          else approve_finish r who note None now s1))"

text \<open>\<open>reply\<close> is the refund id of Moyasar's answer, or the message of its error.\<close>

definition approve_end :: "refund_request \<Rightarrow> string \<Rightarrow> string option \<Rightarrow> string + string option \<Rightarrow> int \<Rightarrow> admin_state \<Rightarrow> admin_state \<times> refund_answer" where
  "approve_end r who note reply now s =
     (case reply of
        Inl msg \<Rightarrow> (set_refund (rf_id r) (\<lambda>x. x\<lparr>rf_status := RfPending,
            rf_note := Some ((if truthy_str note then the note @ [CHR 0x0A] else []) @ ''Moyasar refund failed: '' @ msg)\<rparr>) s, RGatewayError)
      | Inr g \<Rightarrow> approve_finish r who note g now s)"

definition rejectRefund :: "string \<Rightarrow> string \<Rightarrow> string option \<Rightarrow> int \<Rightarrow> admin_state \<Rightarrow> admin_state \<times> refund_answer" where
  "rejectRefund i who reason now s =
     (let why = (case reason of None \<Rightarrow> [] | Some t \<Rightarrow> take 1000 (strip t)) in
      if length why < 3 then (s, RBadReason)
      else (case refund_of s i of None \<Rightarrow> (s, RNotFound)
      | Some r \<Rightarrow>
        if rf_status r \<noteq> RfPending then (s, RNotPending (rf_status r))
        else (s\<lparr>ad_refunds := sql_update (\<lambda>x. rf_id x = i \<and> rf_status x = RfPending)
                (\<lambda>x. x\<lparr>rf_status := RfRejected, rf_reviewed := Some now, rf_by := Some who, rf_note := Some why\<rparr>) (ad_refunds s)\<rparr>,
              RRejected)))"

section \<open>Refunded payments stay refunded\<close>

definition payment_status :: "db \<Rightarrow> string \<Rightarrow> string option" where
  "payment_status d i = map_option py_status (payment_of d i)"

definition keeps_refunded :: "db \<Rightarrow> db \<Rightarrow> bool" where
  "keeps_refunded d d' = ((\<forall>i. payment_status d i = Some ''refunded'' \<longrightarrow> payment_status d' i = Some ''refunded'')
     \<and> (\<forall>i. (payment_of d' i = None) = (payment_of d i = None)))"

lemma kept_refl [simp]: "keeps_refunded d d"
  by (simp add: keeps_refunded_def)

lemma kept_trans: "keeps_refunded d d1 \<Longrightarrow> keeps_refunded d1 d2 \<Longrightarrow> keeps_refunded d d2"
  by (simp add: keeps_refunded_def)

lemma kept_same: "payments d' = payments d \<Longrightarrow> keeps_refunded d d'"
  by (simp add: keeps_refunded_def payment_status_def payment_of_def)

lemma payment_of_renter [simp]: "payment_of (update_renter k f d) i = payment_of d i"
  by (simp add: payment_of_def)

lemma payment_of_set:
  "(\<And>p. py_payment_id (h p) = py_payment_id p) \<Longrightarrow>
   payment_of (set_payment P h d) i = map_option (\<lambda>p. if P p then h p else p) (payment_of d i)"
  by (simp add: payment_of_def sql_get_update)

lemma kept_set:
  assumes "\<And>p. py_payment_id (h p) = py_payment_id p"
    and "\<And>p. p \<in> set (payments d) \<Longrightarrow> P p \<Longrightarrow> py_status p = ''refunded'' \<Longrightarrow> py_status (h p) = ''refunded''"
  shows "keeps_refunded d (set_payment P h d)"
proof -
  have "payment_status (set_payment P h d) i = Some ''refunded''" if st: "payment_status d i = Some ''refunded''" for i
  proof -
    obtain p where p: "payment_of d i = Some p" "py_status p = ''refunded''"
      using st by (auto simp: payment_status_def)
    show ?thesis
      using p assms(2) [of p] sql_get_Some [OF p(1) [unfolded payment_of_def]]
      by (simp add: payment_status_def payment_of_set [OF assms(1)])
  qed
  moreover have "(payment_of (set_payment P h d) i = None) = (payment_of d i = None)" for i
    by (simp add: payment_of_set [OF assms(1)])
  ultimately show ?thesis by (simp add: keeps_refunded_def)
qed

lemma kept_renter [simp]: "keeps_refunded d (update_renter k f d1) = keeps_refunded d d1"
  by (simp add: keeps_refunded_def payment_status_def payment_of_def)

lemma kept_paid: "keeps_refunded d (fst (markPaymentPaidOnce d pid renter amt now))"
proof -
  have "keeps_refunded d (set_payment (\<lambda>p. py_payment_id p = pid \<and> py_status p \<in> {''pending'', ''initiated'', ''failed''})
      (\<lambda>p. p\<lparr>py_status := ''paid'', py_confirmed_at := Some now\<rparr>) d)" by (rule kept_set) auto
  then show ?thesis by (simp add: markPaymentPaidOnce_def Let_def)
qed

lemma kept_refund: "keeps_refunded d (fst (markPaymentRefundedOnce d pid renter amt now))"
proof -
  have "keeps_refunded d (set_payment (\<lambda>p. py_payment_id p = pid \<and> py_status p = ''paid'' \<and> py_refunded_at p = None)
      (\<lambda>p. p\<lparr>py_status := ''refunded'', py_refunded_at := Some now, py_refund_amount := Some amt\<rparr>) d)" by (rule kept_set) auto
  then show ?thesis by (simp add: markPaymentRefundedOnce_def Let_def)
qed

lemma payments_fail_attempt [simp]: "payments (fail_attempt mid now d) = payments d"
  by (simp add: fail_attempt_def split: option.splits)

lemma kept_apply:
  assumes st: "\<And>x. x \<in> set (payments d) \<Longrightarrow> py_payment_id x = py_payment_id p \<Longrightarrow> py_status x = py_status p"
  shows "keeps_refunded d (fst (apply_event d p e now))"
proof -
  have set: "keeps_refunded d (set_payment (\<lambda>x. py_payment_id x = py_payment_id p) (\<lambda>x. x\<lparr>py_status := t\<rparr>) d)" if "py_status p \<noteq> ''refunded''" for t
    using st that by (intro kept_set) auto
  have paid: "keeps_refunded d (fst (finalizeFrom3dsCallback d1 mid now))"
    if "markPaymentPaidOnce d (py_payment_id p) (py_renter p) (py_amount p) now = (d1, b)" for d1 b mid
    using kept_paid [of d "py_payment_id p" "py_renter p" "py_amount p" now] that by (auto intro: kept_trans [OF _ kept_same])
  have failed: "keeps_refunded d (fail_attempt mid now (set_payment (\<lambda>x. py_payment_id x = py_payment_id p) (\<lambda>x. x\<lparr>py_status := t\<rparr>) d))"
    if "py_status p \<noteq> ''refunded''" for mid t by (rule kept_trans [OF set [OF that] kept_same]) simp
  have ref: "keeps_refunded d d1" if "markPaymentRefundedOnce d pid k a now = (d1, b)" for pid k a d1 b
    using kept_refund [of d pid k a now] that by simp
  have kp: "keeps_refunded d d1" if "markPaymentPaidOnce d pid k a now = (d1, b)" for pid k a d1 b
    using kept_paid [of d pid k a now] that by simp
  show ?thesis using set failed
    by (auto simp: apply_event_def Let_def split: prod.splits bool.splits dest: ref paid kp)
qed

lemma kept_webhook: "pay_good d \<Longrightarrow> keeps_refunded d (fst (webhook d e now))"
proof -
  assume good: "pay_good d"
  obtain d1 m where m: "match_payment d e = (d1, m)" by (cases "match_payment d e")
  show ?thesis
  proof (cases m)
    case None
    then show ?thesis using m match_payment_none [of d e d1] by (auto simp: webhook_def)
  next
    case (Some p)
    note f = match_payment_some [OF m [unfolded Some] good]
    have "d1 = d \<or> d1 = rebind (we_id e) p d"
      using m Some by (auto simp: match_payment_def split: option.splits if_splits)
    moreover have "keeps_refunded d (rebind (we_id e) p d)" unfolding rebind_def by (rule kept_set) simp_all
    ultimately have "keeps_refunded d d1" by auto
    with kept_apply [of d1 p e now, OF f(3)] show ?thesis
      using m Some by (auto simp: webhook_def intro: kept_trans)
  qed
qed

lemma kept_reconcile: "keeps_refunded d (fst (reconcile_topups lookup now rows (d, w)))"
proof (induction rows arbitrary: d w)
  case (Cons row rows)
  have failed: "keeps_refunded d (set_payment (\<lambda>p. py_payment_id p = py_payment_id row \<and> py_status p \<in> {''pending'', ''initiated''})
      (\<lambda>p. p\<lparr>py_status := ''failed''\<rparr>) d)" by (rule kept_set) auto
  have paid: "keeps_refunded d d1" if "markPaymentPaidOnce d pid k a now = (d1, b)" for pid k a d1 b
    using kept_paid [of d pid k a now] that by simp
  show ?case
    using Cons.IH kept_trans [OF failed Cons.IH] kept_trans [OF paid Cons.IH]
    by (simp add: Let_def split: option.splits reconcile_action.splits prod.splits)
qed simp

lemma kept_pay_run: "pay_good d \<Longrightarrow> keeps_refunded d (pay_run d e)"
  by (cases e) (simp_all add: kept_webhook reconcilePendingTopups_def kept_reconcile)

section \<open>The steps of one database\<close>

text \<open>
  The end of an administrator's refund carries the row it read and an amount it accepted; the end of an
  approval finds its request still in processing, as no route takes a request out of it but the approval.
\<close>

datatype admin_event =
  AeGrant int js_num "string option" string int
| AeAdjust int js_num
| AeConfirm string "string option" string int
| AeRefundBegin bool string "js_num option" int
| AeRefundEnd string int bool int
| AeRequest int string "string option" "js_num option" string int
| AeApproveBegin bool string string "string option" int
| AeApproveEnd string string "string option" "string + string option" int
| AeReject string string "string option" int
| AePay pay_step

fun admin_run :: "admin_state \<Rightarrow> admin_event \<Rightarrow> admin_state" where
  "admin_run s (AeGrant n a why who now) = fst (grantRenterCredit n a why who now s)"
| "admin_run s (AeAdjust n a) = fst (adjustBalance n a s)"
| "admin_run s (AeConfirm i text k now) = fst (confirmTopup i text k now s)"
| "admin_run s (AeRefundBegin c i a now) = fst (adminRefund_begin c i a now s)"
| "admin_run s (AeRefundEnd i a ok now) =
     (case payment_of (ad_db s) i of None \<Rightarrow> s | Some p \<Rightarrow> fst (adminRefund_end p a ok now s))"
| "admin_run s (AeRequest n i why a k now) = fst (requestRefund n i why a k now s)"
| "admin_run s (AeApproveBegin c i who text now) = fst (approve_begin c i who text now s)"
| "admin_run s (AeApproveEnd i who text reply now) =
     (case refund_of s i of None \<Rightarrow> s
      | Some r \<Rightarrow> if rf_status r = RfProcessing then fst (approve_end r who text reply now s) else s)"
| "admin_run s (AeReject i who why now) = fst (rejectRefund i who why now s)"
| "admin_run s (AePay e) = s\<lparr>ad_db := pay_run (ad_db s) e\<rparr>"

definition approved_refund :: "refund_request \<Rightarrow> bool" where
  "approved_refund r = (rf_status r = RfApproved)"

definition refunds_good :: "admin_state \<Rightarrow> bool" where
  "refunds_good s = (pay_good (ad_db s) \<and> has_key rf_id (ad_refunds s)
     \<and> distinct (map rf_payment (filter open_refund (ad_refunds s)))
     \<and> distinct (map rf_payment (filter approved_refund (ad_refunds s)))
     \<and> (\<forall>r\<in>set (ad_refunds s). approved_refund r \<longrightarrow> payment_status (ad_db s) (rf_payment r) = Some ''refunded''))"

lemma pay_good_set:
  assumes "pay_good d" and "\<And>p. py_payment_id (h p) = py_payment_id p" and "\<And>p. py_amount (h p) = py_amount p"
  shows "pay_good (set_payment P h d)"
  using assms by (auto simp: pay_good_def has_key_update set_sql_update)

lemma pay_good_renter:
  assumes "pay_good d" and "\<And>r. 0 \<le> rn_balance r \<Longrightarrow> 0 \<le> rn_balance (f r)"
  shows "pay_good (update_renter k f d)"
  using assms by (auto simp: pay_good_def set_renters_update)

lemma pay_good_run: "pay_good d \<Longrightarrow> pay_good (pay_run d e)"
  using fair_step [of d e] by (simp add: fair_def)

lemma pay_good_ledger [simp]: "pay_good (d\<lparr>ledger := l\<rparr>) = pay_good d"
  by (simp add: pay_good_def)

lemma distinct_update_filter:
  assumes "has_key key rows" and "distinct (map g (filter Q rows))"
    and "\<And>x. P x \<Longrightarrow> key x = i" and "\<And>x. g (f x) = g x"
    and "\<And>x. x \<in> set rows \<Longrightarrow> P x \<Longrightarrow> Q (f x) \<Longrightarrow> Q x \<or> (\<forall>y\<in>set rows. Q y \<longrightarrow> g y \<noteq> g x)"
  shows "distinct (map g (filter Q (sql_update P f rows)))"
  using assms
proof (induction rows)
  case (Cons y ys)
  have key: "has_key key ys" "distinct (map g (filter Q ys))"
    using Cons.prems(1,2) by (auto simp: has_key_def split: if_splits)
  show ?case
  proof (cases "P y")
    case True
    with Cons.prems(1,3) have "\<forall>x\<in>set ys. \<not> P x" by (fastforce simp: has_key_def rev_image_eqI)
    then have "sql_update P f ys = ys" by (rule sql_update_id)
    with Cons.prems(2,4) Cons.prems(5) [of y] True show ?thesis by (auto simp: image_iff split: if_splits)
  next
    case False
    have ih: "distinct (map g (filter Q (sql_update P f ys)))"
      by (rule Cons.IH [OF key]) (use Cons.prems(3,4,5) in auto)
    have "g y \<notin> g ` set (filter Q (sql_update P f ys))" if "Q y"
    proof
      assume "g y \<in> g ` set (filter Q (sql_update P f ys))"
      then obtain x where x: "x \<in> set ys" "g x = g y" "if P x then Q (f x) else Q x"
        using Cons.prems(4) by (auto simp: set_sql_update split: if_splits)
      with Cons.prems(5) [of x] that have "Q x" by (auto split: if_splits)
      with x Cons.prems(2) that show False by (auto simp: rev_image_eqI image_iff)
    qed
    with ih False show ?thesis by simp
  qed
qed simp

text \<open>A step that leaves the requests alone, or one of them, is judged by its own row.\<close>

lemma refunds_good_db:
  assumes "refunds_good s" and "pay_good d" and "keeps_refunded (ad_db s) d"
  shows "refunds_good (s\<lparr>ad_db := d\<rparr>)" "refunds_good (s\<lparr>ad_db := d, ad_grants := g\<rparr>)"
  using assms by (auto simp: refunds_good_def keeps_refunded_def)

lemma refunds_good_set:
  assumes good: "refunds_good s" and f: "\<And>x. rf_id (f x) = rf_id x" "\<And>x. rf_payment (f x) = rf_payment x"
    and P: "\<And>x. P x \<Longrightarrow> rf_id x = i"
    and op: "\<And>x. x \<in> set (ad_refunds s) \<Longrightarrow> P x \<Longrightarrow> open_refund (f x) \<Longrightarrow> open_refund x"
    and ap: "\<And>x. \<not> approved_refund (f x)"
  shows "refunds_good (s\<lparr>ad_refunds := sql_update P f (ad_refunds s)\<rparr>)"
proof -
  have "distinct (map rf_payment (filter open_refund (sql_update P f (ad_refunds s))))"
    by (rule distinct_update_filter [where key = rf_id and i = i]) (use good f P op in \<open>auto simp: refunds_good_def\<close>)
  moreover have "distinct (map rf_payment (filter approved_refund (sql_update P f (ad_refunds s))))"
    by (rule distinct_update_filter [where key = rf_id and i = i]) (use good f P ap in \<open>auto simp: refunds_good_def\<close>)
  ultimately show ?thesis
    using good f ap by (auto simp: refunds_good_def has_key_update set_sql_update)
qed
lemma kept_from_unpaid:
  assumes "py_status p \<noteq> ''refunded''" and "payment_of d (py_payment_id p) = Some p" and "\<And>x. py_payment_id (h x) = py_payment_id x"
    and "pay_good d"
  shows "keeps_refunded d (set_payment (\<lambda>x. py_payment_id x = py_payment_id p) h d)"
proof (rule kept_set [OF assms(3)])
  fix x assume x: "x \<in> set (payments d)" "py_payment_id x = py_payment_id p" "py_status x = ''refunded''"
  have "p \<in> set (payments d)" using assms(2) by (auto simp: payment_of_def dest: sql_get_Some)
  then have "x = p" using has_key_eq [of py_payment_id "payments d" x p] assms(4) x by (auto simp: pay_good_def)
  with x assms(1) show "py_status (h x) = ''refunded''" by simp
qed

lemma payment_of_in: "payment_of d i = Some p \<Longrightarrow> p \<in> set (payments d) \<and> py_payment_id p = i"
  by (auto simp: payment_of_def dest: sql_get_Some)

lemma payment_of_mem: "pay_good d \<Longrightarrow> p \<in> set (payments d) \<Longrightarrow> payment_of d (py_payment_id p) = Some p"
  by (simp add: payment_of_def pay_good_def sql_get_key)

lemma toFiniteInt_bounds: "toFiniteInt v lo hi = Some n \<Longrightarrow> lo \<le> n"
  by (auto simp: toFiniteInt_def le_floor_iff split: option.splits if_splits)

lemma good_grant: "refunds_good s \<Longrightarrow> refunds_good (fst (grantRenterCredit n a why who now s))"
proof -
  assume good: "refunds_good s"
  then have d: "pay_good (ad_db s)" by (simp add: refunds_good_def)
  show ?thesis
    using good d
    by (auto simp: grantRenterCredit_def Let_def split: option.splits
        intro!: refunds_good_db pay_good_renter dest!: balance_nonneg [OF d] toFiniteInt_bounds)
qed

lemma good_adjust: "refunds_good s \<Longrightarrow> refunds_good (fst (adjustBalance n a s))"
proof -
  assume good: "refunds_good s"
  then have d: "pay_good (ad_db s)" by (simp add: refunds_good_def)
  show ?thesis
    using good d
    by (auto simp: adjustBalance_def Let_def split: option.splits intro!: refunds_good_db pay_good_renter)
qed

lemma good_confirm: "refunds_good s \<Longrightarrow> refunds_good (fst (confirmTopup i text k now s))"
proof -
  assume good: "refunds_good s"
  then have d: "pay_good (ad_db s)" by (simp add: refunds_good_def)
  show ?thesis
  proof (cases "sql_get (\<lambda>p. py_payment_id p = strip i \<and> py_source p = ''bank_transfer'') (payments (ad_db s))")
    case None
    with good show ?thesis by (simp add: confirmTopup_def)
  next
    case (Some p)
    then have p: "p \<in> set (payments (ad_db s))" by (auto dest: sql_get_Some)
    have amt: "0 \<le> py_amount p" using d p by (simp add: pay_good_def)
    have kept: "keeps_refunded (ad_db s) (set_payment (\<lambda>x. py_payment_id x = py_payment_id p)
        (\<lambda>x. x\<lparr>py_status := ''paid'', py_confirmed_at := Some now\<rparr>) (ad_db s))" if "py_status p \<noteq> ''refunded''"
      by (rule kept_from_unpaid [OF that payment_of_mem [OF d p] _ d]) simp
    have kept2: "keeps_refunded d0 (d1\<lparr>ledger := l\<rparr>) = keeps_refunded d0 d1" for d0 d1 l
      by (simp add: keeps_refunded_def payment_status_def payment_of_def)
    show ?thesis
      using good d amt Some
      by (auto simp: confirmTopup_def Let_def kept2 kept split: option.splits
          intro!: refunds_good_db pay_good_renter pay_good_set)
  qed
qed

lemma good_refund_now:
  assumes "refunds_good s" and "payment_of (ad_db s) i = Some p"
  shows "refunds_good (s\<lparr>ad_db := refund_now i k a now (ad_db s)\<rparr>)"
proof -
  have d: "pay_good (ad_db s)" using assms(1) by (simp add: refunds_good_def)
  have "keeps_refunded (ad_db s) (set_payment (\<lambda>p. py_payment_id p = i)
         (\<lambda>p. p\<lparr>py_status := ''refunded'', py_refunded_at := Some now, py_refund_amount := Some a\<rparr>) (ad_db s))"
    by (rule kept_set) auto
  then show ?thesis
    using d by (auto simp: refund_now_def intro!: refunds_good_db [OF assms(1)] pay_good_renter pay_good_set)
qed

lemma good_refund: "refunds_good s \<Longrightarrow> refunds_good (fst (adminRefund_begin c i a now s))"
  by (auto simp: adminRefund_begin_def good_refund_now split: option.splits)

lemma requestRefund_cases:
  "fst (requestRefund n i why a k now s) = s \<or>
   (\<exists>r. fst (requestRefund n i why a k now s) = s\<lparr>ad_refunds := sql_insert r (ad_refunds s)\<rparr> \<and> rf_status r = RfPending
      \<and> rf_id r \<notin> set (map rf_id (ad_refunds s)) \<and> sql_get (\<lambda>x. rf_payment x = rf_payment r \<and> open_refund x) (ad_refunds s) = None)"
proof (cases "strip i = [] \<or> length (case why of None \<Rightarrow> [] | Some t \<Rightarrow> strip t) < 3")
  case True
  then show ?thesis by (auto simp: requestRefund_def Let_def)
next
  case False
  show ?thesis
  proof (cases "sql_get (\<lambda>p. py_renter p = n \<and> (py_payment_id p = strip i \<or> py_moyasar_id p = Some (strip i))) (payments (ad_db s))")
    case None
    with False show ?thesis by (simp add: requestRefund_def Let_def)
  next
    case (Some p)
    show ?thesis
    proof (cases "py_status p \<noteq> ''paid'' \<or> py_refunded_at p \<noteq> None \<or> refund_amount a p = None
        \<or> sql_get (\<lambda>r. rf_payment r = py_payment_id p \<and> open_refund r) (ad_refunds s) \<noteq> None \<or> k \<in> set (map rf_id (ad_refunds s))
        \<or> the (refund_amount a p) \<le> 0")
      case True
      with False Some show ?thesis by (intro disjI1)
          (cases "refund_amount a p"; cases "sql_get (\<lambda>r. rf_payment r = py_payment_id p \<and> open_refund r) (ad_refunds s)";
            auto simp: requestRefund_def Let_def)
    next
      case f2: False
      then obtain v where "refund_amount a p = Some v" by auto
      with f2 False Some show ?thesis
        by (intro disjI2 exI [of _ "\<lparr>rf_id = k, rf_payment = py_payment_id p, rf_renter = n, rf_amount = v,
            rf_reason = take 1000 (case why of None \<Rightarrow> [] | Some t \<Rightarrow> strip t), rf_status = RfPending, rf_requested = now,
            rf_reviewed = None, rf_by = None, rf_note = None, rf_moyasar = None\<rparr>"]) (simp add: requestRefund_def Let_def)
    qed
  qed
qed

lemma good_request: "refunds_good s \<Longrightarrow> refunds_good (fst (requestRefund n i why a k now s))"
proof -
  assume good: "refunds_good s"
  have "refunds_good (s\<lparr>ad_refunds := sql_insert r (ad_refunds s)\<rparr>)"
    if r: "rf_status r = RfPending" "rf_id r \<notin> set (map rf_id (ad_refunds s))"
      "sql_get (\<lambda>x. rf_payment x = rf_payment r \<and> open_refund x) (ad_refunds s) = None" for r
    using good r(2) sql_get_None [THEN iffD1, OF r(3)]
    by (auto simp: r(1) refunds_good_def sql_insert_def has_key_def open_refund_def approved_refund_def)
  with good requestRefund_cases [of n i why a k now s] show ?thesis by metis
qed

lemma good_finish:
  assumes good: "refunds_good s" and r: "refund_of s (rf_id r) = Some q" "rf_payment q = rf_payment r"
  shows "refunds_good (fst (approve_finish r who text g now s))"
proof -
  let ?P = "\<lambda>p. py_payment_id p = rf_payment r \<and> py_status p = ''paid'' \<and> py_refunded_at p = None"
  let ?h = "\<lambda>p. p\<lparr>py_status := ''refunded'', py_refunded_at := Some now, py_refund_amount := Some (rf_amount r)\<rparr>"
  let ?d = "update_renter (rf_renter r) (\<lambda>x. x\<lparr>rn_balance := max 0 (rn_balance x - rf_amount r), rn_updated_at := Some now\<rparr>)
     (set_payment ?P ?h (ad_db s))"
  let ?f = "\<lambda>x. x\<lparr>rf_status := RfApproved, rf_reviewed := Some now, rf_by := Some who, rf_note := text, rf_moyasar := g\<rparr>"
  show ?thesis
  proof (cases "sql_changes ?P (payments (ad_db s)) = 0")
    case True
    with good show ?thesis by (simp add: approve_finish_def)
  next
    case False
    have d: "pay_good (ad_db s)" using good by (simp add: refunds_good_def)
    obtain p where p: "p \<in> set (payments (ad_db s))" "py_payment_id p = rf_payment r" "py_status p = ''paid''" "py_refunded_at p = None"
      using False by (auto simp: sql_changes_0)
    have pay: "payment_of (ad_db s) (rf_payment r) = Some p" using payment_of_mem [OF d p(1)] p(2) by simp
    have kept: "keeps_refunded (ad_db s) ?d" by (simp, rule kept_set) auto
    have d': "pay_good ?d" using d by (auto intro!: pay_good_renter pay_good_set)
    have now_refunded: "payment_status ?d (rf_payment r) = Some ''refunded''"
      using p pay by (simp add: payment_status_def payment_of_set)
    have no: "rf_payment y \<noteq> rf_payment r" if "y \<in> set (ad_refunds s)" "approved_refund y" for y
      using good that pay p(3) by (auto simp: refunds_good_def payment_status_def)
    have r': "rf_payment x = rf_payment r" if "x \<in> set (ad_refunds s)" "rf_id x = rf_id r" for x
    proof -
      have "q \<in> set (ad_refunds s)" "rf_id q = rf_id r" using r(1) by (auto simp: refund_of_def dest: sql_get_Some)
      then have "x = q" using has_key_eq [of rf_id "ad_refunds s" x q] good that by (simp add: refunds_good_def)
      with r(2) show ?thesis by simp
    qed
    have "distinct (map rf_payment (filter open_refund (sql_update (\<lambda>x. rf_id x = rf_id r) ?f (ad_refunds s))))"
      by (rule distinct_update_filter [where key = rf_id and i = "rf_id r"]) (use good in \<open>auto simp: refunds_good_def open_refund_def\<close>)
    moreover have "distinct (map rf_payment (filter approved_refund (sql_update (\<lambda>x. rf_id x = rf_id r) ?f (ad_refunds s))))"
      by (rule distinct_update_filter [where key = rf_id and i = "rf_id r"]) (use good no r' in \<open>auto simp: refunds_good_def\<close>)
    ultimately have "refunds_good (set_refund (rf_id r) ?f (s\<lparr>ad_db := ?d\<rparr>))"
      using good d' kept now_refunded r'
      by (auto simp: refunds_good_def set_refund_def has_key_update set_sql_update keeps_refunded_def)
    with False show ?thesis by (simp add: approve_finish_def Let_def)
  qed
qed
lemma good_set_status:
  assumes "refunds_good s" and "refund_of s i = Some r" and "open_refund r"
    and "\<And>x. rf_id (f x) = rf_id x" and "\<And>x. rf_payment (f x) = rf_payment x" and "\<And>x. \<not> approved_refund (f x)"
  shows "refunds_good (set_refund i f s)"
proof -
  have r: "r \<in> set (ad_refunds s)" "rf_id r = i" using sql_get_Some [OF assms(2) [unfolded refund_of_def]] by simp_all
  have "x = r" if "x \<in> set (ad_refunds s)" "rf_id x = i" for x
    by (rule has_key_eq [of rf_id "ad_refunds s"]) (use assms(1) that r in \<open>simp_all add: refunds_good_def\<close>)
  then show ?thesis
    unfolding set_refund_def by (intro refunds_good_set [OF assms(1,4,5), where i = i]) (use assms(3,6) in auto)
qed

lemma refund_of_set: "(\<And>x. rf_id (f x) = rf_id x) \<Longrightarrow>
    refund_of (set_refund j f s) i = map_option (\<lambda>x. if rf_id x = j then f x else x) (refund_of s i)"
  by (simp add: refund_of_def set_refund_def sql_get_update)

lemma refund_of_id: "refund_of s i = Some r \<Longrightarrow> rf_id r = i"
  by (auto simp: refund_of_def dest: sql_get_Some)

lemma good_approve_begin: "refunds_good s \<Longrightarrow> refunds_good (fst (approve_begin c i who text now s))"
proof -
  assume good: "refunds_good s"
  let ?s = "set_refund i (\<lambda>x. x\<lparr>rf_status := RfProcessing, rf_reviewed := Some now, rf_by := Some who, rf_note := text\<rparr>) s"
  have "refunds_good ?s \<and> refunds_good (fst (approve_finish r who text None now ?s))"
    if r: "refund_of s i = Some r" "rf_status r = RfPending" for r
  proof -
    have "refunds_good ?s"
      by (rule good_set_status [OF good r(1)]) (use r(2) in \<open>auto simp: open_refund_def approved_refund_def\<close>)
    moreover from this have "refunds_good (fst (approve_finish r who text None now ?s))"
      by (rule good_finish [where q = "r\<lparr>rf_status := RfProcessing, rf_reviewed := Some now, rf_by := Some who, rf_note := text\<rparr>"])
         (use r refund_of_id [OF r(1)] in \<open>auto simp: refund_of_set\<close>)
    ultimately show ?thesis ..
  qed
  with good show ?thesis by (simp add: approve_begin_def Let_def split: option.splits)
qed

lemma good_approve_end:
  assumes good: "refunds_good s" and r: "refund_of s i = Some r" "rf_status r = RfProcessing"
  shows "refunds_good (fst (approve_end r who text reply now s))"
proof (cases reply)
  case (Inl msg)
  have i: "refund_of s (rf_id r) = Some r" using r(1) refund_of_id [OF r(1)] by simp
  show ?thesis unfolding Inl approve_end_def sum.case fst_conv
    by (rule good_set_status [OF good i]) (use r(2) in \<open>auto simp: open_refund_def approved_refund_def\<close>)
next
  case (Inr g)
  with good_finish [OF good, of r r] r refund_of_id [OF r(1)] show ?thesis by (simp add: approve_end_def)
qed

lemma good_reject: "refunds_good s \<Longrightarrow> refunds_good (fst (rejectRefund i who why now s))"
proof -
  assume good: "refunds_good s"
  let ?P = "\<lambda>x. rf_id x = i \<and> rf_status x = RfPending"
  have "refunds_good (s\<lparr>ad_refunds := sql_update ?P (\<lambda>x. x\<lparr>rf_status := RfRejected, rf_reviewed := Some now, rf_by := Some who,
      rf_note := Some t\<rparr>) (ad_refunds s)\<rparr>)" for t
    by (rule refunds_good_set [OF good, where i = i]) (auto simp: open_refund_def approved_refund_def)
  with good show ?thesis by (simp add: rejectRefund_def Let_def split: option.splits)
qed

lemma good_admin_run: "refunds_good s \<Longrightarrow> refunds_good (admin_run s e)"
proof (cases e)
  case (AePay p)
  assume good: "refunds_good s"
  then have d: "pay_good (ad_db s)" by (simp add: refunds_good_def)
  show ?thesis unfolding AePay admin_run.simps by (rule refunds_good_db [OF good pay_good_run [OF d] kept_pay_run [OF d]])
next
  case (AeRefundEnd i a ok now)
  assume good: "refunds_good s"
  show ?thesis
  proof (cases "payment_of (ad_db s) i")
    case None
    with good AeRefundEnd show ?thesis by simp
  next
    case (Some p)
    with payment_of_in [OF Some] good_refund_now [OF good] good AeRefundEnd show ?thesis by (simp add: adminRefund_end_def)
  qed
qed (auto simp: good_grant good_adjust good_confirm good_refund good_request good_approve_begin good_approve_end good_reject
    split: option.splits)

interpretation administered: preserved admin_run refunds_good
  by unfold_locales (rule good_admin_run)
section \<open>Theorems\<close>

definition demo_admin :: admin_state where
  "demo_admin = \<lparr>ad_db = demo_pay, ad_refunds = [], ad_grants = []\<rparr>"

lemma demo_admin_good [simp]: "refunds_good demo_admin"
  by (simp add: refunds_good_def demo_admin_def has_key_def)

definition demo_refund_events :: "admin_event list" where
  "demo_refund_events =
     [AePay (Hook demo_event 7), AeRequest 1 ''pay-1'' (Some ''wrong card'') None ''rr-1'' 8, AeRequest 1 ''pay-1'' (Some ''again'') None ''rr-2'' 9,
      AeApproveBegin True ''rr-1'' ''ops'' None 10, AeReject ''rr-1'' ''ops'' (Some ''too late'') 11,
      AeApproveEnd ''rr-1'' ''ops'' None (Inr (Some ''mf-1'')) 10]"

text \<open>
  C30: However refund requests, approvals (split at the wait for Moyasar), rejections, the administrator's
  own refunds, grants, adjustments, bank transfers, webhooks and sweeps are interleaved, a payment has at
  most one open and at most one approved refund request, the payment of an approved request is refunded,
  and no renter's balance is below zero.
\<close>

theorem refunds_approved_once:
  assumes "refunds_good s"
  shows "distinct (map rf_payment (filter open_refund (ad_refunds (foldl admin_run s es))))
    \<and> distinct (map rf_payment (filter approved_refund (ad_refunds (foldl admin_run s es))))
    \<and> (\<forall>r\<in>set (ad_refunds (foldl admin_run s es)). approved_refund r \<longrightarrow>
         payment_status (ad_db (foldl admin_run s es)) (rf_payment r) = Some ''refunded'')
    \<and> (\<forall>r\<in>set (renters (ad_db (foldl admin_run s es))). 0 \<le> rn_balance r)"
  using administered.inv_run_all [OF assms, of es] by (simp add: refunds_good_def pay_good_def)

theorem refunds_approved_once_witness:
  "distinct (map rf_payment (filter approved_refund (ad_refunds (foldl admin_run demo_admin demo_refund_events))))
    \<and> map rf_status (ad_refunds (foldl admin_run demo_admin demo_refund_events)) = [RfApproved]"
proof -
  have "map rf_status (ad_refunds (foldl admin_run demo_admin demo_refund_events)) = [RfApproved]"
    by code_simp
  with refunds_approved_once [OF demo_admin_good, of demo_refund_events] show ?thesis by simp
qed
text \<open>
  The administrator's refund route guards against a second refund only before it waits for Moyasar.
  Two requests for one paid payment that both start before either ends are both sent on, and each of the
  two ends takes the amount from the renter's balance.
\<close>

theorem refund_race_debits_twice:
  assumes "payment_of (ad_db s) i = Some p" and "py_status p = ''paid''" and "py_refunded_at p = None"
    and "\<not> sandbox_payment i" and "refund_amount v p = Some a"
    and "renter_by_id (ad_db s) (py_renter p) = Some r" and "2 * a \<le> rn_balance r" and "0 \<le> a"
  shows "adminRefund_begin True i v t1 s = (s, RAwait a) \<and>
    balance_of (ad_db (fst (adminRefund_end p a True t3 (fst (adminRefund_end p a True t2 s))))) (py_renter p)
      = rn_balance r - 2 * a"
proof -
  have i: "py_payment_id p = i" using payment_of_in [OF assms(1)] by simp
  have "adminRefund_begin True i v t1 s = (s, RAwait a)"
    using assms by (simp add: adminRefund_begin_def)
  moreover have bal: "balance_of (refund_now i k a t d) k = (case renter_by_id d k of None \<Rightarrow> 0 | Some r \<Rightarrow> max 0 (rn_balance r - a))" for k t d
    unfolding refund_now_def by (subst balance_update_renter) (simp_all add: renter_by_id_def split: option.splits)
  moreover have row: "renter_by_id (refund_now i k a t d) k
      = map_option (\<lambda>r. r\<lparr>rn_balance := max 0 (rn_balance r - a), rn_updated_at := Some t\<rparr>) (renter_by_id d k)" for k t d
    unfolding refund_now_def by (subst renter_update_renter) (simp_all add: renter_by_id_def split: option.splits)
  ultimately show ?thesis
    using assms(6,7,8) by (simp add: adminRefund_end_def i bal row)
qed

definition demo_paid :: admin_state where
  "demo_paid = demo_admin\<lparr>ad_db := demo_db\<lparr>payments := [demo_payment\<lparr>py_status := ''paid''\<rparr>]\<rparr>\<rparr>"

theorem refund_race_debits_twice_witness:
  "adminRefund_begin True ''pay-1'' None 7 demo_paid = (demo_paid, RAwait 500) \<and>
   balance_of (ad_db (fst (adminRefund_end (demo_payment\<lparr>py_status := ''paid''\<rparr>) 500 True 9
     (fst (adminRefund_end (demo_payment\<lparr>py_status := ''paid''\<rparr>) 500 True 8 demo_paid))))) 1 = 0"
  using refund_race_debits_twice [of demo_paid "''pay-1''" "demo_payment\<lparr>py_status := ''paid''\<rparr>" None 500 demo_renter 7 9 8]
  by (simp add: demo_paid_def payment_of_def sql_get_def demo_payment_def sandbox_payment_def refund_amount_def
      renter_by_id_def demo_renter_def demo_db_def)

text \<open>
  A refund approval whose payment becomes refunded by the webhook while it waits for Moyasar cannot end:
  the last transaction throws and changes nothing, so the request stays in processing, where
  it can be neither approved nor rejected.
\<close>

theorem refund_stuck_processing:
  assumes "refund_of s i = Some r" and "rf_status r = RfProcessing"
    and "payment_of (ad_db s) (rf_payment r) = Some p" and "py_status p = ''refunded''" and "pay_good (ad_db s)"
    and "length (strip reason) \<ge> 3"
  shows "approve_end r who text (Inr g) now s = (s, RThrows)
    \<and> approve_begin c i who text now s = (s, RNotPending RfProcessing)
    \<and> rejectRefund i who (Some reason) now s = (s, RNotPending RfProcessing)"
proof -
  have "sql_changes (\<lambda>x. py_payment_id x = rf_payment r \<and> py_status x = ''paid'' \<and> py_refunded_at x = None) (payments (ad_db s)) = 0"
  proof -
    have "p \<in> set (payments (ad_db s))" "py_payment_id p = rf_payment r" using payment_of_in [OF assms(3)] by simp_all
    then have "x = p" if "x \<in> set (payments (ad_db s))" "py_payment_id x = rf_payment r" for x
      using that assms(5) has_key_eq [of py_payment_id "payments (ad_db s)" x p] by (simp add: pay_good_def)
    with assms(4) show ?thesis by (auto simp: sql_changes_0)
  qed
  then show ?thesis using assms by (simp add: approve_end_def approve_finish_def approve_begin_def rejectRefund_def)
qed
definition demo_stuck :: admin_state where
  "demo_stuck = foldl admin_run demo_admin
     [AePay (Hook demo_event 7), AeRequest 1 ''pay-1'' (Some ''wrong card'') None ''rr-1'' 8,
      AeApproveBegin True ''rr-1'' ''ops'' None 10, AePay (Hook (demo_event\<lparr>we_status := ''refunded''\<rparr>) 11)]"

theorem refund_stuck_processing_witness:
  "\<exists>r. refund_of demo_stuck ''rr-1'' = Some r \<and> rf_status r = RfProcessing
     \<and> approve_end r ''ops'' None (Inr (Some ''mf-1'')) 10 demo_stuck = (demo_stuck, RThrows)
     \<and> rejectRefund ''rr-1'' ''ops'' (Some ''never mind'') 10 demo_stuck = (demo_stuck, RNotPending RfProcessing)"
proof -
  have good: "pay_good (ad_db demo_stuck)"
    unfolding demo_stuck_def by (rule refunds_good_def [THEN iffD1, THEN conjunct1]) (rule administered.inv_run_all [OF demo_admin_good])
  have "map_option (\<lambda>r. (rf_status r, map_option py_status (payment_of (ad_db demo_stuck) (rf_payment r)))) (refund_of demo_stuck ''rr-1'')
      = Some (RfProcessing, Some ''refunded'')" by code_simp
  then obtain r p where "refund_of demo_stuck ''rr-1'' = Some r" "rf_status r = RfProcessing"
    "payment_of (ad_db demo_stuck) (rf_payment r) = Some p" "py_status p = ''refunded''" by auto
  moreover have "3 \<le> length (strip ''never mind'')" by code_simp
  ultimately show ?thesis
    using refund_stuck_processing [of demo_stuck "''rr-1''" r p "''never mind''" "''ops''" None "Some ''mf-1''" 10] good by simp
qed
end
