(* ===== verification/Idempotency.thy ===== *)
theory Idempotency
  imports Payouts PodLife Volumes Payments
begin

text \<open>
  The middleware \<open>withFinancialIdempotency\<close> of \<open>backend/src/lib/financial-idempotency.js\<close>, in front of the
  routes that move money: payout requests, pod launches and extensions, volume rentals and top-ups. A
  successful answer is kept for 24 hours under the digest of subject, endpoint and client key and
  is replayed to a retry. All but the top-up are synchronous, so their requests are atomic; the
  top-up waits for Moyasar between the two halves of the middleware. The digest is a parameter, and so is the
  text of an answer, whose characters are ASCII.
\<close>

section \<open>The table\<close>

record idem_row =
  ik_hash :: string
  ik_subject_type :: string
  ik_subject :: string
  ik_endpoint :: string
  ik_method :: string
  ik_status :: int
  ik_body :: "string option"
  ik_created :: int
  ik_expires :: int

record guarded =
  gd_db :: db
  gd_keys :: "idem_row list"

definition DEFAULT_TTL_MS :: int where "DEFAULT_TTL_MS = 24 * 60 * 60 * 1000"

definition MAX_RESPONSE_BYTES :: nat where "MAX_RESPONSE_BYTES = 64 * 1024"

section \<open>The middleware\<close>

record idem_request =
  iq_key :: "string option"        \<comment> \<open>\<open>Idempotency-Key\<close>\<close>
  iq_x_key :: "string option"      \<comment> \<open>\<open>X-Idempotency-Key\<close>\<close>
  iq_subject_type :: string
  iq_subject :: "string option"
  iq_method :: string
  iq_path :: string                \<comment> \<open>the path pattern of the route\<close>

definition endpoint_tag :: "idem_request \<Rightarrow> string" where
  "endpoint_tag q = iq_method q @ '' '' @ iq_path q"

definition client_key :: "idem_request \<Rightarrow> string" where
  "client_key q = strip (if truthy_str (iq_key q) then the (iq_key q) else case iq_x_key q of None \<Rightarrow> [] | Some k \<Rightarrow> k)"

fun join_nul :: "string list \<Rightarrow> string" where
  "join_nul [] = []"
| "join_nul [x] = x"
| "join_nul (x # xs) = x @ CHR 0x00 # join_nul xs"

definition key_hash :: "(string \<Rightarrow> string) \<Rightarrow> idem_request \<Rightarrow> string" where
  "key_hash digest q = digest (join_nul [iq_subject_type q, the (iq_subject q), endpoint_tag q, client_key q])"

datatype passage = PassThrough | BadKey | Replay int "string option" | Capture string

definition evictExpired :: "int \<Rightarrow> idem_row list \<Rightarrow> idem_row list" where
  "evictExpired now rows = filter (\<lambda>r. \<not> ik_expires r \<le> now) rows"

text \<open>\<open>gc\<close> is the outcome of the draw that evicts expired rows in one request of twenty.\<close>

definition idem_begin :: "(string \<Rightarrow> string) \<Rightarrow> idem_request \<Rightarrow> int \<Rightarrow> bool \<Rightarrow> guarded \<Rightarrow> guarded \<times> passage" where
  "idem_begin digest q now gc s =
     (if client_key q = [] then (s, PassThrough)
      else if length (client_key q) > 256 then (s, BadKey)
      else if \<not> truthy_str (iq_subject q) then (s, PassThrough)
      else let h = key_hash digest q; miss = (if gc then s\<lparr>gd_keys := evictExpired now (gd_keys s)\<rparr> else s, Capture h) in
        case sql_get (\<lambda>r. ik_hash r = h) (gd_keys s) of
          None \<Rightarrow> miss
        | Some r \<Rightarrow> if ik_expires r > now then (s, Replay (ik_status r) (ik_body r)) else miss)"

definition keep_answer :: "idem_request \<Rightarrow> string \<Rightarrow> int \<Rightarrow> string option \<Rightarrow> int \<Rightarrow> int \<Rightarrow> guarded \<Rightarrow> guarded" where
  \<comment> \<open>\<open>captureJson\<close>: the request came in at \<open>start\<close> and is answered at \<open>now\<close>\<close>
  "keep_answer q h status body start now s =
     (if 200 \<le> status \<and> status < 300 \<and> (case body of None \<Rightarrow> True | Some t \<Rightarrow> length t \<le> MAX_RESPONSE_BYTES)
      then s\<lparr>gd_keys := sql_insert \<lparr>ik_hash = h, ik_subject_type = iq_subject_type q, ik_subject = the (iq_subject q),
             ik_endpoint = endpoint_tag q, ik_method = iq_method q, ik_status = status, ik_body = body, ik_created = start,
             ik_expires = now + DEFAULT_TTL_MS\<rparr> (filter (\<lambda>r. ik_hash r \<noteq> h) (gd_keys s))\<rparr>
      else s)"

section \<open>The synchronous routes\<close>

datatype money_call =
  CallPayout int js_num string
| CallExtend int job_ref js_num
| CallLaunch launch_env int pod_request
| CallRent int js_num bool bool

datatype money_reply =
  AnsPayout "payout_error + payout_row"
| AnsExtend "extend_error + int"
| AnsLaunch "launch_error + job_row"
| AnsRent "rent_error + int"

fun money_route :: "money_call \<Rightarrow> int \<Rightarrow> db \<Rightarrow> db \<times> money_reply" where
  "money_route (CallPayout p usd uuid) now d = (case requestPayout d p usd uuid now of (d', r) \<Rightarrow> (d', AnsPayout r))"
| "money_route (CallExtend renter i minutes) now d = (case extendPod d renter i minutes now of (d', r) \<Rightarrow> (d', AnsExtend r))"
| "money_route (CallLaunch env renter rq) now d = (case launchPod env d renter rq of (d', r) \<Rightarrow> (d', AnsLaunch r))"
| "money_route (CallRent renter gb provision persist) now d =
     (case rentVolume d renter gb now provision persist of (d', r) \<Rightarrow> (d', AnsRent r))"

text \<open>The status of a success; an error has a status of 400 or more, here 0.\<close>

fun success_status :: "money_reply \<Rightarrow> int" where
  "success_status (AnsPayout r) = (if isl r then 0 else 201)"
| "success_status (AnsExtend r) = (if isl r then 0 else 200)"
| "success_status (AnsLaunch r) = (if isl r then 0 else 201)"
| "success_status (AnsRent r) = (if isl r then 0 else 200)"

datatype guarded_answer = Fresh money_reply | Replayed int "string option" | RefusedKey

definition serve :: "(string \<Rightarrow> string) \<Rightarrow> (money_reply \<Rightarrow> string) \<Rightarrow> idem_request \<Rightarrow> money_call \<Rightarrow> int \<Rightarrow> bool \<Rightarrow> guarded \<Rightarrow>
    guarded \<times> guarded_answer" where
  "serve digest body q c now gc s =
     (case idem_begin digest q now gc s of
        (s1, BadKey) \<Rightarrow> (s1, RefusedKey)
      | (s1, Replay st b) \<Rightarrow> (s1, Replayed st b)
      | (s1, PassThrough) \<Rightarrow> (case money_route c now (gd_db s1) of (d, r) \<Rightarrow> (s1\<lparr>gd_db := d\<rparr>, Fresh r))
      | (s1, Capture h) \<Rightarrow> (case money_route c now (gd_db s1) of
          (d, r) \<Rightarrow> (keep_answer q h (success_status r) (Some (body r)) now now (s1\<lparr>gd_db := d\<rparr>), Fresh r)))"

section \<open>The top-up\<close>

record topup_request =
  tq_method :: "string option"      \<comment> \<open>\<open>payment_method || source_type\<close>\<close>
  tq_halala :: js_num
  tq_sar :: "js_num option"         \<comment> \<open>\<open>None\<close> when absent\<close>
  tq_callback_ok :: bool            \<comment> \<open>absent, or a URL that is accepted\<close>

datatype topup_answer =
  TopBadMethod | TopBadAmount | TopUnconfigured | TopInstructions string int | TopBadCallback
| TopInvoice int       \<comment> \<open>Moyasar is asked for an invoice of the amount\<close>
| TopCreated string | TopGatewayError

definition topup_method :: "topup_request \<Rightarrow> string" where
  "topup_method r = to_lower (strip (if truthy_str (tq_method r) then the (tq_method r) else ''creditcard''))"

definition topup_amount :: "topup_request \<Rightarrow> int option" where
  "topup_amount r =
     (case toFiniteInt (tq_halala r) 100 1000000 of Some n \<Rightarrow> Some n
      | None \<Rightarrow> (case tq_sar r of Some (Some x) \<Rightarrow> if x < 1 \<or> x > 10000 then None else Some (js_round (fl_mul x 100)) | _ \<Rightarrow> None))"

definition pending_payment :: "string \<Rightarrow> string option \<Rightarrow> int \<Rightarrow> int \<Rightarrow> string \<Rightarrow> int \<Rightarrow> payment_row" where
  "pending_payment i mid renter amount how now =
     \<lparr>py_payment_id = i, py_moyasar_id = mid, py_renter = renter, py_amount = amount, py_status = ''pending'',
      py_source = how, py_created_at = now, py_confirmed_at = None, py_refunded_at = None, py_refund_amount = None\<rparr>"

definition topup_begin :: "bool \<Rightarrow> int \<Rightarrow> topup_request \<Rightarrow> string \<Rightarrow> int \<Rightarrow> db \<Rightarrow> db \<times> topup_answer" where
  "topup_begin iban_set renter r fresh now d =
     (if topup_method r \<notin> {''creditcard'', ''applepay'', ''bank_transfer''} then (d, TopBadMethod)
      else case topup_amount r of None \<Rightarrow> (d, TopBadAmount)
      | Some a \<Rightarrow>
        if topup_method r = ''bank_transfer'' then
          if \<not> iban_set then (d, TopUnconfigured)
          else (d\<lparr>payments := sql_insert (pending_payment fresh None renter a ''bank_transfer'' now) (payments d)\<rparr>, TopInstructions fresh a)
        else if \<not> tq_callback_ok r then (d, TopBadCallback)
        else (d, TopInvoice a))"

definition topup_end :: "int \<Rightarrow> topup_request \<Rightarrow> int \<Rightarrow> string \<Rightarrow> string option \<Rightarrow> int \<Rightarrow> db \<Rightarrow> db \<times> topup_answer" where
  \<comment> \<open>the invoice id of Moyasar, or \<open>None\<close> when it failed\<close>
  "topup_end renter r a fresh invoice now d =
     (case invoice of None \<Rightarrow> (d, TopGatewayError)
      | Some i \<Rightarrow> (d\<lparr>payments := sql_insert (pending_payment fresh (Some i) renter a (topup_method r) now) (payments d)\<rparr>, TopCreated fresh))"

datatype topup_stage = TopWaiting string int | TopDone topup_answer | TopReplayed int "string option" | TopUnguarded topup_answer | TopRefused

fun topup_success :: "topup_answer \<Rightarrow> bool" where
  "topup_success (TopInstructions _ _) = True"
| "topup_success (TopCreated _) = True"
| "topup_success _ = False"

definition topup_start :: "(string \<Rightarrow> string) \<Rightarrow> (topup_answer \<Rightarrow> string) \<Rightarrow> idem_request \<Rightarrow> bool \<Rightarrow> int \<Rightarrow> topup_request \<Rightarrow> string \<Rightarrow> int \<Rightarrow> bool \<Rightarrow>
    guarded \<Rightarrow> guarded \<times> topup_stage" where
  "topup_start digest body q iban_set renter r fresh now gc s =
     (case idem_begin digest q now gc s of
        (s1, BadKey) \<Rightarrow> (s1, TopRefused)
      | (s1, Replay st b) \<Rightarrow> (s1, TopReplayed st b)
      | (s1, PassThrough) \<Rightarrow> (case topup_begin iban_set renter r fresh now (gd_db s1) of (d, a) \<Rightarrow> (s1\<lparr>gd_db := d\<rparr>, TopUnguarded a))
      | (s1, Capture h) \<Rightarrow> (case topup_begin iban_set renter r fresh now (gd_db s1) of
          (d, TopInvoice a) \<Rightarrow> (s1\<lparr>gd_db := d\<rparr>, TopWaiting h a)
        | (d, a) \<Rightarrow> (keep_answer q h (if topup_success a then 200 else 0) (Some (body a)) now now (s1\<lparr>gd_db := d\<rparr>), TopDone a)))"

definition topup_finish :: "(topup_answer \<Rightarrow> string) \<Rightarrow> idem_request \<Rightarrow> string \<Rightarrow> int \<Rightarrow> topup_request \<Rightarrow> int \<Rightarrow> string \<Rightarrow> string option \<Rightarrow> int \<Rightarrow> int \<Rightarrow>
    guarded \<Rightarrow> guarded \<times> topup_answer" where
  "topup_finish body q h renter r a fresh invoice start now s =
     (case topup_end renter r a fresh invoice now (gd_db s) of
        (d, ans) \<Rightarrow> (keep_answer q h (if topup_success ans then 200 else 0) (Some (body ans)) start now (s\<lparr>gd_db := d\<rparr>), ans))"

section \<open>A kept answer stays\<close>

datatype guard_event =
  GeServe idem_request money_call int bool
| GeStart idem_request bool int topup_request string int bool
| GeFinish idem_request string int topup_request int string "string option" int int
| GeDb "db \<Rightarrow> db"      \<comment> \<open>anything else that happens to the database\<close>

fun guard_step :: "(string \<Rightarrow> string) \<Rightarrow> (money_reply \<Rightarrow> string) \<Rightarrow> (topup_answer \<Rightarrow> string) \<Rightarrow> guarded \<Rightarrow> guard_event \<Rightarrow> guarded" where
  "guard_step digest body tbody s (GeServe q c now gc) = fst (serve digest body q c now gc s)"
| "guard_step digest body tbody s (GeStart q iban renter r fresh now gc) = fst (topup_start digest tbody q iban renter r fresh now gc s)"
| "guard_step digest body tbody s (GeFinish q h renter r a fresh invoice start now) = fst (topup_finish tbody q h renter r a fresh invoice start now s)"
| "guard_step digest body tbody s (GeDb f) = s\<lparr>gd_db := f (gd_db s)\<rparr>"

text \<open>The event comes before time \<open>t\<close> and does not end a top-up that began under the digest \<open>h\<close>.\<close>

fun precedes :: "int \<Rightarrow> string \<Rightarrow> guard_event \<Rightarrow> bool" where
  "precedes t h (GeServe _ _ now _) = (now < t)"
| "precedes t h (GeStart _ _ _ _ _ now _) = (now < t)"
| "precedes t h (GeFinish _ h' _ _ _ _ _ _ _) = (h' \<noteq> h)"
| "precedes t h (GeDb _) = True"

definition kept :: "string \<Rightarrow> guarded \<Rightarrow> idem_row option" where
  "kept h s = sql_get (\<lambda>r. ik_hash r = h) (gd_keys s)"

lemma kept_db [simp]: "kept h (s\<lparr>gd_db := d\<rparr>) = kept h s"
  by (simp add: kept_def)

lemma find_filter: "List.find P xs = Some r \<Longrightarrow> Q r \<Longrightarrow> List.find P (filter Q xs) = Some r"
  by (induction xs) (auto split: if_splits)

lemma kept_evict: "kept h s = Some r \<Longrightarrow> now < ik_expires r \<Longrightarrow> kept h (s\<lparr>gd_keys := evictExpired now (gd_keys s)\<rparr>) = Some r"
  by (simp add: kept_def sql_get_def evictExpired_def find_filter)

lemma kept_other: "h' \<noteq> h \<Longrightarrow> kept h s = Some r \<Longrightarrow> kept h (keep_answer q h' st b start now s) = Some r"
proof -
  assume a: "h' \<noteq> h" "kept h s = Some r"
  then have "ik_hash r = h" by (auto simp: kept_def dest: sql_get_Some)
  with a have "sql_get (\<lambda>r. ik_hash r = h) (filter (\<lambda>r. ik_hash r \<noteq> h') (gd_keys s)) = Some r"
    by (simp add: kept_def sql_get_def find_filter)
  then show ?thesis using a by (simp add: keep_answer_def kept_def sql_get_insert)
qed

lemma kept_own:
  "200 \<le> st \<Longrightarrow> st < 300 \<Longrightarrow> (case b of None \<Rightarrow> True | Some t \<Rightarrow> length t \<le> MAX_RESPONSE_BYTES) \<Longrightarrow>
   \<exists>r. kept h (keep_answer q h st b start now s) = Some r \<and> ik_status r = st \<and> ik_body r = b \<and> ik_expires r = now + DEFAULT_TTL_MS"
proof -
  have n: "sql_get (\<lambda>r. ik_hash r = h) (filter (\<lambda>r. ik_hash r \<noteq> h) xs) = None" for xs by (auto simp: sql_get_None)
  assume "200 \<le> st" "st < 300" "case b of None \<Rightarrow> True | Some t \<Rightarrow> length t \<le> MAX_RESPONSE_BYTES"
  then show ?thesis by (simp add: keep_answer_def kept_def sql_get_insert n)
qed

lemma begin_kept:
  assumes "idem_begin digest q now gc s = (s1, m)" "kept h s = Some r" "now < ik_expires r"
  shows "kept h s1 = Some r \<and> m \<noteq> Capture h"
proof -
  have "s1 = s \<or> s1 = s\<lparr>gd_keys := evictExpired now (gd_keys s)\<rparr>"
    using assms(1) by (auto simp: idem_begin_def Let_def split: if_splits option.splits)
  then have "kept h s1 = Some r" using kept_evict [OF assms(2,3)] assms(2) by auto
  moreover have "m \<noteq> Capture h"
    using assms by (auto simp: idem_begin_def Let_def kept_def split: if_splits option.splits)
  ultimately show ?thesis ..
qed

lemma serve_kept:
  assumes "kept h s = Some r" "now < ik_expires r"
  shows "kept h (fst (serve digest body q c now gc s)) = Some r"
proof -
  obtain s1 m where b: "idem_begin digest q now gc s = (s1, m)" by fastforce
  obtain d a where c: "money_route c now (gd_db s1) = (d, a)" by fastforce
  show ?thesis using begin_kept [OF b assms] by (cases m) (auto simp: serve_def b c kept_other)
qed

lemma start_kept:
  assumes "kept h s = Some r" "now < ik_expires r"
  shows "kept h (fst (topup_start digest body q iban renter rq fresh now gc s)) = Some r"
proof -
  obtain s1 m where b: "idem_begin digest q now gc s = (s1, m)" by fastforce
  obtain d a where c: "topup_begin iban renter rq fresh now (gd_db s1) = (d, a)" by fastforce
  show ?thesis using begin_kept [OF b assms] by (cases m; cases a) (auto simp: topup_start_def b c kept_other)
qed

lemma step_kept:
  assumes "kept h s = Some r" "precedes (ik_expires r) h e"
  shows "kept h (guard_step digest body tbody s e) = Some r"
proof (cases e)
  case (GeFinish q h' renter rq a fresh invoice start now)
  then show ?thesis using assms by (auto simp: topup_finish_def kept_other split: prod.splits)
qed (use assms in \<open>simp_all add: serve_kept start_kept\<close>)

interpretation keeping: preserved "\<lambda>s e. if precedes t h e then guard_step digest body tbody s e else s"
    "\<lambda>s. kept h s = Some r \<and> ik_expires r = t" for digest body tbody t h r
  by unfold_locales (auto simp: step_kept)

lemma run_kept:
  assumes "kept h s = Some r" "\<forall>e\<in>set es. precedes (ik_expires r) h e"
  shows "kept h (foldl (guard_step digest body tbody) s es) = Some r"
proof -
  have "foldl (guard_step digest body tbody) s es
      = foldl (\<lambda>s e. if precedes (ik_expires r) h e then guard_step digest body tbody s e else s) s es"
    using assms(2) by (induction es arbitrary: s) simp_all
  with keeping.inv_run_all [of h s r "ik_expires r"] assms(1) show ?thesis by simp
qed

section \<open>Theorems\<close>

definition accepted_key :: "idem_request \<Rightarrow> bool" where
  "accepted_key q = (client_key q \<noteq> [] \<and> length (client_key q) \<le> 256 \<and> truthy_str (iq_subject q))"


definition demo_idem :: idem_request where
  "demo_idem = \<lparr>iq_key = Some ''k-1'', iq_x_key = None, iq_subject_type = ''provider'', iq_subject = Some ''7'',
     iq_method = ''POST'', iq_path = ''/providers/:id/payouts''\<rparr>"

definition demo_guarded :: guarded where
  "demo_guarded = \<lparr>gd_db = demo_paying\<lparr>payouts := []\<rparr>, gd_keys = []\<rparr>"

lemma demo_payout: "\<exists>d row. requestPayout (demo_paying\<lparr>payouts := []\<rparr>) 7 (Some 50) ''po-1'' 5 = (d, Inr row)"
proof -
  let ?d = "demo_paying\<lparr>payouts := []\<rparr>"
  have h: "usd_halala 50 = 18750" by code_simp
  have l: "live_provider ?d 7 = Some (demo_provider\<lparr>pv_claimable := 40000, pv_iban := Some ''SA1'', pv_holder := Some ''N''\<rparr>)"
    by (simp add: live_provider_def sql_get_def demo_paying_def demo_provider_def)
  have pe: "pendingHoldsHalala ?d 7 = 0" by (simp add: pendingHoldsHalala_def sql_sum_def)
  show ?thesis unfolding requestPayout_def Let_def option.case l pe h MIN_PAYOUT_USD_def
    by (simp add: sql_insert_def demo_provider_def)
qed

lemma demo_guarded_payout:
  "\<exists>s1 r. serve (\<lambda>h. h) (\<lambda>_. ''{}'') demo_idem (CallPayout 7 (Some 50) ''po-1'') 5 False demo_guarded = (s1, Fresh r)
     \<and> success_status r = 201"
proof -
  have "client_key demo_idem = ''k-1''" "truthy_str (iq_subject demo_idem)" by code_simp+
  then have b: "idem_begin (\<lambda>h. h) demo_idem 5 False demo_guarded = (demo_guarded, Capture (key_hash (\<lambda>h. h) demo_idem))"
    by (simp add: idem_begin_def demo_guarded_def sql_get_def Let_def)
  show ?thesis using demo_payout by (auto simp: serve_def b) (auto simp: demo_guarded_def)
qed


text \<open>
  C32: The key does not protect a top-up from a concurrent retry. The answer is kept when the handler
  answers, and the top-up answers after it has waited for Moyasar: a retry that comes in before passes, and both
  requests create an invoice and a pending payment.
\<close>

theorem topup_race_two_invoices:
  assumes "accepted_key q" and "kept (key_hash digest q) s = None"
    and "topup_method rq \<in> {''creditcard'', ''applepay''}" "topup_amount rq = Some a" "tq_callback_ok rq"
    and s1: "topup_finish body q (key_hash digest q) renter rq a p1 (Some i1) t1 t3 s = (s1, TopCreated p1)"
    and s2: "topup_finish body q (key_hash digest q) renter rq a p2 (Some i2) t2 t4 s1 = (s2, TopCreated p2)"
  shows "topup_start digest body q iban renter rq p1 t1 False s = (s, TopWaiting (key_hash digest q) a)
    \<and> topup_start digest body q iban renter rq p2 t2 False s = (s, TopWaiting (key_hash digest q) a)
    \<and> map py_moyasar_id (payments (gd_db s2)) = map py_moyasar_id (payments (gd_db s)) @ [Some i1, Some i2]
    \<and> length (filter (\<lambda>p. py_status p = ''pending'') (payments (gd_db s2)))
      = length (filter (\<lambda>p. py_status p = ''pending'') (payments (gd_db s))) + 2"
proof -
  have k [simp]: "gd_db (keep_answer q h st b start now x) = gd_db x" for h st b start now x by (simp add: keep_answer_def)
  have starts: "topup_start digest body q iban renter rq p t False s = (s, TopWaiting (key_hash digest q) a)" for p t
    using assms(1-5) by (auto simp: topup_start_def idem_begin_def accepted_key_def kept_def Let_def topup_begin_def)
  have "gd_db s1 = (gd_db s)\<lparr>payments := sql_insert (pending_payment p1 (Some i1) renter a (topup_method rq) t3) (payments (gd_db s))\<rparr>"
    using s1 by (auto simp: topup_finish_def topup_end_def)
  moreover have "gd_db s2 = (gd_db s1)\<lparr>payments := sql_insert (pending_payment p2 (Some i2) renter a (topup_method rq) t4) (payments (gd_db s1))\<rparr>"
    using s2 by (auto simp: topup_finish_def topup_end_def)
  ultimately show ?thesis by (simp add: starts sql_insert_def pending_payment_def)
qed

definition demo_topup :: topup_request where
  "demo_topup = \<lparr>tq_method = None, tq_halala = Some 50000, tq_sar = None, tq_callback_ok = True\<rparr>"

theorem topup_race_two_invoices_witness:
  "\<exists>s1 s2. topup_finish (\<lambda>_. ''{}'') demo_idem (key_hash (\<lambda>h. h) demo_idem) 4 demo_topup 50000 ''p1'' (Some ''i1'') 1 3 demo_guarded = (s1, TopCreated ''p1'')
     \<and> topup_finish (\<lambda>_. ''{}'') demo_idem (key_hash (\<lambda>h. h) demo_idem) 4 demo_topup 50000 ''p2'' (Some ''i2'') 2 4 s1 = (s2, TopCreated ''p2'')
     \<and> map py_moyasar_id (payments (gd_db s2)) = map py_moyasar_id (payments (gd_db demo_guarded)) @ [Some ''i1'', Some ''i2'']"
proof -
  have q: "accepted_key demo_idem" "kept (key_hash (\<lambda>h. h) demo_idem) demo_guarded = None"
    "topup_method demo_topup \<in> {''creditcard'', ''applepay''}" "topup_amount demo_topup = Some 50000" "tq_callback_ok demo_topup"
    by (code_simp, simp add: kept_def demo_guarded_def sql_get_def, code_simp, code_simp, simp add: demo_topup_def)
  obtain s1 where s1: "topup_finish (\<lambda>_. ''{}'') demo_idem (key_hash (\<lambda>h. h) demo_idem) 4 demo_topup 50000 ''p1'' (Some ''i1'') 1 3 demo_guarded = (s1, TopCreated ''p1'')"
    by (simp add: topup_finish_def topup_end_def)
  obtain s2 where s2: "topup_finish (\<lambda>_. ''{}'') demo_idem (key_hash (\<lambda>h. h) demo_idem) 4 demo_topup 50000 ''p2'' (Some ''i2'') 2 4 s1 = (s2, TopCreated ''p2'')"
    by (simp add: topup_finish_def topup_end_def)
  from topup_race_two_invoices [OF q s1 s2] s1 s2 show ?thesis by blast
qed

end
