(* ===== verification/SignIn.thy ===== *)
theory SignIn
  imports Prelude Contracts
begin

text \<open>
  Passwordless sign-in: the codes and links of \<open>backend/src/services/auth-otp.js\<close> and the device codes of
  the command line client, \<open>backend/src/routes/cli-auth.js\<close>. A code is issued for an address, is live
  until it is used, replaced or 15 minutes old, and a used link is honoured again for a minute. Mails,
  random codes and the clock are arguments; addresses and tokens are ASCII.
\<close>

section \<open>Codes and links\<close>

record otp_row =
  ot_id :: int
  ot_email :: string
  ot_code :: string
  ot_token :: "string option"      \<comment> \<open>\<open>magic_token\<close>\<close>
  ot_expires :: int
  ot_used :: bool
  ot_created :: int                \<comment> \<open>\<open>datetime('now')\<close>\<close>
  ot_used_at :: "int option"       \<comment> \<open>\<open>datetime('now')\<close>, the UTC instant it was written at\<close>
  ot_role :: "string option"       \<comment> \<open>\<open>requested_role\<close>\<close>

record otp_db =
  od_rows :: "otp_row list"
  od_seq :: int                    \<comment> \<open>the last id that AUTOINCREMENT gave\<close>

definition OTP_TTL_MINUTES :: int where "OTP_TTL_MINUTES = 15"

definition MAGIC_REUSE_WINDOW_MS :: int where "MAGIC_REUSE_WINDOW_MS = 60 * 1000"

definition wanted_role :: "string option \<Rightarrow> string option" where
  "wanted_role r = (if r = Some ''provider'' \<or> r = Some ''renter'' then r else None)"

definition otp_row_of :: "string \<Rightarrow> string option \<Rightarrow> string \<Rightarrow> string \<Rightarrow> int \<Rightarrow> int \<Rightarrow> otp_row" where
  "otp_row_of email role code token i now =
     \<lparr>ot_id = i, ot_email = to_lower email, ot_code = code, ot_token = Some token,
      ot_expires = now + OTP_TTL_MINUTES * 60 * 1000, ot_used = False, ot_created = sql_datetime now,
      ot_used_at = None, ot_role = wanted_role role\<rparr>"

text \<open>What \<open>sendOtp\<close> does before it waits for the mail service; it does nothing after it.\<close>

definition sendOtp :: "string \<Rightarrow> string option \<Rightarrow> string \<Rightarrow> string \<Rightarrow> int \<Rightarrow> otp_db \<Rightarrow> otp_db" where
  "sendOtp email role code token now s =
     s\<lparr>od_rows := sql_insert (otp_row_of email role code token (od_seq s + 1) now)
         (sql_update (\<lambda>r. ot_email r = to_lower email \<and> \<not> ot_used r) (\<lambda>r. r\<lparr>ot_used := True\<rparr>) (od_rows s)),
       od_seq := od_seq s + 1\<rparr>"

definition white :: "char \<Rightarrow> bool" where
  "white c = (c \<in> {CHR '' '', CHR 0x09, CHR 0x0A, CHR 0x0B, CHR 0x0C, CHR 0x0D})"

definition cleanToken :: "string \<Rightarrow> string" where
  "cleanToken raw = filter (\<lambda>c. \<not> white c \<and> c \<noteq> CHR ''-'') raw"

definition set_used :: "int \<Rightarrow> int option \<Rightarrow> otp_db \<Rightarrow> otp_db" where
  \<comment> \<open>\<open>UPDATE otp_codes SET used = 1\<close>, with \<open>used_at\<close> where the statement sets it\<close>
  "set_used i stamp s = s\<lparr>od_rows := sql_update (\<lambda>r. ot_id r = i)
     (\<lambda>r. r\<lparr>ot_used := True, ot_used_at := case stamp of None \<Rightarrow> ot_used_at r | Some t \<Rightarrow> Some (sql_datetime t)\<rparr>) (od_rows s)\<rparr>"

datatype otp_answer = OtpUser string | OtpBlank | OtpShape | OtpMissing | OtpExpired | OtpWrong | OtpFailed

definition live_code :: "string \<Rightarrow> otp_db \<Rightarrow> otp_row option" where
  "live_code email s = sql_get (\<lambda>_. True)
     (sort_key (\<lambda>r. - ot_created r) (sql_all (\<lambda>r. ot_email r = to_lower email \<and> \<not> ot_used r) (od_rows s)))"

definition verifyOtp :: "string \<Rightarrow> string \<Rightarrow> int \<Rightarrow> otp_db \<Rightarrow> otp_db \<times> otp_answer" where
  "verifyOtp email token now s =
     (let clean = cleanToken token in
      if clean = [] then (s, OtpBlank)
      else if \<not> (length clean = 6 \<and> list_all is_digit clean) then (s, OtpShape)
      else case live_code email s of
        None \<Rightarrow> (s, OtpMissing)
      | Some r \<Rightarrow>
        if ot_expires r < now then (set_used (ot_id r) None s, OtpExpired)
        else if length clean \<noteq> length (ot_code r) then (s, OtpFailed)   \<comment> \<open>\<open>timingSafeEqual\<close> throws\<close>
        else if clean \<noteq> ot_code r then (s, OtpWrong)
        else (set_used (ot_id r) None s, OtpUser (to_lower email)))"

datatype link_answer =
  LinkUser string "string option" bool   \<comment> \<open>address, \<open>requested_role\<close>, \<open>replayed\<close>\<close>
| LinkInvalid | LinkUnknown | LinkExpired | LinkSpent

definition link_row :: "string \<Rightarrow> otp_db \<Rightarrow> otp_row option" where
  "link_row token s = sql_get (\<lambda>r. ot_token r = Some (strip token)) (od_rows s)"

text \<open>
  \<open>used_at\<close> has no zone, so \<open>new Date\<close> reads it as local time: \<open>zone\<close> is what the server's clock is
  ahead of UTC, in milliseconds.
\<close>

definition verifyMagicToken :: "int \<Rightarrow> string \<Rightarrow> int \<Rightarrow> otp_db \<Rightarrow> otp_db \<times> link_answer" where
  "verifyMagicToken zone token now s =
     (if token = [] then (s, LinkInvalid)
      else case link_row token s of
        None \<Rightarrow> (s, LinkUnknown)
      | Some r \<Rightarrow>
        if ot_expires r < now then ((if ot_used r then s else set_used (ot_id r) None s), LinkExpired)
        else if ot_used r then
          (let since = (case ot_used_at r of None \<Rightarrow> 0 | Some u \<Rightarrow> u - zone) in
           (s, if since > 0 \<and> now - since < MAGIC_REUSE_WINDOW_MS then LinkUser (ot_email r) (ot_role r) True else LinkSpent))
        else (set_used (ot_id r) (Some now) s, LinkUser (ot_email r) (ot_role r) False))"

text \<open>
  The comparison of \<open>expires_at\<close>, \<open>2026-01-01T..\<close>, with \<open>datetime('now', '-1 hour')\<close>, \<open>2026-01-01 ..\<close>, is
  of texts: on the same day the letter T is above the blank, so only an earlier day is less.
\<close>

definition cleanupExpiredCodes :: "int \<Rightarrow> otp_db \<Rightarrow> otp_db" where
  "cleanupExpiredCodes now s =
     s\<lparr>od_rows := filter (\<lambda>r. \<not> ot_expires r div day_ms < (now - 60 * 60 * 1000) div day_ms) (od_rows s)\<rparr>"

section \<open>Histories of codes\<close>

datatype otp_event =
  OsSend string "string option" string string int
| OsCode string string int
| OsLink string int
| OsClean int

record sign_in =
  si_row :: int
  si_email :: string
  si_secret :: string      \<comment> \<open>what the client presented\<close>
  si_link :: bool
  si_fresh :: bool
  si_time :: int

record history =
  hs_past :: "otp_event list"
  hs_db :: otp_db
  hs_log :: "sign_in list"

definition note_code :: "string \<Rightarrow> string \<Rightarrow> int \<Rightarrow> otp_db \<Rightarrow> otp_answer \<Rightarrow> sign_in list" where
  "note_code email token now s a = (case a of OtpUser e \<Rightarrow>
     [\<lparr>si_row = ot_id (the (live_code email s)), si_email = e, si_secret = cleanToken token, si_link = False, si_fresh = True, si_time = now\<rparr>]
     | _ \<Rightarrow> [])"

definition note_link :: "string \<Rightarrow> int \<Rightarrow> otp_db \<Rightarrow> link_answer \<Rightarrow> sign_in list" where
  "note_link token now s a = (case a of LinkUser e _ replayed \<Rightarrow>
     [\<lparr>si_row = ot_id (the (link_row token s)), si_email = e, si_secret = strip token, si_link = True, si_fresh = (\<not> replayed), si_time = now\<rparr>]
     | _ \<Rightarrow> [])"

fun otp_step :: "int \<Rightarrow> otp_db \<Rightarrow> otp_event \<Rightarrow> otp_db \<times> sign_in list" where
  "otp_step zone s (OsSend email role code token now) = (sendOtp email role code token now s, [])"
| "otp_step zone s (OsCode email token now) = (case verifyOtp email token now s of (s', a) \<Rightarrow> (s', note_code email token now s a))"
| "otp_step zone s (OsLink token now) = (case verifyMagicToken zone token now s of (s', a) \<Rightarrow> (s', note_link token now s a))"
| "otp_step zone s (OsClean now) = (cleanupExpiredCodes now s, [])"

definition history_step :: "int \<Rightarrow> history \<Rightarrow> otp_event \<Rightarrow> history" where
  "history_step zone h e = (case otp_step zone (hs_db h) e of
     (s, ns) \<Rightarrow> \<lparr>hs_past = hs_past h @ [e], hs_db = s, hs_log = hs_log h @ ns\<rparr>)"

definition history_of :: "int \<Rightarrow> otp_event list \<Rightarrow> history" where
  "history_of zone es = foldl (history_step zone) \<lparr>hs_past = [], hs_db = \<lparr>od_rows = [], od_seq = 0\<rparr>, hs_log = []\<rparr> es"

lemma past_foldl: "hs_past (foldl (history_step zone) h es) = hs_past h @ es"
  by (induction es arbitrary: h) (simp_all add: history_step_def split: prod.splits)

lemma past_history [simp]: "hs_past (history_of zone es) = es"
  by (simp add: history_of_def past_foldl)

text \<open>A row, or what a client presented, goes back to a code that was sent.\<close>

definition sent :: "otp_event list \<Rightarrow> string \<Rightarrow> string \<Rightarrow> string \<Rightarrow> int \<Rightarrow> bool" where
  "sent es email code token t = (\<exists>addr role. OsSend addr role code token t \<in> set es \<and> email = to_lower addr)"

definition row_sent :: "otp_event list \<Rightarrow> otp_row \<Rightarrow> bool" where
  "row_sent es r = (\<exists>token t. sent es (ot_email r) (ot_code r) token t \<and> ot_token r = Some token
     \<and> ot_expires r = t + OTP_TTL_MINUTES * 60 * 1000)"

definition sign_in_sent :: "otp_event list \<Rightarrow> sign_in \<Rightarrow> bool" where
  "sign_in_sent es n = (\<exists>code token t. sent es (si_email n) code token t \<and> si_secret n = (if si_link n then token else code)
     \<and> si_time n \<le> t + OTP_TTL_MINUTES * 60 * 1000)"

definition fresh_rows :: "sign_in list \<Rightarrow> int list" where
  "fresh_rows ns = map si_row (filter si_fresh ns)"

definition first_use :: "sign_in list \<Rightarrow> int \<Rightarrow> int \<Rightarrow> bool" where
  \<comment> \<open>the link of the row was first used in the second \<open>u\<close>\<close>
  "first_use ns i u = (\<exists>f\<in>set ns. si_row f = i \<and> si_link f \<and> si_fresh f \<and> sql_datetime (si_time f) = u)"

definition log_row :: "sign_in list \<Rightarrow> otp_row \<Rightarrow> bool" where
  "log_row ns r = ((ot_id r \<in> set (fresh_rows ns) \<longrightarrow> ot_used r)
     \<and> (\<forall>u. ot_used_at r = Some u \<longrightarrow> ot_used r \<and> first_use ns (ot_id r) u))"

definition replay_ok :: "int \<Rightarrow> sign_in list \<Rightarrow> sign_in \<Rightarrow> bool" where
  "replay_ok zone ns n = (si_fresh n \<or> (\<exists>u. first_use ns (si_row n) u \<and> si_time n < u - zone + MAGIC_REUSE_WINDOW_MS))"

definition one_live :: "otp_row list \<Rightarrow> bool" where
  "one_live rows = (\<forall>r\<in>set rows. \<forall>r'\<in>set rows. \<not> ot_used r \<and> \<not> ot_used r' \<and> ot_email r = ot_email r' \<longrightarrow> ot_id r = ot_id r')"

definition otp_good :: "int \<Rightarrow> otp_event list \<Rightarrow> otp_db \<Rightarrow> sign_in list \<Rightarrow> bool" where
  "otp_good zone past s ns = (has_key ot_id (od_rows s) \<and> (\<forall>r\<in>set (od_rows s). ot_id r \<le> od_seq s) \<and> (\<forall>n\<in>set ns. si_row n \<le> od_seq s)
     \<and> (\<forall>r\<in>set (od_rows s). row_sent past r \<and> log_row ns r) \<and> distinct (fresh_rows ns) \<and> one_live (od_rows s)
     \<and> (\<forall>n\<in>set ns. sign_in_sent past n \<and> replay_ok zone ns n))"

definition history_good :: "int \<Rightarrow> history \<Rightarrow> bool" where
  "history_good zone h = otp_good zone (hs_past h) (hs_db h) (hs_log h)"

lemma otp_goodI:
  assumes "has_key ot_id (od_rows s)" "one_live (od_rows s)" "distinct (fresh_rows ns)"
    and "\<And>r. r \<in> set (od_rows s) \<Longrightarrow> ot_id r \<le> od_seq s \<and> row_sent past r \<and> log_row ns r"
    and "\<And>n. n \<in> set ns \<Longrightarrow> si_row n \<le> od_seq s \<and> sign_in_sent past n \<and> replay_ok zone ns n"
  shows "otp_good zone past s ns"
  using assms unfolding otp_good_def by blast

lemma otp_goodD:
  assumes "otp_good zone past s ns"
  shows "has_key ot_id (od_rows s)" "one_live (od_rows s)" "distinct (fresh_rows ns)"
    and "r \<in> set (od_rows s) \<Longrightarrow> ot_id r \<le> od_seq s \<and> row_sent past r \<and> log_row ns r"
    and "n \<in> set ns \<Longrightarrow> si_row n \<le> od_seq s \<and> sign_in_sent past n \<and> replay_ok zone ns n"
  using assms unfolding otp_good_def by blast+

lemma sent_more: "sent es email code token t \<Longrightarrow> sent (es @ es') email code token t"
  by (auto simp: sent_def)

lemma row_sent_more: "row_sent es r \<Longrightarrow> row_sent (es @ es') r"
  by (auto simp: row_sent_def intro: sent_more)

lemma sign_in_sent_more: "sign_in_sent es n \<Longrightarrow> sign_in_sent (es @ es') n"
  unfolding sign_in_sent_def using sent_more by metis

lemma first_use_more: "first_use ns i u \<Longrightarrow> first_use (ns @ ns') i u"
  by (auto simp: first_use_def)

lemma replay_ok_more: "replay_ok zone ns n \<Longrightarrow> replay_ok zone (ns @ ns') n"
  by (auto simp: replay_ok_def intro: first_use_more)

lemmas more = row_sent_more sign_in_sent_more first_use_more replay_ok_more

lemma otp_good_past: "otp_good zone past s ns \<Longrightarrow> otp_good zone (past @ es) s ns"
  by (simp add: otp_good_def row_sent_more sign_in_sent_more)

lemma row_sent_used [simp]: "row_sent es (r\<lparr>ot_used := True\<rparr>) = row_sent es r"
  by (simp add: row_sent_def)

lemma log_row_used: "log_row ns r \<Longrightarrow> log_row ns (r\<lparr>ot_used := True\<rparr>)"
  by (simp add: log_row_def)

lemma one_live_map:
  assumes "one_live rows" "\<And>r. ot_id (f r) = ot_id r \<and> ot_email (f r) = ot_email r \<and> (ot_used r \<longrightarrow> ot_used (f r))"
  shows "one_live (map f rows)"
  using assms unfolding one_live_def by (simp add: ball_simps) blast

lemma one_live_snoc:
  assumes "one_live rows" "\<forall>r\<in>set rows. \<not> ot_used r \<longrightarrow> ot_email r \<noteq> ot_email n"
  shows "one_live (rows @ [n])"
proof (unfold one_live_def, intro ballI impI)
  fix r r' assume "r \<in> set (rows @ [n])" "r' \<in> set (rows @ [n])" and u: "\<not> ot_used r \<and> \<not> ot_used r' \<and> ot_email r = ot_email r'"
  then consider "r \<in> set rows" "r' \<in> set rows" | "r = n" "r' = n" | "r \<in> set rows" "r' = n" | "r = n" "r' \<in> set rows" by auto
  then show "ot_id r = ot_id r'"
  proof cases
    case 1
    with assms(1) u show ?thesis unfolding one_live_def by blast
  qed (use assms(2) u in auto)
qed

lemma otp_good_used:
  assumes "otp_good zone past s ns" shows "otp_good zone past (set_used i None s) ns"
proof (rule otp_goodI)
  have d: "od_rows (set_used i None s) = map (\<lambda>r. if ot_id r = i then r\<lparr>ot_used := True\<rparr> else r) (od_rows s)"
    by (simp add: set_used_def sql_update_def)
  show "has_key ot_id (od_rows (set_used i None s))" using otp_goodD(1) [OF assms] by (simp add: set_used_def has_key_update)
  show "one_live (od_rows (set_used i None s))" unfolding d by (rule one_live_map [OF otp_goodD(2) [OF assms]]) simp
  show "distinct (fresh_rows ns)" by (rule otp_goodD(3) [OF assms])
  fix n assume "n \<in> set ns"
  from otp_goodD(5) [OF assms this] show "si_row n \<le> od_seq (set_used i None s) \<and> sign_in_sent past n \<and> replay_ok zone ns n"
    by (simp add: set_used_def)
next
  fix r assume "r \<in> set (od_rows (set_used i None s))"
  then obtain x where x: "x \<in> set (od_rows s)" "r = x \<or> r = x\<lparr>ot_used := True\<rparr>"
    by (auto simp: set_used_def sql_update_def split: if_splits)
  from otp_goodD(4) [OF assms x(1)] x(2) show "ot_id r \<le> od_seq (set_used i None s) \<and> row_sent past r \<and> log_row ns r"
    by (elim disjE; simp add: set_used_def row_sent_def log_row_def)
qed

lemma otp_good_sign_in:
  assumes good: "otp_good zone past s ns" and r: "r \<in> set (od_rows s)" "\<not> ot_used r"
    and n: "si_row n = ot_id r" "si_fresh n" "sign_in_sent past n"
    and stamp: "stamp = (if si_link n then Some (si_time n) else None)"
  shows "otp_good zone past (set_used (ot_id r) stamp s) (ns @ [n])"
proof (rule otp_goodI)
  let ?f = "\<lambda>x. if ot_id x = ot_id r then x\<lparr>ot_used := True, ot_used_at := case stamp of None \<Rightarrow> ot_used_at x | Some t \<Rightarrow> Some (sql_datetime t)\<rparr> else x"
  have d: "od_rows (set_used (ot_id r) stamp s) = map ?f (od_rows s)" by (simp add: set_used_def sql_update_def)
  have q: "od_seq (set_used (ot_id r) stamp s) = od_seq s" by (simp add: set_used_def)
  note key = otp_goodD(1) [OF good] and row = otp_goodD(4) [OF good]
  show "has_key ot_id (od_rows (set_used (ot_id r) stamp s))" using key by (simp add: set_used_def has_key_update)
  show "one_live (od_rows (set_used (ot_id r) stamp s))" unfolding d by (rule one_live_map [OF otp_goodD(2) [OF good]]) simp
  have "ot_id r \<notin> set (fresh_rows ns)" using row [OF r(1)] r(2) by (simp add: log_row_def)
  then show "distinct (fresh_rows (ns @ [n]))" using otp_goodD(3) [OF good] n by (simp add: fresh_rows_def)
  fix m assume "m \<in> set (ns @ [n])"
  then consider "m \<in> set ns" | "m = n" by auto
  then show "si_row m \<le> od_seq (set_used (ot_id r) stamp s) \<and> sign_in_sent past m \<and> replay_ok zone (ns @ [n]) m"
  proof cases
    case 1
    from otp_goodD(5) [OF good this] show ?thesis by (simp add: q replay_ok_more)
  next
    case 2
    with n row [OF r(1)] show ?thesis by (simp add: q replay_ok_def)
  qed
next
  let ?f = "\<lambda>x. if ot_id x = ot_id r then x\<lparr>ot_used := True, ot_used_at := case stamp of None \<Rightarrow> ot_used_at x | Some t \<Rightarrow> Some (sql_datetime t)\<rparr> else x"
  fix y assume "y \<in> set (od_rows (set_used (ot_id r) stamp s))"
  then obtain x where x: "x \<in> set (od_rows s)" "y = ?f x" by (auto simp: set_used_def sql_update_def)
  have old: "ot_id x \<le> od_seq s" "row_sent past x" "log_row ns x" using otp_goodD(4) [OF good x(1)] by simp_all
  have seq: "od_seq (set_used (ot_id r) stamp s) = od_seq s" by (simp add: set_used_def)
  show "ot_id y \<le> od_seq (set_used (ot_id r) stamp s) \<and> row_sent past y \<and> log_row (ns @ [n]) y"
  proof (cases "ot_id x = ot_id r")
    case True
    then have "x = r" using has_key_eq [OF otp_goodD(1) [OF good] x(1) r(1)] by simp
    moreover have "ot_used_at r = None" using old(3) r(2) \<open>x = r\<close> by (cases "ot_used_at r") (auto simp: log_row_def)
    moreover have "first_use (ns @ [n]) (ot_id r) (sql_datetime (si_time n))" if "si_link n"
      using that n by (auto simp: first_use_def)
    ultimately show ?thesis using old x(2) stamp unfolding seq by (simp add: row_sent_def log_row_def)
  next
    case False
    then have "ot_id x \<in> set (fresh_rows (ns @ [n])) \<longleftrightarrow> ot_id x \<in> set (fresh_rows ns)" using n(1) by (simp add: fresh_rows_def)
    then have "log_row (ns @ [n]) x" using old(3) first_use_more unfolding log_row_def by blast
    with False old x(2) show ?thesis by (simp add: seq)
  qed
qed

lemma otp_good_replay:
  assumes good: "otp_good zone past s ns" and n: "si_row n \<le> od_seq s" "\<not> si_fresh n" "sign_in_sent past n" "replay_ok zone ns n"
  shows "otp_good zone past s (ns @ [n])"
proof (rule otp_goodI)
  have f: "fresh_rows (ns @ [n]) = fresh_rows ns" using n by (simp add: fresh_rows_def)
  show "distinct (fresh_rows (ns @ [n]))" unfolding f by (rule otp_goodD(3) [OF good])
  fix m assume "m \<in> set (ns @ [n])"
  then consider "m \<in> set ns" | "m = n" by auto
  then show "si_row m \<le> od_seq s \<and> sign_in_sent past m \<and> replay_ok zone (ns @ [n]) m"
    by cases (use otp_goodD(5) [OF good] n replay_ok_more in blast)+
next
  fix r assume "r \<in> set (od_rows s)"
  from otp_goodD(4) [OF good this] n(2) show "ot_id r \<le> od_seq s \<and> row_sent past r \<and> log_row (ns @ [n]) r"
    by (simp add: log_row_def fresh_rows_def first_use_more)
qed (rule otp_goodD [OF good])+

lemma otp_good_send:
  assumes good: "otp_good zone past s ns"
  shows "otp_good zone (past @ [OsSend email role code token now]) (sendOtp email role code token now s) ns"
    (is "otp_good zone ?past ?s ns")
proof (rule otp_goodI)
  let ?n = "otp_row_of email role code token (od_seq s + 1) now"
  let ?f = "\<lambda>r. if ot_email r = to_lower email \<and> \<not> ot_used r then r\<lparr>ot_used := True\<rparr> else r"
  have d: "od_rows ?s = map ?f (od_rows s) @ [?n]" by (simp add: sendOtp_def sql_insert_def sql_update_def)
  have ids: "map ot_id (map ?f (od_rows s)) = map ot_id (od_rows s)" by simp
  have seq: "\<forall>i\<in>set (map ot_id (od_rows s)). i \<le> od_seq s" using otp_goodD(4) [OF good] by auto
  show "has_key ot_id (od_rows ?s)"
    using otp_goodD(1) [OF good] seq unfolding has_key_def d map_append ids by (auto simp: otp_row_of_def)
  have "one_live (map ?f (od_rows s))" by (rule one_live_map [OF otp_goodD(2) [OF good]]) simp
  moreover have "\<forall>r\<in>set (map ?f (od_rows s)). \<not> ot_used r \<longrightarrow> ot_email r \<noteq> ot_email ?n" by (auto simp: otp_row_of_def)
  ultimately show "one_live (od_rows ?s)" unfolding d by (rule one_live_snoc)
  show "distinct (fresh_rows ns)" by (rule otp_goodD(3) [OF good])
  fix m assume "m \<in> set ns"
  from otp_goodD(5) [OF good this] show "si_row m \<le> od_seq ?s \<and> sign_in_sent ?past m \<and> replay_ok zone ns m"
    by (simp add: sendOtp_def sign_in_sent_more)
next
  let ?n = "otp_row_of email role code token (od_seq s + 1) now"
  fix r assume "r \<in> set (od_rows ?s)"
  then consider x where "x \<in> set (od_rows s)" "r = x \<or> r = x\<lparr>ot_used := True\<rparr>" | "r = ?n"
    by (auto simp: sendOtp_def sql_insert_def sql_update_def split: if_splits)
  then show "ot_id r \<le> od_seq ?s \<and> row_sent ?past r \<and> log_row ns r"
  proof cases
    case 1
    from otp_goodD(4) [OF good 1(1)] have "ot_id x \<le> od_seq s" "row_sent ?past x" "log_row ns x"
      by (simp_all add: row_sent_more)
    with 1(2) log_row_used [of ns x] show ?thesis by (elim disjE; simp add: sendOtp_def)
  next
    case 2
    have "od_seq s + 1 \<notin> set (fresh_rows ns)" using otp_goodD(5) [OF good] by (force simp: fresh_rows_def)
    then show ?thesis unfolding 2 by (auto simp: otp_row_of_def log_row_def row_sent_def sent_def sendOtp_def)
  qed
qed

lemma otp_good_clean: 
  assumes "otp_good zone past s ns" shows "otp_good zone past (cleanupExpiredCodes now s) ns"
proof (rule otp_goodI)
  show "has_key ot_id (od_rows (cleanupExpiredCodes now s))"
    using otp_goodD(1) [OF assms] by (simp add: cleanupExpiredCodes_def has_key_def distinct_map inj_on_def)
qed (use otp_goodD [OF assms] in \<open>simp_all add: cleanupExpiredCodes_def one_live_def\<close>)


lemma live_code_in: "live_code email s = Some r \<Longrightarrow> r \<in> set (od_rows s) \<and> ot_email r = to_lower email \<and> \<not> ot_used r"
  by (auto simp: live_code_def sql_all_def dest!: sql_get_Some)

lemma link_row_in: "link_row token s = Some r \<Longrightarrow> r \<in> set (od_rows s) \<and> ot_token r = Some (strip token)"
  by (auto simp: link_row_def dest!: sql_get_Some)

lemma otp_good_code:
  assumes good: "otp_good zone past s ns"
  shows "otp_good zone past (fst (verifyOtp email token now s)) (ns @ note_code email token now s (snd (verifyOtp email token now s)))"
proof (cases "live_code email s")
  case None
  then show ?thesis using good by (simp add: verifyOtp_def note_code_def Let_def)
next
  case (Some r)
  note r = live_code_in [OF Some]
  let ?c = "cleanToken token"
  consider "?c = [] \<or> \<not> (length ?c = 6 \<and> list_all is_digit ?c)"
    | "?c \<noteq> []" "length ?c = 6 \<and> list_all is_digit ?c" "ot_expires r < now"
    | "?c \<noteq> []" "length ?c = 6 \<and> list_all is_digit ?c" "\<not> ot_expires r < now" "?c \<noteq> ot_code r"
    | "?c \<noteq> []" "length ?c = 6 \<and> list_all is_digit ?c" "\<not> ot_expires r < now" "?c = ot_code r" by blast
  then show ?thesis
  proof cases
    case 1
    then show ?thesis using good by (auto simp: verifyOtp_def note_code_def Let_def)
  next
    case 2
    then have "verifyOtp email token now s = (set_used (ot_id r) None s, OtpExpired)" by (simp add: verifyOtp_def Some Let_def)
    then show ?thesis using otp_good_used [OF good] by (simp add: note_code_def)
  next
    case 3
    then show ?thesis using good by (simp add: verifyOtp_def note_code_def Some Let_def)
  next
    case 4
    have v: "verifyOtp email token now s = (set_used (ot_id r) None s, OtpUser (to_lower email))"
      unfolding verifyOtp_def Some Let_def option.case using 4 by auto
    from otp_goodD(4) [OF good, of r] r obtain t tok where "sent past (ot_email r) (ot_code r) tok t" "ot_expires r = t + OTP_TTL_MINUTES * 60 * 1000"
      by (auto simp: row_sent_def)
    with 4 r have "sign_in_sent past \<lparr>si_row = ot_id r, si_email = to_lower email, si_secret = ?c, si_link = False, si_fresh = True, si_time = now\<rparr>"
      unfolding sign_in_sent_def by (intro exI [of _ "ot_code r"] exI [of _ tok] exI [of _ t]) simp
    with otp_good_sign_in [OF good _ _ _ _ this, of r None] r show ?thesis by (simp add: v note_code_def Some)
  qed
qed

lemma otp_good_link:
  assumes good: "otp_good zone past s ns"
  shows "otp_good zone past (fst (verifyMagicToken zone token now s)) (ns @ note_link token now s (snd (verifyMagicToken zone token now s)))"
proof (cases "token = [] \<or> link_row token s = None")
  case True
  then show ?thesis using good by (auto simp: verifyMagicToken_def note_link_def)
next
  case False
  then obtain r where row: "link_row token s = Some r" and tok: "token \<noteq> []" by auto
  note r = link_row_in [OF row]
  note good_r = otp_goodD(4) [OF good, of r]
  let ?n = "\<lambda>fresh. \<lparr>si_row = ot_id r, si_email = ot_email r, si_secret = strip token, si_link = True, si_fresh = fresh, si_time = now\<rparr>"
  have sent: "sign_in_sent past (?n fresh)" if live: "\<not> ot_expires r < now" for fresh
  proof -
    from good_r r obtain t where "sent past (ot_email r) (ot_code r) (strip token) t" "ot_expires r = t + OTP_TTL_MINUTES * 60 * 1000"
      by (auto simp: row_sent_def)
    with live show ?thesis
      unfolding sign_in_sent_def by (intro exI [of _ "ot_code r"] exI [of _ "strip token"] exI [of _ t]) simp
  qed
  let ?since = "case ot_used_at r of None \<Rightarrow> 0 | Some u \<Rightarrow> u - zone"
  consider "ot_expires r < now" | "\<not> ot_expires r < now" "\<not> ot_used r"
    | "\<not> ot_expires r < now" "ot_used r" "?since > 0 \<and> now - ?since < MAGIC_REUSE_WINDOW_MS"
    | "\<not> ot_expires r < now" "ot_used r" "\<not> (?since > 0 \<and> now - ?since < MAGIC_REUSE_WINDOW_MS)" by blast
  then show ?thesis
  proof cases
    case 1
    then have "verifyMagicToken zone token now s = ((if ot_used r then s else set_used (ot_id r) None s), LinkExpired)"
      by (simp add: verifyMagicToken_def row tok)
    then show ?thesis using good otp_good_used [OF good] by (simp add: note_link_def)
  next
    case 2
    then have v: "verifyMagicToken zone token now s = (set_used (ot_id r) (Some now) s, LinkUser (ot_email r) (ot_role r) False)"
      by (simp add: verifyMagicToken_def row tok)
    show ?thesis using otp_good_sign_in [OF good _ _ _ _ sent [OF 2(1)], of r True "Some now"] r 2
      by (simp add: v note_link_def row)
  next
    case 3
    then have v: "verifyMagicToken zone token now s = (s, LinkUser (ot_email r) (ot_role r) True)"
      unfolding verifyMagicToken_def row option.case Let_def using tok by presburger
    from 3(3) obtain u where "ot_used_at r = Some u" "now < u - zone + MAGIC_REUSE_WINDOW_MS" by (cases "ot_used_at r") auto
    then have "replay_ok zone ns (?n False)" using good_r r by (auto simp: replay_ok_def log_row_def)
    then show ?thesis using otp_good_replay [OF good _ _ sent [OF 3(1)], of False] good_r r by (simp add: v note_link_def row)
  next
    case 4
    then have "verifyMagicToken zone token now s = (s, LinkSpent)"
      unfolding verifyMagicToken_def row option.case Let_def using tok by presburger
    then show ?thesis using good by (simp add: note_link_def)
  qed
qed

lemma history_good_step: "history_good zone h \<Longrightarrow> history_good zone (history_step zone h e)"
proof (cases e)
  case (OsSend email role code token now)
  then show "history_good zone h \<Longrightarrow> ?thesis" by (simp add: history_good_def history_step_def otp_good_send)
next
  case (OsCode email token now)
  then show "history_good zone h \<Longrightarrow> ?thesis"
    using otp_good_past [OF otp_good_code [of zone "hs_past h" "hs_db h" "hs_log h" email token now], of "[e]"]
    by (simp add: history_good_def history_step_def split_beta)
next
  case (OsLink token now)
  then show "history_good zone h \<Longrightarrow> ?thesis"
    using otp_good_past [OF otp_good_link [of zone "hs_past h" "hs_db h" "hs_log h" token now], of "[e]"]
    by (simp add: history_good_def history_step_def split_beta)
next
  case (OsClean now)
  then show "history_good zone h \<Longrightarrow> ?thesis" by (simp add: history_good_def history_step_def otp_good_clean otp_good_past)
qed

interpretation codes: preserved "history_step zone" "history_good zone" for zone
  by unfold_locales (rule history_good_step)

lemma history_good_all: "history_good zone (history_of zone es)"
  unfolding history_of_def by (rule codes.inv_run_all) (simp add: history_good_def otp_good_def has_key_def one_live_def fresh_rows_def)



definition demo_mails :: "otp_event list" where
  "demo_mails = [OsSend ''A@x.sa'' (Some ''renter'') ''123456'' ''t1'' 1000, OsLink '' t1 '' 5000, OsLink ''t1'' 30000,
     OsLink ''t1'' 70000, OsCode ''a@x.sa'' ''123-456'' 80000]"


section \<open>Device codes\<close>

datatype device_status = DvPending | DvApproved | DvClaimed | DvExpired

record device_row =
  dv_id :: int
  dv_device :: string
  dv_user :: string
  dv_renter :: "int option"
  dv_status :: device_status
  dv_key :: "string option"
  dv_created :: int
  dv_expires :: int
  dv_approved :: "int option"

record cli_key =
  ck_id :: string
  ck_renter :: int
  ck_key :: string
  ck_label :: string
  ck_scopes :: string
  ck_created :: int

record cli_db =
  cd_devices :: "device_row list"
  cd_keys :: "cli_key list"        \<comment> \<open>\<open>renter_api_keys\<close>\<close>

definition CODE_TTL_SECONDS :: int where "CODE_TTL_SECONDS = 900"

datatype cli_answer =
  CliCodes string string | CliMissingCode | CliUsedCode | CliExpired | CliApproved
| CliInvalidGrant | CliPending | CliKey string int | CliError

text \<open>The user codes the generator draws in turn: the first and one more after each of two collisions.\<close>

fun insert_code :: "string \<Rightarrow> string list \<Rightarrow> int \<Rightarrow> cli_db \<Rightarrow> (cli_db \<times> string) option" where
  "insert_code device [] now s = None"
| "insert_code device (u # us) now s =
     (if device \<in> set (map dv_device (cd_devices s)) \<or> u \<in> set (map dv_user (cd_devices s)) then insert_code device us now s
      else Some (s\<lparr>cd_devices := sql_insert \<lparr>dv_id = next_rowid dv_id (cd_devices s), dv_device = device, dv_user = u, dv_renter = None,
        dv_status = DvPending, dv_key = None, dv_created = now, dv_expires = now + CODE_TTL_SECONDS * 1000, dv_approved = None\<rparr>
        (cd_devices s)\<rparr>, u))"

definition device_code :: "string \<Rightarrow> string list \<Rightarrow> int \<Rightarrow> cli_db \<Rightarrow> cli_db \<times> cli_answer" where
  "device_code device draws now s = (case insert_code device (take 3 draws) now s of None \<Rightarrow> (s, CliError) | Some (s', u) \<Rightarrow> (s', CliCodes device u))"

definition device_approve :: "int \<Rightarrow> string \<Rightarrow> string \<Rightarrow> string \<Rightarrow> int \<Rightarrow> cli_db \<Rightarrow> cli_db \<times> cli_answer" where
  "device_approve renter code key_id key now s =
     (let user = map upper_ascii (strip code) in
      if user = [] then (s, CliMissingCode)
      else case sql_get (\<lambda>d. dv_user d = user) (cd_devices s) of None \<Rightarrow> (s, CliUsedCode)
      | Some d \<Rightarrow>
        if dv_status d \<noteq> DvPending then (s, CliUsedCode)
        else if dv_expires d < now then (s, CliExpired)
        else if key_id \<in> set (map ck_id (cd_keys s)) \<or> key \<in> set (map ck_key (cd_keys s)) then (s, CliError)
        else (s\<lparr>cd_keys := sql_insert \<lparr>ck_id = key_id, ck_renter = renter, ck_key = key, ck_label = ''dcp CLI'',
                ck_scopes = [CHR ''['', CHR 0x22] @ ''inference'' @ [CHR 0x22, CHR '']''], ck_created = now\<rparr> (cd_keys s),
              cd_devices := sql_update (\<lambda>x. dv_id x = dv_id d)
                (\<lambda>x. x\<lparr>dv_status := DvApproved, dv_renter := Some renter, dv_key := Some key, dv_approved := Some now\<rparr>) (cd_devices s)\<rparr>,
            CliApproved))"

definition device_token :: "string \<Rightarrow> int \<Rightarrow> cli_db \<Rightarrow> cli_db \<times> cli_answer" where
  "device_token code now s =
     (case sql_get (\<lambda>d. dv_device d = strip code) (cd_devices s) of None \<Rightarrow> (s, CliInvalidGrant)
      | Some d \<Rightarrow>
        if dv_status d = DvClaimed then (s, CliInvalidGrant)
        else if dv_expires d < now \<and> dv_status d = DvPending then (s, CliExpired)
        else if dv_status d = DvPending then (s, CliPending)
        else if sql_changes (\<lambda>x. dv_id x = dv_id d \<and> dv_status x = DvApproved) (cd_devices s) \<noteq> 1 then (s, CliInvalidGrant)
        else (s\<lparr>cd_devices := sql_update (\<lambda>x. dv_id x = dv_id d \<and> dv_status x = DvApproved)
                (\<lambda>x. x\<lparr>dv_status := DvClaimed, dv_key := None\<rparr>) (cd_devices s)\<rparr>,
              CliKey (the (dv_key d)) (the (dv_renter d))))"

datatype cli_event = CeCode string "string list" int | CeApprove int string string string int | CeToken string int

fun cli_run :: "cli_db \<Rightarrow> cli_event \<Rightarrow> cli_db \<times> cli_answer" where
  "cli_run s (CeCode device draws now) = device_code device draws now s"
| "cli_run s (CeApprove renter code key_id key now) = device_approve renter code key_id key now s"
| "cli_run s (CeToken code now) = device_token code now s"

fun cli_log :: "cli_db \<Rightarrow> cli_event list \<Rightarrow> (cli_event \<times> cli_answer) list" where
  "cli_log s [] = []"
| "cli_log s (e # es) = (e, snd (cli_run s e)) # cli_log (fst (cli_run s e)) es"

definition dev_status :: "cli_db \<Rightarrow> string \<Rightarrow> device_status option" where
  "dev_status s code = map_option dv_status (sql_get (\<lambda>d. dv_device d = code) (cd_devices s))"

definition key_minted :: "cli_db \<Rightarrow> string \<Rightarrow> int \<Rightarrow> bool" where
  "key_minted s k renter = (\<exists>x\<in>set (cd_keys s). ck_key x = k \<and> ck_renter x = renter)"

definition cli_good :: "cli_db \<Rightarrow> bool" where
  "cli_good s = (has_key dv_id (cd_devices s) \<and> has_key dv_device (cd_devices s) \<and> has_key dv_user (cd_devices s)
     \<and> (\<forall>d\<in>set (cd_devices s). dv_status d \<noteq> DvExpired)
     \<and> (\<forall>d\<in>set (cd_devices s). dv_status d = DvApproved \<longrightarrow>
          (\<exists>k r. dv_key d = Some k \<and> dv_renter d = Some r \<and> key_minted s k r)))"

lemma insert_code_good:
  "insert_code device us now s = Some (s', u) \<Longrightarrow> cli_good s \<Longrightarrow> cli_good s' \<and> cd_keys s' = cd_keys s
    \<and> (\<exists>x. cd_devices s' = cd_devices s @ [x] \<and> dv_status x = DvPending)"
proof (induction us)
  case (Cons u' us)
  show ?case
  proof (cases "device \<in> set (map dv_device (cd_devices s)) \<or> u' \<in> set (map dv_user (cd_devices s))")
    case True
    with Cons show ?thesis by simp
  next
    case False
    with Cons.prems next_rowid_fresh [of dv_id "cd_devices s"] show ?thesis
      by (auto simp: cli_good_def sql_insert_def has_key_def key_minted_def)
  qed
qed simp

lemma approve_cases:
  "device_approve renter code key_id key now s = (s', a) \<Longrightarrow>
   (s' = s \<and> a \<noteq> CliApproved) \<or> (\<exists>d. d \<in> set (cd_devices s) \<and> dv_status d = DvPending \<and> a = CliApproved
     \<and> (\<exists>x. ck_key x = key \<and> ck_renter x = renter \<and> cd_keys s' = cd_keys s @ [x])
     \<and> cd_devices s' = sql_update (\<lambda>x. dv_id x = dv_id d)
         (\<lambda>x. x\<lparr>dv_status := DvApproved, dv_renter := Some renter, dv_key := Some key, dv_approved := Some now\<rparr>) (cd_devices s))"
  by (auto simp: device_approve_def Let_def sql_insert_def dest: sql_get_Some split: if_splits option.splits)

lemma token_cases:
  "device_token code now s = (s', a) \<Longrightarrow>
   (s' = s \<and> (\<forall>k r. a \<noteq> CliKey k r)) \<or> (\<exists>d. sql_get (\<lambda>d. dv_device d = strip code) (cd_devices s) = Some d
     \<and> dv_status d \<noteq> DvClaimed \<and> dv_status d \<noteq> DvPending \<and> a = CliKey (the (dv_key d)) (the (dv_renter d)) \<and> cd_keys s' = cd_keys s
     \<and> cd_devices s' = sql_update (\<lambda>x. dv_id x = dv_id d \<and> dv_status x = DvApproved)
         (\<lambda>x. x\<lparr>dv_status := DvClaimed, dv_key := None\<rparr>) (cd_devices s))"
  by (auto simp: device_token_def split: if_splits option.splits)

lemma update_good:
  assumes good: "cli_good s" and keys: "\<And>k r. key_minted s k r \<Longrightarrow> key_minted s' k r"
    and devs: "cd_devices s' = sql_update P f (cd_devices s)"
    and ids: "\<And>d. dv_id (f d) = dv_id d" "\<And>d. dv_device (f d) = dv_device d" "\<And>d. dv_user (f d) = dv_user d"
    and ok: "\<And>d. dv_status (f d) \<noteq> DvExpired \<and> (dv_status (f d) = DvApproved \<longrightarrow>
       (\<exists>k r. dv_key (f d) = Some k \<and> dv_renter (f d) = Some r \<and> key_minted s' k r))"
  shows "cli_good s'"
proof -
  have "dv_status x \<noteq> DvExpired \<and> (dv_status x = DvApproved \<longrightarrow> (\<exists>k r. dv_key x = Some k \<and> dv_renter x = Some r \<and> key_minted s' k r))"
    if x: "x \<in> set (cd_devices s')" for x
  proof -
    from x obtain d where d: "d \<in> set (cd_devices s)" "x = d \<or> x = f d" unfolding devs set_sql_update by (auto split: if_splits)
    from d(2) show ?thesis
    proof
      assume "x = d"
      with good d(1) keys show ?thesis unfolding cli_good_def by blast
    qed (use ok in simp)
  qed
  then show ?thesis using good by (simp add: cli_good_def devs has_key_update ids)
qed

lemma approve_good:
  assumes "cli_good s" "device_approve renter code key_id key now s = (s', a)" shows "cli_good s'"
  using approve_cases [OF assms(2)]
proof (elim disjE exE conjE)
  fix d x assume s': "ck_key x = key" "ck_renter x = renter" "cd_keys s' = cd_keys s @ [x]"
    and d: "cd_devices s' = sql_update (\<lambda>x. dv_id x = dv_id d)
         (\<lambda>x. x\<lparr>dv_status := DvApproved, dv_renter := Some renter, dv_key := Some key, dv_approved := Some now\<rparr>) (cd_devices s)"
  have "key_minted s' key renter" using s' by (auto simp: key_minted_def)
  then show ?thesis by (intro update_good [OF assms(1) _ d]) (auto simp: key_minted_def s')
qed (use assms(1) in simp)

lemma token_good:
  assumes "cli_good s" "device_token code now s = (s', a)" shows "cli_good s'"
  using token_cases [OF assms(2)]
proof (elim disjE exE conjE)
  fix d assume s': "cd_keys s' = cd_keys s"
    and d: "cd_devices s' = sql_update (\<lambda>x. dv_id x = dv_id d \<and> dv_status x = DvApproved)
         (\<lambda>x. x\<lparr>dv_status := DvClaimed, dv_key := None\<rparr>) (cd_devices s)"
  show ?thesis by (rule update_good [OF assms(1) _ d]) (simp_all add: key_minted_def s')
qed (use assms(1) in simp)

lemma cli_good_run: "cli_good s \<Longrightarrow> cli_good (fst (cli_run s e))"
proof (cases e)
  case (CeCode device draws now)
  then show "cli_good s \<Longrightarrow> ?thesis" using insert_code_good [of device "take 3 draws" now s]
    by (auto simp: device_code_def split: option.splits)
next
  case (CeApprove renter code key_id key now)
  then show "cli_good s \<Longrightarrow> ?thesis" using approve_good by (metis cli_run.simps(2) prod.collapse)
next
  case (CeToken code now)
  then show "cli_good s \<Longrightarrow> ?thesis" using token_good by (metis cli_run.simps(3) prod.collapse)
qed

lemma get_update_status:
  assumes "has_key dv_id rows" "sql_get (\<lambda>d. dv_device d = c) rows = Some d" "\<not> P d" "\<And>x. dv_device (f x) = dv_device x"
  shows "sql_get (\<lambda>d. dv_device d = c) (sql_update P f rows) = Some d"
  using assms(2,3) unfolding sql_get_def sql_update_def by (subst find_map_key) (auto simp: assms(4))

lemma claimed_stays:
  assumes good: "cli_good s" and c: "dev_status s code = Some DvClaimed"
  shows "dev_status (fst (cli_run s e)) code = Some DvClaimed"
proof -
  obtain d where d: "sql_get (\<lambda>d. dv_device d = code) (cd_devices s) = Some d" "dv_status d = DvClaimed"
    using c by (auto simp: dev_status_def)
  have din: "d \<in> set (cd_devices s)" using sql_get_Some [OF d(1)] by simp
  have key: "has_key dv_id (cd_devices s)" using good by (simp add: cli_good_def)
  show ?thesis
  proof (cases e)
    case (CeCode device draws now)
    show ?thesis
    proof (cases "insert_code device (take 3 draws) now s")
      case (Some r)
      then obtain s' u where "insert_code device (take 3 draws) now s = Some (s', u)" by (cases r) auto
      with insert_code_good [OF this good] d CeCode show ?thesis
        by (auto simp: device_code_def dev_status_def sql_get_insert sql_insert_def [symmetric])
    qed (use c CeCode in \<open>simp add: device_code_def\<close>)
  next
    case (CeApprove renter uc key_id k now)
    obtain s' a where r: "device_approve renter uc key_id k now s = (s', a)" by fastforce
    from approve_cases [OF r] show ?thesis
    proof (elim disjE exE conjE)
      fix x assume x: "x \<in> set (cd_devices s)" "dv_status x = DvPending"
        and u: "cd_devices s' = sql_update (\<lambda>y. dv_id y = dv_id x)
           (\<lambda>x. x\<lparr>dv_status := DvApproved, dv_renter := Some renter, dv_key := Some k, dv_approved := Some now\<rparr>) (cd_devices s)"
      have "dv_id d \<noteq> dv_id x" using has_key_eq [OF key din x(1)] x(2) d(2) by auto
      with d show ?thesis by (simp add: CeApprove r dev_status_def u get_update_status [OF key])
    qed (use c in \<open>simp add: CeApprove r\<close>)
  next
    case (CeToken tc now)
    obtain s' a where r: "device_token tc now s = (s', a)" by fastforce
    from token_cases [OF r] show ?thesis
    proof (elim disjE exE conjE)
      fix x assume u: "cd_devices s' = sql_update (\<lambda>y. dv_id y = dv_id x \<and> dv_status y = DvApproved)
           (\<lambda>x. x\<lparr>dv_status := DvClaimed, dv_key := None\<rparr>) (cd_devices s)"
      show ?thesis using d by (simp add: CeToken r dev_status_def u get_update_status [OF key])
    qed (use c in \<open>simp add: CeToken r\<close>)
  qed
qed

interpretation devices: lifecycle "\<lambda>s e. fst (cli_run s e)" dev_status "\<lambda>st. st = DvClaimed" cli_good
  by unfold_locales (auto simp: claimed_stays cli_good_run)

lemma key_claims:
  assumes good: "cli_good s" and r: "device_token code now s = (s', CliKey k renter)"
  shows "dev_status s' (strip code) = Some DvClaimed" "key_minted s k renter"
proof -
  from token_cases [OF r] obtain d where d: "sql_get (\<lambda>d. dv_device d = strip code) (cd_devices s) = Some d"
      "dv_status d \<noteq> DvClaimed" "dv_status d \<noteq> DvPending" "k = the (dv_key d)" "renter = the (dv_renter d)"
      "cd_devices s' = sql_update (\<lambda>x. dv_id x = dv_id d \<and> dv_status x = DvApproved)
         (\<lambda>x. x\<lparr>dv_status := DvClaimed, dv_key := None\<rparr>) (cd_devices s)" by auto
  have "d \<in> set (cd_devices s)" using sql_get_Some [OF d(1)] by simp
  moreover from this have "dv_status d = DvApproved" using good d(2,3) by (cases "dv_status d") (auto simp: cli_good_def)
  ultimately show "key_minted s k renter" using good d(4,5) by (auto simp: cli_good_def)
  have "sql_get (\<lambda>d. dv_device d = strip code) (cd_devices s') = Some (d\<lparr>dv_status := DvClaimed, dv_key := None\<rparr>)"
    using d(1) \<open>dv_status d = DvApproved\<close> unfolding d(6) sql_get_def sql_update_def by (subst find_map_key) auto
  then show "dev_status s' (strip code) = Some DvClaimed" by (simp add: dev_status_def)
qed

lemma claimed_no_key: "dev_status s (strip code) = Some DvClaimed \<Longrightarrow> snd (device_token code now s) = CliInvalidGrant"
  by (auto simp: device_token_def dev_status_def)

definition hands_key :: "string \<Rightarrow> cli_event \<times> cli_answer \<Rightarrow> bool" where
  "hands_key code x = (case x of (CeToken c _, CliKey _ _) \<Rightarrow> strip c = code | _ \<Rightarrow> False)"

lemma claimed_no_keys: "cli_good s \<Longrightarrow> dev_status s code = Some DvClaimed \<Longrightarrow> filter (hands_key code) (cli_log s es) = []"
proof (induction es arbitrary: s)
  case (Cons e es)
  have "\<not> hands_key code (e, snd (cli_run s e))"
    using Cons.prems(2) claimed_no_key by (auto simp: hands_key_def split: cli_event.splits cli_answer.splits)
  with Cons show ?case by (simp add: cli_good_run claimed_stays)
qed simp

lemma key_minted_run: "key_minted s k r \<Longrightarrow> key_minted (fst (cli_run s e)) k r"
proof (cases e)
  case (CeCode device draws now)
  have "insert_code device us now s = Some (s', u) \<Longrightarrow> cd_keys s' = cd_keys s" for us s' u
    by (induction us) (auto split: if_splits)
  then show "key_minted s k r \<Longrightarrow> ?thesis" by (auto simp: CeCode device_code_def key_minted_def split: option.splits)
next
  case (CeApprove renter uc key_id key now)
  then show "key_minted s k r \<Longrightarrow> ?thesis" using approve_cases [of renter uc key_id key now s]
    by (cases "device_approve renter uc key_id key now s") (auto simp: key_minted_def)
next
  case (CeToken code now)
  then show "key_minted s k r \<Longrightarrow> ?thesis" using token_cases [of code now s]
    by (cases "device_token code now s") (auto simp: key_minted_def)
qed

lemma key_minted_all: "key_minted s k r \<Longrightarrow> key_minted (foldl (\<lambda>s e. fst (cli_run s e)) s es) k r"
  by (induction es arbitrary: s) (simp_all add: key_minted_run)



end
