(* ===== verification/Accounts.thy ===== *)
theory Accounts
  imports SignIn Schema
begin

text \<open>
  Accounts and their keys: registration of renters (\<open>backend/src/routes/renters.js\<close>), providers
  (\<open>routes/providers.js\<close>) and programs, the finalisation of an account by a link (\<open>routes/auth.js\<close>, \<open>routes/v1-wizard.js\<close>),
  sign-in by code, import from the old user base (\<open>services/renter-identity-reconciliation.js\<close>), key
  rotation, suspension and deletion. \<open>SignIn\<close> decides who holds a mailbox; here a mailbox becomes a key and a starter
  balance. Random keys, the digest and the answers of Supabase and of the mail service are arguments.
\<close>

section \<open>State\<close>

record account =                   \<comment> \<open>\<open>renters\<close>, the columns of identity\<close>
  ac_id :: int
  ac_name :: string
  ac_email :: string
  ac_key :: string
  ac_org :: "string option"
  ac_use_case :: "string option"
  ac_phone :: "string option"
  ac_status :: string
  ac_balance :: int
  ac_source :: "string option"
  ac_signup_ip :: "string option"
  ac_trial :: int                  \<comment> \<open>\<open>trial_grant_halala\<close>\<close>
  ac_deleted :: "int option"
  ac_deletion_for :: "int option"
  ac_rotated :: "int option"
  ac_created :: int
  ac_updated :: "int option"

record host =                      \<comment> \<open>\<open>providers\<close>, the columns of identity\<close>
  ho_id :: int
  ho_name :: string
  ho_email :: string
  ho_gpu_model :: "string option"
  ho_key :: "string option"
  ho_key_hash :: "string option"
  ho_status :: string
  ho_approval :: string
  ho_deleted :: "int option"
  ho_deletion_for :: "int option"
  ho_rotated :: "int option"
  ho_created :: int
  ho_updated :: "int option"

record trial_grant =               \<comment> \<open>\<open>credit_grants\<close>\<close>
  tg_renter :: int
  tg_amount :: int
  tg_reason :: string
  tg_by :: string
  tg_created :: int

record rotation =                  \<comment> \<open>\<open>api_key_rotations\<close>\<close>
  ro_type :: string
  ro_account :: int
  ro_at :: int

record erasure =                   \<comment> \<open>\<open>pdpl_request_log\<close>\<close>
  er_type :: string
  er_account :: int
  er_at :: int

record identity =
  id_accounts :: "account list"
  id_hosts :: "host list"
  id_otp :: otp_db
  id_jobs :: "job_row list"
  id_quotas :: "quota_row list"
  id_grants :: "trial_grant list"
  id_rotations :: "rotation list"
  id_erasures :: "erasure list"

section \<open>Addresses and keys\<close>

definition cut_string :: "nat \<Rightarrow> string option \<Rightarrow> string option" where
  \<comment> \<open>\<open>normalizeString\<close>\<close>
  "cut_string n v = (case v of None \<Rightarrow> None | Some s \<Rightarrow> if strip s = [] then None else Some (take n (strip s)))"

definition after_at :: "string \<Rightarrow> string" where
  "after_at s = tl (dropWhile (\<lambda>c. c \<noteq> CHR ''@'') s)"

definition local_part :: "string \<Rightarrow> string" where
  "local_part s = takeWhile (\<lambda>c. c \<noteq> CHR ''@'') s"

definition email_shape :: "string \<Rightarrow> bool" where
  \<comment> \<open>\<open>EMAIL_REGEX\<close>\<close>
  "email_shape s = (\<not> list_ex white s \<and> local_part s \<noteq> [] \<and> CHR ''@'' \<in> set s \<and> CHR ''@'' \<notin> set (after_at s)
     \<and> CHR ''.'' \<in> set (butlast (tl (after_at s))))"

definition normalizeEmail :: "string option \<Rightarrow> string option" where
  "normalizeEmail v = (case cut_string 254 v of None \<Rightarrow> None | Some s \<Rightarrow> if email_shape (to_lower s) then Some (to_lower s) else None)"

definition BLOCKED_DOMAINS :: "string list" where
  "BLOCKED_DOMAINS =
     [''onldm.net'', ''vtmpj.com'', ''vtmpj.net'', ''lovadio.com'', ''kinws.com'', ''yzcalo.com'', ''raceco.com'',
      ''mailinator.com'', ''guerrillamail.com'', ''guerrillamail.net'', ''sharklasers.com'', ''grr.la'',
      ''10minutemail.com'', ''temp-mail.org'', ''tempmail.com'', ''tempmailo.com'', ''tmail.com'',
      ''throwawaymail.com'', ''yopmail.com'', ''yopmail.net'', ''getnada.com'', ''nada.email'',
      ''trashmail.com'', ''trashmail.net'', ''dispostable.com'', ''maildrop.cc'', ''mailnesia.com'',
      ''fakeinbox.com'', ''mohmal.com'', ''emailondeck.com'', ''mintemail.com'', ''moakt.com'',
      ''inboxbear.com'', ''tempr.email'', ''discard.email'', ''mailto.plus'', ''fexbox.org'',
      ''rteet.com'', ''byom.de'', ''cevipsa.com'', ''dpptd.com'', ''spymail.one'', ''ema-sofia.eu'']"

definition BLOCKED_SUFFIXES :: "string list" where
  "BLOCKED_SUFFIXES = [''.dpdns.org'', ''.dpptd.com'', ''.mail.tm'', ''.1secmail.com'', ''.1secmail.org'', ''.1secmail.net'',
     ''.qwertydsw.com'', ''.chapmail.info'']"

definition extractDomain :: "string \<Rightarrow> string" where
  "extractDomain email = (if CHR ''@'' \<notin> set email then [] else to_lower (strip (rev (takeWhile (\<lambda>c. c \<noteq> CHR ''@'') (rev email)))))"

definition ends_with :: "string \<Rightarrow> string \<Rightarrow> bool" where
  "ends_with suf s = (length suf \<le> length s \<and> drop (length s - length suf) s = suf)"

definition isDisposableEmail :: "string \<Rightarrow> bool" where
  "isDisposableEmail email = (extractDomain email \<noteq> [] \<and>
     (extractDomain email \<in> set BLOCKED_DOMAINS \<or> (\<exists>suf\<in>set BLOCKED_SUFFIXES. ends_with suf (extractDomain email))))"

definition starts_with :: "string \<Rightarrow> string \<Rightarrow> bool" where
  "starts_with p s = (take (length p) s = p)"

definition looksLikeRenterKey :: "string \<Rightarrow> bool" where
  "looksLikeRenterKey k = (starts_with ''dcp-renter-'' k \<or> starts_with ''dc1-renter-'' k)"

definition account_by_email :: "identity \<Rightarrow> string \<Rightarrow> account option" where
  "account_by_email s email = sql_get (\<lambda>r. to_lower (ac_email r) = to_lower email) (id_accounts s)"

definition active_by_email :: "identity \<Rightarrow> string \<Rightarrow> account option" where
  "active_by_email s email = sql_get (\<lambda>r. to_lower (ac_email r) = to_lower email \<and> ac_status r = ''active'') (id_accounts s)"

definition host_by_email :: "identity \<Rightarrow> string \<Rightarrow> host option" where
  "host_by_email s email = sql_get (\<lambda>h. to_lower (ho_email h) = to_lower email) (id_hosts s)"

definition account_by_id :: "identity \<Rightarrow> int \<Rightarrow> account option" where
  "account_by_id s i = sql_get (\<lambda>r. ac_id r = i) (id_accounts s)"

definition owned_by_provider :: "identity \<Rightarrow> string \<Rightarrow> bool" where
  \<comment> \<open>\<open>findActiveAccountByEmail\<close> looks at the providers first\<close>
  "owned_by_provider s email = (sql_get (\<lambda>h. to_lower (ho_email h) = to_lower email \<and> ho_deleted h = None) (id_hosts s) \<noteq> None)"

text \<open>The UNIQUE columns of \<open>renters\<close> and \<open>providers\<close>.\<close>

definition insert_account :: "account \<Rightarrow> identity \<Rightarrow> identity option" where
  "insert_account r s = (if ac_email r \<in> set (map ac_email (id_accounts s)) \<or> ac_key r \<in> set (map ac_key (id_accounts s)) then None
     else Some (s\<lparr>id_accounts := sql_insert r (id_accounts s)\<rparr>))"

definition insert_host :: "host \<Rightarrow> identity \<Rightarrow> identity option" where
  "insert_host h s = (if ho_email h \<in> set (map ho_email (id_hosts s)) then None else Some (s\<lparr>id_hosts := sql_insert h (id_hosts s)\<rparr>))"

definition update_account :: "int \<Rightarrow> (account \<Rightarrow> account) \<Rightarrow> identity \<Rightarrow> identity" where
  "update_account i f s = s\<lparr>id_accounts := sql_update (\<lambda>r. ac_id r = i) f (id_accounts s)\<rparr>"

definition update_host :: "int \<Rightarrow> (host \<Rightarrow> host) \<Rightarrow> identity \<Rightarrow> identity" where
  "update_host i f s = s\<lparr>id_hosts := sql_update (\<lambda>h. ho_id h = i) f (id_hosts s)\<rparr>"

definition blank_account :: "identity \<Rightarrow> string \<Rightarrow> string \<Rightarrow> string \<Rightarrow> string \<Rightarrow> int \<Rightarrow> int \<Rightarrow> account" where
  "blank_account s name email key status balance now =
     \<lparr>ac_id = next_rowid ac_id (id_accounts s), ac_name = name, ac_email = email, ac_key = key, ac_org = None, ac_use_case = None,
      ac_phone = None, ac_status = status, ac_balance = balance, ac_source = None, ac_signup_ip = None, ac_trial = 0,
      ac_deleted = None, ac_deletion_for = None, ac_rotated = None, ac_created = now, ac_updated = None\<rparr>"

definition blank_host :: "identity \<Rightarrow> string \<Rightarrow> string \<Rightarrow> string \<Rightarrow> string \<Rightarrow> int \<Rightarrow> host" where
  "blank_host s name email status approval now =
     \<lparr>ho_id = next_rowid ho_id (id_hosts s), ho_name = name, ho_email = email, ho_gpu_model = None, ho_key = None, ho_key_hash = None,
      ho_status = status, ho_approval = approval, ho_deleted = None, ho_deletion_for = None, ho_rotated = None,
      ho_created = now, ho_updated = None\<rparr>"

section \<open>Registration\<close>

record register_request =
  rg_name :: "string option"
  rg_email :: "string option"
  rg_org :: "string option"
  rg_use_case :: "string option"   \<comment> \<open>\<open>use_case ?? useCase\<close>\<close>
  rg_phone :: "string option"

datatype register_answer =
  RegMissing | RegDisposable | RegDuplicate | RegMailFailed | RegCheckEmail string int

definition register_row :: "register_request \<Rightarrow> string \<Rightarrow> string \<Rightarrow> string \<Rightarrow> int \<Rightarrow> identity \<Rightarrow> (identity \<times> int) option" where
  \<comment> \<open>the staged row, or \<open>None\<close> for a duplicate\<close>
  "register_row rq name email placeholder now s =
     (case account_by_email s email of
        Some r \<Rightarrow>
          if ac_status r = ''active'' \<and> ac_key r \<noteq> [] then Some (s, ac_id r)
          else if ac_status r = ''pending'' then
            Some (update_account (ac_id r) (\<lambda>x. x\<lparr>ac_name := name, ac_org := cut_string 160 (rg_org rq),
              ac_use_case := cut_string 120 (rg_use_case rq), ac_phone := cut_string 40 (rg_phone rq), ac_updated := Some now\<rparr>) s, ac_id r)
          else None
      | None \<Rightarrow>
          let r = (blank_account s name email placeholder ''pending'' 0 now)\<lparr>ac_org := cut_string 160 (rg_org rq),
            ac_use_case := cut_string 120 (rg_use_case rq), ac_phone := cut_string 40 (rg_phone rq)\<rparr>
          in map_option (\<lambda>s'. (s', ac_id r)) (insert_account r s))"

definition register :: "register_request \<Rightarrow> string \<Rightarrow> string \<Rightarrow> string \<Rightarrow> bool \<Rightarrow> int \<Rightarrow> identity \<Rightarrow> identity \<times> register_answer" where
  "register rq placeholder code token mail_ok now s =
     (case (cut_string 120 (rg_name rq), normalizeEmail (rg_email rq)) of
        (Some name, Some email) \<Rightarrow>
          if isDisposableEmail email then (s, RegDisposable)
          else (case register_row rq name email placeholder now s of
            None \<Rightarrow> (s, RegDuplicate)
          | Some (s1, i) \<Rightarrow>
              (s1\<lparr>id_otp := sendOtp email (Some ''renter'') code token now (id_otp s1)\<rparr>,
               if mail_ok then RegCheckEmail email i else RegMailFailed))
      | _ \<Rightarrow> (s, RegMissing))"

definition AGENT_TRIAL_HALALA :: int where "AGENT_TRIAL_HALALA = 2000"

record agent_request =
  aq_email :: "string option"
  aq_label :: "string option"
  aq_org :: "string option"
  aq_use_case :: "string option"
  aq_ip :: "string option"

datatype agent_answer =
  AgDisposable | AgProvider | AgExisting string int int   \<comment> \<open>key, id, balance\<close>
| AgNew string int | AgFailed

definition agent_row :: "agent_request \<Rightarrow> string option \<Rightarrow> string \<Rightarrow> string \<Rightarrow> int \<Rightarrow> identity \<Rightarrow> account" where
  "agent_row rq email key tag now s =
     (let label = cut_string 120 (aq_label rq); guess = (case email of None \<Rightarrow> None | Some e \<Rightarrow> if local_part e = [] then None else Some (local_part e));
          name = (case label of Some l \<Rightarrow> l | None \<Rightarrow> (case guess of Some g \<Rightarrow> g | None \<Rightarrow> ''agent'')) in
      (blank_account s name (case email of Some e \<Rightarrow> e | None \<Rightarrow> ''agent+'' @ tag @ ''@agents.dcp.sa'') key ''active'' AGENT_TRIAL_HALALA now)
        \<lparr>ac_org := cut_string 160 (aq_org rq), ac_use_case := cut_string 120 (aq_use_case rq), ac_source := Some ''agent'',
         ac_signup_ip := cut_string 64 (aq_ip rq), ac_trial := AGENT_TRIAL_HALALA, ac_updated := Some now\<rparr>)"

definition agent_insert :: "agent_request \<Rightarrow> string option \<Rightarrow> string \<Rightarrow> string \<Rightarrow> int \<Rightarrow> identity \<Rightarrow> identity \<times> agent_answer" where
  \<comment> \<open>the row of the address is read again when the INSERT meets a UNIQUE column\<close>
  "agent_insert rq email key tag now s =
     (let r = agent_row rq email key tag now s in
      case insert_account r s of
        Some s1 \<Rightarrow>
          (s1\<lparr>id_grants := sql_insert \<lparr>tg_renter = ac_id r, tg_amount = AGENT_TRIAL_HALALA,
             tg_reason = ''agent self-serve trial credit'', tg_by = ''agent-register'', tg_created = now\<rparr> (id_grants s1)\<rparr>, AgNew key (ac_id r))
      | None \<Rightarrow>
          (case (case email of None \<Rightarrow> None | Some e \<Rightarrow> account_by_email s e) of
             Some x \<Rightarrow> if looksLikeRenterKey (ac_key x) then (s, AgExisting (ac_key x) (ac_id x) (ac_balance x)) else (s, AgFailed)
           | None \<Rightarrow> (s, AgFailed)))"

definition agent_register :: "agent_request \<Rightarrow> string \<Rightarrow> string \<Rightarrow> int \<Rightarrow> identity \<Rightarrow> identity \<times> agent_answer" where
  "agent_register rq key tag now s =
     (let email = normalizeEmail (aq_email rq);
          existing = (case email of None \<Rightarrow> None | Some e \<Rightarrow> account_by_email s e) in
      if (case email of None \<Rightarrow> False | Some e \<Rightarrow> isDisposableEmail e) then (s, AgDisposable)
      else if (case email of None \<Rightarrow> False | Some e \<Rightarrow> owned_by_provider s e) then (s, AgProvider)
      else case existing of
        Some r \<Rightarrow> if ac_status r = ''active'' \<and> looksLikeRenterKey (ac_key r) then (s, AgExisting (ac_key r) (ac_id r) (ac_balance r))
          else agent_insert rq email key tag now s
      | None \<Rightarrow> agent_insert rq email key tag now s)"

record host_request =
  hq_name :: "string option"
  hq_email :: "string option"
  hq_gpu :: "string option"
  hq_os_ok :: bool                 \<comment> \<open>\<open>normalizeProviderOs\<close> knows the system\<close>

datatype host_answer = HostMissing | HostBadOs | HostDuplicate | HostNew string int

definition register_host :: "(string \<Rightarrow> string) \<Rightarrow> host_request \<Rightarrow> string \<Rightarrow> int \<Rightarrow> identity \<Rightarrow> identity \<times> host_answer" where
  "register_host digest rq key now s =
     (case (cut_string 120 (hq_name rq), normalizeEmail (hq_email rq), cut_string 120 (hq_gpu rq)) of
        (Some name, Some email, Some gpu) \<Rightarrow>
          if \<not> hq_os_ok rq then (s, HostBadOs)
          else let h = (blank_host s name email ''registered'' ''pending'' now)\<lparr>ho_gpu_model := Some gpu, ho_key := Some key, ho_key_hash := Some (digest key)\<rparr>
            in (case insert_host h s of None \<Rightarrow> (s, HostDuplicate) | Some s1 \<Rightarrow> (s1, HostNew key (ho_id h)))
      | _ \<Rightarrow> (s, HostMissing))"

section \<open>From a mailbox to a key\<close>

definition RENTER_STARTER_BALANCE_HALALA :: int where "RENTER_STARTER_BALANCE_HALALA = 10000"

definition finalizePendingRenter :: "string \<Rightarrow> string \<Rightarrow> int \<Rightarrow> identity \<Rightarrow> identity \<times> account option" where
  "finalizePendingRenter email key now s =
     (case account_by_email s email of None \<Rightarrow> (s, None)
      | Some r \<Rightarrow>
        if ac_status r \<noteq> ''pending'' then (s, Some r)
        else let s1 = s\<lparr>id_accounts := sql_update (\<lambda>x. ac_id x = ac_id r \<and> ac_status x = ''pending'')
            (\<lambda>x. x\<lparr>ac_key := key, ac_status := ''active'', ac_balance := ac_balance x + RENTER_STARTER_BALANCE_HALALA, ac_updated := Some now\<rparr>)
            (id_accounts s)\<rparr>
          in (s1, account_by_id s1 (ac_id r)))"

definition nonempty_or :: "string \<Rightarrow> string \<Rightarrow> string" where
  "nonempty_or s d = (if s = [] then d else s)"

definition createActiveRenterFromMagicLink :: "string \<Rightarrow> string \<Rightarrow> int \<Rightarrow> identity \<Rightarrow> identity \<times> account option" where
  "createActiveRenterFromMagicLink email key now s =
     (let clean = strip (to_lower email) in
      case account_by_email s clean of Some r \<Rightarrow> (s, Some r)
      | None \<Rightarrow>
        (case insert_account ((blank_account s (nonempty_or (local_part clean) ''Renter'') clean key ''active'' RENTER_STARTER_BALANCE_HALALA now)
               \<lparr>ac_updated := Some now\<rparr>) s of
           None \<Rightarrow> (s, account_by_email s clean)
         | Some s1 \<Rightarrow> (s1, account_by_email s1 clean)))"

definition finalizePendingProvider :: "string \<Rightarrow> string \<Rightarrow> int \<Rightarrow> identity \<Rightarrow> identity \<times> host option" where
  "finalizePendingProvider email key now s =
     (let clean = strip (to_lower email) in
      case host_by_email s clean of Some h \<Rightarrow> (s, Some h)
      | None \<Rightarrow>
        (case insert_host ((blank_host s (nonempty_or (local_part clean) ''Provider'') clean ''registered'' ''pending'' now)\<lparr>ho_key := Some key\<rparr>) s of
           None \<Rightarrow> (s, host_by_email s clean)
         | Some s1 \<Rightarrow> (s1, host_by_email s1 clean)))"

datatype entry_answer =
  EnNoToken | EnRefused link_answer | EnNoAccount
| EnProvider int "string option" bool    \<comment> \<open>id, key, \<open>dual_role\<close>\<close>
| EnRenter int string int bool           \<comment> \<open>id, key, balance, \<open>dual_role\<close>\<close>

definition link_entry :: "string \<Rightarrow> bool \<Rightarrow> string \<Rightarrow> string \<Rightarrow> int \<Rightarrow> identity \<Rightarrow> identity \<times> entry_answer" where
  \<comment> \<open>\<open>handleMagicLink\<close> once the token has proved the address\<close>
  "link_entry email prefer_provider rkey pkey now s =
     (let host = host_by_email s email;
          fin = finalizePendingRenter email rkey now s;
          renter = (case snd fin of Some r \<Rightarrow> if ac_status r = ''active'' then Some r else None | None \<Rightarrow> None);
          made = (if host = None \<and> renter = None \<and> prefer_provider then finalizePendingProvider email pkey now (fst fin) else (fst fin, host));
          made_r = (if snd made = None \<and> renter = None \<and> \<not> prefer_provider then createActiveRenterFromMagicLink email rkey now (fst made)
            else (fst made, renter));
          s' = fst made_r; provider = snd made; effective = snd made_r;
          dual = (provider \<noteq> None \<and> renter \<noteq> None) in
      (s', if prefer_provider then
             (case provider of Some h \<Rightarrow> EnProvider (ho_id h) (ho_key h) dual
              | None \<Rightarrow> (case effective of Some r \<Rightarrow> EnRenter (ac_id r) (ac_key r) (ac_balance r) dual | None \<Rightarrow> EnNoAccount))
           else (case effective of Some r \<Rightarrow> EnRenter (ac_id r) (ac_key r) (ac_balance r) dual
              | None \<Rightarrow> (case provider of Some h \<Rightarrow> EnProvider (ho_id h) (ho_key h) dual | None \<Rightarrow> EnNoAccount))))"

definition handleMagicLink :: "int \<Rightarrow> string \<Rightarrow> string option \<Rightarrow> string \<Rightarrow> string \<Rightarrow> int \<Rightarrow> identity \<Rightarrow> identity \<times> entry_answer" where
  "handleMagicLink zone token prefer rkey pkey now s =
     (if strip token = [] then (s, EnNoToken)
      else case verifyMagicToken zone (strip token) now (id_otp s) of
        (o', LinkUser email role _) \<Rightarrow>
          (let asked = (case role of Some r \<Rightarrow> Some r | None \<Rightarrow> wanted_role prefer) in
           link_entry (strip (to_lower email)) (asked \<noteq> Some ''renter'') rkey pkey now (s\<lparr>id_otp := o'\<rparr>))
      | (o', a) \<Rightarrow> (s\<lparr>id_otp := o'\<rparr>, EnRefused a))"

section \<open>Sign-in by code\<close>

definition send_code :: "string option \<Rightarrow> string option \<Rightarrow> string \<Rightarrow> string \<Rightarrow> int \<Rightarrow> identity \<Rightarrow> identity \<times> bool" where
  \<comment> \<open>\<open>POST /send-otp\<close> of both routers; false when the address is refused\<close>
  "send_code email role code token now s =
     (case normalizeEmail email of None \<Rightarrow> (s, False)
      | Some e \<Rightarrow> (s\<lparr>id_otp := sendOtp e role code token now (id_otp s)\<rparr>, True))"

datatype code_answer =
  CdBadEmail | CdNoToken | CdRefused otp_answer | CdRefusedLink link_answer | CdRenter account | CdProvider host | CdNoAccount
| CdImport string        \<comment> \<open>Supabase is asked for the address\<close>

definition verify_code :: "string option \<Rightarrow> string \<Rightarrow> int \<Rightarrow> (identity \<Rightarrow> string \<Rightarrow> code_answer) \<Rightarrow> identity \<Rightarrow> identity \<times> code_answer" where
  "verify_code email token now account s =
     (case normalizeEmail email of None \<Rightarrow> (s, CdBadEmail)
      | Some e \<Rightarrow>
        if token = [] then (s, CdNoToken)
        else case verifyOtp e token now (id_otp s) of
          (o', OtpUser _) \<Rightarrow> (s\<lparr>id_otp := o'\<rparr>, account (s\<lparr>id_otp := o'\<rparr>) e)
        | (o', a) \<Rightarrow> (s\<lparr>id_otp := o'\<rparr>, CdRefused a))"

definition verify_renter :: "string option \<Rightarrow> string \<Rightarrow> int \<Rightarrow> identity \<Rightarrow> identity \<times> code_answer" where
  "verify_renter email token now s =
     verify_code email token now (\<lambda>s e. case active_by_email s e of Some r \<Rightarrow> CdRenter r | None \<Rightarrow> CdImport e) s"

definition verify_provider :: "string option \<Rightarrow> string \<Rightarrow> int \<Rightarrow> identity \<Rightarrow> identity \<times> code_answer" where
  "verify_provider email token now s =
     verify_code email token now (\<lambda>s e. case host_by_email s e of Some h \<Rightarrow> CdProvider h | None \<Rightarrow> CdNoAccount) s"

text \<open>What Supabase knows of a user, its wallet already read as halala.\<close>

record old_user =
  ou_email :: "string option"
  ou_key :: "string option"
  ou_name :: "string option"
  ou_org :: "string option"
  ou_status :: "string option"
  ou_type :: "string option"
  ou_created :: "int option"
  ou_balance :: int

definition isRenterUser :: "old_user \<Rightarrow> bool" where
  "isRenterUser u = (case ou_type u of None \<Rightarrow> True | Some t \<Rightarrow> t = [] \<or> to_lower t = ''renter'' \<or> to_lower t = ''both'')"

definition old_email :: "old_user \<Rightarrow> string option" where
  "old_email u = (case ou_email u of None \<Rightarrow> None
     | Some e \<Rightarrow> if to_lower (strip e) = [] \<or> CHR ''@'' \<notin> set (to_lower (strip e)) then None else Some (to_lower (strip e)))"

definition mapStatus :: "string option \<Rightarrow> string" where
  "mapStatus st = (let t = (case st of None \<Rightarrow> [] | Some x \<Rightarrow> to_lower (strip x)) in
     if t = ''suspended'' then ''suspended'' else if t = ''deleted'' then ''deleted'' else ''active'')"

fun unique_key :: "identity \<Rightarrow> int option \<Rightarrow> nat \<Rightarrow> string \<Rightarrow> string list \<Rightarrow> string \<Rightarrow> string" where
  \<comment> \<open>\<open>ensureUniqueApiKey\<close>: the candidate, then one generated key after the other, then the last resort\<close>
  "unique_key s own 0 cand gen last_key = last_key"
| "unique_key s own (Suc n) cand gen last_key =
     (case sql_get (\<lambda>r. ac_key r = cand) (id_accounts s) of
        None \<Rightarrow> cand
      | Some r \<Rightarrow> if own = Some (ac_id r) then cand else unique_key s own n (case gen of [] \<Rightarrow> last_key | g # _ \<Rightarrow> g) (tl gen) last_key)"

definition preferred_key :: "string option \<Rightarrow> string list \<Rightarrow> string" where
  "preferred_key k gen = (case k of Some x \<Rightarrow> if strip x = [] then hd gen else strip x | None \<Rightarrow> hd gen)"

definition old_name :: "old_user \<Rightarrow> string \<Rightarrow> string" where
  "old_name u email = (case cut_string 120 (ou_name u) of Some n \<Rightarrow> n | None \<Rightarrow> take 120 (nonempty_or (local_part email) ''Renter''))"

definition upsert_old :: "old_user \<Rightarrow> string list \<Rightarrow> string \<Rightarrow> int \<Rightarrow> identity \<Rightarrow> identity \<times> account option" where
  "upsert_old u gen last_key now s =
     (case old_email u of None \<Rightarrow> (s, None)
      | Some email \<Rightarrow>
        (case account_by_email s email of
           Some r \<Rightarrow>
             (let key = unique_key s (Some (ac_id r)) 8 (preferred_key (if ac_key r = [] then ou_key u else Some (ac_key r)) gen) (tl gen) last_key;
                  s1 = update_account (ac_id r) (\<lambda>x. x\<lparr>ac_name := old_name u email, ac_email := email, ac_key := key,
                    ac_org := coalesce (ac_org x) (cut_string 160 (ou_org u)),
                    ac_status := nonempty_or (ac_status r) (mapStatus (ou_status u)), ac_updated := Some now\<rparr>) s
              in (s1, account_by_id s1 (ac_id r)))
         | None \<Rightarrow>
             (let key = unique_key s None 8 (preferred_key (ou_key u) gen) (tl gen) last_key;
                  r = (blank_account s (old_name u email) email key (mapStatus (ou_status u)) (ou_balance u)
                        (case ou_created u of None \<Rightarrow> now | Some t \<Rightarrow> t))\<lparr>ac_org := cut_string 160 (ou_org u), ac_updated := Some now\<rparr>
              in (case insert_account r s of None \<Rightarrow> (s, None) | Some s1 \<Rightarrow> (s1, Some r)))))"

definition verify_renter_end :: "old_user option \<Rightarrow> string list \<Rightarrow> string \<Rightarrow> int \<Rightarrow> identity \<Rightarrow> identity \<times> code_answer" where
  \<comment> \<open>after the answer of Supabase\<close>
  "verify_renter_end found gen last_key now s =
     (case found of None \<Rightarrow> (s, CdNoAccount)
      | Some u \<Rightarrow>
        if \<not> isRenterUser u then (s, CdNoAccount)
        else case upsert_old u gen last_key now s of
          (s1, Some r) \<Rightarrow> (s1, if ac_status r = ''active'' then CdRenter r else CdNoAccount)
        | (s1, None) \<Rightarrow> (s1, CdNoAccount))"

definition session_account :: "identity \<Rightarrow> string \<Rightarrow> code_answer" where
  "session_account s email = (case active_by_email s email of Some r \<Rightarrow> CdRenter r
     | None \<Rightarrow> (case host_by_email s email of Some h \<Rightarrow> CdProvider h | None \<Rightarrow> CdNoAccount))"

definition wizard_session :: "int \<Rightarrow> string \<Rightarrow> string \<Rightarrow> string \<Rightarrow> int \<Rightarrow> identity \<Rightarrow> identity \<times> code_answer" where
  \<comment> \<open>\<open>POST /v1/auth/session\<close>: a token of 64 characters, else an address and a code; an absent field is empty\<close>
  "wizard_session zone token email code now s =
     (if length (strip token) = 64 then
        (case verifyMagicToken zone (strip token) now (id_otp s) of
           (o', LinkUser addr _ _) \<Rightarrow> (s\<lparr>id_otp := o'\<rparr>, session_account (s\<lparr>id_otp := o'\<rparr>) addr)
         | (o', a) \<Rightarrow> (s\<lparr>id_otp := o'\<rparr>, CdRefusedLink a))
      else if email = [] \<or> code = [] then (s, CdNoToken)
      else if to_lower (strip email) = [] then (s, CdBadEmail)
      else (case verifyOtp (to_lower (strip email)) code now (id_otp s) of
         (o', OtpUser _) \<Rightarrow> (s\<lparr>id_otp := o'\<rparr>, session_account (s\<lparr>id_otp := o'\<rparr>) (to_lower (strip email)))
       | (o', a) \<Rightarrow> (s\<lparr>id_otp := o'\<rparr>, CdRefused a)))"

section \<open>The wizard's registration\<close>

definition wizard_email :: "string option \<Rightarrow> string option" where
  "wizard_email v = (case v of None \<Rightarrow> None
     | Some e \<Rightarrow> let t = to_lower (strip e) in if t = [] \<or> CHR ''@'' \<notin> set t \<or> length t > 320 then None else Some t)"

definition wizard_register :: "string option \<Rightarrow> string option \<Rightarrow> string option \<Rightarrow> string \<Rightarrow> string \<Rightarrow> int \<Rightarrow> identity \<Rightarrow> identity \<times> bool" where
  "wizard_register email role name code token now s =
     (case wizard_email email of None \<Rightarrow> (s, False)
      | Some e \<Rightarrow>
        (let role' = (case wanted_role (map_option (\<lambda>r. to_lower (strip r)) role) of Some r \<Rightarrow> r | None \<Rightarrow> ''provider'');
             s1 = (if role' = ''provider'' \<and> host_by_email s e = None then
                 (case insert_host (blank_host s (case cut_string 120 name of Some n \<Rightarrow> n | None \<Rightarrow> local_part e) e ''pending'' ''pending''
                     (sql_datetime now)) s of None \<Rightarrow> s | Some s1 \<Rightarrow> s1)
               else s)
         in (s1\<lparr>id_otp := sendOtp e (Some role') code token now (id_otp s1)\<rparr>, True)))"

section \<open>Keys\<close>

definition ROTATION_WINDOW_MS :: int where "ROTATION_WINDOW_MS = 24 * 60 * 60 * 1000"

definition MAX_ROTATIONS_PER_WINDOW :: nat where "MAX_ROTATIONS_PER_WINDOW = 3"

definition isRotationRateLimited :: "string \<Rightarrow> int \<Rightarrow> int \<Rightarrow> identity \<Rightarrow> bool" where
  "isRotationRateLimited kind i now s =
     (sql_changes (\<lambda>o'. ro_type o' = kind \<and> ro_account o' = i \<and> ro_at o' \<ge> now - ROTATION_WINDOW_MS) (id_rotations s) \<ge> MAX_ROTATIONS_PER_WINDOW)"

datatype rotate_answer = RotUnknown | RotLimited | RotNew string int

definition record_rotation :: "string \<Rightarrow> int \<Rightarrow> int \<Rightarrow> identity \<Rightarrow> identity" where
  "record_rotation kind i now s = s\<lparr>id_rotations := sql_insert \<lparr>ro_type = kind, ro_account = i, ro_at = now\<rparr> (id_rotations s)\<rparr>"

definition rotate_renter :: "string \<Rightarrow> string \<Rightarrow> int \<Rightarrow> identity \<Rightarrow> identity \<times> rotate_answer" where
  "rotate_renter key new now s =
     (case sql_get (\<lambda>r. ac_key r = key \<and> ac_status r = ''active'') (id_accounts s) of None \<Rightarrow> (s, RotUnknown)
      | Some r \<Rightarrow>
        if isRotationRateLimited ''renter'' (ac_id r) now s then (s, RotLimited)
        else (record_rotation ''renter'' (ac_id r) now
          (update_account (ac_id r) (\<lambda>x. x\<lparr>ac_key := new, ac_rotated := Some now, ac_updated := Some now\<rparr>) s), RotNew new (ac_id r)))"

definition rotate_provider :: "string \<Rightarrow> string \<Rightarrow> int \<Rightarrow> identity \<Rightarrow> identity \<times> rotate_answer" where
  "rotate_provider key new now s =
     (case sql_get (\<lambda>h. ho_key h = Some key) (id_hosts s) of None \<Rightarrow> (s, RotUnknown)
      | Some h \<Rightarrow>
        if isRotationRateLimited ''provider'' (ho_id h) now s then (s, RotLimited)
        else (record_rotation ''provider'' (ho_id h) now
          (update_host (ho_id h) (\<lambda>x. x\<lparr>ho_key := Some new, ho_rotated := Some now, ho_updated := Some now\<rparr>) s), RotNew new (ho_id h)))"

definition admin_rotate_renter :: "int \<Rightarrow> string \<Rightarrow> int \<Rightarrow> identity \<Rightarrow> identity" where
  "admin_rotate_renter i new now s = update_account i (\<lambda>x. x\<lparr>ac_key := new, ac_updated := Some now\<rparr>) s"

definition admin_rotate_provider :: "int \<Rightarrow> string \<Rightarrow> int \<Rightarrow> identity \<Rightarrow> identity" where
  "admin_rotate_provider i new now s = update_host i (\<lambda>x. x\<lparr>ho_key := Some new, ho_updated := Some now\<rparr>) s"

definition admin_status :: "int \<Rightarrow> bool \<Rightarrow> identity \<Rightarrow> identity" where
  \<comment> \<open>suspend, or unsuspend\<close>
  "admin_status i suspend s = update_account i (\<lambda>x. x\<lparr>ac_status := if suspend then ''suspended'' else ''active''\<rparr>) s"

definition resolveProviderByKey :: "(string \<Rightarrow> string) \<Rightarrow> string \<Rightarrow> bool \<Rightarrow> identity \<Rightarrow> host option" where
  "resolveProviderByKey digest key include_deleted s =
     (if key = [] then None
      else case sql_get (\<lambda>h. ho_key_hash h = Some (digest key) \<and> (include_deleted \<or> ho_deleted h = None)) (id_hosts s) of
        Some h \<Rightarrow> Some h
      | None \<Rightarrow> sql_get (\<lambda>h. ho_key h = Some key \<and> (include_deleted \<or> ho_deleted h = None)) (id_hosts s))"

definition backfill_hashes :: "(string \<Rightarrow> string) \<Rightarrow> identity \<Rightarrow> identity" where
  \<comment> \<open>once when the server starts\<close>
  "backfill_hashes digest s = s\<lparr>id_hosts := sql_update (\<lambda>h. ho_key_hash h = None \<and> ho_key h \<noteq> None)
     (\<lambda>h. h\<lparr>ho_key_hash := map_option digest (ho_key h)\<rparr>) (id_hosts s)\<rparr>"

section \<open>Deletion\<close>

definition hashedDeletedEmail :: "(string \<Rightarrow> string) \<Rightarrow> string \<Rightarrow> string \<Rightarrow> int \<Rightarrow> string" where
  "hashedDeletedEmail digest kind raw i =
     ''deleted_'' @ take 32 (digest (case normalizeEmail (Some raw) of Some e \<Rightarrow> e | None \<Rightarrow> ''deleted-'' @ kind @ ''-'' @ dec i @ ''@dcp.sa''))
       @ ''@deleted.dcp.sa''"

datatype erase_answer = ErUnknown | ErGone | ErFailed | ErScheduled nat int

definition erasable :: "job_row \<Rightarrow> bool" where
  "erasable j = (jb_status j \<in> {JQueued, JPending, JRunning, JOther ''paused''})"

definition cancel_jobs :: "(job_row \<Rightarrow> bool) \<Rightarrow> string \<Rightarrow> int \<Rightarrow> identity \<Rightarrow> identity" where
  "cancel_jobs P why now s = s\<lparr>id_jobs := sql_update (\<lambda>j. P j \<and> erasable j)
     (\<lambda>j. j\<lparr>jb_status := JCancelled, jb_error := coalesce (jb_error j) (Some why),
        jb_completed_at := coalesce (jb_completed_at j) (Some now), jb_updated_at := Some now\<rparr>) (id_jobs s)\<rparr>"

text \<open>
  \<open>DELETE /renters/me\<close>, statement by statement: there is no transaction, so when the last UPDATE meets a UNIQUE
  column the first ones stay. An empty \<open>jb_model\<close> stands for NULL. Templates, the quota log and the copy of the key in
  escrow rows are left out.
\<close>

definition erase_renter_data :: "account \<Rightarrow> int \<Rightarrow> identity \<Rightarrow> identity" where
  "erase_renter_data r now s =
     (let s1 = cancel_jobs (\<lambda>j. jb_renter j = Some (ac_id r)) ''Cancelled: renter account deleted by PDPL request'' now s in
      s1\<lparr>id_jobs := sql_update (\<lambda>j. jb_renter j = Some (ac_id r)) (\<lambda>j. j\<lparr>jb_model := [], jb_task := None, jb_spec := None, jb_updated_at := Some now\<rparr>) (id_jobs s1),
         id_quotas := filter (\<lambda>q. rq_renter q \<noteq> ac_id r) (id_quotas s1)\<rparr>)"

definition delete_renter :: "(string \<Rightarrow> string) \<Rightarrow> string \<Rightarrow> string \<Rightarrow> int \<Rightarrow> identity \<Rightarrow> identity \<times> erase_answer" where
  "delete_renter digest key uuid now s =
     (case sql_get (\<lambda>r. ac_key r = key) (id_accounts s) of None \<Rightarrow> (s, ErUnknown)
      | Some r \<Rightarrow>
        if ac_status r = ''deleted'' then (s, ErGone)
        else
          (let email = hashedDeletedEmail digest ''renter'' (ac_email r) (ac_id r);
               tomb = ''deleted-renter-'' @ dec (ac_id r) @ ''-'' @ uuid;
               due = now + 30 * 24 * 60 * 60 * 1000;
               cancelled = sql_changes (\<lambda>j. jb_renter j = Some (ac_id r) \<and> erasable j) (id_jobs s);
               s1 = erase_renter_data r now s in
           if \<exists>x\<in>set (id_accounts s). ac_id x \<noteq> ac_id r \<and> (ac_email x = email \<or> ac_key x = tomb) then (s1, ErFailed)
           else ((update_account (ac_id r) (\<lambda>x. x\<lparr>ac_name := ''[deleted]'', ac_email := email, ac_org := None, ac_status := ''deleted'',
                    ac_deleted := Some now, ac_deletion_for := Some due, ac_key := tomb, ac_updated := Some now\<rparr>) s1)
                  \<lparr>id_erasures := sql_insert \<lparr>er_type = ''renter'', er_account = ac_id r, er_at = now\<rparr> (id_erasures s)\<rparr>,
                 ErScheduled cancelled due)))"

definition delete_provider :: "(string \<Rightarrow> string) \<Rightarrow> string \<Rightarrow> string \<Rightarrow> int \<Rightarrow> identity \<Rightarrow> identity \<times> erase_answer" where
  "delete_provider digest key uuid now s =
     (case sql_get (\<lambda>h. ho_key h = Some key) (id_hosts s) of None \<Rightarrow> (s, ErUnknown)
      | Some h \<Rightarrow>
        if ho_status h = ''deleted'' then (s, ErGone)
        else
          (let email = hashedDeletedEmail digest ''provider'' (ho_email h) (ho_id h);
               tomb = ''deleted-provider-'' @ dec (ho_id h) @ ''-'' @ uuid;
               due = now + 30 * 24 * 60 * 60 * 1000;
               cancelled = sql_changes (\<lambda>j. jb_provider j = Some (ho_id h) \<and> erasable j) (id_jobs s);
               s1 = cancel_jobs (\<lambda>j. jb_provider j = Some (ho_id h)) ''Cancelled: provider account deleted by PDPL request'' now s in
           if \<exists>x\<in>set (id_hosts s). ho_id x \<noteq> ho_id h \<and> ho_email x = email then (s1, ErFailed)
           else ((update_host (ho_id h) (\<lambda>x. x\<lparr>ho_name := ''[deleted]'', ho_email := email, ho_status := ''deleted'', ho_approval := ''deleted'',
                    ho_deleted := Some now, ho_deletion_for := Some due, ho_key := Some tomb, ho_updated := Some now\<rparr>) s1)
                  \<lparr>id_erasures := sql_insert \<lparr>er_type = ''provider'', er_account = ho_id h, er_at = now\<rparr> (id_erasures s)\<rparr>,
                 ErScheduled cancelled due)))"

section \<open>Histories of accounts\<close>

datatype account_event =
  AcRegister register_request string string string bool int
| AcAgent agent_request string string int
| AcHost host_request string int
| AcSend "string option" "string option" string string int
| AcLink string "string option" string string int
| AcRenterCode "string option" string int
| AcImport "old_user option" "string list" string int
| AcProviderCode "string option" string int
| AcSession string string string int
| AcWizard "string option" "string option" "string option" string string int
| AcRotate string string int
| AcRotateHost string string int
| AcAdminRotate int string int
| AcAdminRotateHost int string int
| AcAdminStatus int bool
| AcDelete string string int
| AcDeleteHost string string int
| AcBackfill
| AcClean int

fun account_step :: "(string \<Rightarrow> string) \<Rightarrow> int \<Rightarrow> identity \<Rightarrow> account_event \<Rightarrow> identity" where
  "account_step digest zone s (AcRegister rq placeholder code token mail now) = fst (register rq placeholder code token mail now s)"
| "account_step digest zone s (AcAgent rq key tag now) = fst (agent_register rq key tag now s)"
| "account_step digest zone s (AcHost rq key now) = fst (register_host digest rq key now s)"
| "account_step digest zone s (AcSend email role code token now) = fst (send_code email role code token now s)"
| "account_step digest zone s (AcLink token prefer rkey pkey now) = fst (handleMagicLink zone token prefer rkey pkey now s)"
| "account_step digest zone s (AcRenterCode email token now) = fst (verify_renter email token now s)"
| "account_step digest zone s (AcImport found gen last_key now) = fst (verify_renter_end found gen last_key now s)"
| "account_step digest zone s (AcProviderCode email token now) = fst (verify_provider email token now s)"
| "account_step digest zone s (AcSession token email code now) = fst (wizard_session zone token email code now s)"
| "account_step digest zone s (AcWizard email role name code token now) = fst (wizard_register email role name code token now s)"
| "account_step digest zone s (AcRotate key new now) = fst (rotate_renter key new now s)"
| "account_step digest zone s (AcRotateHost key new now) = fst (rotate_provider key new now s)"
| "account_step digest zone s (AcAdminRotate i new now) = admin_rotate_renter i new now s"
| "account_step digest zone s (AcAdminRotateHost i new now) = admin_rotate_provider i new now s"
| "account_step digest zone s (AcAdminStatus i b) = admin_status i b s"
| "account_step digest zone s (AcDelete key uuid now) = fst (delete_renter digest key uuid now s)"
| "account_step digest zone s (AcDeleteHost key uuid now) = fst (delete_provider digest key uuid now s)"
| "account_step digest zone s AcBackfill = backfill_hashes digest s"
| "account_step digest zone s (AcClean now) = s\<lparr>id_otp := cleanupExpiredCodes now (id_otp s)\<rparr>"

text \<open>What may become of the row of an account: the starter balance comes with the end of the pending state.\<close>

definition grown :: "account \<Rightarrow> account \<Rightarrow> bool" where
  "grown r r' = (ac_id r' = ac_id r \<and>
     (if ac_status r = ''pending''
      then ac_balance r' = ac_balance r \<or> (ac_balance r' = ac_balance r + RENTER_STARTER_BALANCE_HALALA \<and> ac_status r' \<noteq> ''pending'')
      else ac_balance r' = ac_balance r \<and> ac_status r' \<noteq> ''pending''))"

definition evolves :: "account list \<Rightarrow> account list \<Rightarrow> bool" where
  "evolves rows rows' = (has_key ac_id rows' \<and> (\<exists>f new. rows' = map f rows @ new \<and> (\<forall>r\<in>set rows. grown r (f r))))"

lemma grown_refl [simp]: "grown r r"
  by (simp add: grown_def)

lemma grown_trans: "grown a b \<Longrightarrow> grown b c \<Longrightarrow> grown a c"
  by (auto simp: grown_def split: if_splits)

lemma evolves_refl: "has_key ac_id rows \<Longrightarrow> evolves rows rows"
  unfolding evolves_def by (intro conjI exI [of _ "\<lambda>r. r"] exI [of _ "[]"]) simp_all

lemma evolves_trans:
  assumes "evolves a b" "evolves b c" shows "evolves a c"
proof -
  from assms obtain f n g m where b: "b = map f a @ n" "\<forall>r\<in>set a. grown r (f r)" and c: "c = map g b @ m" "\<forall>r\<in>set b. grown r (g r)"
    unfolding evolves_def by blast
  have "c = map (g \<circ> f) a @ (map g n @ m)" by (simp add: b(1) c(1))
  moreover have "\<forall>r\<in>set a. grown r ((g \<circ> f) r)" using b c(2) by (auto intro: grown_trans)
  ultimately show ?thesis using assms(2) unfolding evolves_def by blast
qed

lemma evolves_update:
  assumes "has_key ac_id rows" and "\<And>r. r \<in> set rows \<Longrightarrow> P r \<Longrightarrow> grown r (f r)"
  shows "evolves rows (sql_update P f rows)"
proof -
  let ?g = "\<lambda>r. if P r then f r else r"
  have g: "\<forall>r\<in>set rows. grown r (?g r)" using assms(2) by simp
  then have "map ac_id (map ?g rows) = map ac_id rows" by (auto simp: grown_def)
  then have "has_key ac_id (sql_update P f rows)" using assms(1) by (simp add: has_key_def sql_update_def del: map_map)
  moreover have "sql_update P f rows = map ?g rows @ []" by (simp add: sql_update_def)
  ultimately show ?thesis using g unfolding evolves_def by blast
qed

lemma evolves_insert:
  assumes "has_key ac_id (id_accounts s)" "insert_account r s = Some s'" "ac_id r = next_rowid ac_id (id_accounts s)"
  shows "evolves (id_accounts s) (id_accounts s')"
proof -
  have e: "id_accounts s' = map (\<lambda>r. r) (id_accounts s) @ [r]" using assms(2) by (auto simp: insert_account_def sql_insert_def split: if_splits)
  have "has_key ac_id (id_accounts s')"
    using assms(1,3) next_rowid_fresh [of ac_id "id_accounts s"] unfolding e by (simp add: has_key_def)
  then show ?thesis unfolding evolves_def using e by (metis grown_refl)
qed


lemma accounts_otp [simp]: "id_accounts (s\<lparr>id_otp := x\<rparr>) = id_accounts s"
  by simp

lemma evolves_update_account:
  assumes "has_key ac_id (id_accounts s)" and "\<And>r. r \<in> set (id_accounts s) \<Longrightarrow> ac_id r = i \<Longrightarrow> grown r (f r)"
  shows "evolves (id_accounts s) (id_accounts (update_account i f s))"
  using evolves_update [of "id_accounts s" "\<lambda>r. ac_id r = i" f] assms by (simp add: update_account_def)

lemma account_by_email_in: "account_by_email s e = Some r \<Longrightarrow> r \<in> set (id_accounts s) \<and> to_lower (ac_email r) = to_lower e"
  by (auto simp: account_by_email_def dest: sql_get_Some)

lemma insert_host_accounts: "insert_host h s = Some s' \<Longrightarrow> id_accounts s' = id_accounts s"
  by (auto simp: insert_host_def split: if_splits)

lemma register_row_evolves:
  assumes key: "has_key ac_id (id_accounts s)" and r: "register_row rq name email ph now s = Some (s', i)"
  shows "evolves (id_accounts s) (id_accounts s')"
proof (cases "account_by_email s email")
  case None
  with r evolves_insert [OF key] show ?thesis by (auto simp: register_row_def Let_def blank_account_def)
next
  case (Some x)
  show ?thesis
  proof (cases "ac_status x = ''active'' \<and> ac_key x \<noteq> []")
    case False
    then have "ac_status x = ''pending''" and s': "s' = update_account (ac_id x) (\<lambda>x. x\<lparr>ac_name := name, ac_org := cut_string 160 (rg_org rq),
              ac_use_case := cut_string 120 (rg_use_case rq), ac_phone := cut_string 40 (rg_phone rq), ac_updated := Some now\<rparr>) s"
      using r Some by (auto simp: register_row_def split: if_splits)
    show ?thesis unfolding s' by (rule evolves_update_account [OF key]) (simp add: grown_def)
  qed (use r Some evolves_refl [OF key] in \<open>auto simp: register_row_def\<close>)
qed

lemma register_evolves:
  assumes key: "has_key ac_id (id_accounts s)" shows "evolves (id_accounts s) (id_accounts (fst (register rq ph code token mail now s)))"
  using evolves_refl [OF key] register_row_evolves [OF key, of rq _ _ ph now] by (auto simp: register_def split: option.splits prod.splits)

lemma agent_evolves:
  assumes key: "has_key ac_id (id_accounts s)" shows "evolves (id_accounts s) (id_accounts (fst (agent_register rq k tag now s)))"
proof -
  have "evolves (id_accounts s) (id_accounts (fst (agent_insert rq e k tag now s)))" for e
  proof (cases "insert_account (agent_row rq e k tag now s) s")
    case None
    then show ?thesis using evolves_refl [OF key] by (auto simp: agent_insert_def Let_def split: option.splits)
  next
    case (Some s1)
    have "ac_id (agent_row rq e k tag now s) = next_rowid ac_id (id_accounts s)" by (simp add: agent_row_def blank_account_def Let_def)
    from evolves_insert [OF key Some this] show ?thesis by (simp add: agent_insert_def Some Let_def)
  qed
  then show ?thesis using evolves_refl [OF key] by (auto simp: agent_register_def Let_def split: option.splits)
qed

lemma finalize_evolves:
  assumes key: "has_key ac_id (id_accounts s)" shows "evolves (id_accounts s) (id_accounts (fst (finalizePendingRenter email k now s)))"
proof (cases "account_by_email s email")
  case (Some r)
  have "evolves (id_accounts s) (sql_update (\<lambda>x. ac_id x = ac_id r \<and> ac_status x = ''pending'')
      (\<lambda>x. x\<lparr>ac_key := k, ac_status := ''active'', ac_balance := ac_balance x + RENTER_STARTER_BALANCE_HALALA, ac_updated := Some now\<rparr>) (id_accounts s))"
    by (rule evolves_update [OF key]) (simp add: grown_def)
  with Some evolves_refl [OF key] show ?thesis by (simp add: finalizePendingRenter_def Let_def)
qed (use evolves_refl [OF key] in \<open>simp add: finalizePendingRenter_def\<close>)

lemma create_evolves:
  assumes key: "has_key ac_id (id_accounts s)" shows "evolves (id_accounts s) (id_accounts (fst (createActiveRenterFromMagicLink email k now s)))"
  using evolves_refl [OF key] evolves_insert [OF key]
  by (auto simp: createActiveRenterFromMagicLink_def Let_def blank_account_def split: option.splits)

lemma provider_accounts: "id_accounts (fst (finalizePendingProvider email k now s)) = id_accounts s"
  by (auto simp: finalizePendingProvider_def Let_def insert_host_def split: option.splits if_splits)

lemma evolves_key: "evolves rows rows' \<Longrightarrow> has_key ac_id rows'"
  by (simp add: evolves_def)

lemma link_entry_evolves:
  assumes key: "has_key ac_id (id_accounts s)" shows "evolves (id_accounts s) (id_accounts (fst (link_entry email pp rkey pkey now s)))"
proof -
  note f = finalize_evolves [OF key, of email rkey now]
  have "evolves (id_accounts s) (id_accounts (fst (createActiveRenterFromMagicLink email rkey now (fst (finalizePendingRenter email rkey now s)))))"
    by (rule evolves_trans [OF f create_evolves [OF evolves_key [OF f]]])
  with f show ?thesis unfolding link_entry_def Let_def by (simp add: provider_accounts)
qed

lemma import_evolves:
  assumes key: "has_key ac_id (id_accounts s)" shows "evolves (id_accounts s) (id_accounts (fst (upsert_old u gen last_key now s)))"
proof (cases "old_email u")
  case (Some e)
  show ?thesis
  proof (cases "account_by_email s e")
    case None
    with Some evolves_refl [OF key] evolves_insert [OF key] show ?thesis
      by (auto simp: upsert_old_def Let_def blank_account_def split: option.splits)
  next
    case (Some r)
    note r = account_by_email_in [OF Some]
    have g: "grown x x'" if "x \<in> set (id_accounts s)" "ac_id x = ac_id r" "ac_id x' = ac_id x" "ac_balance x' = ac_balance x"
        "ac_status x' = nonempty_or (ac_status r) (mapStatus (ou_status u))" for x x'
    proof -
      have "x = r" using has_key_eq [OF key that(1) conjunct1 [OF r] that(2)] .
      with that show ?thesis by (auto simp: grown_def nonempty_or_def mapStatus_def Let_def)
    qed
    show ?thesis using \<open>old_email u = Some e\<close> Some
      by (simp add: upsert_old_def Let_def) (intro conjI impI evolves_update_account [OF key] g; simp)
  qed
qed (use evolves_refl [OF key] in \<open>simp add: upsert_old_def\<close>)

lemma same_evolves: "has_key ac_id (id_accounts s) \<Longrightarrow> id_accounts s' = id_accounts s \<Longrightarrow> evolves (id_accounts s) (id_accounts s')"
  by (simp add: evolves_refl)

lemma rotate_evolves:
  assumes key: "has_key ac_id (id_accounts s)" shows "evolves (id_accounts s) (id_accounts (fst (rotate_renter k new now s)))"
proof (cases "sql_get (\<lambda>r. ac_key r = k \<and> ac_status r = ''active'') (id_accounts s)")
  case (Some r)
  have "evolves (id_accounts s) (id_accounts (update_account (ac_id r) (\<lambda>x. x\<lparr>ac_key := new, ac_rotated := Some now, ac_updated := Some now\<rparr>) s))"
    by (rule evolves_update_account [OF key]) (simp add: grown_def)
  with Some evolves_refl [OF key] show ?thesis by (simp add: rotate_renter_def record_rotation_def)
qed (use evolves_refl [OF key] in \<open>simp add: rotate_renter_def\<close>)

lemma status_evolves:
  "has_key ac_id (id_accounts s) \<Longrightarrow> evolves (id_accounts s) (id_accounts (admin_status i b s))"
  unfolding admin_status_def by (rule evolves_update_account) (simp_all add: grown_def)

lemma admin_rotate_evolves:
  "has_key ac_id (id_accounts s) \<Longrightarrow> evolves (id_accounts s) (id_accounts (admin_rotate_renter i new now s))"
  unfolding admin_rotate_renter_def by (rule evolves_update_account) (simp_all add: grown_def)

lemma erase_accounts [simp]: "id_accounts (erase_renter_data r now s) = id_accounts s"
  by (simp add: erase_renter_data_def cancel_jobs_def Let_def)

lemma delete_evolves:
  assumes key: "has_key ac_id (id_accounts s)" shows "evolves (id_accounts s) (id_accounts (fst (delete_renter digest k uuid now s)))"
proof -
  have "evolves (id_accounts s) (id_accounts (update_account i (\<lambda>x. x\<lparr>ac_name := ''[deleted]'', ac_email := e, ac_org := None, ac_status := ''deleted'',
      ac_deleted := Some now, ac_deletion_for := Some due, ac_key := tomb, ac_updated := Some now\<rparr>) (erase_renter_data r now s)))" for i e due tomb r
    using evolves_update_account [of "erase_renter_data r now s"] key by (auto simp: grown_def)
  with evolves_refl [OF key] show ?thesis by (auto simp: delete_renter_def Let_def split: option.splits)
qed

lemma code_accounts: "id_accounts (fst (verify_code e t now f s)) = id_accounts s"
  by (auto simp: verify_code_def split: option.splits prod.splits otp_answer.splits)

lemma session_accounts: "id_accounts (fst (wizard_session zone t e c now s)) = id_accounts s"
  by (auto simp: wizard_session_def split: prod.splits otp_answer.splits link_answer.splits)

lemma wizard_accounts: "id_accounts (fst (wizard_register e r n c t now s)) = id_accounts s"
  by (auto simp: wizard_register_def Let_def insert_host_def split: option.splits)

lemma host_accounts:
  "id_accounts (fst (register_host digest rq k now s)) = id_accounts s"
  "id_accounts (fst (rotate_provider k new now s)) = id_accounts s"
  "id_accounts (fst (delete_provider digest k uuid now s)) = id_accounts s"
  "id_accounts (admin_rotate_provider i new now s) = id_accounts s"
  "id_accounts (backfill_hashes digest s) = id_accounts s"
  by (auto simp: register_host_def insert_host_def rotate_provider_def record_rotation_def update_host_def delete_provider_def
      cancel_jobs_def admin_rotate_provider_def backfill_hashes_def Let_def split: option.splits)

lemma link_evolves:
  assumes key: "has_key ac_id (id_accounts s)" shows "evolves (id_accounts s) (id_accounts (fst (handleMagicLink zone token prefer rkey pkey now s)))"
proof -
  have "evolves (id_accounts s) (id_accounts (fst (link_entry e pp rkey pkey now (s\<lparr>id_otp := x\<rparr>))))" for e pp x
    using link_entry_evolves [of "s\<lparr>id_otp := x\<rparr>" e pp rkey pkey now] key by simp
  with evolves_refl [OF key] show ?thesis by (auto simp: handleMagicLink_def Let_def split: prod.splits link_answer.splits)
qed

lemma verify_end_evolves:
  assumes key: "has_key ac_id (id_accounts s)" shows "evolves (id_accounts s) (id_accounts (fst (verify_renter_end found gen lk now s)))"
proof (cases found)
  case (Some u)
  have "id_accounts (fst (verify_renter_end found gen lk now s)) \<in> {id_accounts s, id_accounts (fst (upsert_old u gen lk now s))}"
    by (auto simp: verify_renter_end_def Some split: prod.splits option.splits)
  with evolves_refl [OF key] import_evolves [OF key, of u gen lk now] show ?thesis by auto
qed (use evolves_refl [OF key] in \<open>simp add: verify_renter_end_def\<close>)

lemma step_evolves:
  assumes key: "has_key ac_id (id_accounts s)" shows "evolves (id_accounts s) (id_accounts (account_step digest zone s e))"
proof (cases e)
  case (AcSend email role code token now)
  then show ?thesis using evolves_refl [OF key] by (auto simp: send_code_def split: option.splits)
qed (use key in \<open>simp_all add: register_evolves agent_evolves link_evolves verify_end_evolves rotate_evolves status_evolves
    admin_rotate_evolves delete_evolves evolves_refl code_accounts session_accounts wizard_accounts host_accounts verify_renter_def verify_provider_def\<close>)

interpretation account_rows: preserved "account_step digest zone" "\<lambda>s. has_key ac_id (id_accounts s) \<and> evolves rows (id_accounts s)"
  for digest zone rows
  by unfold_locales (use step_evolves evolves_trans evolves_key in blast)

lemma evolves_row:
  assumes "evolves rows rows'" "sql_get (\<lambda>r. ac_id r = i) rows = Some r"
  shows "\<exists>r'. sql_get (\<lambda>r. ac_id r = i) rows' = Some r' \<and> grown r r'"
proof -
  obtain f n where e: "rows' = map f rows @ n" "\<forall>r\<in>set rows. grown r (f r)" using assms(1) by (auto simp: evolves_def)
  have r: "r \<in> set rows" "ac_id r = i" using sql_get_Some [OF assms(2)] by auto
  then have "f r \<in> set rows'" "ac_id (f r) = i" using e by (auto simp: grown_def)
  with sql_get_key [of ac_id rows' "f r"] assms(1) e(2) r(1) show ?thesis by (auto simp: evolves_def)
qed
section \<open>Theorems\<close>

text \<open>
  C35: The starter balance comes once. Over every sequence of registrations, sign-ins, imports, rotations, suspensions
  and deletions, the row of an account that is no longer pending keeps its balance and never becomes pending again,
  and a pending row gets at most the starter balance, once, when it stops being pending.
\<close>

theorem starter_once:
  assumes "has_key ac_id (id_accounts s)" and "account_by_id s i = Some r" and s': "s' = foldl (account_step digest zone) s es"
  shows "\<exists>r'. account_by_id s' i = Some r' \<and>
    (if ac_status r = ''pending'' then ac_balance r' = ac_balance r \<or> ac_balance r' = ac_balance r + 10000 \<and> ac_status r' \<noteq> ''pending''
     else ac_balance r' = ac_balance r \<and> ac_status r' \<noteq> ''pending'')"
proof -
  have "evolves (id_accounts s) (id_accounts s')"
    using account_rows.inv_run_all [of s "id_accounts s" digest zone es] assms(1) evolves_refl by (simp add: s')
  from evolves_row [OF this, of i r] assms(2) obtain r' where "sql_get (\<lambda>r. ac_id r = i) (id_accounts s') = Some r'" "grown r r'"
    by (auto simp: account_by_id_def)
  then show ?thesis by (intro exI [of _ r']) (auto simp: account_by_id_def grown_def RENTER_STARTER_BALANCE_HALALA_def)
qed

lemma get_email_map:
  fixes f :: "account \<Rightarrow> account"
  assumes "\<And>x. to_lower (ac_email (f x)) = to_lower (ac_email x)"
  shows "sql_get (\<lambda>r. to_lower (ac_email r) = e) (map f rows) = map_option f (sql_get (\<lambda>r. to_lower (ac_email r) = e) rows)"
  unfolding sql_get_def by (rule find_map_key) (simp add: assms)

lemma create_new:
  assumes "account_by_email s e = None" "strip (to_lower e) = e" "rkey \<notin> set (map ac_key (id_accounts s))"
  shows "\<exists>s1 r. createActiveRenterFromMagicLink e rkey now s = (s1, Some r) \<and> account_by_email s1 e = Some r \<and> id_accounts s1 = id_accounts s @ [r]
    \<and> id_hosts s1 = id_hosts s \<and> ac_id r = next_rowid ac_id (id_accounts s) \<and> ac_key r = rkey \<and> ac_email r = e
    \<and> ac_status r = ''active'' \<and> ac_balance r = 10000"
proof -
  let ?r = "(blank_account s (nonempty_or (local_part e) ''Renter'') e rkey ''active'' RENTER_STARTER_BALANCE_HALALA now)\<lparr>ac_updated := Some now\<rparr>"
  have "\<forall>x\<in>set (id_accounts s). to_lower (ac_email x) \<noteq> to_lower e" using assms(1) by (simp add: account_by_email_def sql_get_None)
  then have ins: "insert_account ?r s = Some (s\<lparr>id_accounts := id_accounts s @ [?r]\<rparr>)"
    using assms(3) by (auto simp: insert_account_def blank_account_def sql_insert_def)
  have get: "account_by_email (s\<lparr>id_accounts := id_accounts s @ [?r]\<rparr>) e = Some ?r"
    using assms(1) by (simp add: account_by_email_def sql_get_insert [unfolded sql_insert_def] blank_account_def)
  show ?thesis
    using assms(1,2) ins get by (simp add: createActiveRenterFromMagicLink_def) (simp add: blank_account_def RENTER_STARTER_BALANCE_HALALA_def)
qed

lemma link_entry_mints:
  assumes key: "has_key ac_id (id_accounts s)" and clean: "strip (to_lower e) = e" and fresh: "rkey \<notin> set (map ac_key (id_accounts s))"
    and link: "link_entry e False rkey pkey now s = (s1, EnRenter i rkey b dual)"
  shows "\<exists>r. account_by_email s1 e = Some r \<and> ac_status r = ''active'' \<and> ac_id r = i \<and> ac_key r = rkey \<and> ac_balance r = b \<and> id_hosts s1 = id_hosts s"
proof (cases "account_by_email s e")
  case None
  then have fin: "finalizePendingRenter e rkey now s = (s, None)" by (simp add: finalizePendingRenter_def)
  obtain s2 r where c: "createActiveRenterFromMagicLink e rkey now s = (s2, Some r)" "account_by_email s2 e = Some r" "id_hosts s2 = id_hosts s"
      "ac_key r = rkey" "ac_status r = ''active''" using create_new [OF None clean fresh] by blast
  show ?thesis using link c by (cases "host_by_email s e") (auto simp: link_entry_def Let_def fin)
next
  case (Some r)
  note r = account_by_email_in [OF Some]
  have old: "ac_key r \<noteq> rkey" using r fresh by auto
  show ?thesis
  proof (cases "ac_status r = ''pending''")
    case False
    then have fin: "finalizePendingRenter e rkey now s = (s, Some r)" by (simp add: finalizePendingRenter_def Some)
    have "createActiveRenterFromMagicLink e rkey now s = (s, Some r)" using clean Some by (simp add: createActiveRenterFromMagicLink_def)
    with link old show ?thesis by (cases "host_by_email s e") (auto simp: link_entry_def Let_def fin split: if_splits)
  next
    case True
    let ?f = "\<lambda>x. if ac_id x = ac_id r \<and> ac_status x = ''pending'' then x\<lparr>ac_key := rkey, ac_status := ''active'',
        ac_balance := ac_balance x + RENTER_STARTER_BALANCE_HALALA, ac_updated := Some now\<rparr> else x"
    let ?s = "s\<lparr>id_accounts := map ?f (id_accounts s)\<rparr>"
    have "sql_get (\<lambda>x. ac_id x = ac_id r) (map ?f (id_accounts s)) = map_option ?f (sql_get (\<lambda>x. ac_id x = ac_id r) (id_accounts s))"
      unfolding sql_get_def by (rule find_map_key) simp
    then have get: "account_by_id ?s (ac_id r) = Some (?f r)" using sql_get_key [OF key conjunct1 [OF r]] by (simp add: account_by_id_def)
    have mail: "account_by_email ?s e = Some (?f r)" using Some by (simp add: account_by_email_def get_email_map)
    have fin: "finalizePendingRenter e rkey now s = (?s, Some (?f r))"
      unfolding finalizePendingRenter_def Some Let_def sql_update_def using True get by simp
    show ?thesis using link mail True by (auto simp: link_entry_def Let_def fin split: option.splits)
  qed
qed

text \<open>
  C37: The key of an account is given to anyone who knows the address. Once a link has proved a mailbox and minted the key of
  its account, a programmatic registration with that address, from anywhere and without any code, is answered with that key.
\<close>

theorem agent_register_discloses_key:
  assumes "has_key ac_id (id_accounts s)" and "strip (to_lower e) = e" and "rkey \<notin> set (map ac_key (id_accounts s))"
    and link: "link_entry e False rkey pkey now s = (s1, EnRenter i rkey b dual)"
    and "looksLikeRenterKey rkey" and rq: "normalizeEmail (aq_email rq) = Some e" "\<not> isDisposableEmail e" "\<not> owned_by_provider s e"
  shows "agent_register rq k tag t s1 = (s1, AgExisting rkey i b)"
proof -
  from link_entry_mints [OF assms(1-3) link] obtain r where "account_by_email s1 e = Some r" "ac_status r = ''active''" "ac_id r = i"
      "ac_key r = rkey" "ac_balance r = b" "id_hosts s1 = id_hosts s" by blast
  with assms show ?thesis by (simp add: agent_register_def owned_by_provider_def)
qed

text \<open>
  C36: Deletion can be done once per address and gives a second starter balance. After a renter has deleted
  the account, a link to the same address makes a new account with the starter balance again; that account cannot be
  deleted: the anonymised address is taken, the request fails with the account as it was, but its waiting and running jobs are
  already cancelled and emptied.
\<close>

theorem deleted_account_returns:
  assumes key: "has_key ac_id (id_accounts s)" and unique: "has_key (\<lambda>r. to_lower (ac_email r)) (id_accounts s)"
    and r: "sql_get (\<lambda>x. ac_key x = k) (id_accounts s) = Some r"
    and e: "ac_email r = e" "normalizeEmail (Some e) = Some e" "strip (to_lower e) = e"
    and del: "delete_renter digest k uuid t1 s = (s1, ErScheduled n due)"
    and hashed: "to_lower (hashedDeletedEmail digest ''renter'' e (ac_id r)) \<noteq> to_lower e"
    and host: "host_by_email s e = None" and fresh: "rkey \<notin> set (map ac_key (id_accounts s1))"
  shows "\<exists>s2 i. link_entry e False rkey pkey t2 s1 = (s2, EnRenter i rkey 10000 False) \<and> i \<noteq> ac_id r \<and>
    (\<forall>s3. id_accounts s3 = id_accounts s2 \<longrightarrow> (case delete_renter digest rkey uuid' t3 s3 of (s4, a) \<Rightarrow>
       a = ErFailed \<and> id_accounts s4 = id_accounts s3 \<and> (\<forall>j\<in>set (id_jobs s4). jb_renter j = Some i \<longrightarrow> \<not> erasable j \<and> jb_task j = None)))"
proof -
  have rin: "r \<in> set (id_accounts s)" using sql_get_Some [OF r] by simp
  let ?h = "hashedDeletedEmail digest ''renter'' e (ac_id r)" and ?tomb = "''deleted-renter-'' @ dec (ac_id r) @ ''-'' @ uuid"
  let ?f = "\<lambda>x. if ac_id x = ac_id r then x\<lparr>ac_name := ''[deleted]'', ac_email := ?h, ac_org := None, ac_status := ''deleted'',
      ac_deleted := Some t1, ac_deletion_for := Some due, ac_key := ?tomb, ac_updated := Some t1\<rparr> else x"
  have s1: "id_accounts s1 = map ?f (id_accounts s)" "id_hosts s1 = id_hosts s"
    using del e(1) by (auto simp: delete_renter_def r Let_def update_account_def sql_update_def erase_renter_data_def cancel_jobs_def split: if_splits)
  have "\<forall>x\<in>set (id_accounts s1). to_lower (ac_email x) \<noteq> to_lower e"
  proof
    fix y assume "y \<in> set (id_accounts s1)"
    then obtain x where x: "x \<in> set (id_accounts s)" "y = ?f x" unfolding s1 by auto
    show "to_lower (ac_email y) \<noteq> to_lower e"
    proof (cases "ac_id x = ac_id r")
      case False
      then have "x \<noteq> r" by auto
      with has_key_eq [OF unique x(1) rin] e(1) show ?thesis using False x(2) by auto
    qed (use hashed x in simp)
  qed
  then have none: "account_by_email s1 e = None" by (simp add: account_by_email_def sql_get_None)
  from create_new [OF none e(3) fresh, of t2] obtain s2 q where
    q: "createActiveRenterFromMagicLink e rkey t2 s1 = (s2, Some q)" "id_accounts s2 = id_accounts s1 @ [q]"
      "ac_id q = next_rowid ac_id (id_accounts s1)" "ac_key q = rkey" "ac_email q = e" "ac_status q = ''active''" "ac_balance q = 10000" by blast
  have link: "link_entry e False rkey pkey t2 s1 = (s2, EnRenter (ac_id q) rkey 10000 False)"
    using none q(1,4,7) host s1(2) by (simp add: link_entry_def finalizePendingRenter_def Let_def host_by_email_def)
  have "?f r \<in> set (id_accounts s1)" using rin by (auto simp: s1)
  then obtain y where y: "y \<in> set (id_accounts s1)" "ac_id y = ac_id r" "ac_email y = ?h" by fastforce
  have new: "ac_id q \<noteq> ac_id r" using next_rowid_fresh [of ac_id "id_accounts s1"] y(1,2) q(3) by (metis image_eqI)
  have "case delete_renter digest rkey uuid' t3 s3 of (s4, a) \<Rightarrow> a = ErFailed \<and> id_accounts s4 = id_accounts s3
      \<and> (\<forall>j\<in>set (id_jobs s4). jb_renter j = Some (ac_id q) \<longrightarrow> \<not> erasable j \<and> jb_task j = None)"
    if s3: "id_accounts s3 = id_accounts s2" for s3
  proof -
    have "sql_get (\<lambda>x. ac_key x = rkey) (id_accounts s1) = None" using fresh by (auto simp: sql_get_None)
    then have got: "sql_get (\<lambda>x. ac_key x = rkey) (id_accounts s3) = Some q"
      using q(4) sql_get_insert [of "\<lambda>x. ac_key x = rkey" q "id_accounts s1"] unfolding s3 q(2) sql_insert_def by simp
    have clash: "\<exists>x\<in>set (id_accounts s3). ac_id x \<noteq> ac_id q \<and> (ac_email x = hashedDeletedEmail digest ''renter'' (ac_email q) (ac_id q) \<or> P x)" for P
      using y new unfolding s3 q(2) q(5) by (intro bexI [of _ y]) (auto simp: hashedDeletedEmail_def e(2))
    have d: "delete_renter digest rkey uuid' t3 s3 = (erase_renter_data q t3 s3, ErFailed)"
      unfolding delete_renter_def got option.case Let_def using q(6) clash by simp
    have "\<not> erasable j \<and> jb_task j = None" if "j \<in> set (id_jobs (erase_renter_data q t3 s3))" "jb_renter j = Some (ac_id q)" for j
      using that by (auto simp: erase_renter_data_def cancel_jobs_def Let_def set_sql_update erasable_def split: if_splits)
    with d show ?thesis by simp
  qed
  with link new show ?thesis by blast
qed

lemma update_host_map:
  assumes "\<And>x. ho_key_hash (f x) = ho_key_hash x \<and> ho_id (f x) = ho_id x"
  shows "\<exists>g. id_hosts (update_host i f s) = map g (id_hosts s) \<and> (\<forall>x. ho_key_hash (g x) = ho_key_hash x \<and> ho_id (g x) = ho_id x)"
  using assms unfolding update_host_def sql_update_def by (intro exI [of _ "\<lambda>x. if ho_id x = i then f x else x"]) simp

lemma delete_hosts_map:
  "\<exists>g. id_hosts (fst (delete_provider digest k uuid t s)) = map g (id_hosts s) \<and> (\<forall>x. ho_key_hash (g x) = ho_key_hash x \<and> ho_id (g x) = ho_id x)"
proof -
  have same: "\<exists>g. id_hosts s = map g (id_hosts s) \<and> (\<forall>x. ho_key_hash (g x) = ho_key_hash x \<and> ho_id (g x) = ho_id x)"
    by (intro exI [of _ "\<lambda>x. x"]) simp
  have upd: "\<exists>g. id_hosts (update_host i (\<lambda>x. x\<lparr>ho_name := n, ho_email := e, ho_status := st, ho_approval := ap, ho_deleted := d, ho_deletion_for := due,
      ho_key := tomb, ho_updated := u\<rparr>) (cancel_jobs P why t s)) = map g (id_hosts s) \<and> (\<forall>x. ho_key_hash (g x) = ho_key_hash x \<and> ho_id (g x) = ho_id x)"
    for i n e st ap d due tomb u P why
    using update_host_map [of "\<lambda>x. x\<lparr>ho_name := n, ho_email := e, ho_status := st, ho_approval := ap, ho_deleted := d, ho_deletion_for := due,
      ho_key := tomb, ho_updated := u\<rparr>" i "cancel_jobs P why t s"] by (simp add: cancel_jobs_def)
  have c: "id_hosts (cancel_jobs P why t s) = id_hosts s" for P why by (simp add: cancel_jobs_def)
  show ?thesis unfolding delete_provider_def Let_def
    by (split option.split, intro conjI impI allI, simp add: same, split if_split, intro conjI impI, simp add: same, split if_split, intro conjI impI)
      (simp add: c same, simp add: upd)
qed

text \<open>
  C38: A rotated provider key still opens the account. The rotation replaces the key but not its stored digest, and the lookup asks the
  digest first: the old key resolves to the provider after the rotation, and, where deleted providers are included,
  even after the account has been deleted.
\<close>

theorem rotated_key_still_opens:
  assumes h: "sql_get (\<lambda>h. ho_key h = Some k) (id_hosts s) = Some h" and "k \<noteq> []" "ho_deleted h = None"
    and hash: "sql_get (\<lambda>x. ho_key_hash x = Some (digest k)) (id_hosts s) = Some h"
    and rot: "rotate_provider k new now s = (s1, RotNew new i)"
  shows "(\<exists>h1. resolveProviderByKey digest k False s1 = Some h1 \<and> ho_id h1 = i \<and> ho_key h1 = Some new)
    \<and> (\<exists>h2. resolveProviderByKey digest k True (fst (delete_provider digest new uuid t s1)) = Some h2 \<and> ho_id h2 = i)"
proof -
  have i: "i = ho_id h" "\<not> isRotationRateLimited ''provider'' (ho_id h) now s" using rot h by (auto simp: rotate_provider_def split: if_splits)
  let ?f = "\<lambda>x. if ho_id x = ho_id h then x\<lparr>ho_key := Some new, ho_rotated := Some now, ho_updated := Some now\<rparr> else x"
  have s1: "id_hosts s1 = map ?f (id_hosts s)"
    using rot h by (auto simp: rotate_provider_def record_rotation_def update_host_def sql_update_def split: if_splits)
  have get: "List.find (\<lambda>x. ho_key_hash x = Some (digest k) \<and> Q x) (map f xs) = Some (f y)"
    if "List.find (\<lambda>x. ho_key_hash x = Some (digest k)) xs = Some y" "Q (f y)" "\<And>x. ho_key_hash (f x) = ho_key_hash x" for f Q y and xs :: "host list"
    using that by (induction xs) (auto split: if_splits)
  have one: "resolveProviderByKey digest k False s1 = Some (?f h)"
    unfolding resolveProviderByKey_def s1 sql_get_def using get [of "id_hosts s" h "\<lambda>x. ho_deleted x = None" ?f] hash assms(2,3)
    by (simp add: sql_get_def)
  have "\<exists>g. id_hosts (fst (delete_provider digest new uuid t s1)) = map g (id_hosts s1) \<and> (\<forall>x. ho_key_hash (g x) = ho_key_hash x \<and> ho_id (g x) = ho_id x)"
    by (rule delete_hosts_map)
  then obtain g where gd: "id_hosts (fst (delete_provider digest new uuid t s1)) = map g (id_hosts s1)"
      and gk: "\<And>x. ho_key_hash (g x) = ho_key_hash x" "\<And>x. ho_id (g x) = ho_id x" by blast
  have g: "id_hosts (fst (delete_provider digest new uuid t s1)) = map (\<lambda>x. g (?f x)) (id_hosts s)" by (simp add: gd s1 comp_def)
  have "resolveProviderByKey digest k True (fst (delete_provider digest new uuid t s1)) = Some (g (?f h))"
    unfolding resolveProviderByKey_def g sql_get_def using get [of "id_hosts s" h "\<lambda>x. True" "\<lambda>x. g (?f x)"] hash assms(2) gk(1)
    by (simp add: sql_get_def)
  with one i(1) gk(2) show ?thesis by simp
qed

section \<open>Witnesses\<close>

definition no_identity :: identity where
  "no_identity = \<lparr>id_accounts = [], id_hosts = [], id_otp = \<lparr>od_rows = [], od_seq = 0\<rparr>, id_jobs = [], id_quotas = [], id_grants = [],
     id_rotations = [], id_erasures = []\<rparr>"

definition demo_account :: account where
  "demo_account = (blank_account no_identity ''a'' ''a@x.sa'' ''dcp-renter-1'' ''active'' 10000 0)\<lparr>ac_id := 1\<rparr>"

definition demo_host :: host where
  "demo_host = (blank_host no_identity ''p'' ''p@x.sa'' ''registered'' ''pending'' 0)\<lparr>ho_id := 1, ho_key := Some ''k1'', ho_key_hash := Some ''k1''\<rparr>"

definition demo_identity :: identity where
  "demo_identity = no_identity\<lparr>id_accounts := [demo_account], id_hosts := [demo_host]\<rparr>"

lemma demo_rows: "id_accounts demo_identity = [demo_account]" "id_hosts demo_identity = [demo_host]" "id_rotations demo_identity = []"
  by (simp_all add: demo_identity_def no_identity_def)

lemma demo_fields: "ac_id demo_account = 1" "ac_email demo_account = ''a@x.sa''" "ac_key demo_account = ''dcp-renter-1''"
    "ac_status demo_account = ''active''" "ac_balance demo_account = 10000"
    "ho_id demo_host = 1" "ho_email demo_host = ''p@x.sa''" "ho_key demo_host = Some ''k1''" "ho_key_hash demo_host = Some ''k1''"
    "ho_deleted demo_host = None" "ho_status demo_host = ''registered''"
  by (simp_all add: demo_account_def demo_host_def blank_account_def blank_host_def)

lemma demo_texts: "to_lower ''a@x.sa'' = ''a@x.sa''" "strip ''a@x.sa'' = ''a@x.sa''" "to_lower ''p@x.sa'' = ''p@x.sa''"
    "normalizeEmail (Some ''a@x.sa'') = Some ''a@x.sa''" "\<not> isDisposableEmail ''a@x.sa''" "looksLikeRenterKey ''dcp-renter-2''"
    "to_lower (hashedDeletedEmail (\<lambda>x. x) ''renter'' ''a@x.sa'' 1) \<noteq> ''a@x.sa''" "dec 1 = ''1''"
  by code_simp+

theorem starter_once_witness:
  "\<exists>r'. account_by_id (foldl (account_step (\<lambda>x. x) 0) demo_identity [AcAdminStatus 1 True, AcRotate ''dcp-renter-1'' ''k'' 5, AcAdminStatus 1 False]) 1 = Some r'
     \<and> ac_balance r' = 10000 \<and> ac_status r' \<noteq> ''pending''"
proof -
  have "account_by_id demo_identity 1 = Some demo_account" "has_key ac_id (id_accounts demo_identity)"
    by (simp_all add: account_by_id_def demo_rows sql_get_def demo_fields has_key_def)
  from starter_once [OF this(2,1) refl, of "\<lambda>x. x" 0 "[AcAdminStatus 1 True, AcRotate ''dcp-renter-1'' ''k'' 5, AcAdminStatus 1 False]"]
  show ?thesis by (auto simp: demo_fields simp del: foldl.simps account_step.simps)
qed

theorem agent_register_discloses_key_witness:
  "\<exists>s1 i b. link_entry ''a@x.sa'' False ''dcp-renter-2'' ''pk'' 5 no_identity = (s1, EnRenter i ''dcp-renter-2'' b False)
     \<and> agent_register \<lparr>aq_email = Some ''a@x.sa'', aq_label = None, aq_org = None, aq_use_case = None, aq_ip = Some ''6.6.6.6''\<rparr> ''x'' ''y'' 9 s1
       = (s1, AgExisting ''dcp-renter-2'' i b)"
proof -
  have none: "account_by_email no_identity ''a@x.sa'' = None" "strip (to_lower ''a@x.sa'') = ''a@x.sa''" "''dcp-renter-2'' \<notin> set (map ac_key (id_accounts no_identity))"
    by (simp_all add: account_by_email_def no_identity_def sql_get_def demo_texts)
  obtain s1 r where c: "createActiveRenterFromMagicLink ''a@x.sa'' ''dcp-renter-2'' 5 no_identity = (s1, Some r)" "ac_key r = ''dcp-renter-2''"
    using create_new [OF none] by blast
  have h: "host_by_email no_identity ''a@x.sa'' = None" by (simp add: host_by_email_def no_identity_def sql_get_def)
  have link: "link_entry ''a@x.sa'' False ''dcp-renter-2'' ''pk'' 5 no_identity = (s1, EnRenter (ac_id r) ''dcp-renter-2'' (ac_balance r) False)"
    using c none(1) h by (simp add: link_entry_def finalizePendingRenter_def Let_def)
  have "has_key ac_id (id_accounts no_identity)" "\<not> owned_by_provider no_identity ''a@x.sa''"
    by (simp_all add: no_identity_def has_key_def owned_by_provider_def sql_get_def)
  with agent_register_discloses_key [OF _ none(2,3) link] demo_texts link show ?thesis by fastforce
qed

theorem deleted_account_returns_witness:
  "\<exists>s1 n due s2 i. delete_renter (\<lambda>x. x) ''dcp-renter-1'' ''u'' 5 demo_identity = (s1, ErScheduled n due)
     \<and> link_entry ''a@x.sa'' False ''dcp-renter-2'' ''pk'' 6 s1 = (s2, EnRenter i ''dcp-renter-2'' 10000 False) \<and> i \<noteq> 1"
proof -
  have get: "sql_get (\<lambda>x. ac_key x = ''dcp-renter-1'') (id_accounts demo_identity) = Some demo_account"
    by (simp add: demo_rows sql_get_def demo_fields)
  obtain s1 n due where del: "delete_renter (\<lambda>x. x) ''dcp-renter-1'' ''u'' 5 demo_identity = (s1, ErScheduled n due)"
    "map ac_key (id_accounts s1) = [''deleted-renter-1-u'']"
    by (simp add: delete_renter_def sql_get_def Let_def demo_rows demo_fields demo_texts update_account_def sql_update_def)
  have pre: "has_key ac_id (id_accounts demo_identity)" "has_key (\<lambda>r. to_lower (ac_email r)) (id_accounts demo_identity)"
    "ac_email demo_account = ''a@x.sa''" "strip (to_lower ''a@x.sa'') = ''a@x.sa''" "host_by_email demo_identity ''a@x.sa'' = None"
    "to_lower (hashedDeletedEmail (\<lambda>x. x) ''renter'' ''a@x.sa'' (ac_id demo_account)) \<noteq> to_lower ''a@x.sa''"
    "''dcp-renter-2'' \<notin> set (map ac_key (id_accounts s1))"
    using demo_texts by (simp_all add: demo_rows has_key_def demo_fields host_by_email_def sql_get_def del(2))
  from deleted_account_returns [OF pre(1,2) get pre(3) demo_texts(4) pre(4) del(1) pre(6,5,7)] del(1) show ?thesis
    unfolding demo_fields(1) by blast
qed

theorem rotated_key_still_opens_witness:
  "\<exists>s1 h. rotate_provider ''k1'' ''k2'' 5 demo_identity = (s1, RotNew ''k2'' 1) \<and> resolveProviderByKey (\<lambda>x. x) ''k1'' False s1 = Some h \<and> ho_key h = Some ''k2''"
proof -
  have h: "sql_get (\<lambda>h. ho_key h = Some ''k1'') (id_hosts demo_identity) = Some demo_host"
      "sql_get (\<lambda>x. ho_key_hash x = Some ((\<lambda>x. x) ''k1'')) (id_hosts demo_identity) = Some demo_host"
    by (simp_all add: demo_rows sql_get_def demo_fields)
  obtain s1 where rot: "rotate_provider ''k1'' ''k2'' 5 demo_identity = (s1, RotNew ''k2'' 1)"
    by (simp add: rotate_provider_def sql_get_def isRotationRateLimited_def demo_rows sql_changes_def MAX_ROTATIONS_PER_WINDOW_def demo_fields)
  from rotated_key_still_opens [where digest = "\<lambda>x. x", OF h(1) _ demo_fields(10) _ rot] h(2) rot show ?thesis by auto
qed

end
