(* ===== verification/Onboarding.thy ===== *)
theory Onboarding
  imports Prelude Contracts
begin

text \<open>
  The provider wizard of \<open>backend/src/routes/v1-wizard.js\<close> after sign-in: the profile and the configuration of a machine, the
  install token that a provider mints once it has consented, the handshake by which the daemon of a new machine
  exchanges the token for the key, and the state the wizard shows. Every route is synchronous. Tokens and keys are
  arguments, and so is the switch \<open>DCP_WIZARD_AUTO_APPROVE\<close>.
\<close>

section \<open>State\<close>

record node =                      \<comment> \<open>\<open>providers\<close>, the columns of the wizard\<close>
  nd_id :: int
  nd_key :: "string option"
  nd_status :: string
  nd_approval :: "string option"
  nd_approved_at :: "int option"
  nd_fingerprint :: "string option"
  nd_full_name :: "string option"
  nd_phone :: "string option"
  nd_city :: "string option"
  nd_country :: "string option"
  nd_consented :: "int option"     \<comment> \<open>\<open>pdpl_consented_at\<close>\<close>
  nd_gpu_model :: "string option"
  nd_vram_gb :: "int option"
  nd_vram_mb :: "int option"
  nd_gpu_count :: "int option"
  nd_os :: "string option"
  nd_source :: string              \<comment> \<open>\<open>gpu_profile_source\<close>\<close>
  nd_profiled_at :: "int option"
  nd_notes :: "string option"
  nd_heartbeat :: "int option"     \<comment> \<open>\<open>last_heartbeat\<close>, its text read as UTC\<close>
  nd_paused :: bool
  nd_deleted :: "int option"
  nd_updated :: int

record install_token =
  it_token :: string
  it_provider :: int
  it_expires :: int
  it_consumed :: "int option"

record wizard_config =
  wc_provider :: int
  wc_schedule :: string
  wc_gpu_load :: int
  wc_vram_max :: int
  wc_power :: string
  wc_timezone :: "string option"
  wc_updated :: int

record wizard_db =
  wz_nodes :: "node list"
  wz_tokens :: "install_token list"
  wz_configs :: "wizard_config list"

definition node_by_id :: "wizard_db \<Rightarrow> int \<Rightarrow> node option" where
  "node_by_id s i = sql_get (\<lambda>n. nd_id n = i) (wz_nodes s)"

definition update_node :: "int \<Rightarrow> (node \<Rightarrow> node) \<Rightarrow> wizard_db \<Rightarrow> wizard_db" where
  "update_node i f s = s\<lparr>wz_nodes := sql_update (\<lambda>n. nd_id n = i) f (wz_nodes s)\<rparr>"

definition has_prefix :: "string \<Rightarrow> string \<Rightarrow> bool" where
  "has_prefix p k = (take (length p) k = p)"

definition requireProvider :: "wizard_db \<Rightarrow> string \<Rightarrow> node option" where
  \<comment> \<open>the bearer token; a renter's key is refused before the lookup\<close>
  "requireProvider s key = (if key = [] \<or> has_prefix ''dcp-renter-'' key \<or> has_prefix ''dc1-renter-'' key then None
     else sql_get (\<lambda>n. nd_key n = Some key) (wz_nodes s))"

section \<open>Profile and configuration\<close>

record gpu_entry =
  gx_vendor :: string
  gx_model :: string
  gx_vram :: "int option"
  gx_count :: "int option"

definition or_one :: "int option \<Rightarrow> int" where
  "or_one v = (case v of None \<Rightarrow> 1 | Some n \<Rightarrow> if n = 0 then 1 else n)"

definition total_vram :: "gpu_entry list \<Rightarrow> int" where
  "total_vram gs = sum_list (map (\<lambda>g. or0 (gx_vram g) * or_one (gx_count g)) gs)"

definition gpu_profile :: "string \<Rightarrow> gpu_entry list \<Rightarrow> string option \<Rightarrow> string option \<Rightarrow> int \<Rightarrow> wizard_db \<Rightarrow> wizard_db \<times> bool" where
  "gpu_profile key gpus detected_by os now s =
     (case (requireProvider s key, gpus) of
        (Some p, g # _) \<Rightarrow>
          (update_node (nd_id p) (\<lambda>n. n\<lparr>nd_gpu_model := Some (strip (gx_vendor g @ '' '' @ gx_model g)),
             nd_vram_gb := (if total_vram gpus = 0 then None else Some (total_vram gpus)),
             nd_gpu_count := Some (sum_list (map (\<lambda>g. or_one (gx_count g)) gpus)),
             nd_os := Some (case os of Some x \<Rightarrow> to_lower x | None \<Rightarrow> ''linux''),
             nd_source := (case detected_by of Some d \<Rightarrow> d | None \<Rightarrow> ''manual_web''), nd_profiled_at := Some (sql_datetime now),
             nd_updated := sql_datetime now\<rparr>) s, True)
      | _ \<Rightarrow> (s, False))"

definition suggestModelsForVram :: "int \<Rightarrow> string list" where
  "suggestModelsForVram v =
     (if v = 0 then []
      else if v \<ge> 141 then [''llama-3.3-70b'', ''mixtral-8x22b'', ''qwen3.5-35b-a3b'']
      else if v \<ge> 80 then [''llama-3.3-70b'', ''qwen-72b'']
      else if v \<ge> 48 then [''qwen3-30b-a3b'', ''nemotron-30b-a3b'']
      else if v \<ge> 24 then [''qwen2.5-14b'', ''qwen3-14b'', ''mistral-7b'', ''llama3.1-8b'']
      else if v \<ge> 16 then [''mistral-7b'', ''qwen2.5-7b'', ''llama3.1-8b'']
      else if v \<ge> 10 then [''gemma-2b'', ''phi-3-mini''] else [])"

definition clamp_pct :: "int option \<Rightarrow> int" where
  "clamp_pct v = max 10 (min 100 (case v of None \<Rightarrow> 100 | Some n \<Rightarrow> if n = 0 then 100 else n))"

definition save_config :: "string \<Rightarrow> string option \<Rightarrow> int option \<Rightarrow> int option \<Rightarrow> string option \<Rightarrow> string option \<Rightarrow> int \<Rightarrow>
    wizard_db \<Rightarrow> wizard_db \<times> bool" where
  "save_config key schedule load vram pow_limit tz now s =
     (case requireProvider s key of None \<Rightarrow> (s, False)
      | Some p \<Rightarrow>
        (let sch = (case schedule of Some x \<Rightarrow> if x \<in> {''always_on'', ''smart_hours'', ''custom''} then x else ''always_on'' | None \<Rightarrow> ''always_on'');
             pw = (case pow_limit of Some x \<Rightarrow> if to_lower x \<in> {''default'', ''250w'', ''200w'', ''eco''} then to_lower x else ''default'' | None \<Rightarrow> ''default'');
             c = \<lparr>wc_provider = nd_id p, wc_schedule = sch, wc_gpu_load = clamp_pct load, wc_vram_max = clamp_pct vram, wc_power = pw,
               wc_timezone = map_option (take 64) tz, wc_updated = sql_datetime now\<rparr>
         in (s\<lparr>wz_configs := (if nd_id p \<in> set (map wc_provider (wz_configs s))
                then sql_update (\<lambda>x. wc_provider x = nd_id p) (\<lambda>_. c) (wz_configs s) else sql_insert c (wz_configs s))\<rparr>, True)))"

section \<open>Install tokens\<close>

record compliance =
  cm_consent :: bool
  cm_name :: string
  cm_phone :: string
  cm_city :: string
  cm_country :: string

definition phone_char :: "char \<Rightarrow> bool" where
  "phone_char c = (is_digit c \<or> c \<in> {CHR '' '', CHR 0x09, CHR 0x0A, CHR 0x0B, CHR 0x0C, CHR 0x0D, CHR ''-'', CHR ''('', CHR '')'', CHR ''.''})"

definition phone_ok :: "string \<Rightarrow> bool" where
  \<comment> \<open>\<open>PHONE_RE\<close>\<close>
  "phone_ok s = (let t = (if s \<noteq> [] \<and> hd s = CHR ''+'' then tl s else s) in
     t \<noteq> [] \<and> is_digit (hd t) \<and> 6 \<le> length (tl t) \<and> length (tl t) \<le> 19 \<and> list_all phone_char (tl t))"

definition country_ok :: "string \<Rightarrow> bool" where
  "country_ok s = (length s = 2 \<and> list_all (\<lambda>c. 65 \<le> (of_char c :: nat) \<and> (of_char c :: nat) \<le> 90) s)"

datatype compliance_error = NoConsent | MissingFields "string list" | BadPhone

definition missing_fields :: "compliance \<Rightarrow> string list" where
  "missing_fields c =
     (if length (strip (cm_name c)) < 2 \<or> length (strip (cm_name c)) > 120 then [''fullName''] else [])
     @ (if strip (cm_phone c) = [] then [''phone''] else [])
     @ (if length (strip (cm_city c)) < 2 \<or> length (strip (cm_city c)) > 80 then [''city''] else [])
     @ (if \<not> country_ok (map upper_ascii (strip (cm_country c))) then [''country''] else [])"

definition validateCompliance :: "compliance \<Rightarrow> compliance_error option" where
  "validateCompliance c =
     (if \<not> cm_consent c then Some NoConsent
      else if missing_fields c \<noteq> [] then Some (MissingFields (missing_fields c))
      else if \<not> phone_ok (strip (cm_phone c)) then Some BadPhone else None)"

datatype mint_answer = MintUnauthorized | MintInvalid compliance_error | MintNoConsent | MintToken string int

text \<open>\<open>given\<close> is \<open>None\<close> when the body has none of the compliance fields.\<close>

definition mint_token :: "string \<Rightarrow> compliance option \<Rightarrow> string \<Rightarrow> int \<Rightarrow> wizard_db \<Rightarrow> wizard_db \<times> mint_answer" where
  "mint_token key given token now s =
     (case requireProvider s key of None \<Rightarrow> (s, MintUnauthorized)
      | Some p \<Rightarrow>
        (let row = \<lparr>it_token = token, it_provider = nd_id p, it_expires = now + 24 * 60 * 60 * 1000, it_consumed = None\<rparr>;
             minted = (\<lambda>s. (s\<lparr>wz_tokens := sql_insert row (wz_tokens s)\<rparr>, MintToken token (it_expires row))) in
         case given of
           Some c \<Rightarrow>
             (case validateCompliance c of Some e \<Rightarrow> (s, MintInvalid e)
              | None \<Rightarrow> minted (update_node (nd_id p) (\<lambda>n. n\<lparr>nd_full_name := Some (strip (cm_name c)), nd_phone := Some (strip (cm_phone c)),
                  nd_city := Some (strip (cm_city c)), nd_country := Some (map upper_ascii (strip (cm_country c))),
                  nd_consented := coalesce (nd_consented n) (Some (sql_datetime now))\<rparr>) s))
         | None \<Rightarrow> if nd_consented p = None then (s, MintNoConsent) else minted s))"

section \<open>The handshake\<close>

record node_request =
  nq_token :: "string option"
  nq_ids :: "string option list"   \<comment> \<open>\<open>fingerprint\<close>, \<open>machine_id\<close>, \<open>hardware_id\<close>, \<open>hostname\<close>\<close>
  nq_hostname :: "string option"
  nq_os :: "string option"
  nq_gpu :: "(string \<times> string \<times> int option) option"   \<comment> \<open>vendor, model, MB of the first card\<close>
  nq_version :: string

definition deriveNodeFingerprint :: "node_request \<Rightarrow> string option" where
  "deriveNodeFingerprint q = (case List.find truthy_str (nq_ids q) of
     Some (Some s) \<Rightarrow> if strip s = [] then None else Some (take 200 (strip s)) | _ \<Rightarrow> None)"

datatype node_answer =
  NodeNoToken | NodeUnknownToken | NodeOrphan | NodeConsumed | NodeExpired
| NodeReplay string string         \<comment> \<open>key, status\<close>
| NodeNew string string bool       \<comment> \<open>key, approval, \<open>reused_key\<close>\<close>

definition consume_token :: "string \<Rightarrow> int \<Rightarrow> wizard_db \<Rightarrow> wizard_db" where
  "consume_token token now s = s\<lparr>wz_tokens := sql_update (\<lambda>t. it_token t = token) (\<lambda>t. t\<lparr>it_consumed := Some (sql_datetime now)\<rparr>) (wz_tokens s)\<rparr>"

definition status_or :: "string \<Rightarrow> string" where
  "status_or st = (if st = [] then ''active'' else st)"

definition newline :: char where "newline = CHR 0x0A"

definition registered_node :: "bool \<Rightarrow> node_request \<Rightarrow> string \<Rightarrow> int \<Rightarrow> node \<Rightarrow> node" where
  "registered_node auto q key now n = n\<lparr>
     nd_status := (if nd_status n \<in> {''pending'', ''registered''} then ''active'' else nd_status n),
     nd_approval := (if auto \<and> nd_approval n \<noteq> Some ''approved'' then Some ''approved'' else nd_approval n),
     nd_approved_at := (if auto \<and> nd_approved_at n = None then Some (sql_datetime now) else nd_approved_at n),
     nd_key := Some key,
     nd_fingerprint := coalesce (deriveNodeFingerprint q) (nd_fingerprint n),
     nd_os := coalesce (map_option (\<lambda>o'. take 32 (to_lower o')) (nq_os q)) (nd_os n),
     nd_gpu_model := coalesce (map_option (\<lambda>(v, m, _). strip (v @ '' '' @ m)) (nq_gpu q)) (nd_gpu_model n),
     nd_vram_mb := coalesce (case nq_gpu q of Some (_, _, Some mb) \<Rightarrow> if mb = 0 then None else Some mb | _ \<Rightarrow> None) (nd_vram_mb n),
     nd_notes := Some ((case nd_notes n of None \<Rightarrow> [] | Some t \<Rightarrow> t) @
       (case nq_hostname q of Some h \<Rightarrow> if h = [] then [] else newline # ''[wizard] registered hostname='' @ take 200 h @ '' daemon='' @
          (if nq_version q = [] then ''?'' else nq_version q) | None \<Rightarrow> [])),
     nd_updated := sql_datetime now\<rparr>"

definition register_node :: "bool \<Rightarrow> node_request \<Rightarrow> string \<Rightarrow> int \<Rightarrow> wizard_db \<Rightarrow> wizard_db \<times> node_answer" where
  "register_node auto q fresh now s =
     (let token = (case nq_token q of None \<Rightarrow> [] | Some t \<Rightarrow> strip t); fp = deriveNodeFingerprint q in
      if token = [] then (s, NodeNoToken)
      else case sql_get (\<lambda>t. it_token t = token) (wz_tokens s) of
        None \<Rightarrow> (s, NodeUnknownToken)
      | Some t \<Rightarrow>
        (case node_by_id s (it_provider t) of None \<Rightarrow> (s, NodeOrphan)
         | Some p \<Rightarrow>
           if it_consumed t \<noteq> None then
             (let same = (if truthy_str fp \<and> truthy_str (nd_fingerprint p) then nd_fingerprint p = fp else True) in
              if truthy_str (nd_key p) \<and> same then (s, NodeReplay (the (nd_key p)) (status_or (nd_status p))) else (s, NodeConsumed))
           else if it_expires t < now then (s, NodeExpired)
           else if truthy_str (nd_key p) \<and> truthy_str fp \<and> nd_fingerprint p = fp then
             (consume_token token now s, NodeReplay (the (nd_key p)) (status_or (nd_status p)))
           else
             (let key = (if truthy_str (nd_key p) then the (nd_key p) else fresh) in
              (update_node (nd_id p) (registered_node auto q key now) (consume_token token now s),
               NodeNew key (if auto then ''approved'' else (case nd_approval p of Some a \<Rightarrow> if a = [] then ''pending'' else a | None \<Rightarrow> ''pending''))
                 (truthy_str (nd_key p))))))"

section \<open>Is it live?\<close>

definition WIZARD_LIVE_HEARTBEAT_WINDOW_MS :: int where "WIZARD_LIVE_HEARTBEAT_WINDOW_MS = 90 * 1000"

datatype live_state = Live | PendingApproval | NoRecentHeartbeat | Paused

definition computeWizardLiveState :: "node \<Rightarrow> int \<Rightarrow> live_state" where
  "computeWizardLiveState p now =
     (if \<not> (case nd_approval p of Some a \<Rightarrow> to_lower a = ''approved'' | None \<Rightarrow> False) then PendingApproval
      else if \<not> (case nd_heartbeat p of Some h \<Rightarrow> now - h \<le> WIZARD_LIVE_HEARTBEAT_WINDOW_MS | None \<Rightarrow> False) then NoRecentHeartbeat
      else if nd_paused p then Paused else Live)"

definition provider_eligible :: "node \<Rightarrow> bool" where
  \<comment> \<open>\<open>GET /provider/eligibility\<close>\<close>
  "provider_eligible p = (nd_status p \<noteq> ''suspended'' \<and> nd_status p \<noteq> ''rejected'' \<and> nd_deleted p = None)"

section \<open>Histories\<close>

datatype wizard_event =
  WzProfile string "gpu_entry list" "string option" "string option" int
| WzConfig string "string option" "int option" "int option" "string option" "string option" int
| WzMint string "compliance option" string int
| WzNode bool node_request string int

datatype wizard_answer = WzDone bool | WzMinted mint_answer | WzNoded node_answer

fun wizard_step :: "wizard_db \<Rightarrow> wizard_event \<Rightarrow> wizard_db \<times> wizard_answer" where
  "wizard_step s (WzProfile key gpus src os now) = (case gpu_profile key gpus src os now s of (s', b) \<Rightarrow> (s', WzDone b))"
| "wizard_step s (WzConfig key sch load vram pw tz now) = (case save_config key sch load vram pw tz now s of (s', b) \<Rightarrow> (s', WzDone b))"
| "wizard_step s (WzMint key given token now) =
     (if token \<in> set (map it_token (wz_tokens s)) then (s, WzDone False)     \<comment> \<open>a primary key; tokens are 12 random bytes\<close>
      else case mint_token key given token now s of (s', a) \<Rightarrow> (s', WzMinted a))"
| "wizard_step s (WzNode auto q fresh now) = (case register_node auto q fresh now s of (s', a) \<Rightarrow> (s', WzNoded a))"

fun wizard_log :: "wizard_db \<Rightarrow> wizard_event list \<Rightarrow> (wizard_event \<times> wizard_answer) list" where
  "wizard_log s [] = []"
| "wizard_log s (e # es) = (e, snd (wizard_step s e)) # wizard_log (fst (wizard_step s e)) es"

definition spent :: "wizard_db \<Rightarrow> string \<Rightarrow> bool option" where
  "spent s token = map_option (\<lambda>t. it_consumed t \<noteq> None) (sql_get (\<lambda>t. it_token t = token) (wz_tokens s))"

definition wizard_good :: "wizard_db \<Rightarrow> bool" where
  "wizard_good s = has_key it_token (wz_tokens s)"

lemma update_node_tokens [simp]: "wz_tokens (update_node i f s) = wz_tokens s"
  by (simp add: update_node_def)

lemma profile_tokens: "wz_tokens (fst (gpu_profile key gpus src os now s)) = wz_tokens s"
  by (auto simp: gpu_profile_def split: option.splits list.splits)

lemma config_tokens: "wz_tokens (fst (save_config key sch load vram pw tz now s)) = wz_tokens s"
  by (simp add: save_config_def Let_def split: option.splits)

lemma mint_tokens:
  "wz_tokens (fst (mint_token key given token now s)) = wz_tokens s
   \<or> (\<exists>row. it_token row = token \<and> it_consumed row = None \<and> wz_tokens (fst (mint_token key given token now s)) = wz_tokens s @ [row])"
  by (auto simp: mint_token_def Let_def sql_insert_def split: option.splits)

lemma node_tokens:
  "wz_tokens (fst (register_node auto q fresh now s)) = wz_tokens s
   \<or> (\<exists>t. wz_tokens (fst (register_node auto q fresh now s)) = wz_tokens (consume_token t now s))"
  by (auto simp: register_node_def Let_def split: option.splits)

lemma spent_consume: "spent (consume_token t now s) token = (if token = t then map_option (\<lambda>_. True) (spent s token) else spent s token)"
proof -
  have "sql_get (\<lambda>x. it_token x = token) (wz_tokens (consume_token t now s))
      = map_option (\<lambda>x. if it_token x = t then x\<lparr>it_consumed := Some (sql_datetime now)\<rparr> else x) (sql_get (\<lambda>x. it_token x = token) (wz_tokens s))"
    unfolding consume_token_def sql_get_def sql_update_def by (simp, rule find_map_key) simp
  then show ?thesis by (cases "sql_get (\<lambda>x. it_token x = token) (wz_tokens s)") (auto simp: spent_def dest: sql_get_Some)
qed

lemma wizard_good_step: "wizard_good s \<Longrightarrow> wizard_good (fst (wizard_step s e))"
proof (cases e)
  case (WzProfile key gpus src os now)
  then show "wizard_good s \<Longrightarrow> ?thesis" using profile_tokens [of key gpus src os now s] by (simp add: wizard_good_def split_beta)
next
  case (WzConfig key sch load vram pw tz now)
  then show "wizard_good s \<Longrightarrow> ?thesis" using config_tokens [of key sch load vram pw tz now s] by (simp add: wizard_good_def split_beta)
next
  case (WzMint key given token now)
  then show "wizard_good s \<Longrightarrow> ?thesis" using mint_tokens [of key given token now s]
    by (auto simp: wizard_good_def has_key_def split_beta)
next
  case (WzNode auto q fresh now)
  have "wizard_good s \<Longrightarrow> wizard_good (consume_token t now s)" for t by (simp add: wizard_good_def consume_token_def has_key_update)
  with WzNode show "wizard_good s \<Longrightarrow> ?thesis" using node_tokens [of auto q fresh now s]
    by (auto simp: wizard_good_def split_beta)
qed

lemma spent_stays:
  assumes "spent s token = Some True" shows "spent (fst (wizard_step s e)) token = Some True"
proof (cases e)
  case (WzProfile key gpus src os now)
  then show ?thesis using profile_tokens [of key gpus src os now s] assms by (simp add: spent_def split_beta)
next
  case (WzConfig key sch load vram pw tz now)
  then show ?thesis using config_tokens [of key sch load vram pw tz now s] assms by (simp add: spent_def split_beta)
next
  case (WzMint key given tok now)
  from mint_tokens [of key given tok now s] have "spent (fst (mint_token key given tok now s)) token = Some True"
    using assms sql_get_insert [of "\<lambda>t. it_token t = token" _ "wz_tokens s"]
    by (auto simp: spent_def sql_insert_def split: option.splits)
  with WzMint assms show ?thesis by (simp add: split_beta)
next
  case (WzNode auto q fresh now)
  have "spent (consume_token t now s) token = Some True" for t using assms by (auto simp: spent_consume)
  with WzNode node_tokens [of auto q fresh now s] assms show ?thesis by (auto simp: spent_def split_beta)
qed

interpretation tokens: lifecycle "\<lambda>s e. fst (wizard_step s e)" spent "\<lambda>b. b" wizard_good
  by unfold_locales (auto simp: spent_stays wizard_good_step)

definition asks_with :: "node_request \<Rightarrow> string \<Rightarrow> bool" where
  "asks_with q token = (case nq_token q of None \<Rightarrow> False | Some t \<Rightarrow> strip t = token)"

lemma new_node_cases:
  assumes "register_node auto q fresh now s = (s1, NodeNew key ap reused)"
  obtains t p tok where "nq_token q = Some tok" "strip tok \<noteq> []" "sql_get (\<lambda>x. it_token x = strip tok) (wz_tokens s) = Some t"
    "it_consumed t = None" "\<not> it_expires t < now" "node_by_id s (it_provider t) = Some p"
    "key = (if truthy_str (nd_key p) then the (nd_key p) else fresh)"
    "s1 = update_node (nd_id p) (registered_node auto q key now) (consume_token (strip tok) now s)"
proof -
  obtain tok where tok: "nq_token q = Some tok" "strip tok \<noteq> []"
    using assms by (cases "nq_token q") (auto simp: register_node_def Let_def split: if_splits)
  obtain t where t: "sql_get (\<lambda>x. it_token x = strip tok) (wz_tokens s) = Some t"
    using assms tok by (cases "sql_get (\<lambda>x. it_token x = strip tok) (wz_tokens s)") (simp_all add: register_node_def Let_def)
  obtain p where p: "node_by_id s (it_provider t) = Some p"
    using assms tok t by (cases "node_by_id s (it_provider t)") (simp_all add: register_node_def Let_def)
  have c: "it_consumed t = None" "\<not> it_expires t < now"
    using assms tok t p by (auto simp: register_node_def Let_def split: if_splits)
  have "register_node auto q fresh now s = (if truthy_str (nd_key p) \<and> truthy_str (deriveNodeFingerprint q) \<and> nd_fingerprint p = deriveNodeFingerprint q then
             (consume_token (strip tok) now s, NodeReplay (the (nd_key p)) (status_or (nd_status p)))
           else
             (let key = (if truthy_str (nd_key p) then the (nd_key p) else fresh) in
              (update_node (nd_id p) (registered_node auto q key now) (consume_token (strip tok) now s),
               NodeNew key (if auto then ''approved'' else (case nd_approval p of Some a \<Rightarrow> if a = [] then ''pending'' else a | None \<Rightarrow> ''pending''))
                 (truthy_str (nd_key p)))))"
    unfolding register_node_def Let_def using tok t p c by simp
  then have k: "key = (if truthy_str (nd_key p) then the (nd_key p) else fresh)"
      "s1 = update_node (nd_id p) (registered_node auto q key now) (consume_token (strip tok) now s)"
    using assms unfolding Let_def by (auto split: if_splits)
  show thesis by (rule that [OF tok t c p k])
qed

lemma new_node_spends:
  assumes "register_node auto q fresh now s = (s1, NodeNew key ap reused)" "asks_with q token"
  shows "spent s token = Some False" "spent s1 token = Some True"
proof -
  obtain t p tok where c: "nq_token q = Some tok" "strip tok \<noteq> []" "sql_get (\<lambda>x. it_token x = strip tok) (wz_tokens s) = Some t"
    "it_consumed t = None" "\<not> it_expires t < now" "node_by_id s (it_provider t) = Some p"
    "key = (if truthy_str (nd_key p) then the (nd_key p) else fresh)"
    "s1 = update_node (nd_id p) (registered_node auto q key now) (consume_token (strip tok) now s)"
    by (rule new_node_cases [OF assms(1)])
  have tok: "strip tok = token" using c(1) assms(2) by (simp add: asks_with_def)
  show f: "spent s token = Some False" using c(3,4) by (simp add: spent_def tok)
  have "spent s1 token = spent (consume_token token now s) token" by (simp add: c(8) spent_def tok)
  then show "spent s1 token = Some True" by (simp add: spent_consume f)
qed

definition enrols :: "string \<Rightarrow> wizard_event \<times> wizard_answer \<Rightarrow> bool" where
  "enrols token x = (case x of (WzNode _ q _ _, WzNoded (NodeNew _ _ _)) \<Rightarrow> asks_with q token | _ \<Rightarrow> False)"

lemma enrols_step:
  assumes "enrols token (e, snd (wizard_step s e))"
  shows "spent s token = Some False" "spent (fst (wizard_step s e)) token = Some True"
proof -
  from assms obtain auto' q fresh now key ap reused where e: "e = WzNode auto' q fresh now" "asks_with q token"
      "snd (register_node auto' q fresh now s) = NodeNew key ap reused"
    by (auto simp: enrols_def split_beta split: wizard_event.splits wizard_answer.splits node_answer.splits)
  then have r: "register_node auto' q fresh now s = (fst (wizard_step s e), NodeNew key ap reused)" by (simp add: prod_eq_iff split_beta)
  from new_node_spends [OF r e(2)] show "spent s token = Some False" "spent (fst (wizard_step s e)) token = Some True" by blast+
qed

lemma spent_enrols_none: "spent s token = Some True \<Longrightarrow> filter (enrols token) (wizard_log s es) = []"
proof (induction es arbitrary: s)
  case (Cons e es)
  have "\<not> enrols token (e, snd (wizard_step s e))" using enrols_step(1) [of token e s] Cons.prems by auto
  with Cons.IH [OF spent_stays [OF Cons.prems, of e]] show ?case by simp
qed simp

section \<open>Theorems\<close>

text \<open>
  C39: An install token enrols one machine. Over every sequence of profiles, configurations, minted tokens and handshakes, a token
  leads to at most one new registration, whoever presents it and however often.
\<close>

theorem token_enrols_once: "length (filter (enrols token) (wizard_log s es)) \<le> 1"
proof (induction es arbitrary: s)
  case (Cons e es)
  have "filter (enrols token) (wizard_log (fst (wizard_step s e)) es) = []" if "enrols token (e, snd (wizard_step s e))"
    by (rule spent_enrols_none [OF enrols_step(2) [OF that]])
  with Cons [of "fst (wizard_step s e)"] show ?case by auto
qed simp

text \<open>
  C40: A used install token still gives the key away. After a machine has registered, with a fingerprint or not, anyone who
  presents the used token without a fingerprint is given the provider's key, at any later time, long after the token
  has expired; only a caller who names another fingerprint is refused.
\<close>

theorem used_token_discloses_key:
  assumes reg: "register_node auto q fresh now s = (s1, NodeNew key ap reused)" and "key \<noteq> []" and "asks_with q token"
    and thief: "asks_with q' token" "deriveNodeFingerprint q' = None"
    and other: "asks_with q'' token" "deriveNodeFingerprint q'' = Some g" "deriveNodeFingerprint q = Some f" "g \<noteq> f"
  shows "(\<exists>st. register_node auto' q' fresh' later s1 = (s1, NodeReplay key st)) \<and> register_node auto' q'' fresh' later s1 = (s1, NodeConsumed)"
proof -
  obtain t p tok where c: "nq_token q = Some tok" "strip tok \<noteq> []" "sql_get (\<lambda>x. it_token x = strip tok) (wz_tokens s) = Some t"
    "node_by_id s (it_provider t) = Some p" "s1 = update_node (nd_id p) (registered_node auto q key now) (consume_token (strip tok) now s)"
    by (rule new_node_cases [OF reg]) blast
  have tok: "strip tok = token" using c(1) assms(3) by (simp add: asks_with_def)
  have "sql_get (\<lambda>x. it_token x = token) (wz_tokens s1) = map_option (\<lambda>x. if it_token x = token then x\<lparr>it_consumed := Some (sql_datetime now)\<rparr> else x)
      (sql_get (\<lambda>x. it_token x = token) (wz_tokens s))"
    unfolding c(5) update_node_tokens consume_token_def sql_get_def sql_update_def tok by (simp, rule find_map_key) simp
  then obtain t1 where t1: "sql_get (\<lambda>x. it_token x = token) (wz_tokens s1) = Some t1" "it_consumed t1 \<noteq> None" "it_provider t1 = it_provider t"
    using c(3) sql_get_Some [OF c(3)] by (auto simp: tok)
  have id: "nd_id p = it_provider t" using c(4) sql_get_Some by (auto simp: node_by_id_def dest: sql_get_Some)
  have "node_by_id s1 (it_provider t) = map_option (\<lambda>n. if nd_id n = nd_id p then registered_node auto q key now n else n) (node_by_id s (it_provider t))"
    unfolding c(5) node_by_id_def update_node_def consume_token_def sql_get_def sql_update_def
    by (simp, rule find_map_key) (simp add: registered_node_def)
  then have p1: "node_by_id s1 (it_provider t) = Some (registered_node auto q key now p)" using c(4) by simp
  have k: "nd_key (registered_node auto q key now p) = Some key" by (simp add: registered_node_def)
  have f: "nd_fingerprint (registered_node auto q key now p) = Some f" "f \<noteq> []" "g \<noteq> []"
    using other by (auto simp: registered_node_def deriveNodeFingerprint_def split: option.splits if_splits)
  obtain tk' where q': "nq_token q' = Some tk'" "strip tk' = token" using thief(1) by (auto simp: asks_with_def split: option.splits)
  obtain tk'' where q'': "nq_token q'' = Some tk''" "strip tk'' = token" using other(1) by (auto simp: asks_with_def split: option.splits)
  have "\<exists>st. register_node auto' q' fresh' later s1 = (s1, NodeReplay key st)"
    using q' t1 p1 k assms(2) thief(2) c(2) tok by (auto simp: register_node_def Let_def)
  moreover have "register_node auto' q'' fresh' later s1 = (s1, NodeConsumed)"
    using q'' t1 p1 k f assms(2) other(2,4) c(2) tok by (auto simp: register_node_def Let_def)
  ultimately show ?thesis ..
qed

text \<open>
  The wizard says live exactly when the node is approved, was heard of in the last 90 seconds and is not paused.
\<close>

theorem live_iff_earning:
  "(computeWizardLiveState p now = Live) = ((\<exists>a. nd_approval p = Some a \<and> to_lower a = ''approved'')
     \<and> (\<exists>h. nd_heartbeat p = Some h \<and> now - h \<le> 90 * 1000) \<and> \<not> nd_paused p)"
  by (auto simp: computeWizardLiveState_def WIZARD_LIVE_HEARTBEAT_WINDOW_MS_def split: option.splits)
definition demo_node :: node where
  "demo_node = \<lparr>nd_id = 1, nd_key = Some ''k1'', nd_status = ''registered'', nd_approval = Some ''pending'', nd_approved_at = None,
     nd_fingerprint = None, nd_full_name = None, nd_phone = None, nd_city = None, nd_country = None, nd_consented = Some 0, nd_gpu_model = None,
     nd_vram_gb = None, nd_vram_mb = None, nd_gpu_count = None, nd_os = None, nd_source = ''manual'', nd_profiled_at = None, nd_notes = None,
     nd_heartbeat = None, nd_paused = False, nd_deleted = None, nd_updated = 0\<rparr>"

definition demo_wizard :: wizard_db where
  "demo_wizard = \<lparr>wz_nodes = [demo_node], wz_tokens = [\<lparr>it_token = ''t1'', it_provider = 1, it_expires = 100, it_consumed = None\<rparr>], wz_configs = []\<rparr>"

definition demo_node_request :: "string option \<Rightarrow> node_request" where
  "demo_node_request fp = \<lparr>nq_token = Some ''t1'', nq_ids = [fp], nq_hostname = None, nq_os = None, nq_gpu = None, nq_version = []\<rparr>"

theorem used_token_discloses_key_witness:
  "\<exists>s1 st. register_node True (demo_node_request (Some ''m1'')) ''x'' 5 demo_wizard = (s1, NodeNew ''k1'' ''approved'' True)
     \<and> register_node True (demo_node_request None) ''y'' 999 s1 = (s1, NodeReplay ''k1'' st)
     \<and> register_node True (demo_node_request (Some ''m2'')) ''y'' 999 s1 = (s1, NodeConsumed)"
proof -
  have texts: "strip ''t1'' = ''t1''" "deriveNodeFingerprint (demo_node_request (Some ''m1'')) = Some ''m1''"
      "deriveNodeFingerprint (demo_node_request (Some ''m2'')) = Some ''m2''" "deriveNodeFingerprint (demo_node_request None) = None" by code_simp+
  have asks: "asks_with (demo_node_request fp) ''t1''" for fp by (simp add: asks_with_def demo_node_request_def texts)
  have tok: "nq_token (demo_node_request fp) = Some ''t1''" for fp by (simp add: demo_node_request_def)
  obtain s1 where reg: "register_node True (demo_node_request (Some ''m1'')) ''x'' 5 demo_wizard = (s1, NodeNew ''k1'' ''approved'' True)"
    by (simp add: register_node_def tok texts demo_wizard_def demo_node_def sql_get_def node_by_id_def Let_def)
  from used_token_discloses_key [OF reg _ asks asks texts(4) asks texts(3,2)] reg show ?thesis by fastforce
qed
end
