(* ===== verification/Spec2Isabelle.thy ===== *)
theory Spec2Isabelle
  imports Batches PayoutBatch Credits PodBooks Volumes Sweeps Withdrawals OpenRouter AdminMoney Idempotency Accounts Onboarding
begin

text \<open>
  The money and scheduling core of the DCP backend, an Express server over one SQLite database
  (\<open>backend/src\<close>). Renters hold a prepaid balance in halala; providers offer GPUs; jobs, interactive
  pods, volumes and inference requests move money from the first to the second, and payouts move it
  out. Every route handler and service of that core is one HOL function from the database (a record
  of tables) to the database and an answer; an early return, a throw or a failed guard is a value of
  the answer.

  \<^bold>\<open>State.\<close> \<open>Schema\<close> declares one record per table of \<open>backend/src/db.js\<close> that the modelled code
  reads or writes and the record \<open>db\<close> of all tables. A table is the list of its rows in rowid order,
  read and written with the statements of \<open>Prelude\<close>: \<open>sql_get\<close>, \<open>sql_all\<close>, \<open>sql_update\<close> (with the
  number of changed rows), \<open>sql_insert\<close> (refused on a key conflict), \<open>sql_sum\<close>, \<open>sql_count\<close>. NULL is
  \<open>None\<close>, and a comparison with NULL selects nothing. A \<open>db.transaction\<close> is a function whose failing
  branch returns the database it was given. Time is a number of milliseconds and an argument; what
  JavaScript computes in binary64 is computed with \<open>fl\<close>, rounding to 53 bits, so the rounding errors
  of the source are in the model. Integers of JavaScript and SQLite are \<open>int\<close>: amounts stay below
  \<open>2 ^ 53\<close>, and where a theorem needs a bound it states it.

  \<^bold>\<open>Concurrency.\<close> better-sqlite3 is synchronous, so a handler is atomic up to its next \<open>await\<close>. A
  handler that awaits a gateway is split there, \<open>trigger_begin\<close> and \<open>trigger_end\<close> of the automatic
  top-up, \<open>process_begin\<close>, \<open>process_end\<close>, \<open>sync_begin\<close> and \<open>sync_end\<close> of payouts, \<open>approve_begin\<close> and
  \<open>approve_end\<close> of refunds. Theorems about
  sequences of events run over lists of such steps in any order, so they cover every interleaving.

  \<^bold>\<open>Theories.\<close>
  \<^item> \<open>Prelude\<close>: tables, strings, the calendar, binary64 rounding and their lemmas, collected in
    \<open>sql\<close> and \<open>keyed\<close>. \<open>Contracts\<close>: the interfaces as locales, \<open>once_only\<close>, \<open>metered\<close>, \<open>conserved\<close>,
    \<open>lifecycle\<close>, \<open>preserved\<close>; each is interpreted on the operations of the component that promises it.
    \<open>Samples\<close>: concrete rows for the witnesses.
  \<^item> \<open>Subscription\<close> (\<open>services/subscriptionService.js\<close>), \<open>Reconciliation\<close>
    (\<open>services/reconciliation-engine.js\<close>), \<open>Billing\<close> (\<open>services/billingService.js\<close>): monthly
    credits, the audit of a split, and the seven steps by which \<open>settleInferenceOnce\<close> charges an
    inference request. A request id settles once, what is charged is what was drained from grants
    and balance, nothing is overdrawn, and the gate before the request suffices for the settlement.
  \<^item> \<open>BatchInput\<close> (\<open>services/batchInferenceContract.js\<close>) and \<open>Batches\<close>
    (\<open>services/batchInferenceJobs.js\<close>, \<open>services/batchInferenceSettlement.js\<close>,
    \<open>workers/batchInferenceWorker.js\<close>): JSON bodies and their canonical text, batches and their
    lines, the worker split at the await of its executor, and the settlement of a batch through
    \<open>Billing\<close>: all lines or none, each once.
  \<^item> \<open>Settlement\<close> (\<open>services/settlementService.js\<close>), \<open>PayoutBatch\<close>
    (\<open>services/payoutBatchService.js\<close>): the ledger of job settlements and the bank batches drawn
    from it; every row splits its gross, and exported plus skipped is the ledger of the window.
  \<^item> \<open>Credits\<close> (\<open>services/creditService.js\<close>): the credit ledger explains every change of a balance.
  \<^item> \<open>Payouts\<close> (\<open>services/payoutService.js\<close>, \<open>services/moyasarPayoutService.js\<close>): provider payouts;
    claimable, open and paid amounts add up to a constant over every interleaving.
    \<open>Withdrawals\<close> (\<open>routes/providers.js\<close>, \<open>routes/admin.js\<close>): the two withdrawal tables that draw on
    the same claimable balance, interleaved with the payouts.
  \<^item> \<open>AutoTopup\<close> (\<open>services/autoTopupService.js\<close>), \<open>Payments\<close> (\<open>routes/payments.js\<close>): card recharges
    and the payment webhook; each payment is credited once, and no renter is charged twice within
    a minute. \<open>AdminMoney\<close> (\<open>routes/admin.js\<close>, \<open>routes/payments.js\<close>, \<open>routes/payouts.js\<close>): grants,
    adjustments, bank transfers and both ways to a refund, split at the wait for Moyasar.
  \<^item> \<open>OpenRouter\<close> (\<open>services/openrouterSettlementService.js\<close>): the usage ledger and the settlement runs;
    each usage is an item of at most one run, and each run has one charge of the sum of its items.
  \<^item> \<open>Wallet\<close>, \<open>Pods\<close> (\<open>routes/pods.js\<close>, \<open>services/podAccessPolicy.js\<close>,
    \<open>services/burstLaunchRefund.js\<close>), \<open>PodLife\<close> (claim, endpoint report, stop, extension, deadline,
    in \<open>routes/pods.js\<close>, \<open>routes/jobs.js\<close>, \<open>routes/providers.js\<close>, \<open>services/jobSweep.js\<close>) and
    \<open>PodBooks\<close>, their composition: balances, claims, what live jobs hold and the fees add up to a
    constant, GPU indices are exclusive, a terminal row stays, the three ways of settling a pod
    agree, and a late endpoint report breaks the first two.
  \<^item> \<open>Volumes\<close> (\<open>routes/volumes.js\<close>, \<open>lib/volume-store.js\<close> and the sweep of \<open>services/jobSweep.js\<close>).
  \<^item> \<open>JobScheduler\<close> (\<open>services/jobScheduler.js\<close>) against a specification of the best eligible
    provider, \<open>JobQueue\<close> (\<open>services/jobQueue.js\<close>) with the ten minute limit, \<open>Pricing\<close>
    (\<open>services/pricingService.js\<close>, \<open>config/pricing.js\<close>), \<open>JobHolds\<close>
    (\<open>services/jobDispatchService.js\<close>): holds stay covered by the balance.
  \<^item> \<open>JobRoutes\<close> (\<open>routes/jobs.js\<close>): submission, the poll of the daemon, reports, completion, failure
    and cancellation over the scheduler, the holds and the pods; the machine of job statuses, the
    bound on retries, what a submission and a report move, and three ways in which the routes pay
    too much.
  \<^item> \<open>DaemonResults\<close> (\<open>routes/providers.js\<close>): the two routes by which a daemon has a job paid, the
    report metered on the wall clock and the billing record; what each moves, and that a job is
    billed once.
  \<^item> \<open>Sweeps\<close> (\<open>services/jobSweep.js\<close>, \<open>services/recovery-engine.js\<close>, \<open>services/fallback-loop.js\<close>,
    \<open>services/providerLivenessMonitor.js\<close>): the loops that look after timed-out jobs and lost
    providers, interleaved with the job routes; the bound on retries over all of them, a failure
    without refund and two pods on one GPU.
  \<^item> \<open>Idempotency\<close> (\<open>lib/financial-idempotency.js\<close>): the keys in front of payout requests, pod launches
    and extensions, volume rentals and top-ups; a retry after a success is replayed, a concurrent retry of a
    top-up is not.
  \<^item> \<open>SignIn\<close> (\<open>services/auth-otp.js\<close>, \<open>routes/cli-auth.js\<close>), \<open>Accounts\<close> (\<open>routes/auth.js\<close>, \<open>routes/renters.js\<close>,
    \<open>routes/providers.js\<close>, \<open>routes/v1-wizard.js\<close>, \<open>services/renter-identity-reconciliation.js\<close>) and \<open>Onboarding\<close>
    (\<open>routes/v1-wizard.js\<close>): who proves a mailbox, whom it gives which key and balance, and how a new machine gets the key
    of its provider. Their state is that of the identity columns, apart from the \<open>db\<close> of the money core. A code, a device code and an
    install token work once, the starter balance comes once per account, and four ways in which a key or a balance goes too far.

  \<^bold>\<open>Bounds.\<close> The relay of a burst pod draws at most 200 ports before it gives up, as \<open>routes/pods.js\<close>
  does; the sweeps take the 20 or 50 rows of their LIMIT; the loops over rows are structural. There
  is no fuel. Durations of pods are whole minutes, as the routes enforce.

  \<^bold>\<open>Parameters.\<close> The answers of Moyasar, of the object store and of the burst provider, HMAC and SHA
  digests, UUIDs, random bytes and the text of ISO dates are arguments of the functions that use
  them; a theorem quantifies over them.

  \<^bold>\<open>Not modelled.\<close> HTTP plumbing, key extraction and rate limits, mail, metrics, log lines and
  server-sent events, which no modelled table depends on; the proxying and streaming of inference
  (\<open>routes/v1.js\<close>, \<open>routes/vllm.js\<close>), of which the settlement is modelled; heartbeats, exports and dashboards
  (\<open>routes/providers.js\<close>, \<open>routes/renters.js\<close>, \<open>routes/admin.js\<close>); the chain escrow beside the
  database; the web application, the clients, the daemons and the installers.
\<close>

end
